(* ===== verification/Prelude.thy ===== *)
theory Prelude
  imports Main "HOL-Library.AList" "HOL-Library.Multiset" "HOL-Library.List_Lexorder"
    "HOL-Library.Product_Lexorder" "HOL-Library.Char_ord"
begin

text \<open>
  What the component theories share: the collections of facts their proofs draw on, Go's
  maps as association lists, the two loops of the code that look for the first element of a
  slice (to update it and to delete it), and the order in which the store sorts its listings.
\<close>

named_theorems store_simps \<open>what each store operation leaves of every table\<close>
named_theorems service_simps \<open>unfolding of the service operations into store operations\<close>

type_synonym bytes = string
type_synonym 'a result = "string + 'a"

subsection \<open>Go maps\<close>

text \<open>
  A Go map is an association list with distinct keys. The list order stands for the
  iteration order of \<^verbatim>\<open>range\<close>, which Go leaves unspecified: a result that depends on
  it is shown independent of the order where the code relies on that.
\<close>

type_synonym ('k, 'v) gomap = "('k \<times> 'v) list"

abbreviation mget :: "('k, 'v) gomap \<Rightarrow> 'k \<Rightarrow> 'v option" where
  "mget m k \<equiv> map_of m k"

abbreviation mput :: "'k \<Rightarrow> 'v \<Rightarrow> ('k, 'v) gomap \<Rightarrow> ('k, 'v) gomap" where
  "mput k v m \<equiv> AList.update k v m"

abbreviation mdel :: "'k \<Rightarrow> ('k, 'v) gomap \<Rightarrow> ('k, 'v) gomap" where
  "mdel k m \<equiv> AList.delete k m"

abbreviation mkeys :: "('k, 'v) gomap \<Rightarrow> 'k list" where
  "mkeys m \<equiv> map fst m"

abbreviation mvals :: "('k, 'v) gomap \<Rightarrow> 'v list" where
  "mvals m \<equiv> map snd m"

lemma mget_mput: "mget (mput k v m) k' = (if k' = k then Some v else mget m k')"
  by (simp add: update_conv')

lemma mget_mdel: "mget (mdel k m) k' = (if k' = k then None else mget m k')"
  by (simp add: delete_conv')

lemma mget_filter_keep:
  assumes "distinct (mkeys m)"
  shows "mget (filter (\<lambda>(k, v). P v) m) k = (case mget m k of None \<Rightarrow> None | Some v \<Rightarrow> if P v then Some v else None)"
  using assms
proof (induction m)
  case Nil
  then show ?case by simp
next
  case (Cons a m)
  obtain k' v' where a: "a = (k', v')" by (cases a)
  have none: "mget m k' = None" if "k = k'"
    using Cons.prems a by (simp add: map_of_eq_None_iff)
  show ?case using Cons a none by (auto split: option.splits)
qed

lemmas gomap_simps = mget_mput mget_mdel

lemma mput_new: "k \<notin> set (mkeys m) \<Longrightarrow> mput k v m = m @ [(k, v)]"
  by (induction m) auto

lemma mput_vals: "x \<in> set (mvals (mput k v m)) \<Longrightarrow> x = v \<or> x \<in> set (mvals m)"
  by (induction m) (auto split: if_splits)

lemma mdel_vals: "x \<in> set (mvals (mdel k m)) \<Longrightarrow> x \<in> set (mvals m)"
  by (auto simp: AList.delete_eq)

text \<open>Reading an entry of a map: the entry is one of the map's values, under its key.\<close>

lemma mget_vals: "mget m k = Some v \<Longrightarrow> v \<in> set (mvals m)"
  by (force dest: map_of_SomeD)

lemma vals_mget:
  assumes "distinct (mkeys m)" and "v \<in> set (mvals m)"
  obtains k where "mget m k = Some v"
  using assms by (auto simp: in_set_zip)

subsection \<open>First-match loops over slices\<close>

text \<open>
  \<^verbatim>\<open>for i := range xs { if p(xs[i]) { xs[i] = f(xs[i]); return nil } }\<close> followed by an
  error: \<open>None\<close> when no element matches, otherwise the slice with its first match updated.
\<close>

fun update_first :: "('a \<Rightarrow> bool) \<Rightarrow> ('a \<Rightarrow> 'a) \<Rightarrow> 'a list \<Rightarrow> 'a list option" where
  "update_first p f [] = None"
| "update_first p f (x # xs) =
     (if p x then Some (f x # xs) else map_option (Cons x) (update_first p f xs))"

text \<open>\<^verbatim>\<open>xs = append(xs[:i], xs[i+1:]...)\<close> at the first match, an error without one.\<close>

fun delete_first :: "('a \<Rightarrow> bool) \<Rightarrow> 'a list \<Rightarrow> 'a list option" where
  "delete_first p [] = None"
| "delete_first p (x # xs) = (if p x then Some xs else map_option (Cons x) (delete_first p xs))"

lemma update_first_None: "update_first p f xs = None \<longleftrightarrow> (\<forall>x \<in> set xs. \<not> p x)"
  by (induction xs) auto

lemma delete_first_None: "delete_first p xs = None \<longleftrightarrow> (\<forall>x \<in> set xs. \<not> p x)"
  by (induction xs) auto

lemma find_None_set: "find p xs = None \<longleftrightarrow> (\<forall>x \<in> set xs. \<not> p x)"
  by (auto simp: find_None_iff)

lemma update_first_map:
  assumes "update_first p f xs = Some ys" and "\<And>x. g (f x) = g x"
  shows "map g ys = map g xs"
  using assms(1) by (induction xs arbitrary: ys) (auto simp: assms(2) split: if_splits)

lemma update_first_find:
  assumes "update_first p f xs = Some ys" and "\<And>x. p x \<Longrightarrow> q (f x) = q x"
    and "\<And>x. p x = q x"
  shows "find q ys = map_option f (find p xs)"
  using assms(1)
  by (induction xs arbitrary: ys) (auto simp: assms(2,3) split: if_splits)

lemma update_first_find_other:
  assumes "update_first p f xs = Some ys" and "\<And>x. p x \<Longrightarrow> \<not> q x \<and> \<not> q (f x)"
  shows "find q ys = find q xs"
  using assms(1) by (induction xs arbitrary: ys) (auto dest: assms(2) split: if_splits)

lemma delete_first_find_other:
  assumes "delete_first p xs = Some ys" and "\<And>x. p x \<Longrightarrow> \<not> q x"
  shows "find q ys = find q xs"
  using assms(1) by (induction xs arbitrary: ys) (auto dest: assms(2) split: if_splits)

lemma delete_first_mset:
  "delete_first p xs = Some ys \<Longrightarrow> \<exists>x. find p xs = Some x \<and> mset xs = add_mset x (mset ys)"
  by (induction xs arbitrary: ys) (auto split: if_splits)

lemma delete_first_subset: "delete_first p xs = Some ys \<Longrightarrow> set ys \<subseteq> set xs"
  by (induction xs arbitrary: ys) (auto split: if_splits)

lemma delete_first_distinct:
  "delete_first p xs = Some ys \<Longrightarrow> distinct (map g xs) \<Longrightarrow> distinct (map g ys)"
  by (induction xs arbitrary: ys) (fastforce split: if_splits dest: delete_first_subset)+

lemma find_append: "find p (xs @ ys) = (case find p xs of None \<Rightarrow> find p ys | Some x \<Rightarrow> Some x)"
  by (induction xs) auto

lemma find_inj_Some:
  assumes "inj_on g (set xs)"
  shows "find (\<lambda>x. g x = k) xs = Some y \<longleftrightarrow> y \<in> set xs \<and> g y = k"
  using assms by (induction xs) (auto simp: inj_on_def)

text \<open>A search that at most one element can satisfy does not depend on the order.\<close>

lemma find_order_irrelevant:
  assumes "mset xs = mset ys" and "inj_on g (set xs)"
  shows "find (\<lambda>x. g x = k) xs = find (\<lambda>x. g x = k) ys"
proof -
  have set: "set xs = set ys" using assms(1) by (metis set_mset_mset)
  show ?thesis
  proof (cases "find (\<lambda>x. g x = k) xs")
    case None
    then show ?thesis using set by (metis find_None_iff)
  next
    case (Some x)
    then have x: "x \<in> set xs" "g x = k" by (auto simp: find_Some_iff)
    then obtain y where y: "find (\<lambda>x. g x = k) ys = Some y"
      using set by (cases "find (\<lambda>x. g x = k) ys") (auto simp: find_None_iff)
    then have "y \<in> set xs" "g y = k" using set by (auto simp: find_Some_iff)
    then have "y = x" using x assms(2) by (simp add: inj_on_def)
    then show ?thesis using Some y by simp
  qed
qed

lemma mvals_filter: "mvals (filter (\<lambda>(k, v). P v) m) = filter P (mvals m)"
  by (induction m) auto

subsection \<open>Listings, newest first\<close>

text \<open>
  \<^verbatim>\<open>sort.Slice\<close> with a comparison that puts the later creation time first and breaks ties
  by ID. The sort is not stable in Go; with distinct IDs the order is determined.
\<close>

definition newest_first :: "('a \<Rightarrow> int) \<Rightarrow> ('a \<Rightarrow> string) \<Rightarrow> 'a list \<Rightarrow> 'a list" where
  "newest_first at ident xs = sort_key (\<lambda>x. (- at x, ident x)) xs"

lemma mset_newest_first [simp]: "mset (newest_first at ident xs) = mset xs"
  by (simp add: newest_first_def)

lemma set_newest_first [simp]: "set (newest_first at ident xs) = set xs"
  by (simp add: newest_first_def)

lemma newest_first_sorted: "sorted_wrt (\<lambda>x y. at y \<le> at x) (newest_first at ident xs)"
proof -
  have "sorted (map (\<lambda>x. (- at x, ident x)) (newest_first at ident xs))"
    by (simp add: newest_first_def)
  then show ?thesis
    by (auto simp: sorted_map less_eq_prod_def elim!: sorted_wrt_mono_rel [rotated])
qed

lemma newest_first_order_irrelevant:
  assumes "mset xs = mset ys" and "inj_on ident (set xs)"
  shows "newest_first at ident xs = newest_first at ident ys"
  unfolding newest_first_def
  by (rule sort_key_inj_key_eq) (use assms in \<open>auto simp: inj_on_def\<close>)

end
