(* ===== verification/Go_Lib.thy ===== *)
theory Go_Lib
  imports Prelude
begin

text \<open>
  The part of Go and of its standard library the components compute with: times, decimal
  numbers, hexadecimal, unpadded base64url and RFC 3339 dates. A Go string is a sequence of
  bytes, so it is a \<^typ>\<open>string\<close> (a list of 8-bit characters) and \<^verbatim>\<open>len\<close> is
  \<^const>\<open>length\<close>. The hash function and the Unicode-aware quoting of the \<^verbatim>\<open>%q\<close> verb are
  parameters wherever they are used.
\<close>

subsection \<open>time.Time and time.Duration\<close>

text \<open>
  A time is the number of nanoseconds since Go's zero time (1 January of year 1, UTC); a
  zero time means "unset". \<^verbatim>\<open>Before\<close> and \<^verbatim>\<open>After\<close> are \<open><\<close> and \<open>>\<close>.
\<close>

type_synonym gotime = int
type_synonym duration = int

definition IsZero :: "gotime \<Rightarrow> bool" where
  "IsZero t \<longleftrightarrow> t = 0"

definition Second :: duration where "Second = 1000000000"
definition Minute :: duration where "Minute = 60 * Second"

lemma durations_pos [simp]: "0 < Second" "0 < Minute"
  by (simp_all add: Second_def Minute_def)

subsection \<open>strconv.Itoa\<close>

fun itoa :: "nat \<Rightarrow> string" where
  "itoa n = (if n < 10 then [''0123456789'' ! n] else itoa (n div 10) @ [''0123456789'' ! (n mod 10)])"

declare itoa.simps [simp del]

fun digit_val :: "char \<Rightarrow> nat" where
  "digit_val c = of_char c - 48"

definition atoi :: "string \<Rightarrow> nat" where
  "atoi s = foldl (\<lambda>a c. 10 * a + digit_val c) 0 s"

lemma decimal_digit: "n < 10 \<Longrightarrow> digit_val (''0123456789'' ! n) = n"
  by (simp add: less_Suc_eq numeral_eq_Suc) (elim disjE; simp)

lemma decimal_digit_range: "n < 10 \<Longrightarrow> ''0123456789'' ! n \<in> set ''0123456789''"
  by (rule nth_mem) simp

lemma atoi_itoa [simp]: "atoi (itoa n) = n"
proof (induction n rule: itoa.induct)
  case (1 n)
  show ?case
  proof (cases "n < 10")
    case True
    then show ?thesis
      by (simp add: itoa.simps [of n] atoi_def decimal_digit del: digit_val.simps)
  next
    case False
    then have "atoi (itoa n) = 10 * atoi (itoa (n div 10)) + n mod 10"
      by (simp add: itoa.simps [of n] atoi_def decimal_digit del: digit_val.simps)
    with 1 False show ?thesis by simp
  qed
qed

lemma itoa_inject [simp]: "itoa m = itoa n \<longleftrightarrow> m = n"
  by (metis atoi_itoa)

lemma itoa_digits: "set (itoa n) \<subseteq> set ''0123456789''"
proof (induction n rule: itoa.induct)
  case (1 n)
  then show ?case
    using decimal_digit_range [of n] decimal_digit_range [of "n mod 10"]
    by (cases "n < 10") (auto simp: itoa.simps [of n] simp del: nth_mem)
qed

lemma itoa_no_colon: "CHR '':'' \<notin> set (itoa n)"
  using itoa_digits [of n] by auto

lemma itoa_nonempty: "itoa n \<noteq> []"
  by (subst itoa.simps) simp

subsection \<open>strings.CutPrefix\<close>

definition CutPrefix :: "string \<Rightarrow> string \<Rightarrow> string option" where
  "CutPrefix s prefix = (if take (length prefix) s = prefix then Some (drop (length prefix) s) else None)"

lemma CutPrefix_append [simp]: "CutPrefix (prefix @ s) prefix = Some s"
  by (simp add: CutPrefix_def)

lemma CutPrefix_Some: "CutPrefix s prefix = Some b \<longleftrightarrow> s = prefix @ b"
  by (auto simp: CutPrefix_def) (metis append_take_drop_id)

subsection \<open>encoding/hex\<close>

definition hexdigits :: string where
  "hexdigits = ''0123456789abcdef''"

definition hex_digit :: "nat \<Rightarrow> char" where
  "hex_digit n = hexdigits ! n"

definition byte_hex :: "char \<Rightarrow> string" where
  "byte_hex c = [hex_digit (of_char c div 16), hex_digit (of_char c mod 16)]"

definition hex_encode :: "bytes \<Rightarrow> string" where
  "hex_encode b = concat (map byte_hex b)"

lemma of_char_less [simp]: "(of_char c :: nat) < 256"
  by (metis char_of_char mod_less_divisor of_char_of zero_less_numeral)

lemma hex_digit_inject: "m < 16 \<Longrightarrow> n < 16 \<Longrightarrow> hex_digit m = hex_digit n \<longleftrightarrow> m = n"
  by (simp add: hex_digit_def hexdigits_def nth_eq_iff_index_eq)

lemma nibbles_inject: "(a::nat) div 16 = b div 16 \<Longrightarrow> a mod 16 = b mod 16 \<Longrightarrow> a = b"
  by (metis div_mult_mod_eq)

lemma byte_hex_inject [simp]: "byte_hex c = byte_hex d \<longleftrightarrow> c = d"
proof
  assume "byte_hex c = byte_hex d"
  moreover have "of_char x div 16 < (16::nat)" for x
    using of_char_less [of x] by linarith
  ultimately have "(of_char c::nat) div 16 = of_char d div 16"
    "(of_char c::nat) mod 16 = of_char d mod 16"
    by (auto simp: byte_hex_def hex_digit_inject)
  then have "(of_char c::nat) = of_char d" by (rule nibbles_inject)
  then show "c = d" by simp
qed simp

lemma hex_encode_Nil [simp]: "hex_encode [] = []"
  by (simp add: hex_encode_def)

lemma hex_encode_Cons [simp]: "hex_encode (c # b) = byte_hex c @ hex_encode b"
  by (simp add: hex_encode_def)

lemma length_byte_hex [simp]: "length (byte_hex c) = 2"
  by (simp add: byte_hex_def)

lemma length_hex_encode [simp]: "length (hex_encode b) = 2 * length b"
  by (induction b) auto

lemma hex_encode_inject [simp]: "hex_encode a = hex_encode b \<longleftrightarrow> a = b"
proof
  show "hex_encode a = hex_encode b \<Longrightarrow> a = b"
  proof (induction a arbitrary: b)
    case Nil
    then show ?case by (cases b) (auto simp: byte_hex_def)
  next
    case (Cons c a)
    then obtain d b' where b: "b = d # b'" by (cases b) (auto simp: byte_hex_def)
    with Cons.prems have "byte_hex c = byte_hex d \<and> hex_encode a = hex_encode b'"
      by (simp add: append_eq_append_conv)
    with b Cons.IH show ?case by simp
  qed
qed simp

lemma hex_encode_digits: "set (hex_encode b) \<subseteq> set hexdigits"
proof (induction b)
  case (Cons c b)
  have "of_char c div 16 < (16::nat)" using of_char_less [of c] by linarith
  then have "set (byte_hex c) \<subseteq> set hexdigits"
    using nth_mem [of "of_char c div 16" hexdigits] nth_mem [of "of_char c mod 16" hexdigits]
    by (simp add: byte_hex_def hex_digit_def hexdigits_def del: nth_mem)
  with Cons show ?case by simp
qed simp

lemma hex_encode_no_newline: "CHR 10 \<notin> set (hex_encode b)"
  using hex_encode_digits [of b] by (auto simp: hexdigits_def)

subsection \<open>time.RFC3339 in UTC\<close>

text \<open>
  The date of a day count since 1 January of year 1, through cycles of 400, 100, 4 and 1
  years as in Go's own calendar code, and the layout \<^verbatim>\<open>2006-01-02T15:04:05Z\<close>.
\<close>

definition days_before_month :: "bool \<Rightarrow> nat list" where
  "days_before_month leap =
     (let l = (if leap then 1 else 0)
      in [0, 31, 59 + l, 90 + l, 120 + l, 151 + l, 181 + l, 212 + l, 243 + l, 273 + l, 304 + l, 334 + l])"

fun month_of :: "nat list \<Rightarrow> nat \<Rightarrow> nat \<Rightarrow> nat \<Rightarrow> nat \<times> nat" where
  "month_of [] m start yday = (m, yday - start + 1)"
| "month_of (b # bs) m start yday =
     (if yday < b then (m, yday - start + 1) else month_of bs (Suc m) b yday)"

definition civil_date :: "nat \<Rightarrow> nat \<times> nat \<times> nat" where
  "civil_date days =
     (let n400 = days div 146097; d = days mod 146097;
          n100 = min 3 (d div 36524); d = d - n100 * 36524;
          n4 = d div 1461; d = d mod 1461;
          n1 = min 3 (d div 365); yday = d - n1 * 365;
          year = 400 * n400 + 100 * n100 + 4 * n4 + n1 + 1;
          leap = (year mod 4 = 0 \<and> (year mod 100 \<noteq> 0 \<or> year mod 400 = 0));
          (month, day) = month_of (tl (days_before_month leap)) 1 0 yday
      in (year, month, day))"

definition pad :: "nat \<Rightarrow> nat \<Rightarrow> string" where
  "pad w n = replicate (w - length (itoa n)) CHR ''0'' @ itoa n"

definition rfc3339 :: "gotime \<Rightarrow> string" where
  "rfc3339 t =
     (let secs = nat (t div Second); (y, m, d) = civil_date (secs div 86400); s = secs mod 86400
      in pad 4 y @ ''-'' @ pad 2 m @ ''-'' @ pad 2 d @ ''T'' @
         pad 2 (s div 3600) @ '':'' @ pad 2 (s mod 3600 div 60) @ '':'' @ pad 2 (s mod 60) @ ''Z'')"

lemma pad_nonempty: "pad w n \<noteq> []"
  by (simp add: pad_def itoa_nonempty)

lemma rfc3339_nonempty: "rfc3339 t \<noteq> []"
  by (simp add: rfc3339_def Let_def pad_nonempty split: prod.splits)

lemma civil_date_leap_day: "civil_date 738944 = (2024, 2, 29)"
  unfolding civil_date_def Let_def by (simp add: days_before_month_def)

lemma rfc3339_leap_day: "rfc3339 (63844847999 * Second) = ''2024-02-29T23:59:59Z''"
proof -
  have "rfc3339 (63844847999 * Second) =
    pad 4 2024 @ ''-'' @ pad 2 2 @ ''-'' @ pad 2 29 @ ''T'' @ pad 2 23 @ '':'' @ pad 2 59 @ '':'' @ pad 2 59 @ ''Z''"
    by (simp add: rfc3339_def Second_def civil_date_leap_day)
  then show ?thesis by (simp add: pad_def itoa.simps)
qed

end
