(* ===== verification/Authz.thy ===== *)
theory Authz
  imports Go_Lib
begin

text \<open>
  \<^verbatim>\<open>internal/authz\<close>: the access levels and their wire tokens, the identity an operator
  certificate gives, the serial number as text, and the middleware that admits a request by
  its client certificate. The ASN.1 decoder, the trust re-check and the hooks are parameters.
\<close>

subsection \<open>level.go\<close>

text \<open>
  A level is an integer and the code compares levels with \<open><\<close>. The named levels are 0, 1
  and 2; nothing stops another value, which \<open>Token\<close> renders as viewer.
\<close>

type_synonym level = int

definition LevelViewer :: level where "LevelViewer = 0"
definition LevelOperator :: level where "LevelOperator = 1"
definition LevelAdmin :: level where "LevelAdmin = 2"

lemmas level_defs = LevelViewer_def LevelOperator_def LevelAdmin_def

definition accessLevelOID :: "nat list" where
  "accessLevelOID = [1, 3, 6, 1, 4, 1, 59999, 1, 1]"

definition AccessLevelOID :: string where
  "AccessLevelOID = ''1.3.6.1.4.1.59999.1.1''"

definition Token :: "level \<Rightarrow> string" where
  "Token l = (if l = LevelViewer then ''viewer''
     else if l = LevelOperator then ''operator''
     else if l = LevelAdmin then ''admin''
     else ''viewer'')"

datatype authz_error =
    UnknownLevelToken string
  | DecodeExtension string
  | NoAccessLevelExtension

definition LevelFromToken :: "string \<Rightarrow> authz_error + level" where
  "LevelFromToken s = (if s = ''viewer'' then Inr LevelViewer
     else if s = ''operator'' then Inr LevelOperator
     else if s = ''admin'' then Inr LevelAdmin
     else Inl (UnknownLevelToken s))"

definition valid_level :: "level \<Rightarrow> bool" where
  "valid_level l \<longleftrightarrow> l \<in> {LevelViewer, LevelOperator, LevelAdmin}"

text \<open>The extension's value is an ASN.1 string; \<^verbatim>\<open>asn1.Marshal\<close> and its inverse are parameters.\<close>

definition MarshalLevelValue :: "(string \<Rightarrow> string + bytes) \<Rightarrow> level \<Rightarrow> string + bytes" where
  "MarshalLevelValue asn1_Marshal l = asn1_Marshal (Token l)"

definition MarshalLevelExtension ::
  "(string \<Rightarrow> string + bytes) \<Rightarrow> string \<Rightarrow> (authz_error + string) + (string \<times> bytes)" where
  "MarshalLevelExtension asn1_Marshal lvl =
     (case LevelFromToken lvl of
        Inl e \<Rightarrow> Inl (Inl e)
      | Inr l \<Rightarrow>
          (case MarshalLevelValue asn1_Marshal l of
             Inl e \<Rightarrow> Inl (Inr e)
           | Inr value \<Rightarrow> Inr (AccessLevelOID, value)))"

text \<open>The fields of \<^verbatim>\<open>x509.Certificate\<close> the manager reads.\<close>

record certificate =
  cert_Raw :: bytes
  cert_Extensions :: "(nat list \<times> bytes) list"
  cert_CommonName :: string
  cert_SerialNumber :: int
  cert_NotBefore :: gotime
  cert_NotAfter :: gotime
  cert_RawSubject :: bytes
  cert_SubjectKeyId :: bytes
  cert_OCSPServer :: "string list"

fun level_from_extensions ::
  "(bytes \<Rightarrow> string + string) \<Rightarrow> (nat list \<times> bytes) list \<Rightarrow> authz_error + level" where
  "level_from_extensions asn1_Unmarshal [] = Inl NoAccessLevelExtension"
| "level_from_extensions asn1_Unmarshal ((oid, value) # exts) =
     (if oid \<noteq> accessLevelOID then level_from_extensions asn1_Unmarshal exts
      else (case asn1_Unmarshal value of
              Inl e \<Rightarrow> Inl (DecodeExtension e)
            | Inr token \<Rightarrow> LevelFromToken token))"

definition LevelFromCertificate ::
  "(bytes \<Rightarrow> string + string) \<Rightarrow> certificate \<Rightarrow> authz_error + level" where
  "LevelFromCertificate asn1_Unmarshal cert =
     level_from_extensions asn1_Unmarshal (cert_Extensions cert)"

subsection \<open>identity.go\<close>

definition ViaWeb :: string where "ViaWeb = ''web''"
definition ViaMCP :: string where "ViaMCP = ''mcp''"
definition ActorCert :: string where "ActorCert = ''cert''"
definition ActorMCPKey :: string where "ActorMCPKey = ''mcp_key''"

record identity =
  CN :: string
  Serial :: string
  Level :: level
  Via :: string
  KeyID :: string
  IssuerSHA256 :: string

definition zero_identity :: identity where
  "zero_identity = \<lparr>CN = [], Serial = [], Level = LevelViewer, Via = [], KeyID = [], IssuerSHA256 = []\<rparr>"

definition ActorKind :: "identity \<Rightarrow> string" where
  "ActorKind i = (if KeyID i \<noteq> [] then ActorMCPKey else ActorCert)"

definition DevIdentity :: identity where
  "DevIdentity = \<lparr>CN = ''operator@acme.example'', Serial = ''DEV'', Level = LevelAdmin,
     Via = ViaWeb, KeyID = [], IssuerSHA256 = []\<rparr>"

text \<open>\<^verbatim>\<open>big.Int.Bytes\<close>: the big-endian bytes of the absolute value, empty for zero.\<close>

fun be_bytes :: "nat \<Rightarrow> nat list" where
  "be_bytes n = (if n = 0 then [] else be_bytes (n div 256) @ [n mod 256])"

declare be_bytes.simps [simp del]

definition hex_upper :: "nat \<Rightarrow> string" where
  "hex_upper b = [''0123456789ABCDEF'' ! (b div 16), ''0123456789ABCDEF'' ! (b mod 16)]"

fun join :: "string \<Rightarrow> string list \<Rightarrow> string" where
  "join sep [] = []"
| "join sep [s] = s"
| "join sep (s # t # ss) = s @ sep @ join sep (t # ss)"

definition formatSerial :: "int \<Rightarrow> string" where
  "formatSerial n =
     (let b = be_bytes (nat \<bar>n\<bar>); b = (if b = [] then [0] else b)
      in join '':'' (map hex_upper b))"

definition IdentityFromCertificate ::
  "(bytes \<Rightarrow> string + string) \<Rightarrow> certificate \<Rightarrow> authz_error + identity" where
  "IdentityFromCertificate asn1_Unmarshal cert =
     (case LevelFromCertificate asn1_Unmarshal cert of
        Inl e \<Rightarrow> Inl e
      | Inr l \<Rightarrow> Inr (zero_identity\<lparr>CN := cert_CommonName cert,
          Serial := formatSerial (cert_SerialNumber cert), Level := l\<rparr>))"

subsection \<open>middleware.go\<close>

text \<open>
  A context carries the identity, on the certificate path the peer certificate, and during an
  MCP tool call the description of the call that \<^verbatim>\<open>internal/auditlog\<close> puts there. What a
  request gets is a status with a message, a refusal rendered from a coded error, or the
  call of the next handler with a context. The hooks are the contexts they are called with.
\<close>

record call =
  call_Tool :: string
  call_RequestDigest :: string
  call_ApprovalID :: string
  call_ApproverSerial :: string

record ctx =
  ctx_identity :: "identity option"
  ctx_peerCert :: "certificate option"
  ctx_call :: "call option"

definition Background :: ctx where
  "Background = \<lparr>ctx_identity = None, ctx_peerCert = None, ctx_call = None\<rparr>"

definition NewContext :: "ctx \<Rightarrow> identity \<Rightarrow> ctx" where
  "NewContext c i = c\<lparr>ctx_identity := Some i\<rparr>"

definition FromContext :: "ctx \<Rightarrow> identity option" where
  "FromContext c = ctx_identity c"

definition PeerCertFromContext :: "ctx \<Rightarrow> certificate option" where
  "PeerCertFromContext c = ctx_peerCert c"

datatype 'e outcome =
    HttpError nat string bool  \<comment> \<open>status, message, whether the connection is closed\<close>
  | Refused nat 'e             \<comment> \<open>status and the coded refusal written to the response\<close>
  | Next ctx                   \<comment> \<open>the wrapped handler runs with this context\<close>

type_synonym 'e authorizer = "certificate \<Rightarrow> certificate list \<Rightarrow> 'e + string"

text \<open>
  \<open>clientCert\<close> on a request whose TLS state is \<open>None\<close> (no TLS) or the list of peer
  certificates. The result is the outcome and the calls made to the hooks, in order.
\<close>

definition clientCert ::
  "(bytes \<Rightarrow> string + string) \<Rightarrow> 'e authorizer option \<Rightarrow> 'h list \<Rightarrow> ctx \<Rightarrow> certificate list option \<Rightarrow>
   'e outcome \<times> ('h \<times> ctx \<times> identity \<times> certificate) list" where
  "clientCert asn1_Unmarshal auth hooks c tls =
     (case tls of
        None \<Rightarrow> (HttpError 401 ''client certificate required'' True, [])
      | Some [] \<Rightarrow> (HttpError 401 ''client certificate required'' True, [])
      | Some (cert # rest) \<Rightarrow>
          (case IdentityFromCertificate asn1_Unmarshal cert of
             Inl _ \<Rightarrow> (HttpError 403 ''operator certificate missing access level'' False, [])
           | Inr i \<Rightarrow>
               (case auth of
                  None \<Rightarrow>
                    (Next ((NewContext c (i\<lparr>Via := ViaWeb\<rparr>))\<lparr>ctx_peerCert := Some cert\<rparr>), [])
                | Some authorize \<Rightarrow>
                    (case authorize cert rest of
                       Inl e \<Rightarrow> (Refused 403 e, [])
                     | Inr issuer \<Rightarrow>
                         (let i = i\<lparr>IssuerSHA256 := issuer, Via := ViaWeb\<rparr>;
                              c' = (NewContext c i)\<lparr>ctx_peerCert := Some cert\<rparr>
                          in (Next c', map (\<lambda>h. (h, c', i, cert)) hooks))))))"

definition BypassMiddleware :: "ctx \<Rightarrow> 'e outcome" where
  "BypassMiddleware c = Next (NewContext c DevIdentity)"

subsection \<open>Levels and tokens\<close>

lemma valid_level_cases:
  assumes "valid_level l"
  obtains "l = LevelViewer" | "l = LevelOperator" | "l = LevelAdmin"
  using assms by (auto simp: valid_level_def)

lemma LevelFromToken_Token: "valid_level l \<Longrightarrow> LevelFromToken (Token l) = Inr l"
  by (auto simp: valid_level_def LevelFromToken_def Token_def level_defs)

lemma LevelFromToken_Inr: "LevelFromToken s = Inr l \<Longrightarrow> valid_level l \<and> s = Token l"
  by (auto simp: LevelFromToken_def Token_def valid_level_def level_defs split: if_splits)

lemma valid_level_range: "valid_level l \<longleftrightarrow> LevelViewer \<le> l \<and> l \<le> LevelAdmin"
  by (auto simp: valid_level_def level_defs)

lemma LevelFromCertificate_valid:
  "LevelFromCertificate u cert = Inr l \<Longrightarrow> valid_level l"
proof -
  have "level_from_extensions u exts = Inr l \<Longrightarrow> valid_level l" for exts
    by (induction u exts rule: level_from_extensions.induct)
      (auto split: if_splits sum.splits dest: LevelFromToken_Inr)
  then show "LevelFromCertificate u cert = Inr l \<Longrightarrow> valid_level l"
    by (simp add: LevelFromCertificate_def)
qed

lemma IdentityFromCertificate_Inr:
  assumes "IdentityFromCertificate u cert = Inr i"
  shows "CN i = cert_CommonName cert \<and> Serial i = formatSerial (cert_SerialNumber cert) \<and>
    LevelFromCertificate u cert = Inr (Level i) \<and> KeyID i = [] \<and> Via i = [] \<and> IssuerSHA256 i = []"
  using assms by (auto simp: IdentityFromCertificate_def zero_identity_def split: sum.splits)

lemma IdentityFromCertificate_valid:
  "IdentityFromCertificate u cert = Inr i \<Longrightarrow> valid_level (Level i)"
  using IdentityFromCertificate_Inr LevelFromCertificate_valid by blast

subsection \<open>Serials as text\<close>

definition be_value :: "nat list \<Rightarrow> nat" where
  "be_value bs = foldl (\<lambda>a b. 256 * a + b) 0 bs"

lemma be_bytes_0 [simp]: "be_bytes 0 = []"
  by (simp add: be_bytes.simps)

lemma be_value_bytes [simp]: "be_value (be_bytes n) = n"
proof (induction n rule: be_bytes.induct)
  case (1 n)
  then show ?case
    by (cases "n = 0") (simp_all add: be_bytes.simps [of n] be_value_def)
qed

lemma be_bytes_range: "\<forall>b \<in> set (be_bytes n). b < 256"
proof (induction n rule: be_bytes.induct)
  case (1 n)
  then show ?case by (cases "n = 0") (simp_all add: be_bytes.simps [of n])
qed

lemma hex_upper_inject: "a < 256 \<Longrightarrow> b < 256 \<Longrightarrow> hex_upper a = hex_upper b \<Longrightarrow> a = b"
proof -
  assume "a < 256" "b < 256" "hex_upper a = hex_upper b"
  moreover from this have "a div 16 < 16" "b div 16 < 16" by auto
  ultimately have "a div 16 = b div 16" "a mod 16 = b mod 16"
    by (simp_all add: hex_upper_def nth_eq_iff_index_eq)
  then show "a = b" by (rule nibbles_inject)
qed

lemma length_hex_upper [simp]: "length (hex_upper b) = 2"
  by (simp add: hex_upper_def)

lemma join_hex_inject:
  assumes "join '':'' (map hex_upper bs) = join '':'' (map hex_upper cs)"
    and "bs \<noteq> []" and "cs \<noteq> []" and "\<forall>b \<in> set bs. b < 256" and "\<forall>c \<in> set cs. c < 256"
  shows "bs = cs"
  using assms
proof (induction bs arbitrary: cs rule: induct_list012)
  case (2 b)
  then obtain c cs' where cs: "cs = c # cs'" by (cases cs) auto
  with 2 have "cs' = []" by (cases cs') (auto simp: hex_upper_def)
  with 2 cs hex_upper_inject [of b c] show ?case by simp
next
  case (3 a b bs)
  from 3(5) obtain c cs' where cs: "cs = c # cs'" by (cases cs) auto
  with 3(3) obtain d cs'' where cs': "cs' = d # cs''" by (cases cs') (simp_all add: hex_upper_def)
  have "hex_upper a = hex_upper c \<and>
    join '':'' (map hex_upper (b # bs)) = join '':'' (map hex_upper cs')"
    using 3(3) cs cs' by (simp add: append_eq_append_conv)
  with 3(2) [of cs'] 3(6,7) cs cs' hex_upper_inject [of a c] show ?case by simp
qed simp

lemma formatSerial_bytes:
  obtains bs where "formatSerial n = join '':'' (map hex_upper bs)" "bs \<noteq> []"
    "\<forall>b \<in> set bs. b < 256" "be_value bs = nat \<bar>n\<bar>"
proof (cases "n = 0")
  case True
  then show ?thesis
    by (intro that [of "[0]"]) (simp_all add: formatSerial_def be_bytes.simps be_value_def)
next
  case False
  then have "be_bytes (nat \<bar>n\<bar>) \<noteq> []" by (subst be_bytes.simps) simp
  then show ?thesis
    by (intro that [of "be_bytes (nat \<bar>n\<bar>)"]) (simp_all add: formatSerial_def be_bytes_range)
qed

lemma formatSerial_inject: "formatSerial m = formatSerial n \<longleftrightarrow> \<bar>m\<bar> = \<bar>n\<bar>"
proof
  assume eq: "formatSerial m = formatSerial n"
  obtain bs where bs: "formatSerial m = join '':'' (map hex_upper bs)" "bs \<noteq> []"
    "\<forall>b \<in> set bs. b < 256" "be_value bs = nat \<bar>m\<bar>" by (rule formatSerial_bytes)
  obtain cs where cs: "formatSerial n = join '':'' (map hex_upper cs)" "cs \<noteq> []"
    "\<forall>b \<in> set cs. b < 256" "be_value cs = nat \<bar>n\<bar>" by (rule formatSerial_bytes)
  have "bs = cs" using eq bs cs by (auto intro: join_hex_inject)
  with bs(4) cs(4) show "\<bar>m\<bar> = \<bar>n\<bar>" by simp
next
  assume "\<bar>m\<bar> = \<bar>n\<bar>"
  then show "formatSerial m = formatSerial n" by (simp add: formatSerial_def)
qed

subsection \<open>What the middleware admits\<close>

lemma clientCert_Next:
  assumes "clientCert u auth hooks c tls = (Next c', calls)"
  obtains cert rest i where "tls = Some (cert # rest)" "IdentityFromCertificate u cert = Inr i"
    "PeerCertFromContext c' = Some cert"
    "case auth of
       None \<Rightarrow> FromContext c' = Some (i\<lparr>Via := ViaWeb\<rparr>) \<and> calls = []
     | Some authorize \<Rightarrow> \<exists>issuer. authorize cert rest = Inr issuer \<and>
         FromContext c' = Some (i\<lparr>IssuerSHA256 := issuer, Via := ViaWeb\<rparr>) \<and>
         calls = map (\<lambda>h. (h, c', i\<lparr>IssuerSHA256 := issuer, Via := ViaWeb\<rparr>, cert)) hooks"
  using assms
  by (auto simp: clientCert_def NewContext_def FromContext_def PeerCertFromContext_def Let_def
      split: option.splits list.splits sum.splits)

end
