(* ===== verification/Store_Types.thy ===== *)
theory Store_Types
  imports Authz
begin

text \<open>
  \<^verbatim>\<open>internal/store\<close>: the rows the manager keeps, with the source's fields, and the hash that
  chains the audit log. A field of type \<^typ>\<open>gotime\<close> that is zero is unset.
\<close>

subsection \<open>store.go: rows\<close>

record node =
  node_ID :: string
  node_Name :: string
  node_Endpoint :: string
  node_Role :: string
  node_AdminCert :: string
  node_AdminKey :: string
  node_CACert :: string

record node_name =
  nn_NodeID :: string
  nn_Name :: string
  nn_From :: gotime
  nn_Until :: gotime

record profile =
  profile_Name :: string
  profile_Spec :: bytes

record adapter =
  adapter_Kind :: string
  adapter_Name :: string
  adapter_Endpoint :: string
  adapter_Profile :: string
  adapter_Enabled :: bool
  adapter_Challenges :: "string list"
  adapter_GPOTemplate :: string

record audit_event =
  ev_ID :: string
  ev_At :: string
  ev_Kind :: string
  ev_Summary :: string
  ev_TargetKind :: string
  ev_TargetPath :: string
  ev_ActorKind :: string
  ev_ActorCN :: string
  ev_ActorSerial :: string
  ev_KeyID :: string
  ev_Via :: string
  ev_Tool :: string
  ev_RequestDigest :: string
  ev_Outcome :: string
  ev_ApprovalID :: string
  ev_ApproverSerial :: string
  ev_ChainVersion :: int
  ev_PrevHash :: string
  ev_Hash :: string

definition zero_event :: audit_event where
  "zero_event = \<lparr>ev_ID = [], ev_At = [], ev_Kind = [], ev_Summary = [], ev_TargetKind = [],
     ev_TargetPath = [], ev_ActorKind = [], ev_ActorCN = [], ev_ActorSerial = [], ev_KeyID = [],
     ev_Via = [], ev_Tool = [], ev_RequestDigest = [], ev_Outcome = [], ev_ApprovalID = [],
     ev_ApproverSerial = [], ev_ChainVersion = 0, ev_PrevHash = [], ev_Hash = []\<rparr>"

definition AuditChainVersion :: int where "AuditChainVersion = 2"

record mcp_key =
  key_ID :: string
  key_TokenHash :: string
  key_Label :: string
  key_ClientName :: string
  key_OperatorSerial :: string
  key_OperatorCN :: string
  key_OperatorCertDER :: bytes
  key_LevelCeiling :: string
  key_CreatedAt :: gotime
  key_LastUsedAt :: gotime
  key_RevokedAt :: gotime
  key_ExpiresAt :: gotime

record oauth_request =
  oreq_ID :: string
  oreq_ClientID :: string
  oreq_ClientName :: string
  oreq_RedirectURI :: string
  oreq_State :: string
  oreq_CodeChallenge :: string
  oreq_ExpiresAt :: gotime

record oauth_code =
  ocode_CodeHash :: string
  ocode_ClientID :: string
  ocode_ClientName :: string
  ocode_RedirectURI :: string
  ocode_CodeChallenge :: string
  ocode_OperatorCN :: string
  ocode_OperatorSerial :: string
  ocode_OperatorCertDER :: bytes
  ocode_LevelCeiling :: string
  ocode_Label :: string
  ocode_ExpiresAt :: gotime

definition ApprovalPending :: string where "ApprovalPending = ''pending''"
definition ApprovalApproved :: string where "ApprovalApproved = ''approved''"
definition ApprovalDenied :: string where "ApprovalDenied = ''denied''"
definition ApprovalExpired :: string where "ApprovalExpired = ''expired''"
definition ApprovalUsed :: string where "ApprovalUsed = ''used''"

lemmas approval_statuses =
  ApprovalPending_def ApprovalApproved_def ApprovalDenied_def ApprovalExpired_def ApprovalUsed_def

record approval =
  appr_ID :: string
  appr_Tool :: string
  appr_Summary :: string
  appr_RequestDigest :: string
  appr_RequestedByCN :: string
  appr_RequestedBySerial :: string
  appr_KeyID :: string
  appr_RequiredLevel :: string
  appr_CreatedAt :: gotime
  appr_ExpiresAt :: gotime
  appr_Status :: string
  appr_DecidedByCN :: string
  appr_DecidedBySerial :: string
  appr_DecidedByLevel :: string
  appr_DecidedAt :: gotime
  appr_UsedAt :: gotime

record enrollment =
  enr_ID :: string
  enr_ProposedName :: string
  enr_Role :: string
  enr_ParentCN :: string
  enr_Address :: string
  enr_Status :: string
  enr_AttestationSummary :: string
  enr_AttestationNodeID :: string
  enr_CSRKeyType :: string
  enr_CSRSubjectCN :: string
  enr_RequestedAt :: string
  enr_RejectionReason :: string
  enr_AdmittedNodeName :: string
  enr_AdmittedNodeID :: string
  enr_Kind :: string
  enr_PinnedKeySHA256 :: string
  enr_AttestationOK :: bool
  enr_Profile :: string

record operator_credential =
  cred_CommonName :: string
  cred_SerialHex :: string
  cred_Level :: string
  cred_NotAfter :: string
  cred_Revoked :: bool
  cred_IssuerSHA256 :: string
  cred_Kind :: string
  cred_Email :: string
  cred_FullName :: string
  cred_LeafSHA256 :: string
  cred_RequestID :: string
  cred_FirstSeenAt :: gotime
  cred_LastSeenAt :: gotime

subsection \<open>operatortrust.go: CRLs and the trust version\<close>

record operator_crl =
  crl_IssuerSHA256 :: string
  crl_DER :: "bytes option"
  crl_Number :: "int option"
  crl_ThisUpdate :: gotime
  crl_NextUpdate :: gotime
  crl_FetchedAt :: gotime
  crl_Source :: string
  crl_LastError :: string
  crl_LastAttemptAt :: gotime

definition zero_crl :: operator_crl where
  "zero_crl = \<lparr>crl_IssuerSHA256 = [], crl_DER = None, crl_Number = None, crl_ThisUpdate = 0,
     crl_NextUpdate = 0, crl_FetchedAt = 0, crl_Source = [], crl_LastError = [], crl_LastAttemptAt = 0\<rparr>"

record trust_version =
  tv_CAs :: string
  tv_Epoch :: int

datatype store_error =
    ErrNodeNotFound string
  | ErrNodeNameTaken string string
  | ErrProfileExists string
  | ErrProfileNotFound string
  | ErrAdapterNotFound string
  | ErrEnrollmentNotFound string
  | ErrCredentialNotFound string
  | ErrMcpKeyNotFound string
  | ErrDatabaseRequired
  | ErrOperatorCANotFound

subsection \<open>store.go: HashEvent\<close>

text \<open>
  The text that is hashed: before version 2 the fields run together, from version 2 on each
  field is written as a newline, its length, a colon and its bytes.
\<close>

definition netstring :: "string \<Rightarrow> string" where
  "netstring f = [CHR 10] @ itoa (length f) @ '':'' @ f"

definition hashed_fields :: "audit_event \<Rightarrow> string list" where
  "hashed_fields e =
     [itoa (nat (ev_ChainVersion e)), ev_ID e, ev_At e, ev_Kind e, ev_Summary e, ev_TargetKind e,
      ev_TargetPath e, ev_ActorKind e, ev_ActorCN e, ev_ActorSerial e, ev_KeyID e, ev_Via e,
      ev_Tool e, ev_RequestDigest e, ev_Outcome e, ev_ApprovalID e, ev_ApproverSerial e]"

definition hash_preimage :: "string \<Rightarrow> audit_event \<Rightarrow> string" where
  "hash_preimage prevHash e =
     (if ev_ChainVersion e < 2
      then prevHash @ [CHR 10] @ ev_ID e @ ev_At e @ ev_Kind e @ ev_Summary e @ ev_TargetKind e @ ev_TargetPath e
      else prevHash @ concat (map netstring (hashed_fields e)))"

definition HashEvent :: "(bytes \<Rightarrow> bytes) \<Rightarrow> string \<Rightarrow> audit_event \<Rightarrow> string" where
  "HashEvent sha256 prevHash e = hex_encode (sha256 (hash_preimage prevHash e))"

subsection \<open>What the hash binds\<close>

text \<open>Splitting at the first separator: the parts before it contain none.\<close>

lemma split_at_separator:
  assumes "xs @ [c] @ ys = xs' @ [c] @ ys'" and "c \<notin> set xs" and "c \<notin> set xs'"
  shows "xs = xs' \<and> ys = ys'"
proof -
  have "takeWhile (\<lambda>x. x \<noteq> c) (xs @ [c] @ ys) = xs" "takeWhile (\<lambda>x. x \<noteq> c) (xs' @ [c] @ ys') = xs'"
    using assms(2,3) by (auto simp: takeWhile_append2 takeWhile_tail)
  with assms(1) show ?thesis by simp
qed

lemma netstring_prefix_free:
  assumes "netstring f @ xs = netstring g @ ys"
  shows "f = g \<and> xs = ys"
proof -
  have "itoa (length f) @ '':'' @ f @ xs = itoa (length g) @ '':'' @ g @ ys"
    using assms by (simp add: netstring_def)
  from split_at_separator [OF this [simplified append_assoc] itoa_no_colon itoa_no_colon]
  show ?thesis by auto
qed

lemma netstrings_inject:
  "concat (map netstring fs) = concat (map netstring gs) \<longleftrightarrow> fs = gs"
proof
  show "concat (map netstring fs) = concat (map netstring gs) \<Longrightarrow> fs = gs"
  proof (induction fs arbitrary: gs)
    case Nil
    then show ?case by (cases gs) (auto simp: netstring_def)
  next
    case (Cons f fs)
    then obtain g gs' where gs: "gs = g # gs'" by (cases gs) (auto simp: netstring_def)
    with Cons.prems have "f = g \<and> concat (map netstring fs) = concat (map netstring gs')"
      by (intro netstring_prefix_free) simp
    with gs Cons.IH show ?case by simp
  qed
qed simp

text \<open>The fields that are hashed, as the event without its place in the chain.\<close>

definition event_content :: "audit_event \<Rightarrow> audit_event" where
  "event_content e = e\<lparr>ev_PrevHash := [], ev_Hash := []\<rparr>"

lemma hashed_fields_inject:
  assumes "hashed_fields e = hashed_fields e'" and "2 \<le> ev_ChainVersion e" and "2 \<le> ev_ChainVersion e'"
  shows "event_content e = event_content e'"
  using assms by (auto simp: hashed_fields_def event_content_def nat_eq_iff intro: audit_event.equality)

lemma hash_preimage_inject:
  assumes "hash_preimage p e = hash_preimage p' e'"
    and "2 \<le> ev_ChainVersion e" and "2 \<le> ev_ChainVersion e'"
    and "CHR 10 \<notin> set p" and "CHR 10 \<notin> set p'"
  shows "p = p' \<and> event_content e = event_content e'"
proof -
  have pre: "concat (map netstring (hashed_fields x)) = [CHR 10] @ tl (concat (map netstring (hashed_fields x)))" for x
    by (simp add: hashed_fields_def netstring_def)
  have eq: "p @ concat (map netstring (hashed_fields e)) = p' @ concat (map netstring (hashed_fields e'))"
    using assms(1-3) by (simp add: hash_preimage_def)
  have "p = p' \<and> tl (concat (map netstring (hashed_fields e))) = tl (concat (map netstring (hashed_fields e')))"
    by (rule split_at_separator [OF _ assms(4,5)]) (metis eq pre)
  then have "p = p' \<and> hashed_fields e = hashed_fields e'"
    by (metis pre netstrings_inject)
  with hashed_fields_inject assms(2,3) show ?thesis by blast
qed

text \<open>Equal hashes of version 2 events come from equal events, or exhibit a collision.\<close>

lemma HashEvent_binds:
  assumes "HashEvent sha256 p e = HashEvent sha256 p' e'"
    and "2 \<le> ev_ChainVersion e" and "2 \<le> ev_ChainVersion e'"
    and "CHR 10 \<notin> set p" and "CHR 10 \<notin> set p'"
  shows "(p = p' \<and> event_content e = event_content e') \<or> (\<exists>x y. x \<noteq> y \<and> sha256 x = sha256 y)"
proof (cases "hash_preimage p e = hash_preimage p' e'")
  case True
  then show ?thesis using hash_preimage_inject assms(2-5) by blast
next
  case False
  then show ?thesis using assms(1) by (auto simp: HashEvent_def)
qed

lemma HashEvent_no_newline: "CHR 10 \<notin> set (HashEvent sha256 p e)"
  by (simp add: HashEvent_def hex_encode_no_newline)

end
