(* ===== verification/Memory_Store.thy ===== *)
theory Memory_Store
  imports Store_Types
begin

text \<open>
  \<^verbatim>\<open>internal/store/memory\<close>: the in-memory implementation of the store interface. Every
  operation runs under the store's lock, so it is one step from a state to a result and a
  state. Fresh IDs and the wall clock are arguments.
\<close>

record mem_store =
  nodes :: "(string, node) gomap"
  nodeNames :: "node_name list"
  profiles :: "profile list"
  adapters :: "adapter list"
  audit :: "audit_event list"
  enrollments :: "enrollment list"
  operatorCreds :: "operator_credential list"
  mcpKeys :: "(string, mcp_key) gomap"
  oauthRequests :: "(string, oauth_request) gomap"
  oauthCodes :: "(string, oauth_code) gomap"
  approvals :: "(string, approval) gomap"
  trust_crls :: "(string, operator_crl) gomap"
  trust_epoch :: int

subsection \<open>Construction\<close>

text \<open>\<open>load_nodes\<close> is the loop of the constructor; \<open>fresh i\<close> is the ID minted for the
  \<open>i\<close>-th node of the configuration.\<close>

fun load_nodes :: "(nat \<Rightarrow> string) \<Rightarrow> nat \<Rightarrow> node list \<Rightarrow> (string, node) gomap \<Rightarrow> node_name list \<Rightarrow>
    (string, node) gomap \<times> node_name list" where
  "load_nodes fresh i [] m hist = (m, hist)"
| "load_nodes fresh i (n # ns) m hist =
     (let n = (if node_ID n = [] then n\<lparr>node_ID := fresh i\<rparr> else n)
      in load_nodes fresh (Suc i) ns (mput (node_Name n) n m)
           (hist @ [\<lparr>nn_NodeID = node_ID n, nn_Name = node_Name n, nn_From = 0, nn_Until = 0\<rparr>]))"

definition NewWithCatalog ::
  "(nat \<Rightarrow> string) \<Rightarrow> node list \<Rightarrow> profile list \<Rightarrow> adapter list \<Rightarrow> audit_event list \<Rightarrow> enrollment list \<Rightarrow> mem_store" where
  "NewWithCatalog fresh ns ps ads aud enrs =
     (let (m, hist) = load_nodes fresh 0 ns [] []
      in \<lparr>nodes = m, nodeNames = hist, profiles = ps, adapters = ads, audit = aud, enrollments = enrs,
          operatorCreds = [], mcpKeys = [], oauthRequests = [], oauthCodes = [], approvals = [],
          trust_crls = [], trust_epoch = 0\<rparr>)"

definition New :: "(nat \<Rightarrow> string) \<Rightarrow> node list \<Rightarrow> mem_store" where
  "New fresh ns = NewWithCatalog fresh ns [] [] [] []"

subsection \<open>Nodes and their names\<close>

definition Nodes :: "mem_store \<Rightarrow> node list" where
  "Nodes s = mvals (nodes s)"

definition Node :: "mem_store \<Rightarrow> string \<Rightarrow> node option" where
  "Node s name = mget (nodes s) name"

definition nodeByIDLocked :: "mem_store \<Rightarrow> string \<Rightarrow> node option" where
  "nodeByIDLocked s i = find (\<lambda>n. node_ID n = i) (mvals (nodes s))"

definition NodeByID :: "mem_store \<Rightarrow> string \<Rightarrow> node option" where
  "NodeByID s i = nodeByIDLocked s i"

text \<open>\<open>latest_span\<close> is the loop of \<open>NodeByFormerName\<close>; \<open>None\<close> is its zero \<open>latest\<close>.\<close>

fun latest_span :: "string \<Rightarrow> node_name option \<Rightarrow> node_name list \<Rightarrow> node_name option" where
  "latest_span name latest [] = latest"
| "latest_span name latest (h # hs) =
     latest_span name
       (if nn_Name h = name \<and> \<not> IsZero (nn_Until h) \<and>
           (case latest of None \<Rightarrow> True | Some l \<Rightarrow> nn_NodeID l = [] \<or> nn_Until l < nn_Until h)
        then Some h else latest) hs"

definition NodeByFormerName :: "mem_store \<Rightarrow> string \<Rightarrow> node option" where
  "NodeByFormerName s name =
     (case latest_span name None (nodeNames s) of
        None \<Rightarrow> None
      | Some l \<Rightarrow> if nn_NodeID l = [] then None else nodeByIDLocked s (nn_NodeID l))"

definition NodeNames :: "mem_store \<Rightarrow> node_name list" where
  "NodeNames s = nodeNames s"

definition AddNode :: "string \<Rightarrow> node \<Rightarrow> mem_store \<Rightarrow> mem_store" where
  "AddNode fresh n s =
     (case mget (nodes s) (node_Name n) of
        Some existing \<Rightarrow>
          s\<lparr>nodes := mput (node_Name n) (n\<lparr>node_ID := node_ID existing\<rparr>) (nodes s)\<rparr>
      | None \<Rightarrow>
          (let n = (if node_ID n = [] then n\<lparr>node_ID := fresh\<rparr> else n)
           in s\<lparr>nodes := mput (node_Name n) n (nodes s),
                nodeNames := nodeNames s @
                  [\<lparr>nn_NodeID = node_ID n, nn_Name = node_Name n, nn_From = 0, nn_Until = 0\<rparr>]\<rparr>))"

definition close_spans :: "string \<Rightarrow> gotime \<Rightarrow> node_name list \<Rightarrow> node_name list" where
  "close_spans i at hs =
     map (\<lambda>h. if nn_NodeID h = i \<and> IsZero (nn_Until h) then h\<lparr>nn_Until := at\<rparr> else h) hs"

definition RemoveNode :: "string \<Rightarrow> gotime \<Rightarrow> mem_store \<Rightarrow> (store_error + node) \<times> mem_store" where
  "RemoveNode i at s =
     (case nodeByIDLocked s i of
        None \<Rightarrow> (Inl (ErrNodeNotFound i), s)
      | Some n \<Rightarrow>
          (Inr n, s\<lparr>nodes := mdel (node_Name n) (nodes s), nodeNames := close_spans i at (nodeNames s)\<rparr>))"

definition RenameNode :: "string \<Rightarrow> string \<Rightarrow> gotime \<Rightarrow> mem_store \<Rightarrow> (store_error + node) \<times> mem_store" where
  "RenameNode i newName at s =
     (case nodeByIDLocked s i of
        None \<Rightarrow> (Inl (ErrNodeNotFound i), s)
      | Some n \<Rightarrow>
          if node_Name n = newName then (Inr n, s)
          else if mget (nodes s) newName \<noteq> None then (Inl (ErrNodeNameTaken i newName), s)
          else
            (let n' = n\<lparr>node_Name := newName\<rparr>
             in (Inr n', s\<lparr>nodes := mput newName n' (mdel (node_Name n) (nodes s)),
                  nodeNames := close_spans i at (nodeNames s) @
                    [\<lparr>nn_NodeID = i, nn_Name = newName, nn_From = at, nn_Until = 0\<rparr>]\<rparr>)))"

subsection \<open>Profiles and adapters\<close>

definition Profiles :: "mem_store \<Rightarrow> profile list" where
  "Profiles s = profiles s"

definition Profile :: "mem_store \<Rightarrow> string \<Rightarrow> profile option" where
  "Profile s name = find (\<lambda>p. profile_Name p = name) (profiles s)"

definition CreateProfile :: "profile \<Rightarrow> mem_store \<Rightarrow> (store_error + unit) \<times> mem_store" where
  "CreateProfile p s =
     (if \<exists>existing \<in> set (profiles s). profile_Name existing = profile_Name p
      then (Inl (ErrProfileExists (profile_Name p)), s)
      else (Inr (), s\<lparr>profiles := profiles s @ [p]\<rparr>))"

definition UpdateProfile :: "profile \<Rightarrow> mem_store \<Rightarrow> (store_error + unit) \<times> mem_store" where
  "UpdateProfile p s =
     (case update_first (\<lambda>x. profile_Name x = profile_Name p) (\<lambda>_. p) (profiles s) of
        None \<Rightarrow> (Inl (ErrProfileNotFound (profile_Name p)), s)
      | Some ps \<Rightarrow> (Inr (), s\<lparr>profiles := ps\<rparr>))"

definition DeleteProfile :: "string \<Rightarrow> mem_store \<Rightarrow> (store_error + unit) \<times> mem_store" where
  "DeleteProfile name s =
     (case delete_first (\<lambda>x. profile_Name x = name) (profiles s) of
        None \<Rightarrow> (Inl (ErrProfileNotFound name), s)
      | Some ps \<Rightarrow> (Inr (), s\<lparr>profiles := ps\<rparr>))"

definition Adapters :: "mem_store \<Rightarrow> adapter list" where
  "Adapters s = adapters s"

definition SetAdapterEnabled :: "string \<Rightarrow> bool \<Rightarrow> mem_store \<Rightarrow> (store_error + adapter) \<times> mem_store" where
  "SetAdapterEnabled name enabled s =
     (case update_first (\<lambda>x. adapter_Name x = name) (\<lambda>x. x\<lparr>adapter_Enabled := enabled\<rparr>) (adapters s) of
        None \<Rightarrow> (Inl (ErrAdapterNotFound name), s)
      | Some as \<Rightarrow>
          (case find (\<lambda>x. adapter_Name x = name) as of
             None \<Rightarrow> (Inl (ErrAdapterNotFound name), s)
           | Some a \<Rightarrow> (Inr a, s\<lparr>adapters := as\<rparr>)))"

subsection \<open>Audit log\<close>

definition Audit :: "mem_store \<Rightarrow> audit_event list" where
  "Audit s = audit s"

definition last_hash :: "audit_event list \<Rightarrow> string" where
  "last_hash log = (if log = [] then [] else ev_Hash (last log))"

definition AddAuditEvent :: "(bytes \<Rightarrow> bytes) \<Rightarrow> audit_event \<Rightarrow> mem_store \<Rightarrow> audit_event \<times> mem_store" where
  "AddAuditEvent sha256 e s =
     (let prev = last_hash (audit s);
          e = e\<lparr>ev_ChainVersion := AuditChainVersion, ev_PrevHash := prev\<rparr>;
          e = e\<lparr>ev_Hash := HashEvent sha256 prev e\<rparr>
      in (e, s\<lparr>audit := audit s @ [e]\<rparr>))"

subsection \<open>Enrollments and operator credentials\<close>

definition Enrollments :: "mem_store \<Rightarrow> enrollment list" where
  "Enrollments s = enrollments s"

definition AddEnrollment :: "enrollment \<Rightarrow> mem_store \<Rightarrow> mem_store" where
  "AddEnrollment e s = s\<lparr>enrollments := enrollments s @ [e]\<rparr>"

definition Enrollment :: "mem_store \<Rightarrow> string \<Rightarrow> enrollment option" where
  "Enrollment s i = find (\<lambda>e. enr_ID e = i) (enrollments s)"

definition UpdateEnrollment ::
  "string \<Rightarrow> (enrollment \<Rightarrow> enrollment) \<Rightarrow> mem_store \<Rightarrow> (store_error + unit) \<times> mem_store" where
  "UpdateEnrollment i mutate s =
     (case update_first (\<lambda>e. enr_ID e = i) mutate (enrollments s) of
        None \<Rightarrow> (Inl (ErrEnrollmentNotFound i), s)
      | Some es \<Rightarrow> (Inr (), s\<lparr>enrollments := es\<rparr>))"

definition OperatorCredentials :: "mem_store \<Rightarrow> operator_credential list" where
  "OperatorCredentials s = operatorCreds s"

definition AddOperatorCredential :: "operator_credential \<Rightarrow> mem_store \<Rightarrow> mem_store" where
  "AddOperatorCredential c s = s\<lparr>operatorCreds := operatorCreds s @ [c]\<rparr>"

definition MarkOperatorCredentialRevoked :: "string \<Rightarrow> mem_store \<Rightarrow> (store_error + unit) \<times> mem_store" where
  "MarkOperatorCredentialRevoked serialHex s =
     (case update_first (\<lambda>c. cred_SerialHex c = serialHex) (\<lambda>c. c\<lparr>cred_Revoked := True\<rparr>) (operatorCreds s) of
        None \<Rightarrow> (Inl (ErrCredentialNotFound serialHex), s)
      | Some cs \<Rightarrow> (Inr (), s\<lparr>operatorCreds := cs\<rparr>))"

subsection \<open>MCP keys\<close>

definition AddMcpKey :: "mcp_key \<Rightarrow> mem_store \<Rightarrow> mem_store" where
  "AddMcpKey k s = s\<lparr>mcpKeys := mput (key_ID k) k (mcpKeys s)\<rparr>"

definition McpKeyByHash :: "mem_store \<Rightarrow> string \<Rightarrow> mcp_key option" where
  "McpKeyByHash s h = find (\<lambda>k. key_TokenHash k = h) (mvals (mcpKeys s))"

definition McpKey :: "mem_store \<Rightarrow> string \<Rightarrow> mcp_key option" where
  "McpKey s i = mget (mcpKeys s) i"

definition McpKeys :: "mem_store \<Rightarrow> mcp_key list" where
  "McpKeys s = newest_first key_CreatedAt key_ID (mvals (mcpKeys s))"

definition RevokeMcpKey :: "string \<Rightarrow> gotime \<Rightarrow> mem_store \<Rightarrow> (store_error + mcp_key) \<times> mem_store" where
  "RevokeMcpKey i at s =
     (case mget (mcpKeys s) i of
        None \<Rightarrow> (Inl (ErrMcpKeyNotFound i), s)
      | Some k \<Rightarrow>
          if IsZero (key_RevokedAt k)
          then (let k = k\<lparr>key_RevokedAt := at\<rparr> in (Inr k, s\<lparr>mcpKeys := mput i k (mcpKeys s)\<rparr>))
          else (Inr k, s))"

definition TouchMcpKey :: "string \<Rightarrow> gotime \<Rightarrow> mem_store \<Rightarrow> bool \<times> mem_store" where
  "TouchMcpKey i at s =
     (case mget (mcpKeys s) i of
        None \<Rightarrow> (False, s)
      | Some k \<Rightarrow>
          (IsZero (key_LastUsedAt k), s\<lparr>mcpKeys := mput i (k\<lparr>key_LastUsedAt := at\<rparr>) (mcpKeys s)\<rparr>))"

subsection \<open>OAuth login state\<close>

definition AddOAuthRequest :: "gotime \<Rightarrow> oauth_request \<Rightarrow> mem_store \<Rightarrow> mem_store" where
  "AddOAuthRequest now r s =
     s\<lparr>oauthRequests := mput (oreq_ID r) r (filter (\<lambda>(i, old). \<not> oreq_ExpiresAt old < now) (oauthRequests s)),
       oauthCodes := filter (\<lambda>(h, old). \<not> ocode_ExpiresAt old < now) (oauthCodes s)\<rparr>"

definition OAuthRequest :: "mem_store \<Rightarrow> string \<Rightarrow> oauth_request option" where
  "OAuthRequest s i = mget (oauthRequests s) i"

definition TakeOAuthRequest :: "string \<Rightarrow> mem_store \<Rightarrow> oauth_request option \<times> mem_store" where
  "TakeOAuthRequest i s = (mget (oauthRequests s) i, s\<lparr>oauthRequests := mdel i (oauthRequests s)\<rparr>)"

definition AddOAuthCode :: "oauth_code \<Rightarrow> mem_store \<Rightarrow> mem_store" where
  "AddOAuthCode c s = s\<lparr>oauthCodes := mput (ocode_CodeHash c) c (oauthCodes s)\<rparr>"

definition TakeOAuthCode :: "string \<Rightarrow> mem_store \<Rightarrow> oauth_code option \<times> mem_store" where
  "TakeOAuthCode h s = (mget (oauthCodes s) h, s\<lparr>oauthCodes := mdel h (oauthCodes s)\<rparr>)"

subsection \<open>Approvals\<close>

definition AddApproval :: "approval \<Rightarrow> mem_store \<Rightarrow> mem_store" where
  "AddApproval a s = s\<lparr>approvals := mput (appr_ID a) a (approvals s)\<rparr>"

definition Approval :: "mem_store \<Rightarrow> string \<Rightarrow> approval option" where
  "Approval s i = mget (approvals s) i"

definition Approvals :: "mem_store \<Rightarrow> approval list" where
  "Approvals s = newest_first appr_CreatedAt appr_ID (mvals (approvals s))"

definition DecideApproval ::
  "string \<Rightarrow> string \<Rightarrow> string \<Rightarrow> string \<Rightarrow> string \<Rightarrow> gotime \<Rightarrow> mem_store \<Rightarrow> approval option \<times> mem_store" where
  "DecideApproval i status deciderCN deciderSerial deciderLevel at s =
     (case mget (approvals s) i of
        None \<Rightarrow> (None, s)
      | Some a \<Rightarrow>
          if appr_Status a \<noteq> ApprovalPending \<or> \<not> at < appr_ExpiresAt a then (None, s)
          else
            (let a = a\<lparr>appr_Status := status, appr_DecidedByCN := deciderCN,
                   appr_DecidedBySerial := deciderSerial, appr_DecidedByLevel := deciderLevel,
                   appr_DecidedAt := at\<rparr>
             in (Some a, s\<lparr>approvals := mput i a (approvals s)\<rparr>)))"

definition UseApproval :: "string \<Rightarrow> gotime \<Rightarrow> mem_store \<Rightarrow> approval option \<times> mem_store" where
  "UseApproval i at s =
     (case mget (approvals s) i of
        None \<Rightarrow> (None, s)
      | Some a \<Rightarrow>
          if appr_Status a \<noteq> ApprovalApproved \<or> \<not> at < appr_ExpiresAt a then (None, s)
          else
            (let a = a\<lparr>appr_Status := ApprovalUsed, appr_UsedAt := at\<rparr>
             in (Some a, s\<lparr>approvals := mput i a (approvals s)\<rparr>)))"

subsection \<open>Operator trust (memory/operatortrust.go)\<close>

definition OperatorCRLs :: "mem_store \<Rightarrow> operator_crl list" where
  "OperatorCRLs s = mvals (trust_crls s)"

definition PutOperatorCRL ::
  "operator_crl \<Rightarrow> (operator_crl \<Rightarrow> bool \<Rightarrow> 'e + bool) \<Rightarrow> mem_store \<Rightarrow> ('e + bool) \<times> mem_store" where
  "PutOperatorCRL c decide s =
     (let (cur, ok) = (case mget (trust_crls s) (crl_IssuerSHA256 c) of
                         None \<Rightarrow> (zero_crl, False) | Some cur \<Rightarrow> (cur, True))
      in case decide cur (ok \<and> crl_DER cur \<noteq> None) of
           Inl e \<Rightarrow> (Inl e, s)
         | Inr False \<Rightarrow> (Inr False, s)
         | Inr True \<Rightarrow>
             (Inr True, s\<lparr>trust_crls := mput (crl_IssuerSHA256 c)
                  (c\<lparr>crl_LastError := [], crl_LastAttemptAt := crl_FetchedAt c\<rparr>) (trust_crls s),
                trust_epoch := trust_epoch s + 1\<rparr>))"

definition RecordOperatorCRLAttempt :: "string \<Rightarrow> string \<Rightarrow> gotime \<Rightarrow> mem_store \<Rightarrow> mem_store" where
  "RecordOperatorCRLAttempt issuer lastError at s =
     (let c = (case mget (trust_crls s) issuer of None \<Rightarrow> zero_crl | Some c \<Rightarrow> c)
      in s\<lparr>trust_crls := mput issuer (c\<lparr>crl_IssuerSHA256 := issuer, crl_LastError := lastError,
             crl_LastAttemptAt := at\<rparr>) (trust_crls s)\<rparr>)"

definition OperatorTrustVersion :: "mem_store \<Rightarrow> trust_version" where
  "OperatorTrustVersion s = \<lparr>tv_CAs = [], tv_Epoch = trust_epoch s\<rparr>"

end
