(* ===== verification/Inventory.thy ===== *)
theory Inventory
  imports Memory_Store
begin

text \<open>
  The node inventory of the in-memory store as a state machine: its steps, the invariant that
  ties the nodes to their name history, what a rename and a removal do, and the lookup by
  former name beside the query the Postgres store answers it with.
\<close>

subsection \<open>Maps as multisets of entries\<close>

lemma mget_mdel_mset:
  "distinct (mkeys m) \<Longrightarrow> mget m k = Some v \<Longrightarrow> mset m = add_mset (k, v) (mset (mdel k m))"
proof (induction m)
  case (Cons a m)
  then show ?case
    by (cases "fst a = k") (auto simp: map_of_eq_None_iff image_iff)
qed simp

lemma mput_old_mset:
  "distinct (mkeys m) \<Longrightarrow> mget m k = Some v \<Longrightarrow> mset (mput k w m) = add_mset (k, w) (mset (mdel k m))"
proof (induction m)
  case (Cons a m)
  then show ?case
    by (cases "fst a = k") (auto simp: image_iff)
qed simp

lemma mkeys_mput_old: "k \<in> set (mkeys m) \<Longrightarrow> mkeys (mput k v m) = mkeys m"
  by (induction m) auto

subsection \<open>The invariant\<close>

text \<open>The (ID, name) pairs of the nodes, and those of the history spans still open.\<close>

definition node_pairs :: "mem_store \<Rightarrow> (string \<times> string) multiset" where
  "node_pairs s = image_mset (\<lambda>(k, n). (node_ID n, node_Name n)) (mset (nodes s))"

definition open_pairs :: "node_name list \<Rightarrow> (string \<times> string) multiset" where
  "open_pairs hs = image_mset (\<lambda>h. (nn_NodeID h, nn_Name h)) (filter_mset (\<lambda>h. IsZero (nn_Until h)) (mset hs))"

definition inventory_ok :: "mem_store \<Rightarrow> bool" where
  "inventory_ok s \<longleftrightarrow>
     distinct (mkeys (nodes s)) \<and>
     (\<forall>(k, n) \<in> set (nodes s). node_Name n = k \<and> node_ID n \<noteq> []) \<and>
     distinct (map node_ID (mvals (nodes s))) \<and>
     open_pairs (nodeNames s) = node_pairs s \<and>
     (\<forall>h \<in> set (nodeNames s). nn_NodeID h \<noteq> [])"

lemma inventory_okD:
  assumes "inventory_ok s"
  shows "distinct (mkeys (nodes s))"
    and "(k, n) \<in> set (nodes s) \<Longrightarrow> node_Name n = k"
    and "(k, n) \<in> set (nodes s) \<Longrightarrow> node_ID n \<noteq> []"
    and "distinct (map node_ID (mvals (nodes s)))"
    and "open_pairs (nodeNames s) = node_pairs s"
    and "h \<in> set (nodeNames s) \<Longrightarrow> nn_NodeID h \<noteq> []"
  using assms by (auto simp: inventory_ok_def)

lemma nodeByIDLocked_Some:
  assumes "inventory_ok s"
  shows "nodeByIDLocked s i = Some n \<longleftrightarrow> mget (nodes s) (node_Name n) = Some n \<and> node_ID n = i"
proof -
  note ok = inventory_okD [OF assms]
  have get: "mget (nodes s) (node_Name n) = Some n \<longleftrightarrow> n \<in> set (mvals (nodes s))"
    using ok(1,2) by (force dest: map_of_SomeD)
  have inj: "inj_on node_ID (set (mvals (nodes s)))"
    using distinct_map [of node_ID "mvals (nodes s)"] ok(4) by blast
  show ?thesis
    unfolding nodeByIDLocked_def get by (rule find_inj_Some [OF inj])
qed

lemma map_mput_same:
  "distinct (mkeys m) \<Longrightarrow> mget m k = Some v \<Longrightarrow> g (k, w) = g (k, v) \<Longrightarrow> map g (mput k w m) = map g m"
  by (induction m) (auto split: if_splits simp: map_of_eq_None_iff image_iff)

lemma open_pairs_close:
  "at \<noteq> 0 \<Longrightarrow> open_pairs (close_spans i at hs) = filter_mset (\<lambda>(a, b). a \<noteq> i) (open_pairs hs)"
  by (induction hs) (auto simp: open_pairs_def close_spans_def IsZero_def)

lemma close_spans_NodeID: "map nn_NodeID (close_spans i at hs) = map nn_NodeID hs"
  by (simp add: close_spans_def comp_def if_distrib [of nn_NodeID] cong: if_cong)

lemma open_pairs_snoc:
  "open_pairs (hs @ [h]) = (if IsZero (nn_Until h) then add_mset (nn_NodeID h, nn_Name h) (open_pairs hs) else open_pairs hs)"
  by (simp add: open_pairs_def)

definition node_IDs :: "mem_store \<Rightarrow> string set" where
  "node_IDs s = node_ID ` set (mvals (nodes s))"

lemma nodeByIDLocked_None: "nodeByIDLocked s i = None \<longleftrightarrow> i \<notin> node_IDs s"
  unfolding nodeByIDLocked_def node_IDs_def find_None_set by blast

subsection \<open>Taking a node out and putting one in\<close>

text \<open>
  A removal takes the node and its open span out. A rename does that and then puts the node
  back under its new name; a new node is only put in.
\<close>

definition detach :: "node \<Rightarrow> gotime \<Rightarrow> mem_store \<Rightarrow> mem_store" where
  "detach n at s = s\<lparr>nodes := mdel (node_Name n) (nodes s), nodeNames := close_spans (node_ID n) at (nodeNames s)\<rparr>"

definition attach :: "node \<Rightarrow> gotime \<Rightarrow> mem_store \<Rightarrow> mem_store" where
  "attach n at s = s\<lparr>nodes := nodes s @ [(node_Name n, n)],
     nodeNames := nodeNames s @ [\<lparr>nn_NodeID = node_ID n, nn_Name = node_Name n, nn_From = at, nn_Until = 0\<rparr>]\<rparr>"

lemma detach_ID_list:
  assumes "inventory_ok s" and "nodeByIDLocked s (node_ID n) = Some n"
  shows "mset (node_ID n # map node_ID (mvals (nodes (detach n at s)))) = mset (map node_ID (mvals (nodes s)))"
proof -
  have "mget (nodes s) (node_Name n) = Some n"
    using assms nodeByIDLocked_Some [OF assms(1)] by auto
  from mget_mdel_mset [OF inventory_okD(1) [OF assms(1)] this]
  have "mset (map (node_ID \<circ> snd) (nodes s)) = mset (map (node_ID \<circ> snd) ((node_Name n, n) # nodes (detach n at s)))"
    by (simp add: detach_def)
  then show ?thesis by (simp add: comp_def)
qed

lemma detach_IDs:
  assumes "inventory_ok s" and "nodeByIDLocked s (node_ID n) = Some n"
  shows "node_IDs (detach n at s) = node_IDs s - {node_ID n}"
    and "distinct (map node_ID (mvals (nodes (detach n at s))))"
proof -
  note eq = detach_ID_list [OF assms, of at]
  have d: "distinct (node_ID n # map node_ID (mvals (nodes (detach n at s))))"
    using mset_eq_imp_distinct_iff [OF eq] inventory_okD(4) [OF assms(1)] by blast
  have ins: "insert (node_ID n) (node_IDs (detach n at s)) = node_IDs s"
    using arg_cong [OF eq, of set_mset] by (simp add: node_IDs_def image_comp)
  have "node_ID n \<notin> node_IDs (detach n at s)"
    using d by (simp add: node_IDs_def image_comp)
  with ins show "node_IDs (detach n at s) = node_IDs s - {node_ID n}"
    by blast
  from d show "distinct (map node_ID (mvals (nodes (detach n at s))))" by simp
qed

lemma inventory_ok_detach:
  assumes ok': "inventory_ok s" and at_id: "nodeByIDLocked s (node_ID n) = Some n" and at: "at \<noteq> 0"
  shows "inventory_ok (detach n at s)"
proof -
  note ok = inventory_okD [OF ok']
  have n: "mget (nodes s) (node_Name n) = Some n"
    using at_id nodeByIDLocked_Some [OF ok'] by auto
  have others: "a \<noteq> node_ID n" if "(a, b) \<in># node_pairs (detach n at s)" for a b
  proof -
    from that have "a \<in> node_IDs (detach n at s)" by (force simp: node_pairs_def node_IDs_def)
    then show ?thesis using detach_IDs(1) [OF ok' at_id] by simp
  qed
  have "node_pairs s = add_mset (node_ID n, node_Name n) (node_pairs (detach n at s))"
    using mget_mdel_mset [OF ok(1) n] by (simp add: node_pairs_def detach_def)
  then have "filter_mset (\<lambda>(a, b). a \<noteq> node_ID n) (node_pairs s) = node_pairs (detach n at s)"
    using others by (auto simp: filter_mset_eq_conv)
  then have pairs: "open_pairs (nodeNames (detach n at s)) = node_pairs (detach n at s)"
    using ok(5) open_pairs_close [OF at] by (simp add: detach_def)
  have ids: "distinct (map node_ID (mvals (mdel (node_Name n) (nodes s))))"
    using detach_IDs(2) [OF ok' at_id, of at] by (simp add: detach_def)
  have spans: "nn_NodeID h \<noteq> []" if "h \<in> set (close_spans (node_ID n) at (nodeNames s))" for h
    using that ok(6) by (metis close_spans_NodeID image_eqI image_iff set_map)
  show ?thesis
    using pairs ids spans ok distinct_delete [OF ok(1)]
    by (auto simp: inventory_ok_def detach_def AList.delete_eq)
qed

lemma inventory_ok_attach:
  assumes "inventory_ok s" and "node_Name n \<notin> set (mkeys (nodes s))" and "node_ID n \<notin> node_IDs s" and "node_ID n \<noteq> []"
  shows "inventory_ok (attach n at s)"
  using assms
  by (auto simp: inventory_ok_def attach_def open_pairs_snoc node_pairs_def node_IDs_def IsZero_def)

subsection \<open>The operations in those terms\<close>

lemma nodeByIDLocked_ID: "nodeByIDLocked s i = Some n \<Longrightarrow> node_ID n = i"
  by (auto simp: nodeByIDLocked_def find_Some_iff)

lemma RemoveNode_cases:
  "RemoveNode i at s =
     (case nodeByIDLocked s i of
        None \<Rightarrow> (Inl (ErrNodeNotFound i), s)
      | Some n \<Rightarrow> (Inr n, detach n at s))"
  by (auto simp: RemoveNode_def detach_def dest: nodeByIDLocked_ID split: option.split)

lemma RenameNode_cases:
  assumes "distinct (mkeys (nodes s))"
  shows "RenameNode i newName at s =
     (case nodeByIDLocked s i of
        None \<Rightarrow> (Inl (ErrNodeNotFound i), s)
      | Some n \<Rightarrow>
          if node_Name n = newName then (Inr n, s)
          else if newName \<in> set (mkeys (nodes s)) then (Inl (ErrNodeNameTaken i newName), s)
          else (Inr (n\<lparr>node_Name := newName\<rparr>), attach (n\<lparr>node_Name := newName\<rparr>) at (detach n at s)))"
proof (cases "nodeByIDLocked s i")
  case (Some n)
  have "mput newName n' (mdel k (nodes s)) = mdel k (nodes s) @ [(newName, n')]"
    if "newName \<notin> set (mkeys (nodes s))" for n' k
    using that by (intro mput_new) (auto simp: AList.delete_eq)
  then show ?thesis
    using Some nodeByIDLocked_ID [OF Some]
    by (auto simp: RenameNode_def attach_def detach_def map_of_eq_None_iff image_iff Let_def)
qed (simp add: RenameNode_def)

lemma AddNode_new:
  assumes "node_Name n \<notin> set (mkeys (nodes s))"
  shows "AddNode fresh n s = attach (if node_ID n = [] then n\<lparr>node_ID := fresh\<rparr> else n) 0 s"
proof -
  have none: "mget (nodes s) (node_Name n) = None"
    using assms by (simp add: map_of_eq_None_iff)
  show ?thesis
    using assms by (simp add: AddNode_def none attach_def Let_def mput_new)
qed

lemma inventory_ok_AddNode_old:
  assumes "inventory_ok s" and "mget (nodes s) (node_Name n) = Some existing"
  shows "inventory_ok (AddNode fresh n s)"
proof -
  note ok = inventory_okD [OF assms(1)]
  have ex: "(node_Name n, existing) \<in> set (nodes s)" using assms(2) by (rule map_of_SomeD)
  let ?n = "n\<lparr>node_ID := node_ID existing\<rparr>"
  have same: "map g (mput (node_Name n) ?n (nodes s)) = map g (nodes s)"
    if "g (node_Name n, ?n) = g (node_Name n, existing)" for g :: "string \<times> node \<Rightarrow> 'b"
    using map_mput_same [OF ok(1) assms(2)] that by blast
  have "map (\<lambda>(k, x). (node_ID x, node_Name x)) (mput (node_Name n) ?n (nodes s)) =
      map (\<lambda>(k, x). (node_ID x, node_Name x)) (nodes s)"
    by (rule same) (use ok(2) [OF ex] in simp)
  then have pairs: "node_pairs (AddNode fresh n s) = node_pairs s"
    by (simp add: node_pairs_def AddNode_def assms(2) flip: mset_map)
  have "map (\<lambda>(k, x). node_ID x) (mput (node_Name n) ?n (nodes s)) = map (\<lambda>(k, x). node_ID x) (nodes s)"
    by (rule same) simp
  then have ids: "map node_ID (mvals (mput (node_Name n) ?n (nodes s))) = map node_ID (mvals (nodes s))"
    by (simp add: case_prod_unfold comp_def)
  have entries: "(k, x) \<in> set (mput (node_Name n) ?n (nodes s)) \<Longrightarrow> node_Name x = k \<and> node_ID x \<noteq> []" for k x
    using mput_old_mset [OF ok(1) assms(2), of ?n, THEN arg_cong [of _ _ set_mset]] ok(2,3) ex
    by (auto simp: AList.delete_eq)
  show ?thesis
    using pairs ids entries ok distinct_update [OF ok(1), of "node_Name n" ?n]
    by (auto simp: inventory_ok_def AddNode_def assms(2))
qed

subsection \<open>The inventory as a state machine\<close>

text \<open>
  Its steps are the three operations that change it, successful or not. A new node brings an
  ID no node has (a caller's own or a fresh UUID), and times are set.
\<close>

inductive inventory_step :: "mem_store \<Rightarrow> mem_store \<Rightarrow> bool" where
  add: "(node_ID n = [] \<longrightarrow> fresh \<noteq> [] \<and> fresh \<notin> node_IDs s) \<Longrightarrow>
        (node_ID n \<noteq> [] \<longrightarrow> node_ID n \<notin> node_IDs s) \<Longrightarrow> inventory_step s (AddNode fresh n s)"
| reregister: "node_Name n \<in> set (mkeys (nodes s)) \<Longrightarrow> inventory_step s (AddNode fresh n s)"
| remove: "at \<noteq> 0 \<Longrightarrow> inventory_step s (snd (RemoveNode i at s))"
| rename: "at \<noteq> 0 \<Longrightarrow> inventory_step s (snd (RenameNode i newName at s))"

inductive inventory_reachable :: "mem_store \<Rightarrow> mem_store \<Rightarrow> bool" for s0 where
  start: "inventory_reachable s0 s0"
| step: "inventory_reachable s0 s \<Longrightarrow> inventory_step s t \<Longrightarrow> inventory_reachable s0 t"

lemma inventory_ok_AddNode:
  assumes "inventory_ok s" and "node_ID n = [] \<longrightarrow> fresh \<noteq> [] \<and> fresh \<notin> node_IDs s"
    and "node_ID n \<noteq> [] \<longrightarrow> node_ID n \<notin> node_IDs s"
  shows "inventory_ok (AddNode fresh n s)"
proof (cases "mget (nodes s) (node_Name n)")
  case None
  then have new: "node_Name n \<notin> set (mkeys (nodes s))" by (simp add: map_of_eq_None_iff)
  show ?thesis
    unfolding AddNode_new [OF new] by (rule inventory_ok_attach) (use assms new in auto)
qed (use assms in \<open>auto intro: inventory_ok_AddNode_old\<close>)

lemma inventory_ok_RemoveNode:
  "inventory_ok s \<Longrightarrow> at \<noteq> 0 \<Longrightarrow> inventory_ok (snd (RemoveNode i at s))"
  by (auto simp: RemoveNode_cases dest: nodeByIDLocked_ID intro: inventory_ok_detach split: option.splits)

lemma rename_attach_ok:
  assumes "inventory_ok s" and "nodeByIDLocked s i = Some n" and "newName \<notin> set (mkeys (nodes s))" and "at \<noteq> 0"
  shows "inventory_ok (attach (n\<lparr>node_Name := newName\<rparr>) at (detach n at s))"
proof (rule inventory_ok_attach)
  have n: "nodeByIDLocked s (node_ID n) = Some n"
    using assms(2) nodeByIDLocked_ID by metis
  show "inventory_ok (detach n at s)" by (rule inventory_ok_detach [OF assms(1) n assms(4)])
  show "node_ID (n\<lparr>node_Name := newName\<rparr>) \<notin> node_IDs (detach n at s)"
    using detach_IDs(1) [OF assms(1) n] by simp
  show "node_Name (n\<lparr>node_Name := newName\<rparr>) \<notin> set (mkeys (nodes (detach n at s)))"
    using assms(3) by (auto simp: detach_def AList.delete_eq)
  show "node_ID (n\<lparr>node_Name := newName\<rparr>) \<noteq> []"
    using n nodeByIDLocked_Some [OF assms(1)] inventory_okD(3) [OF assms(1)] by (auto dest: map_of_SomeD)
qed

lemma inventory_ok_RenameNode:
  "inventory_ok s \<Longrightarrow> at \<noteq> 0 \<Longrightarrow> inventory_ok (snd (RenameNode i newName at s))"
  by (simp add: RenameNode_cases inventory_okD(1) rename_attach_ok split: option.split)

lemma inventory_ok_step: "inventory_step s t \<Longrightarrow> inventory_ok s \<Longrightarrow> inventory_ok t"
proof (induction rule: inventory_step.induct)
  case (reregister n s fresh)
  then obtain existing where "mget (nodes s) (node_Name n) = Some existing"
    by (metis map_of_eq_None_iff not_None_eq set_map)
  with reregister show ?case by (auto intro: inventory_ok_AddNode_old)
qed (auto intro: inventory_ok_AddNode inventory_ok_RemoveNode inventory_ok_RenameNode)

lemma inventory_reachable_ok: "inventory_reachable s0 s \<Longrightarrow> inventory_ok s0 \<Longrightarrow> inventory_ok s"
  by (induction rule: inventory_reachable.induct) (auto intro: inventory_ok_step)

subsection \<open>Former names\<close>

definition former_spans :: "string \<Rightarrow> node_name list \<Rightarrow> node_name list" where
  "former_spans name hs = filter (\<lambda>h. nn_Name h = name \<and> \<not> IsZero (nn_Until h)) hs"

lemma latest_span_former:
  "\<forall>h \<in> set hs. nn_NodeID h \<noteq> [] \<Longrightarrow> (case latest of None \<Rightarrow> True | Some l \<Rightarrow> nn_NodeID l \<noteq> []) \<Longrightarrow>
   (case latest_span name latest hs of
      None \<Rightarrow> latest = None \<and> former_spans name hs = []
    | Some h \<Rightarrow> (h \<in> set (former_spans name hs) \<or> latest = Some h) \<and>
        (\<forall>x \<in> set (former_spans name hs). nn_Until x \<le> nn_Until h) \<and>
        (\<forall>l. latest = Some l \<longrightarrow> nn_Until l \<le> nn_Until h))"
proof (induction name latest hs rule: latest_span.induct)
  case (2 name latest h hs)
  let ?take = "nn_Name h = name \<and> \<not> IsZero (nn_Until h) \<and>
    (case latest of None \<Rightarrow> True | Some l \<Rightarrow> nn_NodeID l = [] \<or> nn_Until l < nn_Until h)"
  show ?case
  proof (cases ?take)
    case True
    then show ?thesis using 2 by (auto simp: former_spans_def split: option.splits)
  next
    case False
    have IH: "case latest_span name latest hs of
        None \<Rightarrow> latest = None \<and> former_spans name hs = []
      | Some h' \<Rightarrow> (h' \<in> set (former_spans name hs) \<or> latest = Some h') \<and>
          (\<forall>x \<in> set (former_spans name hs). nn_Until x \<le> nn_Until h') \<and>
          (\<forall>l. latest = Some l \<longrightarrow> nn_Until l \<le> nn_Until h')"
      using 2 False by (simp only: if_False) simp
    have skip: "\<exists>l. latest = Some l \<and> nn_Until h \<le> nn_Until l" if "nn_Name h = name" "\<not> IsZero (nn_Until h)"
      using False that 2(3) by (auto split: option.splits)
    have "latest_span name latest (h # hs) = latest_span name latest hs"
      using False by (simp only: latest_span.simps if_False)
    then show ?thesis
      using IH skip by (auto simp: former_spans_def split: option.splits)
  qed
qed (simp add: former_spans_def split: option.split)

lemma latest_span_Some:
  assumes "\<forall>h \<in> set hs. nn_NodeID h \<noteq> []" and "latest_span name None hs = Some h"
  shows "h \<in> set (former_spans name hs)" and "x \<in> set (former_spans name hs) \<Longrightarrow> nn_Until x \<le> nn_Until h"
  using latest_span_former [OF assms(1), of None name] assms(2) by auto

lemma latest_span_None:
  assumes "\<forall>h \<in> set hs. nn_NodeID h \<noteq> []"
  shows "latest_span name None hs = None \<longleftrightarrow> former_spans name hs = []"
proof
  show "latest_span name None hs = None \<Longrightarrow> former_spans name hs = []"
    using latest_span_former [OF assms, of None name] by simp
next
  assume "former_spans name hs = []"
  then show "latest_span name None hs = None"
    using latest_span_Some(1) [OF assms, of name] by (cases "latest_span name None hs") auto
qed

text \<open>
  The Postgres store answers the same lookup with a query: the closed spans of the name joined
  with the nodes that still exist, ordered by the closing time and then by the sequence number,
  both descending, and the first row of that.
\<close>

fun order_by_until_seq_desc_limit_1 :: "node_name option \<Rightarrow> node_name list \<Rightarrow> node_name option" where
  "order_by_until_seq_desc_limit_1 best [] = best"
| "order_by_until_seq_desc_limit_1 best (h # hs) =
     order_by_until_seq_desc_limit_1
       (case best of None \<Rightarrow> Some h | Some b \<Rightarrow> if nn_Until b \<le> nn_Until h then Some h else Some b) hs"

definition pg_NodeByFormerName :: "mem_store \<Rightarrow> string \<Rightarrow> node option" where
  "pg_NodeByFormerName s name =
     (case order_by_until_seq_desc_limit_1 None
        (filter (\<lambda>h. nodeByIDLocked s (nn_NodeID h) \<noteq> None) (former_spans name (nodeNames s))) of
        None \<Rightarrow> None
      | Some h \<Rightarrow> nodeByIDLocked s (nn_NodeID h))"

lemma order_by_limit:
  "case order_by_until_seq_desc_limit_1 best hs of
      None \<Rightarrow> best = None \<and> hs = []
    | Some h \<Rightarrow> (h \<in> set hs \<or> best = Some h) \<and> (\<forall>x \<in> set hs. nn_Until x \<le> nn_Until h) \<and>
        (\<forall>b. best = Some b \<longrightarrow> nn_Until b \<le> nn_Until h)"
proof (induction best hs rule: order_by_until_seq_desc_limit_1.induct)
  case (2 best h hs)
  then show ?case by (fastforce split: option.splits if_splits)
qed (simp split: option.split)

lemma mem_pg_NodeByFormerName:
  assumes "inventory_ok s"
    and "\<forall>h \<in> set (former_spans name (nodeNames s)). nn_NodeID h \<in> node_IDs s"
    and "inj_on nn_Until (set (former_spans name (nodeNames s)))"
  shows "NodeByFormerName s name = pg_NodeByFormerName s name"
proof -
  let ?F = "former_spans name (nodeNames s)"
  have ids: "\<forall>h \<in> set (nodeNames s). nn_NodeID h \<noteq> []" using inventory_okD(6) [OF assms(1)] by blast
  have present: "nodeByIDLocked s (nn_NodeID h) \<noteq> None" if "h \<in> set ?F" for h
    using assms(2) that by (simp add: nodeByIDLocked_None)
  then have filt: "filter (\<lambda>h. nodeByIDLocked s (nn_NodeID h) \<noteq> None) ?F = ?F"
    by (simp add: filter_True)
  show ?thesis
  proof (cases "latest_span name None (nodeNames s)")
    case None
    moreover from None have "?F = []" using latest_span_None [OF ids] by blast
    ultimately show ?thesis by (simp add: NodeByFormerName_def pg_NodeByFormerName_def)
  next
    case (Some h)
    note h = latest_span_Some [OF ids Some]
    obtain g where g: "order_by_until_seq_desc_limit_1 None ?F = Some g"
      using order_by_limit [of None ?F] h(1) by (cases "order_by_until_seq_desc_limit_1 None ?F") auto
    then have "g \<in> set ?F" "nn_Until h \<le> nn_Until g"
      using order_by_limit [of None ?F] h(1) by auto
    then have "nn_Until g = nn_Until h" using h(2) by (simp add: antisym)
    with \<open>g \<in> set ?F\<close> h(1) assms(3) have "g = h" by (simp add: inj_on_def)
    moreover have "nn_NodeID h \<noteq> []" using h(1) ids by (auto simp: former_spans_def)
    ultimately show ?thesis
      using Some g filt by (simp add: NodeByFormerName_def pg_NodeByFormerName_def)
  qed
qed

text \<open>Closing the spans of a node whose current name is \<open>name\<close> makes it the latest former holder.\<close>

lemma former_spans_close:
  assumes "inventory_ok s" and "nodeByIDLocked s i = Some n"
    and "at \<noteq> 0" and "\<forall>h \<in> set (former_spans (node_Name n) (nodeNames s)). nn_Until h < at"
    and "set hs = set (close_spans i at (nodeNames s)) \<union> X" and "\<forall>x \<in> X. nn_Name x \<noteq> node_Name n \<and> nn_NodeID x \<noteq> []"
  shows "\<exists>h. latest_span (node_Name n) None hs = Some h \<and> nn_NodeID h = i"
proof -
  note ok = inventory_okD [OF assms(1)]
  have n: "(node_Name n, n) \<in> set (nodes s)" "node_ID n = i"
    using assms(1,2) nodeByIDLocked_Some by (auto dest: map_of_SomeD)
  have ids: "\<forall>h \<in> set hs. nn_NodeID h \<noteq> []"
    using assms(5,6) ok(6) by (auto simp: close_spans_def)
  have "(i, node_Name n) \<in># open_pairs (nodeNames s)"
    unfolding ok(5) node_pairs_def using n by force
  then obtain h0 where h0: "h0 \<in> set (nodeNames s)" "nn_Until h0 = 0" "nn_NodeID h0 = i" "nn_Name h0 = node_Name n"
    by (auto simp: open_pairs_def IsZero_def)
  then have new: "h0\<lparr>nn_Until := at\<rparr> \<in> set (former_spans (node_Name n) hs)"
    using assms(3,5) by (force simp: former_spans_def close_spans_def IsZero_def)
  then obtain h where h: "latest_span (node_Name n) None hs = Some h"
    using latest_span_None [OF ids, of "node_Name n"] by (cases "latest_span (node_Name n) None hs") auto
  have "at \<le> nn_Until h" using latest_span_Some(2) [OF ids h new] by simp
  moreover have "nn_NodeID h = i \<or> nn_Until h < at"
    using latest_span_Some(1) [OF ids h] assms(4-6)
    by (auto simp: former_spans_def close_spans_def IsZero_def split: if_splits)
  ultimately show ?thesis using h by auto
qed

subsection \<open>Properties\<close>

lemma inventory_ok_empty: "inventory_ok (New fresh [])"
  by (simp add: inventory_ok_def New_def NewWithCatalog_def open_pairs_def node_pairs_def)


definition example_node :: "string \<Rightarrow> string \<Rightarrow> node" where
  "example_node i name = \<lparr>node_ID = i, node_Name = name, node_Endpoint = ''ca.example:443'',
     node_Role = ''root'', node_AdminCert = [], node_AdminKey = [], node_CACert = []\<rparr>"

definition example_inventory :: mem_store where
  "example_inventory = AddNode ''id-2'' (example_node ''id-2'' ''ca'')
     (snd (RenameNode ''id-1'' ''old-ca'' 10 (AddNode ''id-1'' (example_node [] ''ca'') (New (\<lambda>_. []) []))))"

lemma example_inventory_reachable: "inventory_reachable (New (\<lambda>_. []) []) example_inventory"
  unfolding example_inventory_def
  by (intro inventory_reachable.start
      inventory_reachable.step [OF _ inventory_step.add] inventory_reachable.step [OF _ inventory_step.rename])
    (simp_all add: example_node_def New_def NewWithCatalog_def AddNode_def RenameNode_def
      nodeByIDLocked_def node_IDs_def Let_def)


text \<open>A rename to a free name keeps the node's ID and every other field, the node answers
  to the new name and to its ID, every other node is looked up as before, and the old name now
  leads to the renamed node as its latest former holder.\<close>

theorem RenameNode_effect:
  assumes "inventory_ok s" and "NodeByID s i = Some n" and "node_Name n \<noteq> newName"
    and "Node s newName = None" and "at \<noteq> 0"
    and "\<forall>h \<in> set (former_spans (node_Name n) (nodeNames s)). nn_Until h < at"
  defines "s' \<equiv> snd (RenameNode i newName at s)"
  shows "fst (RenameNode i newName at s) = Inr (n\<lparr>node_Name := newName\<rparr>)
    \<and> NodeByID s' i = Some (n\<lparr>node_Name := newName\<rparr>) \<and> Node s' newName = Some (n\<lparr>node_Name := newName\<rparr>)
    \<and> Node s' (node_Name n) = None
    \<and> (\<forall>name. name \<noteq> newName \<longrightarrow> name \<noteq> node_Name n \<longrightarrow> Node s' name = Node s name)
    \<and> NodeByFormerName s' (node_Name n) = Some (n\<lparr>node_Name := newName\<rparr>)"
proof -
  let ?n = "n\<lparr>node_Name := newName\<rparr>"
  have by_id: "nodeByIDLocked s i = Some n" using assms(2) by (simp add: NodeByID_def)
  have free: "newName \<notin> set (mkeys (nodes s))" using assms(4) by (simp add: Node_def map_of_eq_None_iff)
  have ren: "RenameNode i newName at s = (Inr ?n, attach ?n at (detach n at s))"
    using RenameNode_cases [OF inventory_okD(1) [OF assms(1)], of i newName at] by_id assms(3) free by simp
  then have s': "s' = attach ?n at (detach n at s)" by (simp add: s'_def)
  have ok': "inventory_ok s'"
    unfolding s' by (rule rename_attach_ok [OF assms(1) by_id free assms(5)])
  have get: "mget (nodes s') name = (if name = node_Name n then None else if name = newName then Some ?n else mget (nodes s) name)" for name
    using assms(3,4) by (auto simp: Node_def s' attach_def detach_def map_add_def gomap_simps split: option.splits)
  have i: "node_ID n = i" using by_id by (rule nodeByIDLocked_ID)
  have at_new: "nodeByIDLocked s' i = Some ?n"
    using nodeByIDLocked_Some [OF ok'] get [of newName] assms(3) i by simp
  have "\<exists>h. latest_span (node_Name n) None (nodeNames s') = Some h \<and> nn_NodeID h = i"
    by (rule former_spans_close [OF assms(1) by_id assms(5,6),
          where X = "{\<lparr>nn_NodeID = i, nn_Name = newName, nn_From = at, nn_Until = 0\<rparr>}"])
      (use i assms(3) inventory_okD(3) [OF assms(1)] by_id nodeByIDLocked_Some [OF assms(1)] in
        \<open>auto simp: s' attach_def detach_def dest: map_of_SomeD\<close>)
  then have "NodeByFormerName s' (node_Name n) = Some ?n"
    using at_new i inventory_okD(3) [OF assms(1)] by_id nodeByIDLocked_Some [OF assms(1)]
    by (auto simp: NodeByFormerName_def dest: map_of_SomeD)
  then show ?thesis
    using ren at_new get assms(3) by (simp add: NodeByID_def Node_def)
qed

definition example_renamed :: mem_store where
  "example_renamed = AddNode ''id-1'' (example_node [] ''ca'') (New (\<lambda>_. []) [])"

lemmas example_eval = example_inventory_def example_renamed_def example_node_def New_def NewWithCatalog_def
  AddNode_def RenameNode_def RemoveNode_def NodeByFormerName_def nodeByIDLocked_def close_spans_def
  IsZero_def former_spans_def NodeByID_def Node_def Let_def

lemma example_renamed_ok: "inventory_ok example_renamed"
  by (simp add: inventory_ok_def open_pairs_def node_pairs_def example_eval)

lemma RenameNode_effect_witness:
  "NodeByFormerName (snd (RenameNode ''id-1'' ''old-ca'' 10 example_renamed)) ''ca'' =
     Some (example_node ''id-1'' ''old-ca'')"
proof -
  have n: "NodeByID example_renamed ''id-1'' = Some (example_node ''id-1'' ''ca'')"
    by (simp add: example_eval)
  have "NodeByFormerName (snd (RenameNode ''id-1'' ''old-ca'' 10 example_renamed)) (node_Name (example_node ''id-1'' ''ca'')) =
      Some ((example_node ''id-1'' ''ca'')\<lparr>node_Name := ''old-ca''\<rparr>)"
    using RenameNode_effect [OF example_renamed_ok n, of "''old-ca''" 10] by (simp add: example_eval)
  then show ?thesis by (simp add: example_node_def)
qed

text \<open>While every former holder of a name is still in the inventory and no two of them gave it
  up at the same instant, the in-memory lookup by former name and the Postgres query agree.\<close>

theorem former_name_mem_pg_agree:
  assumes "inventory_ok s"
    and "\<forall>h \<in> set (former_spans name (nodeNames s)). nn_NodeID h \<in> node_IDs s"
    and "inj_on nn_Until (set (former_spans name (nodeNames s)))"
  shows "NodeByFormerName s name = pg_NodeByFormerName s name"
  using assms by (rule mem_pg_NodeByFormerName)

lemma former_name_mem_pg_agree_witness:
  "NodeByFormerName example_inventory ''ca'' = pg_NodeByFormerName example_inventory ''ca''"
  by (rule former_name_mem_pg_agree
      [OF inventory_reachable_ok [OF example_inventory_reachable inventory_ok_empty]])
    (simp_all add: example_eval node_IDs_def)

text \<open>Once the node currently named \<open>name\<close> is removed, the in-memory lookup by former name
  finds no node for \<open>name\<close>, whoever gave the name up in a rename before: the removed node's own
  span hides the earlier holder, who is still in the inventory.\<close>

theorem former_name_hidden_by_removal:
  assumes "inventory_ok s" and "NodeByID s i = Some n" and "at \<noteq> 0"
    and "\<forall>h \<in> set (former_spans (node_Name n) (nodeNames s)). nn_Until h < at"
  shows "NodeByFormerName (snd (RemoveNode i at s)) (node_Name n) = None"
proof -
  have by_id: "nodeByIDLocked s i = Some n" "node_ID n = i"
    using assms(2) nodeByIDLocked_ID by (auto simp: NodeByID_def)
  then have s': "snd (RemoveNode i at s) = detach n at s" by (simp add: RemoveNode_cases)
  have "\<exists>h. latest_span (node_Name n) None (nodeNames (detach n at s)) = Some h \<and> nn_NodeID h = i"
    by (rule former_spans_close [OF assms(1) by_id(1) assms(3,4), where X = "{}"]) (simp_all add: detach_def by_id(2))
  moreover have "nodeByIDLocked (detach n at s) i = None"
    using detach_IDs(1) [OF assms(1), of n at] by_id by (simp add: nodeByIDLocked_None)
  ultimately show ?thesis by (auto simp: s' NodeByFormerName_def)
qed

lemma former_name_hidden_by_removal_witness:
  "NodeByFormerName example_inventory ''ca'' = Some (example_node ''id-1'' ''old-ca'') \<and>
   NodeByFormerName (snd (RemoveNode ''id-2'' 20 example_inventory)) ''ca'' = None \<and>
   pg_NodeByFormerName (snd (RemoveNode ''id-2'' 20 example_inventory)) ''ca'' = Some (example_node ''id-1'' ''old-ca'')"
proof -
  have n: "NodeByID example_inventory ''id-2'' = Some (example_node ''id-2'' ''ca'')"
    by (simp add: example_eval)
  have "NodeByFormerName (snd (RemoveNode ''id-2'' 20 example_inventory)) (node_Name (example_node ''id-2'' ''ca'')) = None"
    by (rule former_name_hidden_by_removal
        [OF inventory_reachable_ok [OF example_inventory_reachable inventory_ok_empty] n])
      (simp_all add: example_eval)
  then show ?thesis
    by (simp add: pg_NodeByFormerName_def example_eval)
qed

end
