(* ===== verification/Approval_Store.thy ===== *)
theory Approval_Store
  imports Memory_Store
begin

text \<open>
  What the approval service relies on in a store: reading an approval, and two updates that
  check and write in one step. The interface is a locale with the documented contract of
  \<^verbatim>\<open>store.Store\<close>; the lemmas proved from it hold for any interleaving of callers, because
  each store operation is one step. The in-memory store is an instance.
\<close>

definition decided :: "string \<Rightarrow> string \<Rightarrow> string \<Rightarrow> string \<Rightarrow> gotime \<Rightarrow> approval \<Rightarrow> approval" where
  "decided status cn serial lvl at a = a\<lparr>appr_Status := status, appr_DecidedByCN := cn,
     appr_DecidedBySerial := serial, appr_DecidedByLevel := lvl, appr_DecidedAt := at\<rparr>"

definition consumed :: "gotime \<Rightarrow> approval \<Rightarrow> approval" where
  "consumed at a = a\<lparr>appr_Status := ApprovalUsed, appr_UsedAt := at\<rparr>"

text \<open>One atomic call on the approvals of a store, and a sequence of them in the order in which
  the store serialised them, with whether each use succeeded for \<open>i\<close>.\<close>

datatype approval_op =
    OpAdd approval
  | OpDecide string string string string string gotime
  | OpUse string gotime

fun count_uses ::
  "(approval \<Rightarrow> 's \<Rightarrow> 's) \<Rightarrow> (string \<Rightarrow> string \<Rightarrow> string \<Rightarrow> string \<Rightarrow> string \<Rightarrow> gotime \<Rightarrow> 's \<Rightarrow> approval option \<times> 's) \<Rightarrow>
   (string \<Rightarrow> gotime \<Rightarrow> 's \<Rightarrow> approval option \<times> 's) \<Rightarrow> string \<Rightarrow> approval_op list \<Rightarrow> 's \<Rightarrow> nat" where
  "count_uses add dec use i [] s = 0"
| "count_uses add dec use i (OpAdd a # ops) s = count_uses add dec use i ops (add a s)"
| "count_uses add dec use i (OpDecide j st cn sn lv at # ops) s =
     count_uses add dec use i ops (snd (dec j st cn sn lv at s))"
| "count_uses add dec use i (OpUse j at # ops) s =
     (if j = i \<and> fst (use j at s) \<noteq> None then 1 else 0) + count_uses add dec use i ops (snd (use j at s))"

text \<open>The operations callers make: a decision approves or denies, and \<open>i\<close> is not raised again
  (its ID is 96 random bits).\<close>

fun ops_for :: "string \<Rightarrow> approval_op list \<Rightarrow> bool" where
  "ops_for i [] = True"
| "ops_for i (OpAdd a # ops) = (appr_ID a \<noteq> i \<and> ops_for i ops)"
| "ops_for i (OpDecide j st cn sn lv at # ops) = ((st = ApprovalApproved \<or> st = ApprovalDenied) \<and> ops_for i ops)"
| "ops_for i (OpUse j at # ops) = ops_for i ops"

locale approval_store =
  fixes get :: "'s \<Rightarrow> string \<Rightarrow> approval option"
    and add :: "approval \<Rightarrow> 's \<Rightarrow> 's"
    and dec :: "string \<Rightarrow> string \<Rightarrow> string \<Rightarrow> string \<Rightarrow> string \<Rightarrow> gotime \<Rightarrow> 's \<Rightarrow> approval option \<times> 's"
    and use :: "string \<Rightarrow> gotime \<Rightarrow> 's \<Rightarrow> approval option \<times> 's"
  assumes get_add: "get (add a s) j = (if j = appr_ID a then Some a else get s j)"
    and dec_some: "get s i = Some a \<Longrightarrow> appr_Status a = ApprovalPending \<Longrightarrow> at < appr_ExpiresAt a \<Longrightarrow>
          fst (dec i st cn sn lv at s) = Some (decided st cn sn lv at a) \<and>
          get (snd (dec i st cn sn lv at s)) j = (if j = i then Some (decided st cn sn lv at a) else get s j)"
    and dec_none: "\<not> (\<exists>a. get s i = Some a \<and> appr_Status a = ApprovalPending \<and> at < appr_ExpiresAt a) \<Longrightarrow>
          dec i st cn sn lv at s = (None, s)"
    and use_some: "get s i = Some a \<Longrightarrow> appr_Status a = ApprovalApproved \<Longrightarrow> at < appr_ExpiresAt a \<Longrightarrow>
          fst (use i at s) = Some (consumed at a) \<and>
          get (snd (use i at s)) j = (if j = i then Some (consumed at a) else get s j)"
    and use_none: "\<not> (\<exists>a. get s i = Some a \<and> appr_Status a = ApprovalApproved \<and> at < appr_ExpiresAt a) \<Longrightarrow>
          use i at s = (None, s)"
begin

definition open_status :: "'s \<Rightarrow> string \<Rightarrow> bool" where
  "open_status s i \<longleftrightarrow> (\<exists>a. get s i = Some a \<and> (appr_Status a = ApprovalPending \<or> appr_Status a = ApprovalApproved))"

lemma open_status_dec:
  assumes "open_status (snd (dec j st cn sn lv at s)) i"
  shows "open_status s i"
proof (cases "\<exists>a. get s j = Some a \<and> appr_Status a = ApprovalPending \<and> at < appr_ExpiresAt a")
  case True
  then obtain a where "get s j = Some a" "appr_Status a = ApprovalPending" "at < appr_ExpiresAt a" by blast
  then show ?thesis
    using dec_some [of s j a at st cn sn lv i] assms by (auto simp: open_status_def split: if_splits)
next
  case False
  then show ?thesis using dec_none [OF False, of st cn sn lv] assms by simp
qed

lemma use_closes:
  assumes "fst (use i at s) \<noteq> None"
  shows "open_status s i" and "\<not> open_status (snd (use i at s)) i"
proof -
  obtain a where a: "get s i = Some a" "appr_Status a = ApprovalApproved" "at < appr_ExpiresAt a"
    using assms use_none [of s i at] by force
  then show "open_status s i" by (auto simp: open_status_def)
  show "\<not> open_status (snd (use i at s)) i"
    using use_some [OF a, of i] by (auto simp: open_status_def consumed_def approval_statuses)
qed

lemma open_status_use:
  assumes "open_status (snd (use j at s)) i"
  shows "open_status s i"
proof (cases "\<exists>a. get s j = Some a \<and> appr_Status a = ApprovalApproved \<and> at < appr_ExpiresAt a")
  case True
  then obtain a where "get s j = Some a" "appr_Status a = ApprovalApproved" "at < appr_ExpiresAt a" by blast
  then show ?thesis
    using use_some [of s j a at i] assms by (auto simp: open_status_def split: if_splits)
next
  case False
  then show ?thesis using use_none [OF False] assms by simp
qed

lemma uses_bound: "ops_for i ops \<Longrightarrow> count_uses add dec use i ops s \<le> (if open_status s i then 1 else 0)"
proof (induction i ops arbitrary: s rule: ops_for.induct)
  case (2 i a ops)
  then have "open_status (add a s) i = open_status s i" by (auto simp: open_status_def get_add)
  moreover have "count_uses add dec use i ops (add a s) \<le> (if open_status (add a s) i then 1 else 0)"
    using 2 by simp
  ultimately show ?case by simp
next
  case (3 i j st cn sn lv at ops)
  have "count_uses add dec use i ops (snd (dec j st cn sn lv at s)) \<le>
      (if open_status (snd (dec j st cn sn lv at s)) i then 1 else 0)"
    using 3 by simp
  then show ?case using open_status_dec [of j st cn sn lv at s i] by (auto split: if_splits)
next
  case (4 i j at ops)
  have rest: "count_uses add dec use i ops (snd (use j at s)) \<le> (if open_status (snd (use j at s)) i then 1 else 0)"
    using 4 by simp
  show ?case
  proof (cases "j = i \<and> fst (use j at s) \<noteq> None")
    case True
    then show ?thesis using rest use_closes [of i at s] by auto
  next
    case False
    then show ?thesis using rest open_status_use [of j at s i] by (auto split: if_splits)
  qed
qed simp

lemma use_SomeD:
  assumes "use i at s = (Some u, s')"
  obtains a where "get s i = Some a" "appr_Status a = ApprovalApproved" "at < appr_ExpiresAt a"
    "u = consumed at a" "\<And>j. get s' j = (if j = i then Some u else get s j)"
proof -
  obtain a where a: "get s i = Some a" "appr_Status a = ApprovalApproved" "at < appr_ExpiresAt a"
    using assms use_none [of s i at] by force
  from that [OF a] use_some [OF a] assms show thesis by simp
qed

lemma dec_SomeD:
  assumes "dec i st cn sn lv at s = (Some d, s')"
  obtains a where "get s i = Some a" "appr_Status a = ApprovalPending" "at < appr_ExpiresAt a"
    "d = decided st cn sn lv at a" "\<And>j. get s' j = (if j = i then Some d else get s j)"
proof -
  obtain a where a: "get s i = Some a" "appr_Status a = ApprovalPending" "at < appr_ExpiresAt a"
    using assms dec_none [of s i at st cn sn lv] by force
  from that [OF a] dec_some [OF a, of st cn sn lv] assms show thesis by simp
qed

lemma at_most_one_use: "ops_for i ops \<Longrightarrow> count_uses add dec use i ops s \<le> 1"
  using uses_bound [of i ops s] by (auto split: if_splits)

end

interpretation mem_approvals: approval_store Approval AddApproval DecideApproval UseApproval
proof
  fix s :: mem_store and a i j st cn sn lv and at :: gotime
  show "Approval (AddApproval a s) j = (if j = appr_ID a then Some a else Approval s j)"
    by (simp add: Approval_def AddApproval_def gomap_simps)
  {
    assume "Approval s i = Some a" "appr_Status a = ApprovalPending" "at < appr_ExpiresAt a"
    then show "fst (DecideApproval i st cn sn lv at s) = Some (decided st cn sn lv at a) \<and>
        Approval (snd (DecideApproval i st cn sn lv at s)) j =
          (if j = i then Some (decided st cn sn lv at a) else Approval s j)"
      by (simp add: Approval_def DecideApproval_def decided_def Let_def gomap_simps)
  next
    assume "\<not> (\<exists>a. Approval s i = Some a \<and> appr_Status a = ApprovalPending \<and> at < appr_ExpiresAt a)"
    then show "DecideApproval i st cn sn lv at s = (None, s)"
      by (auto simp: Approval_def DecideApproval_def split: option.splits)
  next
    assume "Approval s i = Some a" "appr_Status a = ApprovalApproved" "at < appr_ExpiresAt a"
    then show "fst (UseApproval i at s) = Some (consumed at a) \<and>
        Approval (snd (UseApproval i at s)) j = (if j = i then Some (consumed at a) else Approval s j)"
      by (simp add: Approval_def UseApproval_def consumed_def Let_def gomap_simps)
  next
    assume "\<not> (\<exists>a. Approval s i = Some a \<and> appr_Status a = ApprovalApproved \<and> at < appr_ExpiresAt a)"
    then show "UseApproval i at s = (None, s)"
      by (auto simp: Approval_def UseApproval_def split: option.splits)
  }
qed

lemma UseApproval_audit [store_simps]: "audit (snd (UseApproval i at s)) = audit s"
  by (simp add: UseApproval_def Let_def split: option.split)

lemma DecideApproval_audit [store_simps]: "audit (snd (DecideApproval i st cn sn lv at s)) = audit s"
  by (simp add: DecideApproval_def Let_def split: option.split)

end
