(* ===== verification/Audit_Log.thy ===== *)
theory Audit_Log
  imports Memory_Store
begin

text \<open>
  \<^verbatim>\<open>internal/auditlog\<close>: stamping an event with its actor and appending it to the chain, and
  what the chain of hashes is worth: two version 2 logs with the same last hash are the same
  log, or they exhibit a collision of the hash function.
\<close>

definition OutcomeOK :: string where "OutcomeOK = ''ok''"
definition OutcomeDenied :: string where "OutcomeDenied = ''denied''"
definition OutcomeError :: string where "OutcomeError = ''error''"
definition OutcomePending :: string where "OutcomePending = ''pending''"

definition WithCall :: "ctx \<Rightarrow> call \<Rightarrow> ctx" where
  "WithCall c x = c\<lparr>ctx_call := Some x\<rparr>"

definition NewID :: "bytes \<Rightarrow> string" where
  "NewID rand = ''aud-'' @ hex_encode rand"

text \<open>
  What an operation that writes an audit row takes from outside: the hash function, the clock
  and the random bytes of the row's ID.
\<close>

record entropy =
  sha256 :: "bytes \<Rightarrow> bytes"
  clock :: gotime
  rand16 :: bytes

definition stamp_actor :: "ctx \<Rightarrow> audit_event \<Rightarrow> audit_event" where
  "stamp_actor c e =
     (case FromContext c of
        None \<Rightarrow> e
      | Some i \<Rightarrow> e\<lparr>ev_ActorKind := ActorKind i, ev_ActorCN := CN i, ev_ActorSerial := Serial i,
          ev_KeyID := KeyID i, ev_Via := Via i\<rparr>)"

definition stamp_call :: "ctx \<Rightarrow> audit_event \<Rightarrow> audit_event" where
  "stamp_call c e =
     (case ctx_call c of
        None \<Rightarrow> e
      | Some x \<Rightarrow> e\<lparr>ev_Tool := call_Tool x, ev_RequestDigest := call_RequestDigest x,
          ev_ApprovalID := (if ev_ApprovalID e = [] then call_ApprovalID x else ev_ApprovalID e),
          ev_ApproverSerial := (if ev_ApproverSerial e = [] then call_ApproverSerial x else ev_ApproverSerial e)\<rparr>)"

definition fill_event :: "entropy \<Rightarrow> audit_event \<Rightarrow> audit_event" where
  "fill_event en e =
     (let e = (if ev_ID e = [] then e\<lparr>ev_ID := NewID (rand16 en)\<rparr> else e);
          e = (if ev_At e = [] then e\<lparr>ev_At := rfc3339 (clock en)\<rparr> else e)
      in (if ev_Outcome e = [] then e\<lparr>ev_Outcome := OutcomeOK\<rparr> else e))"

definition Record :: "entropy \<Rightarrow> ctx \<Rightarrow> audit_event \<Rightarrow> mem_store \<Rightarrow> audit_event \<times> mem_store" where
  "Record en c e s = AddAuditEvent (sha256 en) (stamp_call c (stamp_actor c (fill_event en e))) s"

subsection \<open>The chain\<close>

fun chain_ok :: "(bytes \<Rightarrow> bytes) \<Rightarrow> string \<Rightarrow> audit_event list \<Rightarrow> bool" where
  "chain_ok sha prev [] = True"
| "chain_ok sha prev (e # es) =
     (ev_PrevHash e = prev \<and> ev_Hash e = HashEvent sha prev e \<and> chain_ok sha (ev_Hash e) es)"

definition chain_end :: "string \<Rightarrow> audit_event list \<Rightarrow> string" where
  "chain_end prev es = (if es = [] then prev else ev_Hash (last es))"

lemma last_hash_chain_end: "last_hash es = chain_end [] es"
  by (simp add: last_hash_def chain_end_def)

lemma chain_end_simps [simp]:
  "chain_end p [] = p" "chain_end p (es @ [e]) = ev_Hash e" "chain_end p (e # es) = chain_end (ev_Hash e) es"
  by (simp_all add: chain_end_def)

lemma chain_ok_snoc:
  "chain_ok sha p (es @ [e]) \<longleftrightarrow>
     chain_ok sha p es \<and> ev_PrevHash e = chain_end p es \<and> ev_Hash e = HashEvent sha (chain_end p es) e"
  by (induction es arbitrary: p) auto

lemma HashEvent_place [simp]:
  "HashEvent sha p (e\<lparr>ev_Hash := h\<rparr>) = HashEvent sha p e"
  "HashEvent sha p (e\<lparr>ev_PrevHash := q\<rparr>) = HashEvent sha p e"
  by (simp_all add: HashEvent_def hash_preimage_def hashed_fields_def)

lemma HashEvent_place2 [simp]:
  "HashEvent sha p (e\<lparr>ev_ChainVersion := v, ev_PrevHash := q, ev_Hash := h\<rparr>) =
   HashEvent sha p (e\<lparr>ev_ChainVersion := v\<rparr>)"
  by (simp add: HashEvent_def hash_preimage_def hashed_fields_def)

lemma AddAuditEvent_audit [store_simps]:
  "audit (snd (AddAuditEvent sha e s)) = audit s @ [fst (AddAuditEvent sha e s)]"
  by (simp add: AddAuditEvent_def Let_def)

lemma AddAuditEvent_frame:
  "snd (AddAuditEvent sha e s) = s\<lparr>audit := audit s @ [fst (AddAuditEvent sha e s)]\<rparr>"
  by (simp add: AddAuditEvent_def Let_def)

lemma chain_ok_AddAuditEvent:
  "chain_ok sha [] (audit s) \<Longrightarrow> chain_ok sha [] (audit (snd (AddAuditEvent sha e s)))"
  by (simp add: AddAuditEvent_def Let_def chain_ok_snoc last_hash_chain_end HashEvent_def
      hash_preimage_def hashed_fields_def)

lemma event_equality:
  assumes "event_content e = event_content e'" and "ev_PrevHash e = ev_PrevHash e'" and "ev_Hash e = ev_Hash e'"
  shows "e = e'"
proof -
  have "e = (event_content e)\<lparr>ev_PrevHash := ev_PrevHash e, ev_Hash := ev_Hash e\<rparr>" for e
    by (simp add: event_content_def)
  with assms show ?thesis by metis
qed

lemma chain_end_no_newline: "chain_ok sha [] es \<Longrightarrow> CHR 10 \<notin> set (chain_end [] es)"
  by (cases es rule: rev_cases) (auto simp: chain_ok_snoc HashEvent_no_newline)

lemma chain_binds:
  assumes "\<And>x. length (sha x) = 32"
    and "chain_ok sha [] log" and "chain_ok sha [] log'"
    and "\<forall>e \<in> set log. 2 \<le> ev_ChainVersion e" and "\<forall>e \<in> set log'. 2 \<le> ev_ChainVersion e"
    and "chain_end [] log = chain_end [] log'"
  shows "log = log' \<or> (\<exists>x y. x \<noteq> y \<and> sha x = sha y)"
  using assms(2-)
proof (induction log arbitrary: log' rule: rev_induct)
  have nonempty: "HashEvent sha p e \<noteq> []" for p e
  proof -
    have "length (HashEvent sha p e) = 64" by (simp add: HashEvent_def assms(1))
    then show ?thesis by auto
  qed
  {
    case Nil
    then show ?case using nonempty nonempty [symmetric] by (cases log' rule: rev_cases) (auto simp: chain_ok_snoc)
  next
    case (snoc e es)
    then obtain es' e' where log': "log' = es' @ [e']"
      using nonempty by (cases log' rule: rev_cases) (auto simp: chain_ok_snoc)
    note prems = snoc.prems [unfolded log' chain_ok_snoc chain_end_simps]
    have "HashEvent sha (chain_end [] es) e = HashEvent sha (chain_end [] es') e'"
      using prems by simp
    from HashEvent_binds [OF this] prems
    consider "chain_end [] es = chain_end [] es'" "event_content e = event_content e'"
      | "\<exists>x y. x \<noteq> y \<and> sha x = sha y"
      by (auto dest: chain_end_no_newline)
    then show ?case
    proof cases
      case 1
      with prems have "e = e'" by (auto intro: event_equality)
      moreover have "es = es' \<or> (\<exists>x y. x \<noteq> y \<and> sha x = sha y)"
        using prems 1 by (intro snoc.IH) auto
      ultimately show ?thesis using log' by auto
    qed blast
  }
qed

lemma Record_frame: "snd (Record en c e s) = s\<lparr>audit := audit s @ [fst (Record en c e s)]\<rparr>"
  unfolding Record_def by (rule AddAuditEvent_frame)

lemma Record_tables [store_simps]:
  "audit (snd (Record en c e s)) = audit s @ [fst (Record en c e s)]"
  "nodes (snd (Record en c e s)) = nodes s" "approvals (snd (Record en c e s)) = approvals s"
  "mcpKeys (snd (Record en c e s)) = mcpKeys s" "oauthCodes (snd (Record en c e s)) = oauthCodes s"
  "oauthRequests (snd (Record en c e s)) = oauthRequests s" "profiles (snd (Record en c e s)) = profiles s"
  by (subst Record_frame; simp)+

lemma chain_ok_Record:
  "chain_ok (sha256 en) [] (audit s) \<Longrightarrow> chain_ok (sha256 en) [] (audit (snd (Record en c e s)))"
  unfolding Record_def by (rule chain_ok_AddAuditEvent)

lemma Record_event:
  "fst (Record en c e s) =
     (stamp_call c (stamp_actor c (fill_event en e)))\<lparr>ev_ChainVersion := AuditChainVersion,
        ev_PrevHash := last_hash (audit s), ev_Hash := ev_Hash (fst (Record en c e s))\<rparr>"
  by (simp add: Record_def AddAuditEvent_def Let_def)

subsection \<open>Properties\<close>

text \<open>Recording an event appends exactly one row, linked to the row before it by its hash,
  and keeps a verifying log verifying; no other table changes.\<close>

theorem Record_extends_chain:
  assumes "chain_ok (sha256 en) [] (audit s)"
  shows "chain_ok (sha256 en) [] (audit (snd (Record en c e s)))
    \<and> snd (Record en c e s) = s\<lparr>audit := audit s @ [fst (Record en c e s)]\<rparr>
    \<and> ev_PrevHash (fst (Record en c e s)) = last_hash (audit s)
    \<and> ev_ChainVersion (fst (Record en c e s)) = AuditChainVersion"
  using chain_ok_Record [OF assms] Record_frame
  by (simp add: Record_def AddAuditEvent_def Let_def)

definition example_entropy :: entropy where
  "example_entropy = \<lparr>sha256 = (\<lambda>x. replicate 32 (char_of (length x))), clock = 63844847999 * Second,
     rand16 = replicate 16 (CHR ''r'')\<rparr>"

lemma Record_extends_chain_witness:
  "chain_ok (sha256 example_entropy) [] (audit (snd (Record example_entropy Background zero_event (New (\<lambda>_. []) []))))"
proof -
  have "chain_ok (sha256 example_entropy) [] (audit (New (\<lambda>_. []) []))"
    by (simp add: New_def NewWithCatalog_def)
  from Record_extends_chain [OF this] show ?thesis by blast
qed


definition constant_entropy :: entropy where
  "constant_entropy = example_entropy\<lparr>sha256 := (\<lambda>_. replicate 32 (CHR ''h''))\<rparr>"

definition example_log :: "string \<Rightarrow> audit_event list" where
  "example_log kind = audit (snd (Record constant_entropy Background (zero_event\<lparr>ev_Kind := kind\<rparr>) (New (\<lambda>_. []) [])))"

lemmas example_log_eval = example_log_def Record_def fill_event_def stamp_call_def stamp_actor_def
  FromContext_def Background_def AddAuditEvent_def New_def NewWithCatalog_def AuditChainVersion_def
  zero_event_def constant_entropy_def Let_def


text \<open>The version is not bound across versions: for every version 2 event there is a different
  event, marked version 1, with the same hash under every hash function, because a version 1
  preimage has no field boundaries.\<close>

definition downgrade :: "audit_event \<Rightarrow> audit_event" where
  "downgrade e = zero_event\<lparr>ev_ChainVersion := 1, ev_ID := tl (concat (map netstring (hashed_fields e))),
     ev_PrevHash := ev_PrevHash e, ev_Hash := ev_Hash e\<rparr>"

theorem HashEvent_version_confusion:
  assumes "2 \<le> ev_ChainVersion e"
  shows "HashEvent sha prev (downgrade e) = HashEvent sha prev e \<and> event_content (downgrade e) \<noteq> event_content e"
proof -
  have nl: "[CHR 10] @ tl (concat (map netstring (hashed_fields e))) = concat (map netstring (hashed_fields e))"
    by (simp add: hashed_fields_def netstring_def)
  have "hash_preimage prev (downgrade e) = hash_preimage prev e"
    using assms nl by (simp add: hash_preimage_def downgrade_def zero_event_def)
  moreover have "ev_ChainVersion (event_content (downgrade e)) \<noteq> ev_ChainVersion (event_content e)"
    using assms by (simp add: event_content_def downgrade_def)
  ultimately show ?thesis by (auto simp: HashEvent_def)
qed

lemma HashEvent_version_confusion_witness:
  "let e = zero_event\<lparr>ev_ChainVersion := 2\<rparr>
   in HashEvent id [] (downgrade e) = HashEvent id [] e \<and> event_content (downgrade e) \<noteq> event_content e"
  unfolding Let_def by (rule HashEvent_version_confusion) simp

end
