(* ===== verification/Approval_Service.thy ===== *)
theory Approval_Service
  imports Approval_Store Audit_Log
begin

text \<open>
  \<^verbatim>\<open>internal/approval\<close>: raising, deciding and using the step-up approvals that stand between
  an MCP tool call and a high-risk operation. \<open>Decide\<close> and \<open>Use\<close> read the approval and update
  it in two store calls; other requests may run in between, so the store as it was read
  (\<open>rd\<close>) and the store the update runs on (\<open>s\<close>) are separate arguments. A call nothing
  interferes with has both equal.
\<close>

definition DefaultTTL :: duration where "DefaultTTL = 15 * Minute"

definition ttl :: "duration \<Rightarrow> duration" where
  "ttl cfg = (if cfg > 0 then cfg else DefaultTTL)"

definition TargetKind :: string where "TargetKind = ''approval''"

datatype approval_error =
    ErrNotFound
  | ErrBadStatus
  | ErrNeedsCert
  | ErrNotPending "string option"  \<comment> \<open>the status it has, where the message names it\<close>
  | ErrStoredLevel authz_error
  | ErrApproverLevel
  | ErrAwaiting
  | ErrDenied
  | ErrExpired
  | ErrUsed
  | ErrMismatch
  | ErrKeyLevel

definition Status :: "approval \<Rightarrow> gotime \<Rightarrow> string" where
  "Status a now =
     (if (appr_Status a = ApprovalPending \<or> appr_Status a = ApprovalApproved) \<and> \<not> now < appr_ExpiresAt a
      then ApprovalExpired else appr_Status a)"

definition newID :: "bytes \<Rightarrow> string" where
  "newID rand = ''apr-'' @ hex_encode rand"

definition Request ::
  "entropy \<Rightarrow> bytes \<Rightarrow> gotime \<Rightarrow> duration \<Rightarrow> ctx \<Rightarrow> identity \<Rightarrow> string \<Rightarrow> string \<Rightarrow> string \<Rightarrow> level \<Rightarrow>
   mem_store \<Rightarrow> approval \<times> mem_store" where
  "Request en rand now TTL c requester tool digest summary required s =
     (let a = \<lparr>appr_ID = newID rand, appr_Tool = tool, appr_Summary = summary, appr_RequestDigest = digest,
            appr_RequestedByCN = CN requester, appr_RequestedBySerial = Serial requester,
            appr_KeyID = KeyID requester, appr_RequiredLevel = Token required,
            appr_CreatedAt = now, appr_ExpiresAt = now + ttl TTL, appr_Status = ApprovalPending,
            appr_DecidedByCN = [], appr_DecidedBySerial = [], appr_DecidedByLevel = [],
            appr_DecidedAt = 0, appr_UsedAt = 0\<rparr>;
          s = AddApproval a s;
          (_, s) = Record en (NewContext c requester) (zero_event\<lparr>
            ev_Kind := ''approval-requested'',
            ev_Summary := ''Approval '' @ appr_ID a @ '' requested for '' @ tool @ '': '' @ summary,
            ev_TargetKind := TargetKind, ev_TargetPath := ''/approvals/'' @ appr_ID a,
            ev_Tool := tool, ev_RequestDigest := digest, ev_Outcome := OutcomePending,
            ev_ApprovalID := appr_ID a\<rparr>) s
      in (a, s))"

definition Get :: "gotime \<Rightarrow> mem_store \<Rightarrow> string \<Rightarrow> approval option" where
  "Get now s i = map_option (\<lambda>a. a\<lparr>appr_Status := Status a now\<rparr>) (Approval s i)"

definition StatusAll :: string where "StatusAll = ''all''"

definition List :: "gotime \<Rightarrow> mem_store \<Rightarrow> string \<Rightarrow> approval_error + approval list" where
  "List now s filter_status =
     (let status = (if filter_status = StatusAll then [] else filter_status)
      in if status \<notin> {[], ApprovalPending, ApprovalApproved, ApprovalDenied, ApprovalExpired, ApprovalUsed}
         then Inl ErrBadStatus
         else Inr (filter (\<lambda>a. status = [] \<or> appr_Status a = status)
                (map (\<lambda>a. a\<lparr>appr_Status := Status a now\<rparr>) (Approvals s))))"

definition ForKey :: "gotime \<Rightarrow> mem_store \<Rightarrow> string \<Rightarrow> approval list" where
  "ForKey now s keyID =
     map (\<lambda>a. a\<lparr>appr_Status := Status a now\<rparr>) (filter (\<lambda>a. appr_KeyID a = keyID) (Approvals s))"

definition Decide ::
  "entropy \<Rightarrow> gotime \<Rightarrow> ctx \<Rightarrow> identity \<Rightarrow> string \<Rightarrow> bool \<Rightarrow> mem_store \<Rightarrow> mem_store \<Rightarrow>
   (approval_error + approval) \<times> mem_store" where
  "Decide en now c decider i approve rd s =
     (if KeyID decider \<noteq> [] then (Inl ErrNeedsCert, s)
      else case Approval rd i of
        None \<Rightarrow> (Inl ErrNotFound, s)
      | Some a \<Rightarrow>
          if Status a now \<noteq> ApprovalPending then (Inl (ErrNotPending (Some (Status a now))), s)
          else case LevelFromToken (appr_RequiredLevel a) of
            Inl e \<Rightarrow> (Inl (ErrStoredLevel e), s)
          | Inr required \<Rightarrow>
              (let c = NewContext c decider
               in if Level decider < required then
                    (Inl ErrApproverLevel, snd (Record en c (zero_event\<lparr>
                       ev_Kind := ''approval-decide-refused'',
                       ev_Summary := ''Refused a decision on approval '' @ i @ '': it needs '' @
                         appr_RequiredLevel a @ '' level, the decider is '' @ Token (Level decider),
                       ev_TargetKind := TargetKind, ev_TargetPath := ''/approvals/'' @ i,
                       ev_Tool := appr_Tool a, ev_RequestDigest := appr_RequestDigest a,
                       ev_Outcome := OutcomeDenied, ev_ApprovalID := i\<rparr>) s))
                  else
                    (let (status, kind, verb) =
                           (if approve then (ApprovalApproved, ''approval-approved'', ''Approved'')
                            else (ApprovalDenied, ''approval-denied'', ''Denied''))
                     in case DecideApproval i status (CN decider) (Serial decider) (Token (Level decider)) now s of
                          (None, s) \<Rightarrow> (Inl (ErrNotPending None), s)
                        | (Some d, s) \<Rightarrow>
                            (Inr d, snd (Record en c (zero_event\<lparr>
                               ev_Kind := kind,
                               ev_Summary := verb @ '' approval '' @ i @ '' for '' @ appr_Tool a @
                                 '' requested by '' @ appr_RequestedByCN a @ '' ('' @ appr_RequestedBySerial a @
                                 '') with key '' @ appr_KeyID a @ '': '' @ appr_Summary a,
                               ev_TargetKind := TargetKind, ev_TargetPath := ''/approvals/'' @ i,
                               ev_Tool := appr_Tool a, ev_RequestDigest := appr_RequestDigest a,
                               ev_ApprovalID := i, ev_ApproverSerial := Serial decider\<rparr>) s)))))"

definition statusErr :: "string \<Rightarrow> approval_error option" where
  "statusErr status =
     (if status = ApprovalApproved then None
      else if status = ApprovalPending then Some ErrAwaiting
      else if status = ApprovalDenied then Some ErrDenied
      else if status = ApprovalExpired then Some ErrExpired
      else Some ErrUsed)"

text \<open>The zero approval the store returns for an unknown ID has the empty status.\<close>

definition latest_status :: "mem_store \<Rightarrow> string \<Rightarrow> gotime \<Rightarrow> string" where
  "latest_status s i now = (case Approval s i of None \<Rightarrow> [] | Some a \<Rightarrow> Status a now)"

definition Use ::
  "entropy \<Rightarrow> gotime \<Rightarrow> ctx \<Rightarrow> identity \<Rightarrow> string \<Rightarrow> string \<Rightarrow> string \<Rightarrow> level \<Rightarrow> mem_store \<Rightarrow> mem_store \<Rightarrow>
   (approval_error + approval) \<times> mem_store" where
  "Use en now c caller i tool digest minl rd s =
     (case Approval rd i of
        None \<Rightarrow> (Inl ErrNotFound, s)
      | Some a \<Rightarrow>
          if appr_KeyID a \<noteq> KeyID caller \<or> appr_Tool a \<noteq> tool \<or> appr_RequestDigest a \<noteq> digest
          then (Inl ErrMismatch, s)
          else case statusErr (Status a now) of
            Some e \<Rightarrow> (Inl e, s)
          | None \<Rightarrow>
              if Level caller < minl then (Inl ErrKeyLevel, s)
              else case LevelFromToken (appr_DecidedByLevel a) of
                Inl _ \<Rightarrow> (Inl ErrApproverLevel, s)
              | Inr approver \<Rightarrow>
                  if approver < minl then (Inl ErrApproverLevel, s)
                  else case UseApproval i now s of
                    (None, s) \<Rightarrow>
                      (case statusErr (latest_status s i now) of
                         Some e \<Rightarrow> (Inl e, s)
                       | None \<Rightarrow> (Inl ErrUsed, s))
                  | (Some used, s) \<Rightarrow>
                      (Inr used, snd (Record en (NewContext c caller) (zero_event\<lparr>
                         ev_Kind := ''approval-used'',
                         ev_Summary := ''Approval '' @ i @ '' used for '' @ tool @ '' (approved by '' @
                           appr_DecidedByCN a @ '')'',
                         ev_TargetKind := TargetKind, ev_TargetPath := ''/approvals/'' @ i,
                         ev_Tool := tool, ev_RequestDigest := digest, ev_ApprovalID := i,
                         ev_ApproverSerial := appr_DecidedBySerial a\<rparr>) s)))"

subsection \<open>What a success means\<close>

lemma Approval_Record [store_simps, simp]: "Approval (snd (Record en c e s)) j = Approval s j"
  by (simp add: Approval_def Record_tables)

lemma statusErr_None: "statusErr st = None \<longleftrightarrow> st = ApprovalApproved"
  by (simp add: statusErr_def)

lemma Status_Approved: "Status a now = ApprovalApproved \<longleftrightarrow> appr_Status a = ApprovalApproved \<and> now < appr_ExpiresAt a"
  by (auto simp: Status_def approval_statuses)

lemma Status_Pending: "Status a now = ApprovalPending \<longleftrightarrow> appr_Status a = ApprovalPending \<and> now < appr_ExpiresAt a"
  by (auto simp: Status_def approval_statuses)

lemma Use_Inr:
  assumes "Use en now c caller i tool digest minl rd s = (Inr u, s')"
  obtains a lvl s1 where "Approval rd i = Some a"
    "appr_KeyID a = KeyID caller" "appr_Tool a = tool" "appr_RequestDigest a = digest"
    "appr_Status a = ApprovalApproved" "now < appr_ExpiresAt a" "minl \<le> Level caller"
    "LevelFromToken (appr_DecidedByLevel a) = Inr lvl" "minl \<le> lvl"
    "UseApproval i now s = (Some u, s1)" "\<And>j. Approval s' j = Approval s1 j"
    "\<exists>e. audit s' = audit s1 @ [e]"
  using assms
  by (auto simp: Use_def statusErr_None Status_Approved Record_tables not_less
      split: option.splits if_splits sum.splits prod.splits)

lemma Decide_Inr:
  assumes "Decide en now c decider i approve rd s = (Inr d, s')"
  obtains a lvl s1 where "KeyID decider = []" "Approval rd i = Some a"
    "appr_Status a = ApprovalPending" "now < appr_ExpiresAt a"
    "LevelFromToken (appr_RequiredLevel a) = Inr lvl" "lvl \<le> Level decider"
    "DecideApproval i (if approve then ApprovalApproved else ApprovalDenied) (CN decider) (Serial decider)
       (Token (Level decider)) now s = (Some d, s1)" "\<And>j. Approval s' j = Approval s1 j"
    "\<exists>e. audit s' = audit s1 @ [e]"
  using assms
  by (auto simp: Decide_def Status_Pending Record_tables not_less Let_def
      split: option.splits if_splits sum.splits prod.splits)

subsection \<open>Properties\<close>

text \<open>C1: whatever requests, decisions and uses other callers interleave, in whatever order the store
  serialises them, an approval lets at most one call run.\<close>

theorem approval_used_at_most_once:
  assumes "ops_for i ops"
  shows "count_uses AddApproval DecideApproval UseApproval i ops s \<le> 1"
  using assms by (rule mem_approvals.at_most_one_use)

definition example_approval :: approval where
  "example_approval = \<lparr>appr_ID = ''apr-1'', appr_Tool = ''cert_revoke'', appr_Summary = ''Revoke'',
     appr_RequestDigest = ''d'', appr_RequestedByCN = ''op'', appr_RequestedBySerial = ''01'', appr_KeyID = ''mk-1'',
     appr_RequiredLevel = ''operator'', appr_CreatedAt = 100, appr_ExpiresAt = 200, appr_Status = ApprovalPending,
     appr_DecidedByCN = [], appr_DecidedBySerial = [], appr_DecidedByLevel = [], appr_DecidedAt = 0, appr_UsedAt = 0\<rparr>"

definition example_ops :: "approval_op list" where
  "example_ops = [OpDecide ''apr-1'' ApprovalApproved ''adm'' ''02'' ''admin'' 110, OpUse ''apr-1'' 120, OpUse ''apr-1'' 121]"

lemma approval_used_at_most_once_witness:
  "count_uses AddApproval DecideApproval UseApproval ''apr-1'' example_ops
     (AddApproval example_approval (New (\<lambda>_. []) [])) = 1"
proof -
  have "ops_for ''apr-1'' example_ops" by (simp add: example_ops_def)
  from approval_used_at_most_once [OF this]
  have "count_uses AddApproval DecideApproval UseApproval ''apr-1'' example_ops
     (AddApproval example_approval (New (\<lambda>_. []) [])) \<le> 1" .
  moreover have "0 < count_uses AddApproval DecideApproval UseApproval ''apr-1'' example_ops
     (AddApproval example_approval (New (\<lambda>_. []) []))"
    by (simp add: example_ops_def example_approval_def AddApproval_def DecideApproval_def UseApproval_def
        New_def NewWithCatalog_def Let_def)
  ultimately show ?thesis by simp
qed

text \<open>C13: a use succeeds only for the key, tool and request digest the approval was raised for, while it
  is approved and unexpired both when it is read and when it is consumed, for a caller at or above the
  tool's level and with an approver who was; it leaves the approval used and writes one audit row.\<close>

theorem Use_sound:
  assumes "Use en now c caller i tool digest minl rd s = (Inr u, s')"
  shows "(\<exists>a lvl. Approval rd i = Some a \<and> appr_KeyID a = KeyID caller \<and> appr_Tool a = tool \<and>
      appr_RequestDigest a = digest \<and> Status a now = ApprovalApproved \<and>
      minl \<le> Level caller \<and> LevelFromToken (appr_DecidedByLevel a) = Inr lvl \<and> minl \<le> lvl) \<and>
    (\<exists>b. Approval s i = Some b \<and> Status b now = ApprovalApproved \<and>
      u = consumed now b \<and> Approval s' i = Some u \<and> (\<forall>j. j \<noteq> i \<longrightarrow> Approval s' j = Approval s j)) \<and>
    (\<exists>e. audit s' = audit s @ [e])"
proof (rule Use_Inr [OF assms])
  fix a lvl s1
  assume a: "Approval rd i = Some a" "appr_KeyID a = KeyID caller" "appr_Tool a = tool"
    "appr_RequestDigest a = digest" "appr_Status a = ApprovalApproved" "now < appr_ExpiresAt a"
    "minl \<le> Level caller" "LevelFromToken (appr_DecidedByLevel a) = Inr lvl" "minl \<le> lvl"
    and use: "UseApproval i now s = (Some u, s1)" and rest: "\<And>j. Approval s' j = Approval s1 j"
    and log: "\<exists>e. audit s' = audit s1 @ [e]"
  have "audit s1 = audit s" using UseApproval_audit [of i now s] use by simp
  moreover obtain b where "Approval s i = Some b" "appr_Status b = ApprovalApproved" "now < appr_ExpiresAt b"
    "u = consumed now b" "\<And>j. Approval s1 j = (if j = i then Some u else Approval s j)"
    using mem_approvals.use_SomeD [OF use] by blast
  ultimately show ?thesis using a log rest by (simp add: Status_Approved)
qed

definition example_key :: identity where
  "example_key = zero_identity\<lparr>CN := ''op'', Serial := ''01'', Level := LevelOperator, Via := ViaMCP, KeyID := ''mk-1''\<rparr>"

definition example_admin :: identity where
  "example_admin = zero_identity\<lparr>CN := ''adm'', Serial := ''02'', Level := LevelAdmin, Via := ViaWeb\<rparr>"

definition example_approved :: mem_store where
  "example_approved = AddApproval (decided ApprovalApproved ''adm'' ''02'' ''admin'' 110 example_approval) (New (\<lambda>_. []) [])"

lemmas approval_eval = example_approved_def example_approval_def example_key_def example_admin_def zero_identity_def
  decided_def consumed_def AddApproval_def Approval_def UseApproval_def DecideApproval_def New_def NewWithCatalog_def
  statusErr_def Status_def approval_statuses LevelFromToken_def level_defs Let_def

lemma Use_sound_witness:
  "Status (the (Approval (snd (Use constant_entropy 120 Background example_key ''apr-1'' ''cert_revoke'' ''d''
     LevelOperator example_approved example_approved)) ''apr-1'')) 120 = ApprovalUsed"
proof -
  have "\<exists>u s'. Use constant_entropy 120 Background example_key ''apr-1'' ''cert_revoke'' ''d'' LevelOperator
      example_approved example_approved = (Inr u, s')"
    by (simp add: Use_def approval_eval)
  then obtain u s' where u: "Use constant_entropy 120 Background example_key ''apr-1'' ''cert_revoke'' ''d''
      LevelOperator example_approved example_approved = (Inr u, s')" by blast
  from Use_sound [OF u] have "Approval s' ''apr-1'' = Some (consumed 120 (the (Approval example_approved ''apr-1'')))"
    by auto
  then show ?thesis by (simp add: u Status_def consumed_def approval_statuses)
qed

text \<open>C14: a decision is recorded only for a caller that came with an operator certificate, at or above
  the approval's required level, on an approval that is pending and unexpired when it is read and when
  it is written; the decider and the level they had are stored with it.\<close>

theorem Decide_sound:
  assumes "Decide en now c decider i approve rd s = (Inr d, s')"
  shows "KeyID decider = [] \<and>
    (\<exists>a lvl. Approval rd i = Some a \<and> Status a now = ApprovalPending \<and>
       LevelFromToken (appr_RequiredLevel a) = Inr lvl \<and> lvl \<le> Level decider) \<and>
    (\<exists>b. Approval s i = Some b \<and> Status b now = ApprovalPending \<and>
       d = decided (if approve then ApprovalApproved else ApprovalDenied) (CN decider) (Serial decider)
             (Token (Level decider)) now b \<and>
       Approval s' i = Some d \<and> (\<forall>j. j \<noteq> i \<longrightarrow> Approval s' j = Approval s j)) \<and>
    (\<exists>e. audit s' = audit s @ [e])"
proof (rule Decide_Inr [OF assms])
  fix a lvl s1
  assume a: "KeyID decider = []" "Approval rd i = Some a" "appr_Status a = ApprovalPending" "now < appr_ExpiresAt a"
    "LevelFromToken (appr_RequiredLevel a) = Inr lvl" "lvl \<le> Level decider"
    and dec: "DecideApproval i (if approve then ApprovalApproved else ApprovalDenied) (CN decider) (Serial decider)
       (Token (Level decider)) now s = (Some d, s1)" and rest: "\<And>j. Approval s' j = Approval s1 j"
    and log: "\<exists>e. audit s' = audit s1 @ [e]"
  have "audit s1 = audit s" using arg_cong [OF dec, of "\<lambda>x. audit (snd x)"] by (simp add: DecideApproval_audit)
  moreover obtain b where "Approval s i = Some b" "appr_Status b = ApprovalPending" "now < appr_ExpiresAt b"
    "d = decided (if approve then ApprovalApproved else ApprovalDenied) (CN decider) (Serial decider)
       (Token (Level decider)) now b" "\<And>j. Approval s1 j = (if j = i then Some d else Approval s j)"
    using mem_approvals.dec_SomeD [OF dec] by blast
  ultimately show ?thesis using a log rest by (simp add: Status_Pending)
qed

lemma Decide_sound_witness:
  "Approval (snd (Decide constant_entropy 110 Background example_admin ''apr-1'' True
       (AddApproval example_approval (New (\<lambda>_. []) [])) (AddApproval example_approval (New (\<lambda>_. []) [])))) ''apr-1''
   = Some (decided ApprovalApproved ''adm'' ''02'' ''admin'' 110 example_approval)"
proof -
  let ?s = "AddApproval example_approval (New (\<lambda>_. []) [])"
  have "\<exists>d s'. Decide constant_entropy 110 Background example_admin ''apr-1'' True ?s ?s = (Inr d, s')"
    by (simp add: Decide_def approval_eval)
  then obtain d s' where d: "Decide constant_entropy 110 Background example_admin ''apr-1'' True ?s ?s = (Inr d, s')"
    by blast
  have stored: "Approval ?s ''apr-1'' = Some example_approval" by (simp add: approval_eval)
  from Decide_sound [OF d] have "Approval s' ''apr-1'' =
      Some (decided ApprovalApproved (CN example_admin) (Serial example_admin) (Token (Level example_admin)) 110 example_approval)"
    unfolding stored by auto
  then show ?thesis unfolding d by (simp add: example_admin_def Token_def level_defs)
qed

subsection \<open>The whole round\<close>

lemma Request_stored:
  "Approval (snd (Request en rand now TTL c requester tool digest summary required s)) (newID rand) =
     Some (fst (Request en rand now TTL c requester tool digest summary required s))"
  by (simp add: Request_def Let_def split_beta mem_approvals.get_add)

lemma Request_fields:
  defines "a en rand now TTL c requester tool digest summary required s \<equiv>
    fst (Request en rand now TTL c requester tool digest summary required s)"
  shows "appr_ID (a en rand now TTL c requester tool digest summary required s) = newID rand"
    "appr_Status (a en rand now TTL c requester tool digest summary required s) = ApprovalPending"
    "appr_KeyID (a en rand now TTL c requester tool digest summary required s) = KeyID requester"
    "appr_Tool (a en rand now TTL c requester tool digest summary required s) = tool"
    "appr_RequestDigest (a en rand now TTL c requester tool digest summary required s) = digest"
    "appr_RequiredLevel (a en rand now TTL c requester tool digest summary required s) = Token required"
    "appr_ExpiresAt (a en rand now TTL c requester tool digest summary required s) = now + ttl TTL"
  by (simp_all add: a_def Request_def Let_def split_beta)

lemma Decide_approves:
  assumes "Approval s i = Some a" and "KeyID decider = []" and "appr_Status a = ApprovalPending" and "now < appr_ExpiresAt a"
    and "LevelFromToken (appr_RequiredLevel a) = Inr required" and "required \<le> Level decider"
  shows "\<exists>s'. Decide en now c decider i True s s =
      (Inr (decided ApprovalApproved (CN decider) (Serial decider) (Token (Level decider)) now a), s') \<and>
    Approval s' i = Some (decided ApprovalApproved (CN decider) (Serial decider) (Token (Level decider)) now a)"
proof -
  let ?d = "decided ApprovalApproved (CN decider) (Serial decider) (Token (Level decider)) now a"
  obtain s1 where dec: "DecideApproval i ApprovalApproved (CN decider) (Serial decider) (Token (Level decider)) now s = (Some ?d, s1)"
    and get: "Approval s1 i = Some ?d"
    using mem_approvals.dec_some [OF assms(1,3,4), of ApprovalApproved "CN decider" "Serial decider" "Token (Level decider)" i]
    by (metis prod.collapse)
  show ?thesis
    using assms dec get by (simp add: Decide_def Status_Pending [THEN iffD2] Let_def)
qed

lemma Use_runs:
  assumes "Approval s i = Some a" and "appr_KeyID a = KeyID caller" and "appr_Tool a = tool" and "appr_RequestDigest a = digest"
    and "appr_Status a = ApprovalApproved" and "now < appr_ExpiresAt a" and "minl \<le> Level caller"
    and "LevelFromToken (appr_DecidedByLevel a) = Inr lvl" and "minl \<le> lvl"
  shows "\<exists>s'. Use en now c caller i tool digest minl s s = (Inr (consumed now a), s') \<and> Approval s' i = Some (consumed now a)"
proof -
  obtain s1 where use: "UseApproval i now s = (Some (consumed now a), s1)" and get: "Approval s1 i = Some (consumed now a)"
    using mem_approvals.use_some [OF assms(1,5,6), of i] by (metis prod.collapse)
  have "statusErr (Status a now) = None"
    using assms(5,6) by (simp add: statusErr_None Status_Approved)
  then show ?thesis using assms use get by (simp add: Use_def)
qed

lemma Use_used:
  assumes "Approval s i = Some a" and "appr_KeyID a = KeyID caller" and "appr_Tool a = tool" and "appr_RequestDigest a = digest"
    and "appr_Status a = ApprovalUsed"
  shows "fst (Use en now c caller i tool digest minl s s') = Inl ErrUsed"
proof -
  have "statusErr (Status a now) = Some ErrUsed"
    using assms(5) by (simp add: statusErr_def Status_def approval_statuses)
  then show ?thesis using assms by (simp add: Use_def)
qed

text \<open>The sequence of calls of one round: request, approve, use, and a second use.\<close>

definition approval_round ::
  "entropy \<Rightarrow> bytes \<Rightarrow> duration \<Rightarrow> ctx \<Rightarrow> identity \<Rightarrow> identity \<Rightarrow> string \<Rightarrow> string \<Rightarrow> string \<Rightarrow> level \<Rightarrow> level \<Rightarrow>
   gotime \<Rightarrow> gotime \<Rightarrow> gotime \<Rightarrow> gotime \<Rightarrow> mem_store \<Rightarrow>
   (approval_error + approval) \<times> (approval_error + approval) \<times> (approval_error + approval)" where
  "approval_round en rand TTL c requester decider tool digest summary required minl t0 t1 t2 t3 s =
     (let s1 = snd (Request en rand t0 TTL c requester tool digest summary required s);
          r1 = Decide en t1 c decider (newID rand) True s1 s1;
          r2 = Use en t2 c requester (newID rand) tool digest minl (snd r1) (snd r1);
          r3 = Use en t3 c requester (newID rand) tool digest minl (snd r2) (snd r2)
      in (fst r1, fst r2, fst r3))"

text \<open>An approval raised by a key, approved in time by a certificate holder at or above its level,
  and used in time by that key with the same tool and request runs the call once; a second use is
  refused as already used, at any time.\<close>

theorem approval_round_trip:
  assumes "valid_level required" and "KeyID decider = []" and "required \<le> Level decider" and "valid_level (Level decider)"
    and "minl \<le> required" and "minl \<le> Level requester"
    and "t1 < t0 + ttl TTL" and "t2 < t0 + ttl TTL"
  shows "\<exists>d u. approval_round en rand TTL c requester decider tool digest summary required minl t0 t1 t2 t3 s =
    (Inr d, Inr u, Inl ErrUsed)"
proof -
  define s1 where "s1 = snd (Request en rand t0 TTL c requester tool digest summary required s)"
  define s2 where "s2 = snd (Decide en t1 c decider (newID rand) True s1 s1)"
  define s3 where "s3 = snd (Use en t2 c requester (newID rand) tool digest minl s2 s2)"
  let ?a = "fst (Request en rand t0 TTL c requester tool digest summary required s)"
  let ?d = "decided ApprovalApproved (CN decider) (Serial decider) (Token (Level decider)) t1 ?a"
  have a: "Approval s1 (newID rand) = Some ?a" unfolding s1_def by (rule Request_stored)
  have d: "fst (Decide en t1 c decider (newID rand) True s1 s1) = Inr ?d" "Approval s2 (newID rand) = Some ?d"
    using Decide_approves [OF a assms(2), of t1 required en c] assms
    by (auto simp: Request_fields LevelFromToken_Token s2_def)
  have u: "fst (Use en t2 c requester (newID rand) tool digest minl s2 s2) = Inr (consumed t2 ?d)"
    "Approval s3 (newID rand) = Some (consumed t2 ?d)"
    using Use_runs [OF d(2), of requester tool digest t2 minl "Level decider" en c] assms
    by (auto simp: Request_fields LevelFromToken_Token decided_def s3_def)
  have "fst (Use en t3 c requester (newID rand) tool digest minl s3 s3) = Inl ErrUsed"
    using Use_used [OF u(2), of requester tool digest] by (simp add: decided_def consumed_def Request_fields)
  with d(1) u(1) show ?thesis by (simp add: approval_round_def Let_def s1_def s2_def s3_def)
qed

lemma approval_round_trip_witness:
  "\<exists>d u. approval_round constant_entropy ''abc'' 0 Background example_key example_admin ''cert_revoke'' ''d'' ''Revoke''
     LevelOperator LevelOperator 100 110 120 130 (New (\<lambda>_. []) []) = (Inr d, Inr u, Inl ErrUsed)"
  by (rule approval_round_trip)
    (simp_all add: valid_level_def example_admin_def example_key_def zero_identity_def level_defs ttl_def DefaultTTL_def
      Minute_def Second_def)

end
