(* ===== verification/Go_Base64.thy ===== *)
theory Go_Base64
  imports Go_Lib
begin

text \<open>
  \<^verbatim>\<open>base64.RawURLEncoding\<close>: the URL-safe alphabet without padding, its decoder, and the
  strict decoder that refuses non-zero trailing bits. As in Go, both decoders skip carriage
  returns and newlines.
\<close>

definition b64_alphabet :: string where
  "b64_alphabet = ''ABCDEFGHIJKLMNOPQRSTUVWXYZabcdefghijklmnopqrstuvwxyz0123456789-_''"

definition b64_char :: "nat \<Rightarrow> char" where
  "b64_char n = b64_alphabet ! n"

fun index_of :: "'a \<Rightarrow> 'a list \<Rightarrow> nat option" where
  "index_of x [] = None"
| "index_of x (y # ys) = (if x = y then Some 0 else map_option Suc (index_of x ys))"

definition b64_val :: "char \<Rightarrow> nat option" where
  "b64_val c = index_of c b64_alphabet"

fun b64_groups :: "nat list \<Rightarrow> nat list" where
  "b64_groups [] = []"
| "b64_groups [a] = [a div 4, a mod 4 * 16]"
| "b64_groups [a, b] = [a div 4, a mod 4 * 16 + b div 16, b mod 16 * 4]"
| "b64_groups (a # b # c # r) =
     [a div 4, a mod 4 * 16 + b div 16, b mod 16 * 4 + c div 64, c mod 64] @ b64_groups r"

definition b64_encode :: "bytes \<Rightarrow> string" where
  "b64_encode s = map b64_char (b64_groups (map of_char s))"

fun b64_ungroup :: "bool \<Rightarrow> nat list \<Rightarrow> nat list option" where
  "b64_ungroup strict [] = Some []"
| "b64_ungroup strict [a] = None"
| "b64_ungroup strict [a, b] =
     (if strict \<and> b mod 16 \<noteq> 0 then None else Some [a * 4 + b div 16])"
| "b64_ungroup strict [a, b, c] =
     (if strict \<and> c mod 4 \<noteq> 0 then None else Some [a * 4 + b div 16, b mod 16 * 16 + c div 4])"
| "b64_ungroup strict (a # b # c # d # r) =
     map_option (\<lambda>bs. [a * 4 + b div 16, b mod 16 * 16 + c div 4, c mod 4 * 64 + d] @ bs)
       (b64_ungroup strict r)"

fun b64_vals :: "string \<Rightarrow> nat list option" where
  "b64_vals [] = Some []"
| "b64_vals (c # s) =
     (case b64_val c of None \<Rightarrow> None | Some v \<Rightarrow> map_option (Cons v) (b64_vals s))"

definition b64_decode :: "bool \<Rightarrow> string \<Rightarrow> bytes option" where
  "b64_decode strict s =
     (case b64_vals (filter (\<lambda>c. c \<noteq> CHR 13 \<and> c \<noteq> CHR 10) s) of
        None \<Rightarrow> None
      | Some vs \<Rightarrow> map_option (map char_of) (b64_ungroup strict vs))"

definition b64_EncodedLen :: "nat \<Rightarrow> nat" where
  "b64_EncodedLen n = n div 3 * 4 + (n mod 3 * 8 + 5) div 6"

subsection \<open>The alphabet\<close>

lemma index_of_Some: "index_of x ys = Some n \<Longrightarrow> n < length ys \<and> ys ! n = x"
  by (induction ys arbitrary: n) (auto split: if_splits)

lemma index_of_nth: "distinct ys \<Longrightarrow> n < length ys \<Longrightarrow> index_of (ys ! n) ys = Some n"
  by (induction ys arbitrary: n) (auto simp: nth_Cons split: nat.splits)

lemma distinct_b64_alphabet: "distinct b64_alphabet"
  by (simp add: b64_alphabet_def)

lemma length_b64_alphabet: "length b64_alphabet = 64"
  by (simp add: b64_alphabet_def)

lemma b64_val_char [simp]: "n < 64 \<Longrightarrow> b64_val (b64_char n) = Some n"
  by (simp add: b64_val_def b64_char_def index_of_nth distinct_b64_alphabet length_b64_alphabet)

lemma b64_val_Some: "b64_val c = Some n \<Longrightarrow> n < 64 \<and> b64_char n = c"
  by (auto simp: b64_val_def b64_char_def length_b64_alphabet dest!: index_of_Some)

lemma b64_char_newline: "n < 64 \<Longrightarrow> b64_char n \<noteq> CHR 13 \<and> b64_char n \<noteq> CHR 10"
proof -
  assume "n < 64"
  then have "b64_char n \<in> set b64_alphabet"
    by (simp add: b64_char_def length_b64_alphabet)
  then show ?thesis by (auto simp: b64_alphabet_def)
qed

lemma b64_vals_chars: "\<forall>v \<in> set vs. v < 64 \<Longrightarrow> b64_vals (map b64_char vs) = Some vs"
  by (induction vs) auto

lemma b64_vals_Some: "b64_vals s = Some vs \<Longrightarrow> (\<forall>v \<in> set vs. v < 64) \<and> map b64_char vs = s"
  by (induction s arbitrary: vs) (auto split: option.splits dest!: b64_val_Some)

subsection \<open>Groups of three bytes\<close>

lemma b64_groups_range: "\<forall>b \<in> set bs. b < 256 \<Longrightarrow> \<forall>v \<in> set (b64_groups bs). v < 64"
  by (induction bs rule: b64_groups.induct) auto

lemma b64_ungroup_groups:
  "\<forall>b \<in> set bs. b < 256 \<Longrightarrow> b64_ungroup strict (b64_groups bs) = Some bs"
proof (induction bs rule: b64_groups.induct)
  case (4 a b c r)
  have "(a mod 4 * 16 + b div 16) div 16 = a mod 4" "(a mod 4 * 16 + b div 16) mod 16 = b div 16"
    "(b mod 16 * 4 + c div 64) div 4 = b mod 16" "(b mod 16 * 4 + c div 64) mod 4 = c div 64"
    using 4(2) by auto
  with 4 show ?case by simp
qed auto

lemma b64_groups_ungroup:
  "\<forall>v \<in> set vs. v < 64 \<Longrightarrow> b64_ungroup True vs = Some bs \<Longrightarrow>
   b64_groups bs = vs \<and> (\<forall>b \<in> set bs. b < 256)"
proof (induction "True" vs arbitrary: bs rule: b64_ungroup.induct)
  case (3 a b)
  then have "bs = [a * 4 + b div 16]" "b mod 16 = 0" by (auto split: if_splits)
  with 3 show ?case by auto
next
  case (4 a b c)
  then have "bs = [a * 4 + b div 16, b mod 16 * 16 + c div 4]" "c mod 4 = 0" by (auto split: if_splits)
  with 4 show ?case by auto
next
  case (5 a b c d r)
  then obtain bs' where bs: "bs = [a * 4 + b div 16, b mod 16 * 16 + c div 4, c mod 4 * 64 + d] @ bs'"
    and r: "b64_ungroup True r = Some bs'" by auto
  have IH: "b64_groups bs' = r \<and> (\<forall>b \<in> set bs'. b < 256)"
    using 5 r by simp
  have "a < 64" "b < 64" "c < 64" "d < 64" using 5 by auto
  with bs IH show ?case by auto
qed auto

subsection \<open>Encoding and decoding\<close>

lemma map_of_char_range: "\<forall>b \<in> set (map of_char s). (b::nat) < 256"
  by auto

lemma map_char_of_char [simp]: "map char_of (map of_char s :: nat list) = s"
  by (simp add: comp_def)

lemma map_of_char_of: "\<forall>b \<in> set bs. b < 256 \<Longrightarrow> map of_char (map char_of bs :: string) = (bs::nat list)"
  by (induction bs) auto

lemma filter_b64_encode: "filter (\<lambda>c. c \<noteq> CHR 13 \<and> c \<noteq> CHR 10) (b64_encode s) = b64_encode s"
  unfolding b64_encode_def
  using b64_groups_range [OF map_of_char_range] b64_char_newline
  by (auto intro!: filter_True)

theorem b64_decode_encode [simp]: "b64_decode strict (b64_encode s) = Some s"
proof -
  have "b64_vals (b64_encode s) = Some (b64_groups (map of_char s))"
    unfolding b64_encode_def by (rule b64_vals_chars [OF b64_groups_range [OF map_of_char_range]])
  then show ?thesis
    unfolding b64_decode_def filter_b64_encode
    using b64_ungroup_groups [OF map_of_char_range, of strict s] by simp
qed

text \<open>The strict decoder accepts nothing but encodings, up to the newlines it skips.\<close>

theorem b64_strict_canonical:
  assumes "b64_decode True s = Some b"
  shows "filter (\<lambda>c. c \<noteq> CHR 13 \<and> c \<noteq> CHR 10) s = b64_encode b"
proof -
  from assms obtain vs bs where
    vs: "b64_vals (filter (\<lambda>c. c \<noteq> CHR 13 \<and> c \<noteq> CHR 10) s) = Some vs" and
    bs: "b64_ungroup True vs = Some bs" and b: "b = map char_of bs"
    by (auto simp: b64_decode_def split: option.splits)
  note v = b64_vals_Some [OF vs]
  note g = b64_groups_ungroup [OF conjunct1 [OF v] bs]
  show ?thesis
    using v g by (simp add: b64_encode_def b map_of_char_of del: map_map)
qed

lemma b64_groups_length: "length (b64_groups bs) = b64_EncodedLen (length bs)"
  by (induction bs rule: b64_groups.induct) (simp_all add: b64_EncodedLen_def div_add_self1)

lemma b64_encode_length: "length (b64_encode s) = b64_EncodedLen (length s)"
  by (simp add: b64_encode_def b64_groups_length)

lemma b64_encode_inject [simp]: "b64_encode a = b64_encode b \<longleftrightarrow> a = b"
  by (metis b64_decode_encode option.inject)

end
