(* ===== verification/Mcp_Auth.thy ===== *)
theory Mcp_Auth
  imports Go_Base64 Audit_Log
begin

text \<open>
  \<^verbatim>\<open>internal/mcpauth\<close>: the agent keys. Their shape, how one is minted, listed and revoked, and
  how a bearer key is turned into the live identity of the operator certificate it is bound to.
  The x509 parser and verifier, the revocation checker, the admission check and the \<^verbatim>\<open>%q\<close>
  quoting are parameters.
\<close>

subsection \<open>key.go\<close>

definition KeyPrefix :: string where "KeyPrefix = ''fos_mcp_''"

definition keyBytes :: nat where "keyBytes = 32"

text \<open>\<open>rand\<close> is what \<^verbatim>\<open>rand.Read\<close> filled the buffer with, or its error.\<close>

definition NewKey :: "string + bytes \<Rightarrow> string + string" where
  "NewKey rand = (case rand of Inl e \<Rightarrow> Inl e | Inr b \<Rightarrow> Inr (KeyPrefix @ b64_encode b))"

definition WellFormed :: "string \<Rightarrow> bool" where
  "WellFormed s =
     (case CutPrefix s KeyPrefix of
        None \<Rightarrow> False
      | Some body \<Rightarrow>
          if length body \<noteq> b64_EncodedLen keyBytes then False
          else (case b64_decode True body of None \<Rightarrow> False | Some b \<Rightarrow> length b = keyBytes))"

definition HashKey :: "(bytes \<Rightarrow> bytes) \<Rightarrow> string \<Rightarrow> string" where
  "HashKey sha key = hex_encode (sha key)"

subsection \<open>keys.go\<close>

datatype 'e key_error =
    ErrBadCeiling
  | ErrCeilingTooHigh
  | ErrForbidden
  | ErrNoSuchKey
  | ErrNotAdmitted 'e
  | ErrGenerateKey string
  | ErrKeyStore store_error

definition McpTargetKind :: string where "McpTargetKind = ''mcp-key''"

definition newKeyID :: "bytes \<Rightarrow> string" where
  "newKeyID rand = ''mk-'' @ hex_encode rand"

definition ceilingText :: "string \<Rightarrow> string" where
  "ceilingText c = (if c = [] then ''none'' else c)"

definition check_ceiling :: "identity \<Rightarrow> string \<Rightarrow> 'e key_error option" where
  "check_ceiling owner ceiling =
     (if ceiling = [] then None
      else case LevelFromToken ceiling of
        Inl _ \<Rightarrow> Some ErrBadCeiling
      | Inr l \<Rightarrow> if l > Level owner then Some ErrCeilingTooHigh else None)"

text \<open>\<open>admit\<close> is \<open>None\<close> when no admission check is configured; otherwise it returns the refusal, if any.\<close>

definition Mint ::
  "entropy \<Rightarrow> (string \<Rightarrow> string) \<Rightarrow> (bytes \<Rightarrow> 'e option) option \<Rightarrow> string + bytes \<Rightarrow> bytes \<Rightarrow> gotime \<Rightarrow> ctx \<Rightarrow>
   identity \<Rightarrow> bytes \<Rightarrow> string \<Rightarrow> string \<Rightarrow> string \<Rightarrow> mem_store \<Rightarrow> ('e key_error + (string \<times> mcp_key)) \<times> mem_store" where
  "Mint en quote admit rand idrand now c owner certDER label clientName ceiling s =
     (case check_ceiling owner ceiling of
        Some e \<Rightarrow> (Inl e, s)
      | None \<Rightarrow>
          (case (case admit of None \<Rightarrow> None | Some f \<Rightarrow> f certDER) of
             Some e \<Rightarrow> (Inl (ErrNotAdmitted e), s)
           | None \<Rightarrow>
               (case NewKey rand of
                  Inl e \<Rightarrow> (Inl (ErrGenerateKey e), s)
                | Inr plain \<Rightarrow>
                    (let key = \<lparr>key_ID = newKeyID idrand, key_TokenHash = HashKey (sha256 en) plain,
                           key_Label = label, key_ClientName = clientName, key_OperatorSerial = Serial owner,
                           key_OperatorCN = CN owner, key_OperatorCertDER = certDER, key_LevelCeiling = ceiling,
                           key_CreatedAt = now, key_LastUsedAt = 0, key_RevokedAt = 0, key_ExpiresAt = 0\<rparr>;
                         s = AddMcpKey key s;
                         (_, s) = Record en (NewContext c owner) (zero_event\<lparr>
                           ev_Kind := ''mcp-key-created'',
                           ev_Summary := ''Created MCP key '' @ key_ID key @ '' (label '' @ quote label @
                             '', client '' @ quote clientName @ '', ceiling '' @ quote (ceilingText ceiling) @ '')'',
                           ev_TargetKind := McpTargetKind, ev_TargetPath := ''/mcp-keys/'' @ key_ID key\<rparr>) s
                     in (Inr (plain, key), s)))))"

definition ListKeys :: "mem_store \<Rightarrow> identity \<Rightarrow> bool \<Rightarrow> 'e key_error + mcp_key list" where
  "ListKeys s caller all =
     (if all \<and> Level caller < LevelAdmin then Inl ErrForbidden
      else Inr (filter (\<lambda>k. all \<or> key_OperatorSerial k = Serial caller) (McpKeys s)))"

text \<open>As in the approval service, \<open>rd\<close> is the store when the key is read.\<close>

definition RevokeKey ::
  "entropy \<Rightarrow> (string \<Rightarrow> string) \<Rightarrow> gotime \<Rightarrow> ctx \<Rightarrow> identity \<Rightarrow> string \<Rightarrow> mem_store \<Rightarrow> mem_store \<Rightarrow>
   ('e key_error + mcp_key) \<times> mem_store" where
  "RevokeKey en quote now c caller i rd s =
     (case McpKey rd i of
        None \<Rightarrow> (Inl ErrNoSuchKey, s)
      | Some key \<Rightarrow>
          if key_OperatorSerial key \<noteq> Serial caller \<and> Level caller < LevelAdmin then (Inl ErrForbidden, s)
          else if \<not> IsZero (key_RevokedAt key) then (Inr key, s)
          else (case RevokeMcpKey i now s of
              (Inl e, s) \<Rightarrow> (Inl (ErrKeyStore e), s)
            | (Inr revoked, s) \<Rightarrow>
                (Inr revoked, snd (Record en (NewContext c caller) (zero_event\<lparr>
                   ev_Kind := ''mcp-key-revoked'',
                   ev_Summary := ''Revoked MCP key '' @ i @ '' (label '' @ quote (key_Label key) @ '', bound to '' @
                     key_OperatorCN key @ '')'',
                   ev_TargetKind := McpTargetKind, ev_TargetPath := ''/mcp-keys/'' @ i\<rparr>) s))))"

subsection \<open>resolver.go\<close>

text \<open>A coded error: its application code, where it carries one, and its text.\<close>

type_synonym coded_error = "nat option \<times> string"

definition CodeNoRevocationSource :: nat where "CodeNoRevocationSource = 1608"

datatype resolve_error =
    ErrMalformed
  | ErrUnknownKey
  | ErrKeyRevoked
  | ErrKeyExpired
  | ErrCertUntrusted string
  | ErrCertExpired
  | ErrCertRevoked coded_error
  | ErrCertNoLevel
  | ErrRevocationStale coded_error
  | ErrStoredCeiling string
  | PanicNoChain  \<comment> \<open>indexing an empty list of chains; x509 returns at least one\<close>

fun resolve_error_text :: "(string \<Rightarrow> string) \<Rightarrow> resolve_error \<Rightarrow> string" where
  "resolve_error_text quote ErrMalformed = ''mcpauth: bearer is not an MCP key''"
| "resolve_error_text quote ErrUnknownKey = ''mcpauth: unknown key''"
| "resolve_error_text quote ErrKeyRevoked = ''mcpauth: key revoked''"
| "resolve_error_text quote ErrKeyExpired = ''mcpauth: key expired''"
| "resolve_error_text quote (ErrCertUntrusted e) = ''mcpauth: bound certificate no longer chains to the operator CA: '' @ e"
| "resolve_error_text quote ErrCertExpired = ''mcpauth: bound certificate is outside its validity period''"
| "resolve_error_text quote (ErrCertRevoked e) = ''mcpauth: bound certificate is revoked: '' @ snd e"
| "resolve_error_text quote ErrCertNoLevel = ''mcpauth: bound certificate carries no access level''"
| "resolve_error_text quote (ErrRevocationStale e) = ''mcpauth: no fresh revocation data for the bound certificate: '' @ snd e"
| "resolve_error_text quote (ErrStoredCeiling t) = ''mcpauth: stored ceiling: authz: unknown level token '' @ quote t"
| "resolve_error_text quote PanicNoChain = []"

text \<open>\<^verbatim>\<open>fmt.Sprintf("%x", n)\<close> of a big integer.\<close>

fun hex_nat :: "nat \<Rightarrow> string" where
  "hex_nat n = (if n < 16 then [hex_digit n] else hex_nat (n div 16) @ [hex_digit (n mod 16)])"

declare hex_nat.simps [simp del]

definition fmt_x :: "int \<Rightarrow> string" where
  "fmt_x n = (if n < 0 then ''-'' @ hex_nat (nat (- n)) else hex_nat (nat n))"

text \<open>The checker either takes the whole certificate or only the serial.\<close>

datatype mcp_checker =
    CheckMCPCert "string \<Rightarrow> certificate \<Rightarrow> coded_error option"
  | CheckMCP "string \<Rightarrow> string \<Rightarrow> coded_error option"

record resolver =
  res_parse :: "bytes \<Rightarrow> string + certificate"
  res_verify :: "certificate \<Rightarrow> gotime \<Rightarrow> string + certificate list list"
  res_asn1 :: "bytes \<Rightarrow> string + string"
  res_checker :: mcp_checker

fun run_checker :: "mcp_checker \<Rightarrow> string \<Rightarrow> certificate \<Rightarrow> coded_error option" where
  "run_checker (CheckMCPCert f) anchor cert = f anchor cert"
| "run_checker (CheckMCP f) anchor cert = f anchor (fmt_x (cert_SerialNumber cert))"

definition apply_ceiling :: "string \<Rightarrow> identity \<Rightarrow> resolve_error + identity" where
  "apply_ceiling ceiling i =
     (if ceiling = [] then Inr i
      else case LevelFromToken ceiling of
        Inl _ \<Rightarrow> Inl (ErrStoredCeiling ceiling)
      | Inr l \<Rightarrow> Inr (i\<lparr>Level := min (Level i) l\<rparr>))"

definition validate :: "(bytes \<Rightarrow> bytes) \<Rightarrow> resolver \<Rightarrow> mcp_key \<Rightarrow> gotime \<Rightarrow> resolve_error + identity" where
  "validate sha r key now =
     (if \<not> IsZero (key_RevokedAt key) then Inl ErrKeyRevoked
      else if \<not> IsZero (key_ExpiresAt key) \<and> \<not> now < key_ExpiresAt key then Inl ErrKeyExpired
      else case res_parse r (key_OperatorCertDER key) of
        Inl e \<Rightarrow> Inl (ErrCertUntrusted e)
      | Inr cert \<Rightarrow>
          if now < cert_NotBefore cert \<or> now > cert_NotAfter cert then Inl ErrCertExpired
          else case res_verify r cert now of
            Inl e \<Rightarrow> Inl (ErrCertUntrusted e)
          | Inr chs \<Rightarrow>
              (case IdentityFromCertificate (res_asn1 r) cert of
                 Inl _ \<Rightarrow> Inl ErrCertNoLevel
               | Inr i \<Rightarrow>
                   if chs = [] \<or> hd chs = [] then Inl PanicNoChain
                   else
                     (let issuer = hex_encode (sha (cert_Raw (last (hd chs))));
                          i = i\<lparr>IssuerSHA256 := issuer\<rparr>
                      in case run_checker (res_checker r) issuer cert of
                           Some e \<Rightarrow> if fst e = Some CodeNoRevocationSource
                                     then Inl (ErrRevocationStale e) else Inl (ErrCertRevoked e)
                         | None \<Rightarrow>
                             (case apply_ceiling (key_LevelCeiling key) i of
                                Inl e \<Rightarrow> Inl e
                              | Inr i \<Rightarrow> Inr (i\<lparr>Via := ViaMCP, KeyID := key_ID key\<rparr>)))))"

definition Resolve ::
  "entropy \<Rightarrow> (string \<Rightarrow> string) \<Rightarrow> resolver \<Rightarrow> gotime \<Rightarrow> ctx \<Rightarrow> string \<Rightarrow> mem_store \<Rightarrow> (resolve_error + identity) \<times> mem_store" where
  "Resolve en quote r now c bearer s =
     (if \<not> WellFormed bearer then (Inl ErrMalformed, s)
      else case McpKeyByHash s (HashKey (sha256 en) bearer) of
        None \<Rightarrow> (Inl ErrUnknownKey, s)
      | Some key \<Rightarrow>
          (case validate (sha256 en) r key now of
             Inl err \<Rightarrow>
               (let bound = zero_identity\<lparr>CN := key_OperatorCN key, Serial := key_OperatorSerial key,
                      Via := ViaMCP, KeyID := key_ID key\<rparr>
                in (Inl err, snd (Record en (NewContext c bound) (zero_event\<lparr>
                     ev_Kind := ''mcp-key-rejected'',
                     ev_Summary := ''Rejected MCP key '' @ key_ID key @ '': '' @ resolve_error_text quote err,
                     ev_TargetKind := McpTargetKind, ev_TargetPath := ''/mcp-keys/'' @ key_ID key,
                     ev_Outcome := OutcomeDenied\<rparr>) s)))
           | Inr i \<Rightarrow>
               (case TouchMcpKey (key_ID key) now s of
                  (True, s) \<Rightarrow>
                    (Inr i, snd (Record en (NewContext c i) (zero_event\<lparr>
                       ev_Kind := ''mcp-key-first-used'',
                       ev_Summary := ''MCP key '' @ key_ID key @ '' used for the first time'',
                       ev_TargetKind := McpTargetKind, ev_TargetPath := ''/mcp-keys/'' @ key_ID key\<rparr>) s))
                | (False, s) \<Rightarrow> (Inr i, s))))"

subsection \<open>Keys have one spelling\<close>

lemma filter_full_length: "length (filter P xs) = length xs \<Longrightarrow> filter P xs = xs"
  by (metis filter_id_conv length_filter_less less_irrefl)

lemma WellFormed_iff: "WellFormed s \<longleftrightarrow> (\<exists>b. length b = keyBytes \<and> NewKey (Inr b) = Inr s)"
proof
  assume "WellFormed s"
  then obtain body b where body: "s = KeyPrefix @ body" "length body = b64_EncodedLen keyBytes"
    and dec: "b64_decode True body = Some b" and b: "length b = keyBytes"
    by (auto simp: WellFormed_def CutPrefix_Some split: option.splits if_splits)
  have "filter (\<lambda>c. c \<noteq> CHR 13 \<and> c \<noteq> CHR 10) body = b64_encode b"
    by (rule b64_strict_canonical [OF dec])
  moreover from this body(2) b have "filter (\<lambda>c. c \<noteq> CHR 13 \<and> c \<noteq> CHR 10) body = body"
    by (intro filter_full_length) (simp add: b64_encode_length)
  ultimately show "\<exists>b. length b = keyBytes \<and> NewKey (Inr b) = Inr s"
    using b body(1) by (auto simp: NewKey_def)
next
  assume "\<exists>b. length b = keyBytes \<and> NewKey (Inr b) = Inr s"
  then show "WellFormed s"
    by (auto simp: NewKey_def WellFormed_def b64_encode_length)
qed

subsection \<open>The key table\<close>

definition keys_ok :: "mem_store \<Rightarrow> bool" where
  "keys_ok s \<longleftrightarrow> distinct (mkeys (mcpKeys s)) \<and> (\<forall>(i, k) \<in> set (mcpKeys s). key_ID k = i)"

lemma McpKey_Record [simp, store_simps]: "McpKey (snd (Record en c e s)) i = McpKey s i"
  by (simp add: McpKey_def Record_tables)

lemma McpKeyByHash_Record [simp, store_simps]: "McpKeyByHash (snd (Record en c e s)) h = McpKeyByHash s h"
  by (simp add: McpKeyByHash_def Record_tables)

lemma McpKeyByHash_Some:
  assumes "keys_ok s" and "McpKeyByHash s h = Some k"
  shows "McpKey s (key_ID k) = Some k \<and> key_TokenHash k = h"
proof -
  from assms(2) have "k \<in> set (mvals (mcpKeys s))" "key_TokenHash k = h"
    by (auto simp: McpKeyByHash_def find_Some_iff)
  then show ?thesis using assms(1) by (auto simp: keys_ok_def McpKey_def)
qed

lemma McpKeyByHash_AddMcpKey:
  assumes "McpKey s (key_ID k) = None" and "McpKeyByHash s (key_TokenHash k) = None"
  shows "McpKeyByHash (AddMcpKey k s) (key_TokenHash k) = Some k"
proof -
  have "key_ID k \<notin> set (mkeys (mcpKeys s))" using assms(1) by (simp add: McpKey_def map_of_eq_None_iff)
  then have "mput (key_ID k) k (mcpKeys s) = mcpKeys s @ [(key_ID k, k)]"
    by (rule mput_new)
  then show ?thesis using assms(2) by (simp add: McpKeyByHash_def AddMcpKey_def find_append)
qed

lemma RevokeMcpKey_Inr:
  assumes "RevokeMcpKey i at s = (Inr k, s')" and "at \<noteq> 0"
  shows "McpKey s' i = Some k \<and> key_RevokedAt k \<noteq> 0 \<and> (\<forall>j. j \<noteq> i \<longrightarrow> McpKey s' j = McpKey s j) \<and>
    audit s' = audit s \<and> (\<exists>k0. McpKey s i = Some k0 \<and> k = k0\<lparr>key_RevokedAt := key_RevokedAt k\<rparr> \<and>
      (key_RevokedAt k0 \<noteq> 0 \<longrightarrow> k = k0))"
  using assms by (auto simp: RevokeMcpKey_def McpKey_def IsZero_def Let_def gomap_simps split: option.splits if_splits)

subsection \<open>What a resolved key is worth\<close>

lemma validate_Inr:
  assumes "validate sha r key now = Inr i"
  obtains cert chs i0 where "key_RevokedAt key = 0" "key_ExpiresAt key = 0 \<or> now < key_ExpiresAt key"
    "res_parse r (key_OperatorCertDER key) = Inr cert" "cert_NotBefore cert \<le> now" "now \<le> cert_NotAfter cert"
    "res_verify r cert now = Inr chs" "IdentityFromCertificate (res_asn1 r) cert = Inr i0"
    "run_checker (res_checker r) (IssuerSHA256 i) cert = None"
    "IssuerSHA256 i = hex_encode (sha (cert_Raw (last (hd chs))))"
    "CN i = CN i0" "Serial i = Serial i0" "Via i = ViaMCP" "KeyID i = key_ID key"
    "if key_LevelCeiling key = [] then Level i = Level i0
     else \<exists>l. LevelFromToken (key_LevelCeiling key) = Inr l \<and> Level i = min (Level i0) l"
  using assms
  by (auto simp: validate_def IsZero_def not_less apply_ceiling_def Let_def
      split: if_splits sum.splits option.splits)

lemma Resolve_Inr:
  assumes "Resolve en quote r now c bearer s = (Inr i, s')"
  obtains key where "WellFormed bearer" "McpKeyByHash s (HashKey (sha256 en) bearer) = Some key"
    "validate (sha256 en) r key now = Inr i"
  using assms by (auto simp: Resolve_def split: if_splits option.splits sum.splits prod.splits bool.splits)

subsection \<open>Properties\<close>

text \<open>A bearer is well formed exactly when it is the key some 32 random bytes make, and different
  bytes make different keys: every key has exactly one spelling, although the base64 decoder skips
  newlines.\<close>

theorem WellFormed_exact:
  "(WellFormed s \<longleftrightarrow> (\<exists>!b. length b = keyBytes \<and> NewKey (Inr b) = Inr s))"
  unfolding WellFormed_iff by (auto simp: NewKey_def)

text \<open>C5: a resolved bearer belongs to a stored key that is neither revoked nor expired, bound to a
  certificate that parses, is inside its validity period, chains to an operator CA trusted now and is
  not refused by the revocation checker; the identity's level is the lower of the certificate's level
  and the key's ceiling, and it is marked as an MCP identity of that key.\<close>

theorem Resolve_sound:
  assumes "Resolve en quote r now c bearer s = (Inr i, s')"
  shows "\<exists>key cert chs lvl. McpKeyByHash s (HashKey (sha256 en) bearer) = Some key \<and>
    key_RevokedAt key = 0 \<and> (key_ExpiresAt key = 0 \<or> now < key_ExpiresAt key) \<and>
    res_parse r (key_OperatorCertDER key) = Inr cert \<and> cert_NotBefore cert \<le> now \<and> now \<le> cert_NotAfter cert \<and>
    res_verify r cert now = Inr chs \<and> run_checker (res_checker r) (IssuerSHA256 i) cert = None \<and>
    LevelFromCertificate (res_asn1 r) cert = Inr lvl \<and> valid_level (Level i) \<and> Level i \<le> lvl \<and>
    (key_LevelCeiling key \<noteq> [] \<longrightarrow> (\<exists>l. LevelFromToken (key_LevelCeiling key) = Inr l \<and> Level i = min lvl l)) \<and>
    (key_LevelCeiling key = [] \<longrightarrow> Level i = lvl) \<and>
    Serial i = formatSerial (cert_SerialNumber cert) \<and> Via i = ViaMCP \<and> KeyID i = key_ID key"
proof -
  obtain key where key: "McpKeyByHash s (HashKey (sha256 en) bearer) = Some key"
    and val: "validate (sha256 en) r key now = Inr i"
    using assms by (rule Resolve_Inr)
  obtain cert chs i0 where v: "key_RevokedAt key = 0" "key_ExpiresAt key = 0 \<or> now < key_ExpiresAt key"
    "res_parse r (key_OperatorCertDER key) = Inr cert" "cert_NotBefore cert \<le> now" "now \<le> cert_NotAfter cert"
    "res_verify r cert now = Inr chs" "IdentityFromCertificate (res_asn1 r) cert = Inr i0"
    "run_checker (res_checker r) (IssuerSHA256 i) cert = None" "Serial i = Serial i0" "Via i = ViaMCP" "KeyID i = key_ID key"
    and lvl: "if key_LevelCeiling key = [] then Level i = Level i0
       else \<exists>l. LevelFromToken (key_LevelCeiling key) = Inr l \<and> Level i = min (Level i0) l"
    using validate_Inr [OF val] by blast
  note i0 = IdentityFromCertificate_Inr [OF v(7)]
  have "valid_level (Level i0)" by (rule IdentityFromCertificate_valid [OF v(7)])
  with lvl have "valid_level (Level i) \<and> Level i \<le> Level i0"
    by (auto simp: min_def split: if_splits dest: LevelFromToken_Inr)
  with key v i0 lvl show ?thesis by (auto split: if_splits)
qed

definition example_cert :: certificate where
  "example_cert = \<lparr>cert_Raw = ''leaf'', cert_Extensions = [(accessLevelOID, ''ext'')], cert_CommonName = ''op'',
     cert_SerialNumber = 4660, cert_NotBefore = 50, cert_NotAfter = 5000, cert_RawSubject = ''op'',
     cert_SubjectKeyId = [], cert_OCSPServer = []\<rparr>"

definition example_resolver :: resolver where
  "example_resolver = \<lparr>res_parse = (\<lambda>_. Inr example_cert),
     res_verify = (\<lambda>cert _. Inr [[cert, cert\<lparr>cert_Raw := ''ca''\<rparr>]]),
     res_asn1 = (\<lambda>_. Inr ''admin''), res_checker = CheckMCP (\<lambda>_ _. None)\<rparr>"

definition example_bearer :: string where
  "example_bearer = KeyPrefix @ b64_encode (replicate 32 (CHR ''k''))"

definition example_owner :: identity where
  "example_owner = zero_identity\<lparr>CN := ''op'', Serial := ''12:34'', Level := LevelAdmin, Via := ViaWeb\<rparr>"

definition example_minted :: "(unit key_error + (string \<times> mcp_key)) \<times> mem_store" where
  "example_minted = Mint constant_entropy id None (Inr (replicate 32 (CHR ''k''))) ''abc'' 100 Background example_owner
     ''der'' ''laptop'' ''agent'' ''operator'' (New (\<lambda>_. []) [])"

lemma WellFormed_example: "WellFormed example_bearer"
  unfolding WellFormed_iff
  by (rule exI [of _ "replicate 32 (CHR ''k'')"]) (simp add: example_bearer_def NewKey_def keyBytes_def)

subsection \<open>Minting and resolving\<close>

lemma Mint_Inr:
  assumes "Mint en quote admit (Inr b) idrand now c owner certDER label clientName ceiling s = (Inr (plain, key), s')"
  shows "plain = KeyPrefix @ b64_encode b" and "key_ID key = newKeyID idrand"
    and "key_TokenHash key = HashKey (sha256 en) plain" and "key_OperatorCertDER key = certDER"
    and "key_LevelCeiling key = ceiling" and "key_RevokedAt key = 0" and "key_ExpiresAt key = 0"
    and "check_ceiling owner ceiling = (None :: unit key_error option)"
    and "McpKeyByHash s' h = McpKeyByHash (AddMcpKey key s) h"
  using assms
  by (auto simp: Mint_def NewKey_def check_ceiling_def Let_def split_beta
      split: if_splits sum.splits option.splits)

lemma check_ceiling_None:
  "check_ceiling owner ceiling = None \<longleftrightarrow> ceiling = [] \<or> (\<exists>l. LevelFromToken ceiling = Inr l \<and> l \<le> Level owner)"
  by (auto simp: check_ceiling_def split: sum.split)

lemma validate_accepts:
  assumes "key_RevokedAt key = 0" and "key_ExpiresAt key = 0"
    and "res_parse r (key_OperatorCertDER key) = Inr cert" and "cert_NotBefore cert \<le> now" and "now \<le> cert_NotAfter cert"
    and "res_verify r cert now = Inr ((x # xs) # chs)" and "IdentityFromCertificate (res_asn1 r) cert = Inr i0"
    and "\<And>anchor. run_checker (res_checker r) anchor cert = None"
    and "key_LevelCeiling key = [] \<or> (\<exists>l. LevelFromToken (key_LevelCeiling key) = Inr l)"
  shows "\<exists>i. validate sha r key now = Inr i \<and> KeyID i = key_ID key \<and>
    Level i = (if key_LevelCeiling key = [] then Level i0
               else min (Level i0) (case LevelFromToken (key_LevelCeiling key) of Inr l \<Rightarrow> l | Inl _ \<Rightarrow> 0))"
  using assms
  by (auto simp: validate_def IsZero_def apply_ceiling_def Let_def not_less [symmetric])

lemma Resolve_accepts:
  assumes "WellFormed bearer" and "McpKeyByHash s (HashKey (sha256 en) bearer) = Some key"
    and "validate (sha256 en) r key now = Inr i"
  shows "\<exists>s'. Resolve en quote r now c bearer s = (Inr i, s')"
  using assms by (auto simp: Resolve_def split: prod.split bool.split)

lemma minted_key_resolves:
  assumes mint: "Mint en quote admit (Inr b) idrand now c owner certDER label clientName ceiling s = (Inr (plain, key), s1)"
    and "length b = keyBytes"
    and fresh: "McpKey s (newKeyID idrand) = None" "McpKeyByHash s (HashKey (sha256 en) plain) = None"
    and cert: "res_parse r certDER = Inr cert" "cert_NotBefore cert \<le> t" "t \<le> cert_NotAfter cert"
      "res_verify r cert t = Inr ((x # xs) # chs)" "IdentityFromCertificate (res_asn1 r) cert = Inr i0" "Level i0 = Level owner"
      "\<And>anchor. run_checker (res_checker r) anchor cert = None"
  shows "\<exists>i s2. Resolve en quote r t c' plain s1 = (Inr i, s2) \<and> KeyID i = key_ID key \<and> Level i \<le> Level owner \<and>
    (ceiling = [] \<longrightarrow> Level i = Level owner) \<and> (ceiling \<noteq> [] \<longrightarrow> LevelFromToken ceiling = Inr (Level i))"
proof -
  note key = Mint_Inr(1-7) [OF mint] and ceil = Mint_Inr(8) [OF mint] and look = Mint_Inr(9) [OF mint]
  have wf: "WellFormed plain"
    unfolding WellFormed_iff using assms(2) key(1) by (auto simp: NewKey_def)
  have found: "McpKeyByHash s1 (HashKey (sha256 en) plain) = Some key"
    using McpKeyByHash_AddMcpKey [of s key] fresh key(2,3) look by simp
  have ceil': "ceiling = [] \<or> (\<exists>l. LevelFromToken ceiling = Inr l \<and> l \<le> Level owner)"
    using ceil by (simp add: check_ceiling_None)
  obtain i where i: "validate (sha256 en) r key t = Inr i" "KeyID i = key_ID key"
    "Level i = (if ceiling = [] then Level i0 else min (Level i0) (case LevelFromToken ceiling of Inr l \<Rightarrow> l | Inl _ \<Rightarrow> 0))"
    using validate_accepts [of key r cert t x xs chs i0 "sha256 en"] key cert ceil' by auto
  obtain s2 where "Resolve en quote r t c' plain s1 = (Inr i, s2)"
    using Resolve_accepts [OF wf found i(1), of quote c'] by blast
  with i ceil' cert(6) show ?thesis by auto
qed

text \<open>C15: the plaintext a mint returns, whose hash and ID no stored key has yet, resolves while the
  bound certificate verifies: to an identity of that key, at the owner's level when there is no ceiling
  and exactly at the ceiling otherwise (which is never above the owner's level).\<close>

theorem Mint_then_Resolve:
  assumes mint: "Mint en quote admit (Inr b) idrand now c owner certDER label clientName ceiling s = (Inr (plain, key), s1)"
    and "length b = keyBytes"
    and fresh: "McpKey s (newKeyID idrand) = None" "McpKeyByHash s (HashKey (sha256 en) plain) = None"
    and cert: "res_parse r certDER = Inr cert" "cert_NotBefore cert \<le> t" "t \<le> cert_NotAfter cert"
      "res_verify r cert t = Inr ((x # xs) # chs)" "IdentityFromCertificate (res_asn1 r) cert = Inr i0" "Level i0 = Level owner"
      "\<And>anchor. run_checker (res_checker r) anchor cert = None"
  shows "\<exists>i s2. Resolve en quote r t c' plain s1 = (Inr i, s2) \<and> KeyID i = key_ID key \<and> Level i \<le> Level owner \<and>
    (ceiling = [] \<longrightarrow> Level i = Level owner) \<and> (ceiling \<noteq> [] \<longrightarrow> LevelFromToken ceiling = Inr (Level i))"
  using assms by (rule minted_key_resolves)

lemma example_minted_Inr: "\<exists>key s1. example_minted = (Inr (example_bearer, key), s1)"
  by (simp add: example_minted_def Mint_def check_ceiling_def LevelFromToken_def example_owner_def level_defs
      NewKey_def example_bearer_def Let_def split_beta)

lemma example_cert_identity:
  "IdentityFromCertificate (res_asn1 example_resolver) example_cert =
     Inr (zero_identity\<lparr>CN := ''op'', Serial := formatSerial 4660, Level := LevelAdmin\<rparr>)"
  by (simp add: IdentityFromCertificate_def LevelFromCertificate_def example_resolver_def example_cert_def LevelFromToken_def)

lemmas example_mint_facts = keyBytes_def McpKey_def McpKeyByHash_def New_def NewWithCatalog_def example_resolver_def
  example_cert_def example_owner_def

lemma example_resolves:
  "\<exists>i s2. Resolve constant_entropy id example_resolver 200 Background example_bearer (snd example_minted) = (Inr i, s2)"
proof -
  obtain key s1 where m: "example_minted = (Inr (example_bearer, key), s1)" using example_minted_Inr by blast
  have "\<exists>i s2. Resolve constant_entropy id example_resolver 200 Background example_bearer s1 = (Inr i, s2) \<and>
      KeyID i = key_ID key \<and> Level i \<le> Level example_owner \<and>
      (''operator'' = [] \<longrightarrow> Level i = Level example_owner) \<and> (''operator'' \<noteq> [] \<longrightarrow> LevelFromToken ''operator'' = Inr (Level i))"
    by (rule minted_key_resolves [OF m [unfolded example_minted_def], where cert = example_cert and xs = "[example_cert\<lparr>cert_Raw := ''ca''\<rparr>]"
          and x = example_cert and chs = "[]", OF _ _ _ _ _ _ _ example_cert_identity])
      (simp_all add: example_mint_facts)
  then show ?thesis unfolding m snd_conv by blast
qed

lemma Mint_then_Resolve_witness:
  "\<exists>i s2. Resolve constant_entropy id example_resolver 200 Background example_bearer (snd example_minted) = (Inr i, s2) \<and>
     LevelFromToken ''operator'' = Inr (Level i)"
proof -
  obtain key s1 where m: "example_minted = (Inr (example_bearer, key), s1)" using example_minted_Inr by blast
  have "\<exists>i s2. Resolve constant_entropy id example_resolver 200 Background example_bearer s1 = (Inr i, s2) \<and>
      KeyID i = key_ID key \<and> Level i \<le> Level example_owner \<and>
      (''operator'' = [] \<longrightarrow> Level i = Level example_owner) \<and> (''operator'' \<noteq> [] \<longrightarrow> LevelFromToken ''operator'' = Inr (Level i))"
    by (rule Mint_then_Resolve [OF m [unfolded example_minted_def], where cert = example_cert and xs = "[example_cert\<lparr>cert_Raw := ''ca''\<rparr>]"
          and x = example_cert and chs = "[]", OF _ _ _ _ _ _ _ example_cert_identity])
      (simp_all add: example_mint_facts)
  then show ?thesis unfolding m snd_conv by blast
qed

lemma Resolve_sound_witness:
  "\<exists>i s2. Resolve constant_entropy id example_resolver 200 Background example_bearer (snd example_minted) = (Inr i, s2) \<and>
     Via i = ViaMCP \<and> valid_level (Level i)"
proof -
  obtain i s2 where r: "Resolve constant_entropy id example_resolver 200 Background example_bearer (snd example_minted) = (Inr i, s2)"
    using example_resolves by blast
  from Resolve_sound [OF r] r show ?thesis by blast
qed

lemma RevokeKey_Inr:
  assumes "RevokeKey en quote now c caller i rd s = (Inr k, s')"
  obtains k0 where "McpKey rd i = Some k0" "key_OperatorSerial k0 = Serial caller \<or> LevelAdmin \<le> Level caller"
    "key_RevokedAt k0 \<noteq> 0 \<and> k = k0 \<and> s' = s \<or>
     (\<exists>s1. RevokeMcpKey i now s = (Inr k, s1) \<and> (\<forall>j. McpKey s' j = McpKey s1 j))"
  using assms
  by (auto simp: RevokeKey_def IsZero_def not_less split: option.splits if_splits sum.splits prod.splits)

text \<open>C9: once a revocation returns, the key stays revoked: no bearer whose stored row is that key resolves
  any more, the attempt is refused as revoked and audited. Only the key's own operator or an admin can
  revoke it, and a second revocation changes nothing.\<close>

theorem RevokeKey_effective:
  assumes rev: "RevokeKey en quote now c caller i s s = (Inr k, s')" and "now \<noteq> 0" and "keys_ok s'"
    and "WellFormed bearer" and "McpKeyByHash s' (HashKey (sha256 en') bearer) = Some key" and "key_ID key = i"
  shows "fst (Resolve en' quote' r t c' bearer s') = Inl ErrKeyRevoked
    \<and> (\<exists>e. audit (snd (Resolve en' quote' r t c' bearer s')) = audit s' @ [e] \<and> ev_Outcome e = OutcomeDenied)
    \<and> (\<exists>k0. McpKey s i = Some k0 \<and> (key_OperatorSerial k0 = Serial caller \<or> LevelAdmin \<le> Level caller))
    \<and> fst (RevokeKey en'' quote'' t'' c'' caller i s' s') = Inr k \<and> snd (RevokeKey en'' quote'' t'' c'' caller i s' s') = s'"
proof -
  obtain k0 where k0: "McpKey s i = Some k0" "key_OperatorSerial k0 = Serial caller \<or> LevelAdmin \<le> Level caller"
    and stored: "McpKey s' i = Some k" "key_RevokedAt k \<noteq> 0" "key_OperatorSerial k = key_OperatorSerial k0"
  proof (rule RevokeKey_Inr [OF rev])
    fix k0
    assume k0: "McpKey s i = Some k0" "key_OperatorSerial k0 = Serial caller \<or> LevelAdmin \<le> Level caller"
      and cs: "key_RevokedAt k0 \<noteq> 0 \<and> k = k0 \<and> s' = s \<or>
        (\<exists>s1. RevokeMcpKey i now s = (Inr k, s1) \<and> (\<forall>j. McpKey s' j = McpKey s1 j))"
    from cs show thesis
    proof
      assume "\<exists>s1. RevokeMcpKey i now s = (Inr k, s1) \<and> (\<forall>j. McpKey s' j = McpKey s1 j)"
      then obtain s1 where s1: "RevokeMcpKey i now s = (Inr k, s1)" "McpKey s' i = McpKey s1 i" by blast
      from RevokeMcpKey_Inr [OF s1(1) assms(2)] have "McpKey s1 i = Some k" "key_RevokedAt k \<noteq> 0"
        "k = k0\<lparr>key_RevokedAt := key_RevokedAt k\<rparr>" using k0(1) by auto
      moreover from this(3) have "key_OperatorSerial k = key_OperatorSerial k0"
        by (metis mcp_key.select_convs(5) mcp_key.surjective mcp_key.update_convs(11))
      ultimately show thesis using that k0 s1(2) by simp
    qed (use that k0 in blast)
  qed
  have "key = k" using McpKeyByHash_Some [OF assms(3,5)] assms(6) stored(1) by simp
  then have val: "validate (sha256 en') r key t = Inl ErrKeyRevoked"
    using stored(2) by (simp add: validate_def IsZero_def)
  have "fst (Resolve en' quote' r t c' bearer s') = Inl ErrKeyRevoked
      \<and> (\<exists>e. audit (snd (Resolve en' quote' r t c' bearer s')) = audit s' @ [e] \<and> ev_Outcome e = OutcomeDenied)"
    using assms(4,5) val
    by (simp add: Resolve_def Record_tables Record_def AddAuditEvent_def stamp_call_def stamp_actor_def fill_event_def
        Let_def OutcomeDenied_def split: option.split)
  then show ?thesis
    using k0 stored by (auto simp: RevokeKey_def IsZero_def)
qed

definition example_revoked :: "(unit key_error + mcp_key) \<times> mem_store" where
  "example_revoked = RevokeKey constant_entropy id 300 Background example_owner (newKeyID ''abc'') (snd example_minted) (snd example_minted)"

lemma RevokeKey_effective_witness:
  "fst (Resolve constant_entropy id example_resolver 400 Background example_bearer (snd example_revoked)) = Inl ErrKeyRevoked"
proof -
  have "\<exists>k0. mcpKeys (snd example_minted) = [(newKeyID ''abc'', k0)] \<and> key_ID k0 = newKeyID ''abc'' \<and>
      key_RevokedAt k0 = 0 \<and> key_OperatorSerial k0 = Serial example_owner \<and>
      key_TokenHash k0 = HashKey (sha256 constant_entropy) example_bearer"
    by (simp add: example_minted_def Mint_def check_ceiling_def LevelFromToken_def example_owner_def level_defs
        NewKey_def example_bearer_def Let_def split_beta Record_tables AddMcpKey_def New_def NewWithCatalog_def)
  then obtain k0 where keys: "mcpKeys (snd example_minted) = [(newKeyID ''abc'', k0)]"
    and row: "key_ID k0 = newKeyID ''abc''" "key_RevokedAt k0 = 0" "key_OperatorSerial k0 = Serial example_owner"
      "key_TokenHash k0 = HashKey (sha256 constant_entropy) example_bearer" by blast
  define k where "k = k0\<lparr>key_RevokedAt := 300\<rparr>"
  have get: "McpKey (snd example_minted) (newKeyID ''abc'') = Some k0"
    using keys by (simp add: McpKey_def)
  have rev: "RevokeMcpKey (newKeyID ''abc'') 300 (snd example_minted) =
      (Inr k, (snd example_minted)\<lparr>mcpKeys := [(newKeyID ''abc'', k)]\<rparr>)"
    using row(2) keys by (simp add: RevokeMcpKey_def IsZero_def k_def Let_def)
  have fst: "fst example_revoked = Inr k" and keys': "mcpKeys (snd example_revoked) = [(newKeyID ''abc'', k)]"
    using get row rev by (simp_all add: example_revoked_def RevokeKey_def IsZero_def Record_tables)
  have ok: "keys_ok (snd example_revoked)" using keys' row(1) by (simp add: keys_ok_def k_def)
  have found: "McpKeyByHash (snd example_revoked) (HashKey (sha256 constant_entropy) example_bearer) = Some k"
    using keys' row(4) by (simp add: McpKeyByHash_def k_def)
  have "key_ID k = newKeyID ''abc''" using row(1) by (simp add: k_def)
  moreover have "RevokeKey constant_entropy id 300 Background example_owner (newKeyID ''abc'') (snd example_minted) (snd example_minted) =
      (Inr k :: unit key_error + mcp_key, snd example_revoked)"
    using fst by (metis example_revoked_def prod.collapse)
  ultimately show ?thesis
    using RevokeKey_effective [OF _ _ ok WellFormed_example found] by fastforce
qed

text \<open>Presenting bearers cannot flood the audit log: a bearer that is malformed or no stored key changes
  nothing at all, and any other attempt appends at most one row and keeps every key's row but its time
  of last use.\<close>

theorem Resolve_audit_bounded:
  "(WellFormed bearer \<and> McpKeyByHash s (HashKey (sha256 en) bearer) \<noteq> None \<or> snd (Resolve en quote r now c bearer s) = s)
   \<and> (\<exists>rows. audit (snd (Resolve en quote r now c bearer s)) = audit s @ rows \<and> length rows \<le> 1)
   \<and> (\<forall>i. map_option (\<lambda>k. k\<lparr>key_LastUsedAt := 0\<rparr>) (McpKey (snd (Resolve en quote r now c bearer s)) i) =
          map_option (\<lambda>k. k\<lparr>key_LastUsedAt := 0\<rparr>) (McpKey s i))"
proof -
  have touch: "audit (snd (TouchMcpKey i now s)) = audit s"
    "map_option (\<lambda>k. k\<lparr>key_LastUsedAt := 0\<rparr>) (McpKey (snd (TouchMcpKey i now s)) j) =
     map_option (\<lambda>k. k\<lparr>key_LastUsedAt := 0\<rparr>) (McpKey s j)" for i j
    by (auto simp: TouchMcpKey_def McpKey_def gomap_simps split: option.split)
  show ?thesis
  proof (cases "WellFormed bearer \<and> McpKeyByHash s (HashKey (sha256 en) bearer) \<noteq> None")
    case False
    then show ?thesis by (auto simp: Resolve_def)
  next
    case True
    then obtain key where key: "McpKeyByHash s (HashKey (sha256 en) bearer) = Some key" by blast
    show ?thesis
    proof (cases "validate (sha256 en) r key now")
      case (Inl e)
      then show ?thesis using True key by (auto simp: Resolve_def Record_tables)
    next
      case (Inr i)
      then show ?thesis
        using True key touch [of "key_ID key"]
        by (cases "TouchMcpKey (key_ID key) now s"; cases "fst (TouchMcpKey (key_ID key) now s)")
          (auto simp: Resolve_def Record_tables)
    qed
  qed
qed

end
