(* ===== verification/Once_Table.thy ===== *)
theory Once_Table
  imports Memory_Store
begin

text \<open>
  Tables whose entries are taken at most once: the login requests waiting for consent and the
  authorization codes. The interface is the contract \<^verbatim>\<open>store.Store\<close> documents for
  \<open>TakeOAuthRequest\<close> and \<open>TakeOAuthCode\<close>; the lemma about any sequence of calls is proved
  once and both tables are instances.
\<close>

datatype ('k, 's) table_op = TakeKey 'k | OtherStep "'s \<Rightarrow> 's"

fun count_takes :: "('k \<Rightarrow> 's \<Rightarrow> 'v option \<times> 's) \<Rightarrow> 'k \<Rightarrow> ('k, 's) table_op list \<Rightarrow> 's \<Rightarrow> nat" where
  "count_takes tk k [] s = 0"
| "count_takes tk k (TakeKey j # ops) s =
     (if j = k \<and> fst (tk j s) \<noteq> None then 1 else 0) + count_takes tk k ops (snd (tk j s))"
| "count_takes tk k (OtherStep f # ops) s = count_takes tk k ops (f s)"

text \<open>Other steps of the store may run in between, as long as they do not bring the entry back.\<close>

fun no_revival :: "('s \<Rightarrow> 'k \<Rightarrow> 'v option) \<Rightarrow> 'k \<Rightarrow> ('k, 's) table_op list \<Rightarrow> bool" where
  "no_revival look k [] = True"
| "no_revival look k (TakeKey j # ops) = no_revival look k ops"
| "no_revival look k (OtherStep f # ops) = ((\<forall>s. look s k = None \<longrightarrow> look (f s) k = None) \<and> no_revival look k ops)"

locale once_table =
  fixes look :: "'s \<Rightarrow> 'k \<Rightarrow> 'v option"
    and tk :: "'k \<Rightarrow> 's \<Rightarrow> 'v option \<times> 's"
  assumes take_value: "fst (tk k s) = look s k"
    and take_gone: "look (snd (tk k s)) k = None"
    and take_other: "j \<noteq> k \<Longrightarrow> look (snd (tk k s)) j = look s j"
begin

lemma gone_stays: "look s k = None \<Longrightarrow> look (snd (tk j s)) k = None"
  by (cases "j = k") (simp_all add: take_gone take_other)

lemma takes_bound: "no_revival look k ops \<Longrightarrow> look s k = None \<Longrightarrow> count_takes tk k ops s = 0"
proof (induction ops arbitrary: s)
  case (Cons a ops)
  then show ?case by (cases a) (simp_all add: take_value gone_stays)
qed simp

lemma taken_at_most_once: "no_revival look k ops \<Longrightarrow> count_takes tk k ops s \<le> 1"
proof (induction ops arbitrary: s)
  case (Cons a ops)
  then show ?case by (cases a) (simp_all add: take_gone takes_bound)
qed simp

end

definition OAuthCodeRow :: "mem_store \<Rightarrow> string \<Rightarrow> oauth_code option" where
  "OAuthCodeRow s h = mget (oauthCodes s) h"

interpretation code_table: once_table OAuthCodeRow TakeOAuthCode
  by unfold_locales (simp_all add: OAuthCodeRow_def TakeOAuthCode_def gomap_simps)

interpretation request_table: once_table OAuthRequest TakeOAuthRequest
  by unfold_locales (simp_all add: OAuthRequest_def TakeOAuthRequest_def gomap_simps)

end
