(* ===== verification/OAuth_Login.thy ===== *)
theory OAuth_Login
  imports Mcp_Auth Once_Table
begin

text \<open>
  \<^verbatim>\<open>internal/oauth\<close>: the browser login that mints an agent key. Registration, the
  authorization request, the operator's consent and the token endpoint. URLs, JSON, media
  types and x509 come from Go's library and are the fields of \<open>oauth_lib\<close>.
\<close>

definition requestTTL :: duration where "requestTTL = 10 * Minute"
definition codeTTL :: duration where "codeTTL = Minute"
definition consentPagePath :: string where "consentPagePath = ''/oauth/consent''"
definition clientIDPrefix :: string where "clientIDPrefix = ''fos-client-''"
definition maxClientName :: nat where "maxClientName = 200"
definition maxRedirectURIs :: nat where "maxRedirectURIs = 10"
definition maxRedirectLen :: nat where "maxRedirectLen = 512"
definition maxLabel :: nat where "maxLabel = 200"

record url =
  url_Scheme :: string
  url_User :: "string option"
  url_Host :: string
  url_Path :: string
  url_RawQuery :: string
  url_Fragment :: string

record client =
  client_Name :: string
  client_RedirectURIs :: "string list"

record oauth_lib =
  url_Parse :: "string \<Rightarrow> url option"
  url_String :: "url \<Rightarrow> string"
  url_Hostname :: "url \<Rightarrow> string"
  url_Query :: "string \<Rightarrow> (string, string list) gomap"
  url_Encode :: "(string, string list) gomap \<Rightarrow> string"
  QueryEscape :: "string \<Rightarrow> string"
  ip_IsLoopback :: "string \<Rightarrow> bool"  \<comment> \<open>\<^verbatim>\<open>net.ParseIP\<close> accepts the text and the address is a loopback one\<close>
  json_client :: "client \<Rightarrow> bytes"
  json_client_decode :: "bytes \<Rightarrow> client option"
  x509_Parse :: "bytes \<Rightarrow> string + certificate"
  asn1_String :: "bytes \<Rightarrow> string + string"

datatype response =
    HttpErr nat string
  | OAuthErr nat string string
  | RedirectTo string
  | Registered string client
  | ConsentView string string identity "string list"
  | ConsentRedirect string
  | AccessToken string
  | Panicked

subsection \<open>Metadata\<close>

definition ResourceMetadataPath :: string where "ResourceMetadataPath = ''/.well-known/oauth-protected-resource''"

definition oauth_resource :: "string \<Rightarrow> string" where
  "oauth_resource PublicURL = PublicURL @ ''/mcp''"

definition ResourceMetadataURL :: "string \<Rightarrow> string" where
  "ResourceMetadataURL PublicURL = PublicURL @ ResourceMetadataPath @ ''/mcp''"

record authServerMeta =
  Issuer :: string
  AuthorizationEndpoint :: string
  TokenEndpoint :: string
  RegistrationEndpoint :: string
  ResponseTypesSupported :: "string list"
  GrantTypesSupported :: "string list"
  CodeChallengeMethodsSupported :: "string list"
  TokenEndpointAuthMethodsSupported :: "string list"

definition authServerMetadata :: "string \<Rightarrow> authServerMeta" where
  "authServerMetadata PublicURL =
     \<lparr>Issuer = PublicURL, AuthorizationEndpoint = PublicURL @ ''/oauth2/authorize'',
      TokenEndpoint = PublicURL @ ''/oauth2/token'', RegistrationEndpoint = PublicURL @ ''/oauth2/register'',
      ResponseTypesSupported = [''code''], GrantTypesSupported = [''authorization_code''],
      CodeChallengeMethodsSupported = [''S256''], TokenEndpointAuthMethodsSupported = [''none'']\<rparr>"

subsection \<open>Client registration\<close>

definition encodeClientID :: "oauth_lib \<Rightarrow> client \<Rightarrow> string" where
  "encodeClientID lib c = clientIDPrefix @ b64_encode (json_client lib c)"

definition loopback :: "oauth_lib \<Rightarrow> string \<Rightarrow> url option" where
  "loopback lib raw =
     (if length raw > maxRedirectLen then None
      else case url_Parse lib raw of
        None \<Rightarrow> None
      | Some u \<Rightarrow>
          if url_Scheme u \<noteq> ''http'' \<or> url_Fragment u \<noteq> [] \<or> url_User u \<noteq> None then None
          else if url_Hostname lib u = ''localhost'' then Some u
          else if ip_IsLoopback lib (url_Hostname lib u) then Some u else None)"

definition decodeClientID :: "oauth_lib \<Rightarrow> string \<Rightarrow> client option" where
  "decodeClientID lib i =
     (case CutPrefix i clientIDPrefix of
        None \<Rightarrow> None
      | Some body \<Rightarrow>
          (case b64_decode False body of
             None \<Rightarrow> None
           | Some b \<Rightarrow>
               (case json_client_decode lib b of
                  None \<Rightarrow> None
                | Some c \<Rightarrow>
                    if client_RedirectURIs c = [] then None
                    else if \<exists>r \<in> set (client_RedirectURIs c). loopback lib r = None then None
                    else Some c)))"

definition sameLoopback :: "oauth_lib \<Rightarrow> url \<Rightarrow> url \<Rightarrow> bool" where
  "sameLoopback lib registered a \<longleftrightarrow>
     url_Hostname lib registered = url_Hostname lib a \<and> url_Path registered = url_Path a \<and>
     url_RawQuery registered = url_RawQuery a"

text \<open>\<open>meta\<close> is the decoded body (name and redirect URIs), \<open>None\<close> when it does not decode.\<close>

definition register :: "oauth_lib \<Rightarrow> client option \<Rightarrow> response" where
  "register lib meta =
     (case meta of
        None \<Rightarrow> OAuthErr 400 ''invalid_client_metadata'' ''the body is not client metadata JSON''
      | Some md \<Rightarrow>
          if client_RedirectURIs md = [] \<or> length (client_RedirectURIs md) > maxRedirectURIs
          then OAuthErr 400 ''invalid_redirect_uri'' ''between 1 and 10 loopback redirect_uris are required''
          else if \<exists>ru \<in> set (client_RedirectURIs md). loopback lib ru = None
          then OAuthErr 400 ''invalid_redirect_uri''
            ''only http loopback redirect URIs (127.0.0.1, [::1], localhost) are accepted''
          else
            (let c = \<lparr>client_Name = take maxClientName (client_Name md), client_RedirectURIs = client_RedirectURIs md\<rparr>
             in Registered (encodeClientID lib c) c))"

subsection \<open>PKCE\<close>

definition unreserved :: "char \<Rightarrow> bool" where
  "unreserved c \<longleftrightarrow>
     (let n = (of_char c :: nat)
      in 65 \<le> n \<and> n \<le> 90 \<or> 97 \<le> n \<and> n \<le> 122 \<or> 48 \<le> n \<and> n \<le> 57 \<or> c \<in> set ''-._~'')"

definition validPKCE :: "string \<Rightarrow> bool" where
  "validPKCE s \<longleftrightarrow> \<not> (length s < 43 \<or> length s > 128) \<and> list_all unreserved s"

definition verifierMatches :: "(bytes \<Rightarrow> bytes) \<Rightarrow> string \<Rightarrow> string \<Rightarrow> bool" where
  "verifierMatches sha verifier challenge \<longleftrightarrow> validPKCE verifier \<and> b64_encode (sha verifier) = challenge"

definition hashToken :: "(bytes \<Rightarrow> bytes) \<Rightarrow> string \<Rightarrow> string" where
  "hashToken sha s = hex_encode (sha s)"

definition randomToken :: "bytes \<Rightarrow> string" where
  "randomToken rand = b64_encode rand"

definition withParams :: "oauth_lib \<Rightarrow> url \<Rightarrow> (string \<times> string) list \<Rightarrow> string" where
  "withParams lib u params =
     (let q = fold (\<lambda>(k, v) q. if v \<noteq> [] then mput k [v] q else q) params (url_Query lib (url_RawQuery u))
      in url_String lib (u\<lparr>url_RawQuery := url_Encode lib q\<rparr>))"

subsection \<open>Authorization request\<close>

text \<open>
  \<open>q\<close> is the query, with the empty string for a missing parameter; \<open>now\<close> is the server's clock
  and \<open>wall\<close> the store's.
\<close>

definition authorize_fail :: "oauth_lib \<Rightarrow> url \<Rightarrow> (string \<Rightarrow> string) \<Rightarrow> string \<Rightarrow> string \<Rightarrow> response" where
  "authorize_fail lib redirect q code desc =
     RedirectTo (withParams lib redirect [(''error'', code), (''error_description'', desc), (''state'', q ''state'')])"

definition login_request :: "oauth_lib \<Rightarrow> gotime \<Rightarrow> bytes \<Rightarrow> client \<Rightarrow> url \<Rightarrow> (string \<Rightarrow> string) \<Rightarrow> oauth_request" where
  "login_request lib now rand c redirect q =
     \<lparr>oreq_ID = randomToken rand, oreq_ClientID = q ''client_id'', oreq_ClientName = client_Name c,
      oreq_RedirectURI = url_String lib redirect, oreq_State = q ''state'', oreq_CodeChallenge = q ''code_challenge'',
      oreq_ExpiresAt = now + requestTTL\<rparr>"

definition registered_redirect :: "oauth_lib \<Rightarrow> client \<Rightarrow> string \<Rightarrow> url option" where
  "registered_redirect lib c raw =
     (case loopback lib raw of
        None \<Rightarrow> None
      | Some redirect \<Rightarrow>
          if \<exists>ru \<in> set (client_RedirectURIs c).
               (case loopback lib ru of None \<Rightarrow> False | Some reg \<Rightarrow> sameLoopback lib reg redirect)
          then Some redirect else None)"

definition authorize ::
  "oauth_lib \<Rightarrow> string \<Rightarrow> gotime \<Rightarrow> gotime \<Rightarrow> bytes \<Rightarrow> (string \<Rightarrow> string) \<Rightarrow> mem_store \<Rightarrow> response \<times> mem_store" where
  "authorize lib resource now wall rand q s =
     (case decodeClientID lib (q ''client_id'') of
        None \<Rightarrow> (HttpErr 400 ''unknown client_id'', s)
      | Some c \<Rightarrow>
          (case registered_redirect lib c (q ''redirect_uri'') of
             None \<Rightarrow> (HttpErr 400 ''redirect_uri is not registered for this client'', s)
           | Some redirect \<Rightarrow>
               if q ''response_type'' \<noteq> ''code''
               then (authorize_fail lib redirect q ''unsupported_response_type''
                       ''only the authorization code flow is supported'', s)
               else if q ''code_challenge_method'' \<noteq> ''S256'' \<or> \<not> validPKCE (q ''code_challenge'')
               then (authorize_fail lib redirect q ''invalid_request''
                       ''PKCE with code_challenge_method S256 is required'', s)
               else if q ''resource'' \<noteq> [] \<and> q ''resource'' \<noteq> resource
               then (authorize_fail lib redirect q ''invalid_target'' (''the only resource here is '' @ resource), s)
               else
                 (let req = login_request lib now rand c redirect q
                  in (RedirectTo (consentPagePath @ ''?req='' @ QueryEscape lib (oreq_ID req)),
                      AddOAuthRequest wall req s))))"

subsection \<open>Consent\<close>

definition operator :: "ctx \<Rightarrow> (response, identity \<times> certificate) sum" where
  "operator c =
     (let i = (case FromContext c of None \<Rightarrow> zero_identity | Some i \<Rightarrow> i)
      in case PeerCertFromContext c of
           None \<Rightarrow> Inl (HttpErr 401 ''client certificate required'')
         | Some cert \<Rightarrow> if KeyID i \<noteq> [] then Inl (HttpErr 401 ''client certificate required'') else Inr (i, cert))"

definition pending :: "gotime \<Rightarrow> bool \<Rightarrow> string \<Rightarrow> mem_store \<Rightarrow> (response, oauth_request) sum \<times> mem_store" where
  "pending now tk i s =
     (let (r, s) = (if tk then TakeOAuthRequest i s else (OAuthRequest s i, s))
      in case r of
           None \<Rightarrow> (Inl (HttpErr 404 ''unknown or expired login request''), s)
         | Some req \<Rightarrow>
             if \<not> now < oreq_ExpiresAt req then (Inl (HttpErr 404 ''unknown or expired login request''), s)
             else (Inr req, s))"

definition allowed_ceilings :: "level \<Rightarrow> string list" where
  "allowed_ceilings l = map Token [LevelViewer..l]"

text \<open>
  The stored redirect URI was rendered from a parsed one; where it does not parse again Go dereferences
  a nil URL and the handler panics.
\<close>

definition redirect_back :: "oauth_lib \<Rightarrow> oauth_request \<Rightarrow> (string \<times> string) list \<Rightarrow> response" where
  "redirect_back lib req params =
     (case url_Parse lib (oreq_RedirectURI req) of
        None \<Rightarrow> Panicked
      | Some u \<Rightarrow> ConsentRedirect (withParams lib u params))"

definition consentInfo :: "oauth_lib \<Rightarrow> gotime \<Rightarrow> ctx \<Rightarrow> string \<Rightarrow> mem_store \<Rightarrow> response" where
  "consentInfo lib now c i s =
     (case operator c of
        Inl r \<Rightarrow> r
      | Inr (who, _) \<Rightarrow>
          (case fst (pending now False i s) of
             Inl r \<Rightarrow> r
           | Inr req \<Rightarrow>
               (case url_Parse lib (oreq_RedirectURI req) of
                  None \<Rightarrow> Panicked
                | Some u \<Rightarrow> ConsentView (oreq_ClientName req) (url_Host u) who (allowed_ceilings (Level who)))))"

record consent_decision =
  d_Approve :: bool
  d_Label :: string
  d_LevelCeiling :: string

definition consent_row ::
  "(bytes \<Rightarrow> bytes) \<Rightarrow> gotime \<Rightarrow> string \<Rightarrow> identity \<Rightarrow> certificate \<Rightarrow> consent_decision \<Rightarrow> oauth_request \<Rightarrow> oauth_code" where
  "consent_row sha now code who cert d req =
     \<lparr>ocode_CodeHash = hashToken sha code, ocode_ClientID = oreq_ClientID req,
      ocode_ClientName = oreq_ClientName req, ocode_RedirectURI = oreq_RedirectURI req,
      ocode_CodeChallenge = oreq_CodeChallenge req, ocode_OperatorCN = CN who,
      ocode_OperatorSerial = Serial who, ocode_OperatorCertDER = cert_Raw cert,
      ocode_LevelCeiling = d_LevelCeiling d,
      ocode_Label = (if d_Label d = [] then oreq_ClientName req else d_Label d),
      ocode_ExpiresAt = now + codeTTL\<rparr>"

definition bad_ceiling :: "string \<Rightarrow> level \<Rightarrow> bool" where
  "bad_ceiling t own \<longleftrightarrow> t \<noteq> [] \<and> (case LevelFromToken t of Inl _ \<Rightarrow> True | Inr l \<Rightarrow> l > own)"

definition consentDecide ::
  "oauth_lib \<Rightarrow> (bytes \<Rightarrow> bytes) \<Rightarrow> gotime \<Rightarrow> bytes \<Rightarrow> ctx \<Rightarrow> string \<Rightarrow> consent_decision option \<Rightarrow> string \<Rightarrow> mem_store \<Rightarrow>
   response \<times> mem_store" where
  "consentDecide lib sha now rand c mediaType body i s =
     (case operator c of
        Inl r \<Rightarrow> (r, s)
      | Inr (who, cert) \<Rightarrow>
          if mediaType \<noteq> ''application/json'' then (HttpErr 415 ''the consent decision must be application/json'', s)
          else case body of
            None \<Rightarrow> (HttpErr 400 ''the body is not a consent decision'', s)
          | Some d \<Rightarrow>
              if bad_ceiling (d_LevelCeiling d) (Level who)
              then (HttpErr 400 ''level_ceiling must be viewer, operator or admin, and not above your own level'', s)
              else if length (d_Label d) > maxLabel then (HttpErr 400 ''label is too long'', s)
              else case pending now True i s of
                (Inl r, s) \<Rightarrow> (r, s)
              | (Inr req, s) \<Rightarrow>
                  if \<not> d_Approve d then
                    (redirect_back lib req [(''error'', ''access_denied''), (''state'', oreq_State req)], s)
                  else
                    (let code = randomToken rand
                     in (redirect_back lib req [(''code'', code), (''state'', oreq_State req)],
                         AddOAuthCode (consent_row sha now code who cert d req) s)))"

subsection \<open>Token\<close>

text \<open>\<open>form\<close> is the posted form (\<open>None\<close> when it does not parse), with empty strings for missing fields.\<close>

definition mint_failure :: "'e key_error \<Rightarrow> response" where
  "mint_failure e =
     (case e of
        ErrBadCeiling \<Rightarrow> OAuthErr 400 ''invalid_grant'' ''the level ceiling is no longer allowed''
      | ErrCeilingTooHigh \<Rightarrow> OAuthErr 400 ''invalid_grant'' ''the level ceiling is no longer allowed''
      | ErrNotAdmitted _ \<Rightarrow> OAuthErr 400 ''invalid_grant'' ''the operator certificate can't hold an MCP key''
      | _ \<Rightarrow> OAuthErr 500 ''server_error'' ''the key could not be minted'')"

definition grant_error :: "(bytes \<Rightarrow> bytes) \<Rightarrow> gotime \<Rightarrow> (string \<Rightarrow> string) \<Rightarrow> oauth_code option \<Rightarrow> response option" where
  "grant_error sha now form row =
     (case row of
        None \<Rightarrow> Some (OAuthErr 400 ''invalid_grant'' ''the code is unknown, used or expired'')
      | Some code \<Rightarrow>
          if \<not> now < ocode_ExpiresAt code
          then Some (OAuthErr 400 ''invalid_grant'' ''the code is unknown, used or expired'')
          else if form ''client_id'' \<noteq> ocode_ClientID code
          then Some (OAuthErr 400 ''invalid_grant'' ''the code was issued to another client'')
          else if form ''redirect_uri'' \<noteq> ocode_RedirectURI code
          then Some (OAuthErr 400 ''invalid_grant'' ''redirect_uri does not match the authorization request'')
          else if \<not> verifierMatches sha (form ''code_verifier'') (ocode_CodeChallenge code)
          then Some (OAuthErr 400 ''invalid_grant'' ''code_verifier does not match the code challenge'')
          else None)"

definition token_call_grant :: "(string \<Rightarrow> string) option \<Rightarrow> (response, string \<Rightarrow> string) sum" where
  "token_call_grant form =
     (case form of
        None \<Rightarrow> Inl (OAuthErr 400 ''invalid_request'' ''the body is not a form'')
      | Some form \<Rightarrow>
          if form ''grant_type'' \<noteq> ''authorization_code''
          then Inl (OAuthErr 400 ''unsupported_grant_type'' ''only authorization_code is supported'')
          else Inr form)"

record 'e token_env =
  te_lib :: oauth_lib
  te_entropy :: entropy
  te_quote :: "string \<Rightarrow> string"
  te_admit :: "(bytes \<Rightarrow> 'e option) option"
  te_rand :: "string + bytes"
  te_idrand :: bytes
  te_now :: gotime
  te_keynow :: gotime
  te_ctx :: ctx

definition redeem :: "'e token_env \<Rightarrow> (string \<Rightarrow> string) \<Rightarrow> oauth_code option \<Rightarrow> mem_store \<Rightarrow> response \<times> mem_store" where
  "redeem env form row s =
     (case grant_error (sha256 (te_entropy env)) (te_now env) form row of
        Some e \<Rightarrow> (e, s)
      | None \<Rightarrow>
          (let code = the row
           in case x509_Parse (te_lib env) (ocode_OperatorCertDER code) of
                Inl _ \<Rightarrow> (OAuthErr 500 ''server_error'' ''the stored operator certificate does not parse'', s)
              | Inr cert \<Rightarrow>
                  (case IdentityFromCertificate (asn1_String (te_lib env)) cert of
                     Inl _ \<Rightarrow> (OAuthErr 400 ''invalid_grant'' ''the operator certificate carries no access level'', s)
                   | Inr owner \<Rightarrow>
                       (case Mint (te_entropy env) (te_quote env) (te_admit env) (te_rand env) (te_idrand env) (te_keynow env)
                           (te_ctx env) (owner\<lparr>Via := ViaWeb\<rparr>) (ocode_OperatorCertDER code) (ocode_Label code)
                           (ocode_ClientName code) (ocode_LevelCeiling code) s of
                          (Inl e, s) \<Rightarrow> (mint_failure e, s)
                        | (Inr (plain, key), s) \<Rightarrow> (AccessToken plain, s)))))"

definition token :: "'e token_env \<Rightarrow> (string \<Rightarrow> string) option \<Rightarrow> mem_store \<Rightarrow> response \<times> mem_store" where
  "token env form s =
     (case token_call_grant form of
        Inl r \<Rightarrow> (r, s)
      | Inr form \<Rightarrow>
          (let (row, s) = TakeOAuthCode (hashToken (sha256 (te_entropy env)) (form ''code'')) s
           in redeem env form row s))"

subsection \<open>The tables the handlers touch\<close>

lemma OAuthCodeRow_tables [simp]:
  "OAuthCodeRow (snd (Record en c e s)) h = OAuthCodeRow s h"
  "OAuthCodeRow (AddMcpKey k s) h = OAuthCodeRow s h"
  "OAuthCodeRow (AddOAuthCode row s) h = (if h = ocode_CodeHash row then Some row else OAuthCodeRow s h)"
  "OAuthRequest (AddOAuthCode row s) i = OAuthRequest s i"
  "OAuthCodeRow (snd (TakeOAuthRequest i s)) h = OAuthCodeRow s h"
  by (simp_all add: OAuthCodeRow_def OAuthRequest_def AddMcpKey_def AddOAuthCode_def
      TakeOAuthRequest_def Record_tables gomap_simps)

lemma Mint_codes: "OAuthCodeRow (snd (Mint en quote admit rand idrand now c owner der label client ceiling s)) h = OAuthCodeRow s h"
  by (simp add: Mint_def Let_def split_beta split: option.split sum.split)

lemma redeem_codes: "OAuthCodeRow (snd (redeem (env :: 'e token_env) form row s)) h = OAuthCodeRow s h"
proof -
  have "OAuthCodeRow (snd (case m of (Inl e, s) \<Rightarrow> (mint_failure e, s) | (Inr (plain, key), s) \<Rightarrow> (AccessToken plain, s))) h
      = OAuthCodeRow (snd m) h" for m :: "('e key_error + (string \<times> mcp_key)) \<times> mem_store"
    by (auto split: prod.split sum.split)
  then show ?thesis by (simp add: redeem_def Let_def Mint_codes split: option.split sum.split)
qed

lemma grant_error_None:
  "grant_error sha now form row = None \<longleftrightarrow>
     (\<exists>code. row = Some code \<and> now < ocode_ExpiresAt code \<and> form ''client_id'' = ocode_ClientID code \<and>
       form ''redirect_uri'' = ocode_RedirectURI code \<and>
       verifierMatches sha (form ''code_verifier'') (ocode_CodeChallenge code))"
  by (auto simp: grant_error_def split: option.split)

lemma grant_error_response: "grant_error sha now form row = Some r \<Longrightarrow> \<exists>d. r = OAuthErr 400 ''invalid_grant'' d"
  by (auto simp: grant_error_def split: option.splits if_splits)

lemma mint_failure_response: "mint_failure e \<noteq> AccessToken p"
  by (cases e) (simp_all add: mint_failure_def)

lemma Mint_success:
  assumes "Mint en quote admit rand idrand now c owner certDER label clientName ceiling s = (Inr (plain, key), s')"
  shows "(ceiling = [] \<or> (\<exists>l. LevelFromToken ceiling = Inr l \<and> l \<le> Level owner)) \<and> McpKey s' (key_ID key) = Some key \<and>
    key_TokenHash key = HashKey (sha256 en) plain \<and> key_OperatorCertDER key = certDER \<and>
    key_LevelCeiling key = ceiling \<and> key_OperatorSerial key = Serial owner \<and>
    (case admit of None \<Rightarrow> True | Some f \<Rightarrow> f certDER = None)"
  using assms
  by (auto simp: Mint_def check_ceiling_None Let_def split_beta McpKey_def AddMcpKey_def Record_tables gomap_simps
      split: option.splits sum.splits)

lemma redeem_AccessToken:
  assumes "redeem env form row s = (AccessToken plain, s')"
  obtains code cert owner key where "row = Some code" "te_now env < ocode_ExpiresAt code"
    "form ''client_id'' = ocode_ClientID code" "form ''redirect_uri'' = ocode_RedirectURI code"
    "verifierMatches (sha256 (te_entropy env)) (form ''code_verifier'') (ocode_CodeChallenge code)"
    "x509_Parse (te_lib env) (ocode_OperatorCertDER code) = Inr cert"
    "IdentityFromCertificate (asn1_String (te_lib env)) cert = Inr owner"
    "Mint (te_entropy env) (te_quote env) (te_admit env) (te_rand env) (te_idrand env) (te_keynow env)
       (te_ctx env) (owner\<lparr>Via := ViaWeb\<rparr>) (ocode_OperatorCertDER code) (ocode_Label code)
       (ocode_ClientName code) (ocode_LevelCeiling code) s = (Inr (plain, key), s')"
  using assms
  by (auto simp: redeem_def grant_error_None mint_failure_response Let_def dest: grant_error_response
      split: option.splits sum.splits prod.splits)


lemma token_split:
  "token env form s = (case token_call_grant form of Inl r \<Rightarrow> (r, s)
     | Inr f \<Rightarrow> redeem env f (OAuthCodeRow s (hashToken (sha256 (te_entropy env)) (f ''code'')))
         (snd (TakeOAuthCode (hashToken (sha256 (te_entropy env)) (f ''code'')) s)))"
  by (simp add: token_def split_beta code_table.take_value split: sum.split)

lemma token_AccessToken:
  assumes "token env form s = (AccessToken plain, s')"
  obtains f where "form = Some f" "f ''grant_type'' = ''authorization_code''"
    "redeem env f (OAuthCodeRow s (hashToken (sha256 (te_entropy env)) (f ''code'')))
         (snd (TakeOAuthCode (hashToken (sha256 (te_entropy env)) (f ''code'')) s)) = (AccessToken plain, s')"
  using assms by (auto simp: token_split token_call_grant_def split: option.splits if_splits)

subsection \<open>Any sequence of logins\<close>

datatype 'e login_step =
    TokenStep "'e token_env" "(string \<Rightarrow> string) option"
  | StoreStep "mem_store \<Rightarrow> mem_store"

fun step_ops :: "(bytes \<Rightarrow> bytes) \<Rightarrow> 'e login_step \<Rightarrow> mem_store \<Rightarrow> (string, mem_store) table_op list" where
  "step_ops sha (TokenStep env form) s =
     (case token_call_grant form of
        Inl _ \<Rightarrow> []
      | Inr f \<Rightarrow> (let h = hashToken sha (f ''code'')
                  in [TakeKey h, OtherStep (\<lambda>s'. snd (redeem env f (OAuthCodeRow s h) s'))]))"
| "step_ops sha (StoreStep f) s = [OtherStep f]"

fun step_state :: "'e login_step \<Rightarrow> mem_store \<Rightarrow> mem_store" where
  "step_state (TokenStep env form) s = snd (token env form s)"
| "step_state (StoreStep f) s = f s"

fun grants :: "(bytes \<Rightarrow> bytes) \<Rightarrow> string \<Rightarrow> 'e login_step \<Rightarrow> mem_store \<Rightarrow> bool" where
  "grants sha h (TokenStep env form) s \<longleftrightarrow>
     (\<exists>f plain. form = Some f \<and> hashToken sha (f ''code'') = h \<and> fst (token env form s) = AccessToken plain)"
| "grants sha h (StoreStep f) s \<longleftrightarrow> False"

fun count_grants :: "(bytes \<Rightarrow> bytes) \<Rightarrow> string \<Rightarrow> 'e login_step list \<Rightarrow> mem_store \<Rightarrow> nat" where
  "count_grants sha h [] s = 0"
| "count_grants sha h (a # as) s = (if grants sha h a s then 1 else 0) + count_grants sha h as (step_state a s)"

fun harmless :: "(bytes \<Rightarrow> bytes) \<Rightarrow> string \<Rightarrow> 'e login_step \<Rightarrow> bool" where
  "harmless sha h (TokenStep env form) \<longleftrightarrow> sha256 (te_entropy env) = sha"
| "harmless sha h (StoreStep f) \<longleftrightarrow> (\<forall>s. OAuthCodeRow s h = None \<longrightarrow> OAuthCodeRow (f s) h = None)"

fun run_ops :: "(bytes \<Rightarrow> bytes) \<Rightarrow> 'e login_step list \<Rightarrow> mem_store \<Rightarrow> (string, mem_store) table_op list" where
  "run_ops sha [] s = []"
| "run_ops sha (a # as) s = step_ops sha a s @ run_ops sha as (step_state a s)"

lemma no_revival_append: "no_revival look k (xs @ ys) \<longleftrightarrow> no_revival look k xs \<and> no_revival look k ys"
  by (induction look k xs rule: no_revival.induct) auto

lemma step_ops_no_revival: "harmless sha h a \<Longrightarrow> no_revival OAuthCodeRow h (step_ops sha a s)"
  by (cases a) (auto simp: redeem_codes Let_def split: sum.split)

lemma run_ops_no_revival: "list_all (harmless sha h) as \<Longrightarrow> no_revival OAuthCodeRow h (run_ops sha as s)"
  by (induction as arbitrary: s) (auto simp: no_revival_append step_ops_no_revival)

lemma grants_token:
  assumes "sha256 (te_entropy env) = sha" and "grants sha h (TokenStep env form) s"
  shows "\<exists>f. token_call_grant form = Inr f \<and> hashToken sha (f ''code'') = h \<and> OAuthCodeRow s h \<noteq> None"
proof -
  from assms(2) obtain f plain where f: "form = Some f" "hashToken sha (f ''code'') = h"
    and t: "token env form s = (AccessToken plain, snd (token env form s))"
    by (metis grants.simps(1) prod.collapse)
  show ?thesis
    using t f assms(1)
    by (elim token_AccessToken redeem_AccessToken) (auto simp: token_call_grant_def)
qed

lemma count_takes_step:
  assumes "harmless sha h a"
  shows "(if grants sha h a s then 1 else 0) + count_takes TakeOAuthCode h ops (step_state a s) \<le>
    count_takes TakeOAuthCode h (step_ops sha a s @ ops) s"
proof (cases a)
  case (TokenStep env form)
  with assms have sha: "sha256 (te_entropy env) = sha" by simp
  show ?thesis
  proof (cases "token_call_grant form")
    case (Inl r)
    then have "\<not> grants sha h a s" using grants_token [OF sha] TokenStep by fastforce
    then show ?thesis using Inl TokenStep by (simp add: token_split)
  next
    case (Inr f)
    then have "grants sha h a s \<longrightarrow> hashToken sha (f ''code'') = h \<and> OAuthCodeRow s h \<noteq> None"
      using grants_token [OF sha] TokenStep by fastforce
    then show ?thesis using Inr TokenStep sha by (auto simp: token_split Let_def code_table.take_value)
  qed
qed simp

lemma count_grants_le: "list_all (harmless sha h) as \<Longrightarrow> count_grants sha h as s \<le> count_takes TakeOAuthCode h (run_ops sha as s) s"
proof (induction as arbitrary: s)
  case (Cons a as)
  then have "count_grants sha h as (step_state a s) \<le> count_takes TakeOAuthCode h (run_ops sha as (step_state a s)) (step_state a s)"
    by simp
  then show ?case using count_takes_step [of sha h a s "run_ops sha as (step_state a s)"] Cons.prems by simp
qed simp


subsection \<open>Requests and consent\<close>

lemma OAuthRequest_AddOAuthRequest [simp]: "oreq_ID req = i \<Longrightarrow> OAuthRequest (AddOAuthRequest wall req s) i = Some req"
  by (auto simp: OAuthRequest_def AddOAuthRequest_def gomap_simps)

lemma decodeClientID_loopback:
  "decodeClientID lib i = Some c \<Longrightarrow> client_RedirectURIs c \<noteq> [] \<and> (\<forall>r \<in> set (client_RedirectURIs c). loopback lib r \<noteq> None)"
  by (auto simp: decodeClientID_def split: option.splits if_splits)

lemma loopback_Some:
  "loopback lib raw = Some u \<Longrightarrow> url_Parse lib raw = Some u \<and> url_Scheme u = ''http'' \<and> url_User u = None \<and>
     url_Fragment u = [] \<and> (url_Hostname lib u = ''localhost'' \<or> ip_IsLoopback lib (url_Hostname lib u))"
  by (auto simp: loopback_def split: option.splits if_splits)

lemma pending_Inr:
  "pending now tk i s = (Inr req, s') \<longleftrightarrow>
     OAuthRequest s i = Some req \<and> now < oreq_ExpiresAt req \<and> s' = (if tk then snd (TakeOAuthRequest i s) else s)"
  by (auto simp: pending_def TakeOAuthRequest_def OAuthRequest_def Let_def split: option.splits if_splits)

lemma pending_codes: "pending now tk i s = (r, s') \<Longrightarrow> OAuthCodeRow s' h = OAuthCodeRow s h"
  by (auto simp: pending_def TakeOAuthRequest_def OAuthCodeRow_def OAuthRequest_def Let_def split: option.splits if_splits)

lemma bad_ceiling_iff: "\<not> bad_ceiling t own \<longleftrightarrow> t = [] \<or> (\<exists>l. LevelFromToken t = Inr l \<and> l \<le> own)"
  by (auto simp: bad_ceiling_def split: sum.split)

lemma consentDecide_approve:
  assumes "operator c = Inr (who, cert)" and "d_Approve d" and "\<not> bad_ceiling (d_LevelCeiling d) (Level who)"
    and "length (d_Label d) \<le> maxLabel" and "OAuthRequest s i = Some req" and "now < oreq_ExpiresAt req"
  shows "snd (consentDecide lib sha now rand c ''application/json'' (Some d) i s) =
    AddOAuthCode (consent_row sha now (randomToken rand) who cert d req) (snd (TakeOAuthRequest i s))"
proof -
  have "pending now True i s = (Inr req, snd (TakeOAuthRequest i s))"
    using assms(5,6) by (simp add: pending_Inr)
  then show ?thesis using assms by (simp add: consentDecide_def Let_def)
qed

lemma consentDecide_new_code:
  assumes "consentDecide lib sha now rand c mt body i s = (r, s')" and "OAuthCodeRow s' h \<noteq> OAuthCodeRow s h"
  obtains who cert d req where "operator c = Inr (who, cert)" "mt = ''application/json''" "body = Some d" "d_Approve d"
    "\<not> bad_ceiling (d_LevelCeiling d) (Level who)" "length (d_Label d) \<le> maxLabel"
    "OAuthRequest s i = Some req" "now < oreq_ExpiresAt req"
  using assms
  by (auto simp: consentDecide_def pending_Inr not_less dest: pending_codes
      split: sum.splits option.splits if_splits prod.splits)

lemma operator_Inr: "operator c = Inr (who, cert) \<Longrightarrow> PeerCertFromContext c = Some cert \<and> KeyID who = []"
  by (auto simp: operator_def Let_def split: option.splits if_splits)

lemma registered_redirect_Some:
  "registered_redirect lib c raw = Some u \<Longrightarrow> loopback lib raw = Some u \<and>
     (\<exists>ru reg. ru \<in> set (client_RedirectURIs c) \<and> loopback lib ru = Some reg \<and> sameLoopback lib reg u)"
  by (auto simp: registered_redirect_def split: option.splits if_splits)

lemma authorize_cases:
  assumes "authorize lib resource now wall rand q s = (r, s')"
  obtains (refused) e where "r = HttpErr 400 e" "s' = s"
    | (failed) c u code desc where "decodeClientID lib (q ''client_id'') = Some c"
        "registered_redirect lib c (q ''redirect_uri'') = Some u" "r = authorize_fail lib u q code desc" "s' = s"
    | (accepted) c u where "decodeClientID lib (q ''client_id'') = Some c"
        "registered_redirect lib c (q ''redirect_uri'') = Some u" "validPKCE (q ''code_challenge'')"
        "r = RedirectTo (consentPagePath @ ''?req='' @ QueryEscape lib (randomToken rand))"
        "s' = AddOAuthRequest wall (login_request lib now rand c u q) s"
  using assms
  by (auto simp: authorize_def Let_def login_request_def split: option.splits if_splits)

lemma login_request_simps [simp]:
  "oreq_ID (login_request lib now rand c u q) = randomToken rand"
  "oreq_RedirectURI (login_request lib now rand c u q) = url_String lib u"
  "oreq_ClientID (login_request lib now rand c u q) = q ''client_id''"
  "oreq_CodeChallenge (login_request lib now rand c u q) = q ''code_challenge''"
  "oreq_ExpiresAt (login_request lib now rand c u q) = now + requestTTL"
  by (simp_all add: login_request_def)

lemma login_request_stored [simp]:
  "OAuthRequest (AddOAuthRequest wall (login_request lib now rand c u q) s) (randomToken rand) =
     Some (login_request lib now rand c u q)"
  by simp

lemma register_Registered:
  assumes "register lib meta = Registered i c" and "json_client_decode lib (json_client lib c) = Some c"
  shows "decodeClientID lib i = Some c"
  using assms
  by (fastforce simp: register_def decodeClientID_def encodeClientID_def Let_def split: option.splits if_splits)


lemma redeem_grants:
  assumes "te_now (env :: 'e token_env) < ocode_ExpiresAt code" and "form ''client_id'' = ocode_ClientID code"
    and "form ''redirect_uri'' = ocode_RedirectURI code"
    and "verifierMatches (sha256 (te_entropy env)) (form ''code_verifier'') (ocode_CodeChallenge code)"
    and "x509_Parse (te_lib env) (ocode_OperatorCertDER code) = Inr cert"
    and "IdentityFromCertificate (asn1_String (te_lib env)) cert = Inr owner"
    and "\<not> bad_ceiling (ocode_LevelCeiling code) (Level owner)"
    and "case te_admit env of None \<Rightarrow> True | Some f \<Rightarrow> f (ocode_OperatorCertDER code) = None" and "te_rand env = Inr b"
  shows "fst (redeem env form (Some code) s) = AccessToken (KeyPrefix @ b64_encode b)"
proof -
  have "grant_error (sha256 (te_entropy env)) (te_now env) form (Some code) = None"
    using assms(1-4) by (simp add: grant_error_None)
  moreover have "check_ceiling (owner\<lparr>Via := ViaWeb\<rparr>) (ocode_LevelCeiling code) = (None :: 'e key_error option)"
    using assms(7) by (simp add: check_ceiling_None bad_ceiling_iff)
  moreover have "(case te_admit env of None \<Rightarrow> None | Some f \<Rightarrow> f (ocode_OperatorCertDER code)) = (None :: 'e option)"
    using assms(8) by (simp split: option.splits)
  ultimately show ?thesis
    using assms(5,6,9) by (simp add: redeem_def Mint_def NewKey_def Let_def split_beta)
qed

subsection \<open>Properties\<close>

text \<open>C7: however many token requests are made with one authorization code, in any order and mixed with any
  store operations that do not issue that code again, at most one of them is answered with an access
  token.\<close>

theorem code_redeemed_at_most_once:
  assumes "list_all (harmless sha h) steps"
  shows "count_grants sha h steps s \<le> 1"
  using count_grants_le [OF assms, of s] code_table.taken_at_most_once [OF run_ops_no_revival [OF assms], of s s] by linarith

text \<open>C6: an access token is granted only against a stored code that has not expired, to the client and the
  redirect URI the code was issued to, with a verifier whose S256 digest is the challenge of the authorization
  request; the new key is bound to the certificate the operator consented with, its ceiling is not above that
  certificate's level, and the code is gone.\<close>

theorem token_sound:
  assumes "token env form s = (AccessToken plain, s')"
  shows "\<exists>f code cert owner key. form = Some f \<and>
    OAuthCodeRow s (hashToken (sha256 (te_entropy env)) (f ''code'')) = Some code \<and>
    te_now env < ocode_ExpiresAt code \<and> f ''client_id'' = ocode_ClientID code \<and>
    f ''redirect_uri'' = ocode_RedirectURI code \<and>
    b64_encode (sha256 (te_entropy env) (f ''code_verifier'')) = ocode_CodeChallenge code \<and>
    x509_Parse (te_lib env) (ocode_OperatorCertDER code) = Inr cert \<and>
    IdentityFromCertificate (asn1_String (te_lib env)) cert = Inr owner \<and>
    McpKey s' (key_ID key) = Some key \<and> key_TokenHash key = HashKey (sha256 (te_entropy env)) plain \<and>
    key_OperatorCertDER key = ocode_OperatorCertDER code \<and> key_OperatorSerial key = Serial owner \<and>
    key_LevelCeiling key = ocode_LevelCeiling code \<and> \<not> bad_ceiling (key_LevelCeiling key) (Level owner) \<and>
    OAuthCodeRow s' (hashToken (sha256 (te_entropy env)) (f ''code'')) = None"
proof -
  let ?h = "\<lambda>f :: string \<Rightarrow> string. hashToken (sha256 (te_entropy env)) (f ''code'')"
  obtain f where f: "form = Some f"
    and red: "redeem env f (OAuthCodeRow s (?h f)) (snd (TakeOAuthCode (?h f) s)) = (AccessToken plain, s')"
    using assms by (rule token_AccessToken)
  have gone: "OAuthCodeRow s' (?h f) = None"
    using redeem_codes [of env f "OAuthCodeRow s (?h f)" "snd (TakeOAuthCode (?h f) s)" "?h f"]
    by (simp add: red code_table.take_gone)
  from red show ?thesis
  proof (rule redeem_AccessToken)
    fix code cert owner key
    assume r: "OAuthCodeRow s (?h f) = Some code" "te_now env < ocode_ExpiresAt code" "f ''client_id'' = ocode_ClientID code"
      "f ''redirect_uri'' = ocode_RedirectURI code"
      "verifierMatches (sha256 (te_entropy env)) (f ''code_verifier'') (ocode_CodeChallenge code)"
      "x509_Parse (te_lib env) (ocode_OperatorCertDER code) = Inr cert"
      "IdentityFromCertificate (asn1_String (te_lib env)) cert = Inr owner"
      and mint: "Mint (te_entropy env) (te_quote env) (te_admit env) (te_rand env) (te_idrand env) (te_keynow env)
       (te_ctx env) (owner\<lparr>Via := ViaWeb\<rparr>) (ocode_OperatorCertDER code) (ocode_Label code)
       (ocode_ClientName code) (ocode_LevelCeiling code) (snd (TakeOAuthCode (?h f) s)) = (Inr (plain, key), s')"
    show ?thesis
      by (rule exI [of _ f], rule exI [of _ code], rule exI [of _ cert], rule exI [of _ owner], rule exI [of _ key])
        (use f r gone Mint_success [OF mint] in \<open>simp add: verifierMatches_def bad_ceiling_iff\<close>)
  qed
qed

text \<open>An authorization request leaves the store alone unless it is answered with the consent page; the
  answer is then a stored request for a registered client, whose redirect URI is an http loopback URI, with a
  well-formed S256 challenge. Any other redirect goes to a loopback URI that matches a registered one up to the
  port.\<close>

theorem authorize_safe:
  assumes "authorize lib resource now wall rand q s = (r, s')"
  shows "(s' = s \<and> (\<forall>loc. r = RedirectTo loc \<longrightarrow> (\<exists>c u ru reg params. loc = withParams lib u params \<and>
        decodeClientID lib (q ''client_id'') = Some c \<and> loopback lib (q ''redirect_uri'') = Some u \<and>
        url_Scheme u = ''http'' \<and> (url_Hostname lib u = ''localhost'' \<or> ip_IsLoopback lib (url_Hostname lib u)) \<and>
        ru \<in> set (client_RedirectURIs c) \<and> loopback lib ru = Some reg \<and> sameLoopback lib reg u))) \<or>
    (\<exists>req u. s' = AddOAuthRequest wall req s \<and> OAuthRequest s' (randomToken rand) = Some req \<and>
        r = RedirectTo (consentPagePath @ ''?req='' @ QueryEscape lib (randomToken rand)) \<and>
        loopback lib (q ''redirect_uri'') = Some u \<and> oreq_RedirectURI req = url_String lib u \<and>
        url_Scheme u = ''http'' \<and> (url_Hostname lib u = ''localhost'' \<or> ip_IsLoopback lib (url_Hostname lib u)) \<and>
        validPKCE (oreq_CodeChallenge req) \<and> oreq_ExpiresAt req = now + requestTTL)"
  using assms
proof (cases rule: authorize_cases)
  case (failed c u code desc)
  note registered_redirect_Some [OF failed(2)]
  with failed loopback_Some show ?thesis unfolding authorize_fail_def by blast
next
  case (accepted c u)
  then have u: "loopback lib (q ''redirect_uri'') = Some u" using registered_redirect_Some by blast
  show ?thesis
    by (rule disjI2, rule exI [of _ "login_request lib now rand c u q"], rule exI [of _ u])
      (use accepted u loopback_Some [OF u] in simp)
qed simp


text \<open>C18: the consent endpoint issues a code only to a caller that presents a client certificate and is not an
  agent key, for a pending request that has not expired, on an approval whose ceiling is not above the caller's
  own level; the request is consumed, and the code carries the request's client, redirect URI and challenge,
  the caller's certificate and an expiry of one minute.\<close>

theorem consentDecide_sound:
  assumes "consentDecide lib sha now rand c mt body i s = (r, s')" and "OAuthCodeRow s' h \<noteq> OAuthCodeRow s h"
  shows "\<exists>who cert d req row. operator c = Inr (who, cert) \<and> PeerCertFromContext c = Some cert \<and> KeyID who = [] \<and> mt = ''application/json'' \<and>
    body = Some d \<and> d_Approve d \<and> \<not> bad_ceiling (d_LevelCeiling d) (Level who) \<and>
    OAuthRequest s i = Some req \<and> now < oreq_ExpiresAt req \<and> OAuthRequest s' i = None \<and>
    h = hashToken sha (randomToken rand) \<and> OAuthCodeRow s' h = Some row \<and>
    ocode_ClientID row = oreq_ClientID req \<and> ocode_RedirectURI row = oreq_RedirectURI req \<and>
    ocode_CodeChallenge row = oreq_CodeChallenge req \<and> ocode_OperatorCertDER row = cert_Raw cert \<and>
    ocode_LevelCeiling row = d_LevelCeiling d \<and> ocode_ExpiresAt row = now + Minute"
proof -
  obtain who cert d req where w: "operator c = Inr (who, cert)" "mt = ''application/json''" "body = Some d" "d_Approve d"
    "\<not> bad_ceiling (d_LevelCeiling d) (Level who)" "length (d_Label d) \<le> maxLabel"
    "OAuthRequest s i = Some req" "now < oreq_ExpiresAt req"
    using assms by (rule consentDecide_new_code)
  have s': "s' = AddOAuthCode (consent_row sha now (randomToken rand) who cert d req) (snd (TakeOAuthRequest i s))"
    using consentDecide_approve [OF w(1,4-8), of lib sha rand] assms(1) w(2,3) by simp
  from assms(2) have h: "h = hashToken sha (randomToken rand)"
    by (auto simp: s' consent_row_def split: if_splits)
  show ?thesis
    by (rule exI [of _ who], rule exI [of _ cert], rule exI [of _ d], rule exI [of _ req],
        rule exI [of _ "consent_row sha now (randomToken rand) who cert d req"])
      (use h w operator_Inr [OF w(1)] in \<open>simp add: s' consent_row_def request_table.take_gone codeTTL_def\<close>)
qed

text \<open>The client id a registration returns decodes to exactly what was registered, so any replica can read
  it back without storage; the JSON round trip of the record is the one assumption.\<close>

theorem register_decodes:
  assumes "register lib meta = Registered i c" and "json_client_decode lib (json_client lib c) = Some c"
  shows "decodeClientID lib i = Some c \<and> client_RedirectURIs c \<noteq> [] \<and>
    length (client_RedirectURIs c) \<le> maxRedirectURIs \<and> length (client_Name c) \<le> maxClientName \<and>
    (\<forall>ru \<in> set (client_RedirectURIs c). loopback lib ru \<noteq> None)"
  using register_Registered [OF assms] decodeClientID_loopback [OF register_Registered [OF assms]] assms(1)
  by (auto simp: register_def Let_def split: option.splits if_splits)

text \<open>C19: the login ends with a key. When the authorization request was accepted, an operator with a client
  certificate approves it in time, and the client redeems the code in time with the same client id, the redirect
  URI and the verifier of its challenge, the token endpoint answers with the access token made of the random
  bytes it drew.\<close>

theorem login_flow:
  fixes env :: "'e token_env"
  assumes auth: "authorize lib resource t0 wall rand0 q s = (r, s1)" "s1 \<noteq> s" "loopback lib (q ''redirect_uri'') = Some u"
    and consent: "operator c = Inr (who, cert)" "d_Approve d" "\<not> bad_ceiling (d_LevelCeiling d) (Level who)"
      "length (d_Label d) \<le> maxLabel" "t1 < t0 + requestTTL"
      "s2 = snd (consentDecide lib (sha256 (te_entropy env)) t1 rand1 c ''application/json'' (Some d) (randomToken rand0) s1)"
    and form: "f ''grant_type'' = ''authorization_code''" "f ''code'' = randomToken rand1" "f ''client_id'' = q ''client_id''"
      "f ''redirect_uri'' = url_String lib u" "te_now env < t1 + codeTTL"
      "verifierMatches (sha256 (te_entropy env)) (f ''code_verifier'') (q ''code_challenge'')"
    and cert: "x509_Parse (te_lib env) (cert_Raw cert) = Inr cert'"
      "IdentityFromCertificate (asn1_String (te_lib env)) cert' = Inr owner" "Level who \<le> Level owner"
      "case te_admit env of None \<Rightarrow> True | Some g \<Rightarrow> g (cert_Raw cert) = None" "te_rand env = Inr b"
  shows "fst (token env (Some f) s2) = AccessToken (KeyPrefix @ b64_encode b)"
proof -
  let ?sha = "sha256 (te_entropy env)"
  from auth obtain cl where s1: "s1 = AddOAuthRequest wall (login_request lib t0 rand0 cl u q) s"
    by (cases rule: authorize_cases [OF auth(1)]) (auto dest: registered_redirect_Some)
  define row where "row = consent_row ?sha t1 (randomToken rand1) who cert d (login_request lib t0 rand0 cl u q)"
  have s2: "s2 = AddOAuthCode row (snd (TakeOAuthRequest (randomToken rand0) s1))"
    unfolding consent(6) row_def by (rule consentDecide_approve [OF consent(1-4)]) (simp_all add: s1 consent(5))
  have row: "OAuthCodeRow s2 (hashToken ?sha (randomToken rand1)) = Some row"
    by (simp add: s2 row_def consent_row_def)
  have "\<not> bad_ceiling (d_LevelCeiling d) (Level owner)"
    using consent(3) cert(3) by (auto simp: bad_ceiling_iff)
  then have "fst (redeem env f (Some row) s') = AccessToken (KeyPrefix @ b64_encode b)" for s'
    by (intro redeem_grants [where cert = cert' and owner = owner])
      (use form cert in \<open>simp_all add: row_def consent_row_def split: option.splits\<close>)
  then show ?thesis using row form(1,2) by (simp add: token_split token_call_grant_def)
qed


subsection \<open>A login\<close>

definition example_url :: url where
  "example_url = \<lparr>url_Scheme = ''http'', url_User = None, url_Host = ''localhost:9'', url_Path = ''/cb'', url_RawQuery = [],
     url_Fragment = []\<rparr>"

definition example_client :: client where
  "example_client = \<lparr>client_Name = ''agent'', client_RedirectURIs = [''http://localhost/cb'']\<rparr>"

definition example_oauth :: oauth_lib where
  "example_oauth = \<lparr>url_Parse = (\<lambda>_. Some example_url), url_String = (\<lambda>u. url_Scheme u @ ''://'' @ url_Host u @ url_Path u),
     url_Hostname = (\<lambda>_. ''localhost''), url_Query = (\<lambda>_. []), url_Encode = (\<lambda>_. []), QueryEscape = id,
     ip_IsLoopback = (\<lambda>_. False), json_client = (\<lambda>_. ''{}''), json_client_decode = (\<lambda>_. Some example_client),
     x509_Parse = (\<lambda>_. Inr example_cert), asn1_String = (\<lambda>_. Inr ''admin'')\<rparr>"

definition example_verifier :: string where
  "example_verifier = replicate 43 (CHR ''v'')"

definition example_challenge :: string where
  "example_challenge = b64_encode (replicate 32 (CHR ''h''))"

definition example_query :: "string \<Rightarrow> string" where
  "example_query = (\<lambda>_. [])(''client_id'' := encodeClientID example_oauth example_client, ''redirect_uri'' := ''http://localhost:9/cb'',
     ''response_type'' := ''code'', ''code_challenge_method'' := ''S256'', ''code_challenge'' := example_challenge)"

definition example_form :: "string \<Rightarrow> string" where
  "example_form = (\<lambda>_. [])(''grant_type'' := ''authorization_code'', ''code'' := randomToken ''two'',
     ''client_id'' := encodeClientID example_oauth example_client, ''redirect_uri'' := url_String example_oauth example_url,
     ''code_verifier'' := example_verifier)"

definition example_env :: "unit token_env" where
  "example_env = \<lparr>te_lib = example_oauth, te_entropy = constant_entropy, te_quote = id, te_admit = None,
     te_rand = Inr (replicate 32 (CHR ''k'')), te_idrand = ''abc'', te_now = 30, te_keynow = 30, te_ctx = Background\<rparr>"

definition example_browser :: ctx where
  "example_browser = (NewContext Background example_owner)\<lparr>ctx_peerCert := Some example_cert\<rparr>"

definition example_decision :: consent_decision where
  "example_decision = \<lparr>d_Approve = True, d_Label = ''laptop'', d_LevelCeiling = ''operator''\<rparr>"

definition example_requested :: "response \<times> mem_store" where
  "example_requested = authorize example_oauth ''res'' 10 10 ''one'' example_query (New (\<lambda>_. []) [])"

definition example_consented :: "response \<times> mem_store" where
  "example_consented = consentDecide example_oauth (sha256 constant_entropy) 20 ''two'' example_browser ''application/json''
     (Some example_decision) (randomToken ''one'') (snd example_requested)"

lemma example_operator: "operator example_browser = Inr (example_owner, example_cert)"
  by (simp add: operator_def example_browser_def NewContext_def FromContext_def
      PeerCertFromContext_def Background_def example_owner_def zero_identity_def)

lemma example_challenge_valid: "validPKCE example_challenge"
  by code_simp

lemma example_client_decodes: "decodeClientID example_oauth (encodeClientID example_oauth example_client) = Some example_client"
  by (simp add: decodeClientID_def encodeClientID_def example_oauth_def example_client_def loopback_def maxRedirectLen_def example_url_def)

lemma example_redirect: "loopback example_oauth ''http://localhost:9/cb'' = Some example_url"
  by (simp add: loopback_def example_oauth_def maxRedirectLen_def example_url_def)

lemma example_registered: "registered_redirect example_oauth example_client ''http://localhost:9/cb'' = Some example_url"
  by (simp add: registered_redirect_def example_redirect)
    (simp add: loopback_def example_oauth_def maxRedirectLen_def example_url_def example_client_def sameLoopback_def)

lemma example_query_simps:
  "example_query ''client_id'' = encodeClientID example_oauth example_client"
  "example_query ''redirect_uri'' = ''http://localhost:9/cb''"
  "example_query ''response_type'' = ''code''" "example_query ''code_challenge_method'' = ''S256''"
  "example_query ''code_challenge'' = example_challenge" "example_query ''resource'' = []"
  by (simp_all add: example_query_def)

lemma example_requested_eq:
  "example_requested = (RedirectTo (consentPagePath @ ''?req='' @ QueryEscape example_oauth (randomToken ''one'')),
     AddOAuthRequest 10 (login_request example_oauth 10 ''one'' example_client example_url example_query) (New (\<lambda>_. []) []))"
  by (simp add: example_requested_def authorize_def example_query_simps example_client_decodes example_registered
      example_challenge_valid Let_def)

lemma example_requested_new: "snd example_requested \<noteq> New (\<lambda>_. []) []"
proof
  assume "snd example_requested = New (\<lambda>_. []) []"
  then have "OAuthRequest (snd example_requested) (randomToken ''one'') = None"
    by (simp add: OAuthRequest_def New_def NewWithCatalog_def)
  then show False by (simp add: example_requested_eq)
qed

lemma example_ceiling: "\<not> bad_ceiling (d_LevelCeiling example_decision) (Level example_owner)"
  by (simp add: bad_ceiling_iff example_decision_def example_owner_def LevelFromToken_def level_defs)

lemmas example_env_simps = example_env_def example_form_def example_oauth_def

lemma example_verifier_ok: "verifierMatches (sha256 (te_entropy example_env)) (example_form ''code_verifier'') (example_query ''code_challenge'')"
  by (simp add: verifierMatches_def example_query_simps example_env_def example_form_def constant_entropy_def example_challenge_def
      example_verifier_def validPKCE_def list_all_length unreserved_def)

lemma login_flow_witness: "fst (token example_env (Some example_form) (snd example_consented)) = AccessToken example_bearer"
  unfolding example_bearer_def
proof (rule login_flow [where lib = example_oauth and resource = "''res''" and ?t0.0 = 10 and wall = 10 and ?rand0.0 = "''one''"
      and q = example_query and s = "New (\<lambda>_. []) []" and r = "fst example_requested" and ?s1.0 = "snd example_requested"
      and u = example_url and c = example_browser and who = example_owner and cert = example_cert and d = example_decision
      and ?t1.0 = 20 and ?rand1.0 = "''two''" and cert' = example_cert
      and owner = "zero_identity\<lparr>CN := ''op'', Serial := formatSerial 4660, Level := LevelAdmin\<rparr>"])
  show "IdentityFromCertificate (asn1_String (te_lib example_env)) example_cert =
      Inr (zero_identity\<lparr>CN := ''op'', Serial := formatSerial 4660, Level := LevelAdmin\<rparr>)"
    using example_cert_identity by (simp add: example_env_def example_oauth_def example_resolver_def)
  show "verifierMatches (sha256 (te_entropy example_env)) (example_form ''code_verifier'') (example_query ''code_challenge'')"
    by (rule example_verifier_ok)
  show "\<not> bad_ceiling (d_LevelCeiling example_decision) (Level example_owner)" by (rule example_ceiling)
  show "snd example_requested \<noteq> New (\<lambda>_. []) []" by (rule example_requested_new)
  show "operator example_browser = Inr (example_owner, example_cert)" by (rule example_operator)
  show "loopback example_oauth (example_query ''redirect_uri'') = Some example_url"
    by (simp add: example_query_simps example_redirect)
qed (simp_all add: example_requested_def example_consented_def example_decision_def maxLabel_def requestTTL_def codeTTL_def Minute_def
    Second_def example_env_def example_form_def example_query_simps example_oauth_def example_owner_def)


definition example_row :: oauth_code where
  "example_row = consent_row (sha256 constant_entropy) 20 (randomToken ''two'') example_owner example_cert example_decision
     (login_request example_oauth 10 ''one'' example_client example_url example_query)"

definition example_code_store :: mem_store where
  "example_code_store = AddOAuthCode example_row (New (\<lambda>_. []) [])"

lemma example_row_stored:
  "OAuthCodeRow example_code_store (hashToken (sha256 (te_entropy example_env)) (example_form ''code'')) = Some example_row"
  by (simp add: example_code_store_def example_row_def consent_row_def example_env_def example_form_def)

lemma example_redeems: "fst (redeem example_env example_form (Some example_row) s) = AccessToken example_bearer"
  unfolding example_bearer_def
proof (rule redeem_grants [where cert = example_cert and owner = "zero_identity\<lparr>CN := ''op'', Serial := formatSerial 4660, Level := LevelAdmin\<rparr>"])
  show "IdentityFromCertificate (asn1_String (te_lib example_env)) example_cert =
      Inr (zero_identity\<lparr>CN := ''op'', Serial := formatSerial 4660, Level := LevelAdmin\<rparr>)"
    using example_cert_identity by (simp add: example_env_def example_oauth_def example_resolver_def)
  show "verifierMatches (sha256 (te_entropy example_env)) (example_form ''code_verifier'') (ocode_CodeChallenge example_row)"
    using example_verifier_ok by (simp add: example_row_def consent_row_def)
  show "\<not> bad_ceiling (ocode_LevelCeiling example_row) (Level (zero_identity\<lparr>CN := ''op'', Serial := formatSerial 4660, Level := LevelAdmin\<rparr>))"
    using example_ceiling by (simp add: example_row_def consent_row_def example_owner_def)
qed (simp_all add: example_row_def consent_row_def codeTTL_def Minute_def Second_def example_env_def example_form_def
    example_query_simps example_oauth_def)

lemma example_token: "fst (token example_env (Some example_form) example_code_store) = AccessToken example_bearer"
  using example_redeems example_row_stored
  by (simp add: token_split token_call_grant_def example_form_def)

lemma token_sound_witness:
  "\<exists>s'. token example_env (Some example_form) example_code_store = (AccessToken example_bearer, s') \<and>
     OAuthCodeRow s' (hashToken (sha256 constant_entropy) (randomToken ''two'')) = None"
proof -
  obtain s' where s': "token example_env (Some example_form) example_code_store = (AccessToken example_bearer, s')"
    using example_token by (metis prod.collapse)
  from token_sound [OF s'] s' show ?thesis
    by (auto simp: example_env_def example_form_def)
qed

lemma code_redeemed_at_most_once_witness:
  "grants (sha256 constant_entropy) (ocode_CodeHash example_row) (TokenStep example_env (Some example_form)) example_code_store \<and>
   count_grants (sha256 constant_entropy) (ocode_CodeHash example_row)
     [TokenStep example_env (Some example_form), TokenStep example_env (Some example_form)] example_code_store \<le> 1"
proof (rule conjI)
  show "grants (sha256 constant_entropy) (ocode_CodeHash example_row) (TokenStep example_env (Some example_form)) example_code_store"
    using example_token by (simp add: example_form_def example_row_def consent_row_def)
  show "count_grants (sha256 constant_entropy) (ocode_CodeHash example_row)
     [TokenStep example_env (Some example_form), TokenStep example_env (Some example_form)] example_code_store \<le> 1"
    by (rule code_redeemed_at_most_once) (simp add: example_env_def)
qed

lemma authorize_safe_witness:
  "snd example_requested \<noteq> New (\<lambda>_. []) [] \<and>
   (\<exists>req. OAuthRequest (snd example_requested) (randomToken ''one'') = Some req \<and> validPKCE (oreq_CodeChallenge req))"
proof -
  have "authorize example_oauth ''res'' 10 10 ''one'' example_query (New (\<lambda>_. []) []) = (fst example_requested, snd example_requested)"
    by (simp add: example_requested_def)
  from authorize_safe [OF this] example_requested_new show ?thesis by blast
qed

lemma example_consented_code:
  "OAuthCodeRow (snd example_consented) (hashToken (sha256 constant_entropy) (randomToken ''two'')) = Some example_row"
proof -
  have "snd example_consented = AddOAuthCode example_row (snd (TakeOAuthRequest (randomToken ''one'') (snd example_requested)))"
    unfolding example_consented_def example_row_def
    by (rule consentDecide_approve [OF example_operator _ example_ceiling])
      (simp_all add: example_requested_eq example_decision_def maxLabel_def requestTTL_def Minute_def Second_def)
  then show ?thesis by (simp add: example_row_def consent_row_def)
qed

lemma consentDecide_sound_witness: "OAuthRequest (snd example_consented) (randomToken ''one'') = None"
proof -
  have "OAuthCodeRow (snd example_requested) (hashToken (sha256 constant_entropy) (randomToken ''two'')) = None"
    by (simp add: example_requested_eq OAuthCodeRow_def AddOAuthRequest_def New_def NewWithCatalog_def)
  with example_consented_code have "OAuthCodeRow (snd example_consented) (hashToken (sha256 constant_entropy) (randomToken ''two'')) \<noteq>
      OAuthCodeRow (snd example_requested) (hashToken (sha256 constant_entropy) (randomToken ''two''))" by simp
  moreover have "consentDecide example_oauth (sha256 constant_entropy) 20 ''two'' example_browser ''application/json''
     (Some example_decision) (randomToken ''one'') (snd example_requested) = (fst example_consented, snd example_consented)"
    by (simp add: example_consented_def)
  ultimately show ?thesis using consentDecide_sound by blast
qed

lemma register_decodes_witness:
  "register example_oauth (Some example_client) = Registered (encodeClientID example_oauth example_client) example_client \<and>
   decodeClientID example_oauth (encodeClientID example_oauth example_client) = Some example_client"
proof -
  have "register example_oauth (Some example_client) = Registered (encodeClientID example_oauth example_client) example_client"
    by (simp add: register_def Let_def example_client_def maxRedirectURIs_def maxClientName_def loopback_def example_oauth_def
        maxRedirectLen_def example_url_def)
  moreover have "json_client_decode example_oauth (json_client example_oauth example_client) = Some example_client"
    by (simp add: example_oauth_def)
  ultimately show ?thesis using register_decodes by blast
qed

end
