(* ===== verification/Rate_Limit.thy ===== *)
theory Rate_Limit
  imports Mcp_Auth
begin

text \<open>
  \<^verbatim>\<open>internal/ratelimit\<close>: failed authentication attempts are limited per client address and,
  for the bootstrap token, over all clients together; and \<^verbatim>\<open>internal/mcpauth/middleware.go\<close>,
  which stands in front of the agent endpoint. The token bucket of \<^verbatim>\<open>golang.org/x/time/rate\<close>
  is a parameter: a new bucket, taking one token at a time, and whether less than one token is left.
\<close>

record 'l rate_lib =
  NewLimiter :: "duration \<Rightarrow> int \<Rightarrow> 'l"
  AllowOne :: "gotime \<Rightarrow> 'l \<Rightarrow> 'l"
  exhausted :: "'l \<Rightarrow> gotime \<Rightarrow> bool"

definition maxTrackedClients :: nat where "maxTrackedClients = 10000"

record 'l failures =
  f_burst :: int
  f_refill :: duration
  f_clients :: "(string, 'l) gomap"

definition NewFailures :: "int \<Rightarrow> duration \<Rightarrow> 'l failures" where
  "NewFailures burst refill = \<lparr>f_burst = burst, f_refill = refill, f_clients = []\<rparr>"

definition limiter :: "'l rate_lib \<Rightarrow> string \<Rightarrow> 'l failures \<Rightarrow> 'l \<times> 'l failures" where
  "limiter lib c f =
     (case mget (f_clients f) c of
        Some l \<Rightarrow> (l, f)
      | None \<Rightarrow>
          (let f = (if length (f_clients f) \<ge> maxTrackedClients then f\<lparr>f_clients := []\<rparr> else f);
               l = NewLimiter lib (f_refill f) (f_burst f)
           in (l, f\<lparr>f_clients := mput c l (f_clients f)\<rparr>)))"

text \<open>The limiter is shared by reference: taking a token updates the map's entry.\<close>

definition FailClient :: "'l rate_lib \<Rightarrow> gotime \<Rightarrow> string \<Rightarrow> 'l failures \<Rightarrow> 'l failures" where
  "FailClient lib now c f =
     (let (l, f) = limiter lib c f
      in f\<lparr>f_clients := mput c (AllowOne lib now l) (f_clients f)\<rparr>)"

definition Blocked :: "'l rate_lib \<Rightarrow> gotime \<Rightarrow> string \<Rightarrow> 'l failures \<Rightarrow> bool" where
  "Blocked lib now c f = (case mget (f_clients f) c of None \<Rightarrow> False | Some l \<Rightarrow> exhausted lib l now)"

record window =
  w_limit :: int
  w_window :: duration
  w_times :: "gotime list"

definition NewWindow :: "int \<Rightarrow> duration \<Rightarrow> window" where
  "NewWindow limit win = \<lparr>w_limit = limit, w_window = win, w_times = []\<rparr>"

definition FailWindow :: "gotime \<Rightarrow> window \<Rightarrow> bool \<times> window" where
  "FailWindow now w =
     (let cutoff = now - w_window w;
          kept = filter (\<lambda>t. cutoff < t) (w_times w);
          w = w\<lparr>w_times := kept @ [now]\<rparr>
      in if int (length (w_times w)) \<ge> w_limit w then (True, w\<lparr>w_times := []\<rparr>) else (False, w))"

text \<open>\<open>split\<close> is \<^verbatim>\<open>net.SplitHostPort\<close> of the remote address, keeping the host.\<close>

definition ClientIP :: "(string \<Rightarrow> string option) \<Rightarrow> string \<Rightarrow> string" where
  "ClientIP split addr = (case split addr of None \<Rightarrow> addr | Some host \<Rightarrow> host)"

subsection \<open>middleware.go\<close>

definition failureBurst :: int where "failureBurst = 10"
definition failureRefill :: duration where "failureRefill = 6 * Second"

datatype mcp_response = TooManyRequests | InvalidToken | NextHandler ctx

record mcp_request =
  rq_addr :: string
  rq_bearer :: "string option"  \<comment> \<open>the bearer token the SDK read from the request, if it found one\<close>
  rq_ctx :: ctx

record 'l mcp_gate =
  g_limiter :: "'l failures"
  g_store :: mem_store

record 'l gate_env =
  ge_rate :: "'l rate_lib"
  ge_entropy :: entropy
  ge_quote :: "string \<Rightarrow> string"
  ge_resolver :: resolver
  ge_split :: "string \<Rightarrow> string option"

definition verify_token :: "'l gate_env \<Rightarrow> gotime \<Rightarrow> mcp_request \<Rightarrow> string \<Rightarrow> 'l mcp_gate \<Rightarrow> identity option \<times> 'l mcp_gate" where
  "verify_token env now rq tok g =
     (case Resolve (ge_entropy env) (ge_quote env) (ge_resolver env) now (rq_ctx rq) tok (g_store g) of
        (Inl _, s) \<Rightarrow> (None, g\<lparr>g_store := s,
            g_limiter := FailClient (ge_rate env) now (ClientIP (ge_split env) (rq_addr rq)) (g_limiter g)\<rparr>)
      | (Inr i, s) \<Rightarrow> (Some i, g\<lparr>g_store := s\<rparr>))"

text \<open>The SDK refuses a request without a bearer token and does not call the verifier for it.\<close>

definition Middleware :: "'l gate_env \<Rightarrow> gotime \<Rightarrow> mcp_request \<Rightarrow> 'l mcp_gate \<Rightarrow> mcp_response \<times> 'l mcp_gate" where
  "Middleware env now rq g =
     (if Blocked (ge_rate env) now (ClientIP (ge_split env) (rq_addr rq)) (g_limiter g) then (TooManyRequests, g)
      else case rq_bearer rq of
        None \<Rightarrow> (InvalidToken, g)
      | Some tok \<Rightarrow>
          (case verify_token env now rq tok g of
             (None, g) \<Rightarrow> (InvalidToken, g)
           | (Some i, g) \<Rightarrow> (NextHandler (NewContext (rq_ctx rq) i), g)))"

subsection \<open>Failures\<close>

lemma FailClient_unfold:
  "f_clients (FailClient lib now c f) =
     (case mget (f_clients f) c of
        Some l \<Rightarrow> mput c (AllowOne lib now l) (f_clients f)
      | None \<Rightarrow> mput c (AllowOne lib now (NewLimiter lib (f_refill f) (f_burst f)))
          (mput c (NewLimiter lib (f_refill f) (f_burst f))
            (if length (f_clients f) \<ge> maxTrackedClients then [] else f_clients f)))"
  by (simp add: FailClient_def limiter_def Let_def split: option.split)

lemma length_mput: "length (mput k v m) = (if mget m k = None then Suc (length m) else length m)"
  by (induction m) auto

lemma FailClient_bounded:
  "length (f_clients f) \<le> maxTrackedClients \<Longrightarrow> length (f_clients (FailClient lib now c f)) \<le> maxTrackedClients"
  by (auto simp: FailClient_unfold length_mput gomap_simps maxTrackedClients_def split: option.split)

lemma FailClient_other:
  "d \<noteq> c \<Longrightarrow> mget (f_clients (FailClient lib now c f)) d = mget (f_clients f) d \<or>
     mget (f_clients (FailClient lib now c f)) d = None"
  by (auto simp: FailClient_unfold gomap_simps split: option.split)

lemma run_failures_bounded:
  "length (f_clients f) \<le> maxTrackedClients \<Longrightarrow>
     length (f_clients (fold (\<lambda>(t, c). FailClient lib t c) fs f)) \<le> maxTrackedClients"
  by (induction fs arbitrary: f) (auto simp: FailClient_bounded)

lemma run_failures_other:
  "d \<notin> snd ` set fs \<Longrightarrow> mget (f_clients (fold (\<lambda>(t, c). FailClient lib t c) fs f)) d \<in> {mget (f_clients f) d, None}"
proof (induction fs arbitrary: f)
  case (Cons a fs)
  obtain t c where a: "a = (t, c)" by (cases a)
  then have "d \<noteq> c" using Cons.prems by auto
  then show ?case using Cons.IH [of "FailClient lib t c f"] Cons.prems FailClient_other [of d c lib t f] a by auto
qed simp

subsection \<open>The window and its reference\<close>

text \<open>The reference keeps every failure since the last trip and counts the ones inside the window.\<close>

definition ref_fail :: "int \<Rightarrow> duration \<Rightarrow> gotime \<Rightarrow> gotime list \<Rightarrow> bool \<times> gotime list" where
  "ref_fail limit win now hist =
     (if int (length (filter (\<lambda>t. now - win < t) (hist @ [now]))) \<ge> limit then (True, []) else (False, hist @ [now]))"

fun run_trips :: "(gotime \<Rightarrow> 's \<Rightarrow> bool \<times> 's) \<Rightarrow> gotime list \<Rightarrow> 's \<Rightarrow> bool list" where
  "run_trips step [] s = []"
| "run_trips step (t # ts) s = fst (step t s) # run_trips step ts (snd (step t s))"

lemma FailWindow_ref:
  assumes "0 < w_window w" and "\<forall>t \<in> set hist. t \<le> now" and "old \<le> now"
    and "w_times w = filter (\<lambda>t. old - w_window w < t) hist"
  shows "fst (FailWindow now w) = fst (ref_fail (w_limit w) (w_window w) now hist)"
    and "w_times (snd (FailWindow now w)) =
      filter (\<lambda>t. now - w_window w < t) (snd (ref_fail (w_limit w) (w_window w) now hist))"
    and "w_limit (snd (FailWindow now w)) = w_limit w" and "w_window (snd (FailWindow now w)) = w_window w"
proof -
  have kept: "filter (\<lambda>t. now - w_window w < t) (w_times w) = filter (\<lambda>t. now - w_window w < t) hist"
    unfolding assms(4) filter_filter using assms(3) by (intro filter_cong) auto
  then show "fst (FailWindow now w) = fst (ref_fail (w_limit w) (w_window w) now hist)"
    and "w_times (snd (FailWindow now w)) =
      filter (\<lambda>t. now - w_window w < t) (snd (ref_fail (w_limit w) (w_window w) now hist))"
    using assms(1) by (simp_all add: FailWindow_def ref_fail_def Let_def)
qed (simp_all add: FailWindow_def Let_def)

lemma window_run:
  assumes "0 < w_window w" and "sorted (old # ts)" and "\<forall>t \<in> set hist. t \<le> old"
    and "w_times w = filter (\<lambda>t. old - w_window w < t) hist"
  shows "run_trips FailWindow ts w = run_trips (ref_fail (w_limit w) (w_window w)) ts hist"
  using assms
proof (induction ts arbitrary: old w hist)
  case (Cons now ts)
  have h: "\<forall>t \<in> set hist. t \<le> now" "old \<le> now" using Cons.prems(2,3) by auto
  note f = FailWindow_ref [OF Cons.prems(1) h Cons.prems(4)]
  have "\<forall>t \<in> set (snd (ref_fail (w_limit w) (w_window w) now hist)). t \<le> now"
    using h by (auto simp: ref_fail_def)
  then show ?case
    using Cons.IH [of "snd (FailWindow now w)" now "snd (ref_fail (w_limit w) (w_window w) now hist)"] Cons.prems(1,2) f
    by simp
qed simp

lemma trips_bound:
  assumes "0 < w_limit w"
  shows "w_limit w * int (length (filter id (run_trips FailWindow ts w))) \<le> int (length (w_times w)) + int (length ts)"
  using assms
proof (induction ts arbitrary: w)
  case (Cons now ts)
  let ?w = "snd (FailWindow now w)"
  have keep: "w_limit ?w = w_limit w" by (simp add: FailWindow_def Let_def)
  have "length (filter (\<lambda>t. now - w_window w < t) (w_times w)) \<le> length (w_times w)" by (rule length_filter_le)
  then have "(if fst (FailWindow now w) then w_limit w else 0) + int (length (w_times ?w)) \<le> int (length (w_times w)) + 1"
    by (simp add: FailWindow_def Let_def del: length_filter_le)
  then show ?case using Cons.IH [of ?w] Cons.prems keep by (auto simp: algebra_simps split: if_splits)
qed simp

subsection \<open>Properties\<close>

text \<open>Whatever sequence of failures is counted, at most ten thousand clients are tracked, and a client
  that did not fail itself is blocked afterwards only if it was blocked before: failures of one client never
  block another, and a client that never failed is never blocked.\<close>

theorem failures_isolated:
  "length (f_clients (fold (\<lambda>(t, c). FailClient lib t c) fs (NewFailures burst refill))) \<le> 10000 \<and>
   (d \<notin> snd ` set fs \<longrightarrow> \<not> Blocked lib now d (fold (\<lambda>(t, c). FailClient lib t c) fs (NewFailures burst refill))) \<and>
   (d \<notin> snd ` set fs \<and> Blocked lib now d (fold (\<lambda>(t, c). FailClient lib t c) fs f) \<longrightarrow> Blocked lib now d f)"
  using run_failures_bounded [of "NewFailures burst refill" lib fs] run_failures_other [of d fs lib f]
    run_failures_other [of d fs lib "NewFailures burst refill"]
  by (auto simp: Blocked_def NewFailures_def maxTrackedClients_def)

definition example_rate :: "int rate_lib" where
  "example_rate = \<lparr>NewLimiter = (\<lambda>_ burst. burst), AllowOne = (\<lambda>_ l. max 0 (l - 1)), exhausted = (\<lambda>l _. l < 1)\<rparr>"

lemma failures_isolated_witness:
  "Blocked example_rate 3 ''a'' (fold (\<lambda>(t, c). FailClient example_rate t c) [(1, ''a''), (2, ''a'')] (NewFailures 2 6)) \<and>
   \<not> Blocked example_rate 3 ''b'' (fold (\<lambda>(t, c). FailClient example_rate t c) [(1, ''a''), (2, ''a'')] (NewFailures 2 6))"
  using failures_isolated [of example_rate "[(1, ''a''), (2, ''a'')]" 2 6 "''b''" 3 "NewFailures 2 6"]
  by (simp add: Blocked_def FailClient_def limiter_def NewFailures_def example_rate_def maxTrackedClients_def)

text \<open>C22: with a clock that does not go back, the pruned list of the window trips on exactly the failures on
  which the full history since the last trip holds the limit inside the window; and it cannot trip more often
  than once per limit failures.\<close>

theorem window_trips_exactly:
  assumes "sorted ts" and "0 < win"
  shows "run_trips FailWindow ts (NewWindow limit win) = run_trips (ref_fail limit win) ts [] \<and>
    (0 < limit \<longrightarrow> limit * int (length (filter id (run_trips FailWindow ts (NewWindow limit win)))) \<le> int (length ts))"
proof (cases ts)
  case (Cons t ts')
  then have "sorted (t # ts)" using assms(1) by simp
  then show ?thesis
    using window_run [of "NewWindow limit win" t ts "[]"] trips_bound [of "NewWindow limit win" ts] assms(2)
    by (simp add: NewWindow_def)
qed simp

lemma window_trips_exactly_witness:
  "run_trips FailWindow [1, 2, 9, 10, 11] (NewWindow 3 5) = [False, False, False, False, True] \<and>
   run_trips (ref_fail 3 5) [1, 2, 9, 10, 11] [] = [False, False, False, False, True]"
  using window_trips_exactly [of "[1, 2, 9, 10, 11]" 5 3]
  by (simp add: FailWindow_def NewWindow_def Let_def)

text \<open>The next handler runs only for a client that is not blocked and only with the identity its bearer
  key resolved to. A blocked client costs no lookup and changes nothing, and a refused key counts as a failure
  of its client.\<close>

theorem Middleware_sound:
  "(case Middleware env now rq g of
      (NextHandler c, g') \<Rightarrow>
        \<not> Blocked (ge_rate env) now (ClientIP (ge_split env) (rq_addr rq)) (g_limiter g) \<and> g_limiter g' = g_limiter g \<and>
        (\<exists>tok i. rq_bearer rq = Some tok \<and> c = NewContext (rq_ctx rq) i \<and>
          Resolve (ge_entropy env) (ge_quote env) (ge_resolver env) now (rq_ctx rq) tok (g_store g) = (Inr i, g_store g'))
    | (TooManyRequests, g') \<Rightarrow> g' = g
    | (InvalidToken, g') \<Rightarrow>
        (rq_bearer rq = None \<and> g' = g) \<or>
        (g_limiter g' = FailClient (ge_rate env) now (ClientIP (ge_split env) (rq_addr rq)) (g_limiter g) \<and>
         (\<exists>tok e. rq_bearer rq = Some tok \<and>
          Resolve (ge_entropy env) (ge_quote env) (ge_resolver env) now (rq_ctx rq) tok (g_store g) = (Inl e, g_store g'))))"
  by (auto simp: Middleware_def verify_token_def split: option.split sum.split prod.split)

end
