(* ===== verification/Operator_Crl.thy ===== *)
theory Operator_Crl
  imports Memory_Store Mcp_Auth
begin

text \<open>
  \<^verbatim>\<open>internal/operatorca/crl.go\<close> and the serial forms of \<^verbatim>\<open>certcheck.go\<close>: what makes a CRL
  acceptable for an operator CA, and the rule against rolling one back. PEM, the x509 parser, the
  signature check and the ASN.1 decoder are the fields of \<open>crl_lib\<close>.
\<close>

subsection \<open>Serials\<close>

definition SerialKey :: "int \<Rightarrow> string" where
  "SerialKey n = fmt_x n"

text \<open>\<^verbatim>\<open>strings.ToLower\<close> and \<^verbatim>\<open>strings.TrimSpace\<close> on ASCII text.\<close>

definition lower_char :: "char \<Rightarrow> char" where
  "lower_char c = (if CHR ''A'' \<le> c \<and> c \<le> CHR ''Z'' then char_of (of_char c + 32 :: nat) else c)"

definition is_space :: "char \<Rightarrow> bool" where
  "is_space c \<longleftrightarrow> c \<in> {CHR '' '', CHR 9, CHR 10, CHR 11, CHR 12, CHR 13}"

definition TrimSpace :: "string \<Rightarrow> string" where
  "TrimSpace s = rev (dropWhile is_space (rev (dropWhile is_space s)))"

definition NormalizeSerial :: "string \<Rightarrow> string" where
  "NormalizeSerial s =
     (let s = map lower_char (TrimSpace s);
          s = filter (\<lambda>c. c \<noteq> CHR '':'') s;
          s = dropWhile (\<lambda>c. c = CHR ''0'') s
      in if s = [] then ''0'' else s)"

subsection \<open>Revocation lists\<close>

definition MaxCRLSize :: nat where "MaxCRLSize = 4 * 2 ^ 20"
definition maxClockSkew :: duration where "maxClockSkew = 5 * Minute"

definition oidExtAuthorityKeyID :: "nat list" where "oidExtAuthorityKeyID = [2, 5, 29, 35]"
definition oidExtCRLNumber :: "nat list" where "oidExtCRLNumber = [2, 5, 29, 20]"
definition oidExtDeltaCRL :: "nat list" where "oidExtDeltaCRL = [2, 5, 29, 27]"
definition oidExtIDP :: "nat list" where "oidExtIDP = [2, 5, 29, 28]"
definition oidExtReasonCode :: "nat list" where "oidExtReasonCode = [2, 5, 29, 21]"
definition oidExtInvalidityDate :: "nat list" where "oidExtInvalidityDate = [2, 5, 29, 24]"
definition oidExtCertIssuer :: "nat list" where "oidExtCertIssuer = [2, 5, 29, 29]"

lemmas oid_defs = oidExtAuthorityKeyID_def oidExtCRLNumber_def oidExtDeltaCRL_def oidExtIDP_def
  oidExtReasonCode_def oidExtInvalidityDate_def oidExtCertIssuer_def

record extension =
  ext_Id :: "nat list"
  ext_Critical :: bool
  ext_Value :: bytes

record revoked_entry =
  re_SerialNumber :: int
  re_Extensions :: "extension list"

record revocation_list =
  rl_RawIssuer :: bytes
  rl_AuthorityKeyId :: bytes
  rl_Number :: "int option"
  rl_ThisUpdate :: gotime
  rl_NextUpdate :: gotime
  rl_Extensions :: "extension list"
  rl_Entries :: "revoked_entry list"

record issuingDistributionPoint =
  idp_OnlyContainsCACerts :: bool
  idp_SomeReasonsBits :: nat
  idp_IndirectCRL :: bool
  idp_OnlyContainsAttributeCerts :: bool

record VerifiedCRL =
  v_List :: revocation_list
  v_DER :: bytes
  v_Number :: "int option"
  v_Revoked :: "string list"

record crl_lib =
  pem_Decode :: "bytes \<Rightarrow> (string \<times> bytes) option"
  ParseRevocationList :: "bytes \<Rightarrow> string + revocation_list"
  CheckSignatureFrom :: "revocation_list \<Rightarrow> certificate \<Rightarrow> string option"
  asn1_IDP :: "bytes \<Rightarrow> issuingDistributionPoint option"  \<comment> \<open>\<open>None\<close> also when bytes are left over\<close>

datatype crl_error =
    CRLTooLarge nat
  | CRLPemType string
  | CRLUnparsable string
  | CRLBadSignature string
  | CRLWrongIssuer
  | CRLWrongKeyId
  | CRLNoNextUpdate
  | CRLFuture gotime
  | CRLDelta
  | CRLBadIDP
  | CRLIndirect
  | CRLOnlyCAs
  | CRLSomeReasons
  | CRLUnknownCritical "nat list"
  | CRLEntryIndirect
  | CRLEntryUnknownCritical string "nat list"
  | CRLRollback

definition crl_IsRevoked :: "VerifiedCRL \<Rightarrow> string \<Rightarrow> bool" where
  "crl_IsRevoked v serial \<longleftrightarrow> serial \<in> set (v_Revoked v)"

definition Fresh :: "VerifiedCRL \<Rightarrow> gotime \<Rightarrow> bool" where
  "Fresh v now \<longleftrightarrow> now < rl_NextUpdate (v_List v)"

fun checkCRLExtensions :: "crl_lib \<Rightarrow> extension list \<Rightarrow> crl_error option" where
  "checkCRLExtensions lib [] = None"
| "checkCRLExtensions lib (ext # exts) =
     (if ext_Id ext = oidExtDeltaCRL then Some CRLDelta
      else if ext_Id ext = oidExtIDP then
        (case asn1_IDP lib (ext_Value ext) of
           None \<Rightarrow> Some CRLBadIDP
         | Some idp \<Rightarrow>
             if idp_IndirectCRL idp then Some CRLIndirect
             else if idp_OnlyContainsCACerts idp \<or> idp_OnlyContainsAttributeCerts idp then Some CRLOnlyCAs
             else if idp_SomeReasonsBits idp > 0 then Some CRLSomeReasons
             else checkCRLExtensions lib exts)
      else if ext_Id ext = oidExtAuthorityKeyID \<or> ext_Id ext = oidExtCRLNumber then checkCRLExtensions lib exts
      else if ext_Critical ext then Some (CRLUnknownCritical (ext_Id ext))
      else checkCRLExtensions lib exts)"

fun check_entry :: "string \<Rightarrow> extension list \<Rightarrow> crl_error option" where
  "check_entry key [] = None"
| "check_entry key (ext # exts) =
     (if ext_Id ext = oidExtCertIssuer then Some CRLEntryIndirect
      else if ext_Critical ext \<and> ext_Id ext \<noteq> oidExtReasonCode \<and> ext_Id ext \<noteq> oidExtInvalidityDate
      then Some (CRLEntryUnknownCritical key (ext_Id ext))
      else check_entry key exts)"

fun collect_revoked :: "revoked_entry list \<Rightarrow> string list \<Rightarrow> crl_error + string list" where
  "collect_revoked [] acc = Inr acc"
| "collect_revoked (e # es) acc =
     (case check_entry (SerialKey (re_SerialNumber e)) (re_Extensions e) of
        Some err \<Rightarrow> Inl err
      | None \<Rightarrow> collect_revoked es (List.insert (SerialKey (re_SerialNumber e)) acc))"

definition crl_der :: "crl_lib \<Rightarrow> bytes \<Rightarrow> crl_error + bytes" where
  "crl_der lib b =
     (case pem_Decode lib b of
        None \<Rightarrow> Inr b
      | Some (typ, body) \<Rightarrow> if typ \<noteq> ''X509 CRL'' then Inl (CRLPemType typ) else Inr body)"

definition check_list :: "crl_lib \<Rightarrow> certificate \<Rightarrow> gotime \<Rightarrow> revocation_list \<Rightarrow> crl_error option" where
  "check_list lib anchor now l =
     (case CheckSignatureFrom lib l anchor of
        Some e \<Rightarrow> Some (CRLBadSignature e)
      | None \<Rightarrow>
          if rl_RawIssuer l \<noteq> cert_RawSubject anchor then Some CRLWrongIssuer
          else if rl_AuthorityKeyId l \<noteq> [] \<and> cert_SubjectKeyId anchor \<noteq> [] \<and>
                  rl_AuthorityKeyId l \<noteq> cert_SubjectKeyId anchor then Some CRLWrongKeyId
          else if IsZero (rl_NextUpdate l) then Some CRLNoNextUpdate
          else if rl_ThisUpdate l > now + maxClockSkew then Some (CRLFuture (rl_ThisUpdate l))
          else checkCRLExtensions lib (rl_Extensions l))"

definition VerifyCRL :: "crl_lib \<Rightarrow> bytes \<Rightarrow> certificate \<Rightarrow> gotime \<Rightarrow> crl_error + VerifiedCRL" where
  "VerifyCRL lib b anchor now =
     (if length b > MaxCRLSize then Inl (CRLTooLarge (length b))
      else case crl_der lib b of
        Inl e \<Rightarrow> Inl e
      | Inr der \<Rightarrow>
          (case ParseRevocationList lib der of
             Inl e \<Rightarrow> Inl (CRLUnparsable e)
           | Inr l \<Rightarrow>
               (case check_list lib anchor now l of
                  Some e \<Rightarrow> Inl e
                | None \<Rightarrow>
                    (case collect_revoked (rl_Entries l) [] of
                       Inl e \<Rightarrow> Inl e
                     | Inr serials \<Rightarrow> Inr \<lparr>v_List = l, v_DER = der, v_Number = rl_Number l, v_Revoked = serials\<rparr>))))"

text \<open>\<^verbatim>\<open>bytes.Equal\<close> takes a nil slice as empty.\<close>

definition AcceptNewer :: "VerifiedCRL \<Rightarrow> operator_crl \<Rightarrow> bool \<Rightarrow> crl_error + bool" where
  "AcceptNewer nxt stored has =
     (if \<not> has then Inr True
      else if (case crl_DER stored of None \<Rightarrow> [] | Some d \<Rightarrow> d) = v_DER nxt then Inr False
      else case (crl_Number stored, v_Number nxt) of
          (Some m, Some n) \<Rightarrow> if n > m then Inr True else Inl CRLRollback
        | _ \<Rightarrow> if rl_ThisUpdate (v_List nxt) > crl_ThisUpdate stored then Inr True else Inl CRLRollback)"

subsection \<open>Every spelling of a serial\<close>

lemma lower_hex_upper: "b < 256 \<Longrightarrow> map lower_char (hex_upper b) = [hex_digit (b div 16), hex_digit (b mod 16)]"
proof -
  have d: "lower_char (''0123456789ABCDEF'' ! n) = hex_digit n" if "n < 16" for n :: nat
  proof -
    have "\<forall>n \<in> set [0..<16]. lower_char (''0123456789ABCDEF'' ! n) = hex_digit n"
      by code_simp
    with that show ?thesis by simp
  qed
  assume "b < 256"
  then show ?thesis by (simp add: hex_upper_def d)
qed


definition nibbles :: "nat list \<Rightarrow> string" where
  "nibbles bs = concat (map (\<lambda>b. [hex_digit (b div 16), hex_digit (b mod 16)]) bs)"

abbreviation strip0 :: "string \<Rightarrow> string" where
  "strip0 s \<equiv> dropWhile (\<lambda>c. c = CHR ''0'') s"

lemma hex_digit_zero: "n < 16 \<Longrightarrow> hex_digit n = CHR ''0'' \<longleftrightarrow> n = 0"
  using hex_digit_inject [of n 0] by (simp add: hex_digit_def hexdigits_def)

lemma hex_digit_not_special: "n < 16 \<Longrightarrow> hex_digit n \<noteq> CHR '':'' \<and> lower_char (hex_digit n) = hex_digit n \<and> \<not> is_space (hex_digit n)"
proof -
  have "\<forall>n \<in> set [0..<16]. hex_digit n \<noteq> CHR '':'' \<and> lower_char (hex_digit n) = hex_digit n \<and> \<not> is_space (hex_digit n)"
    by code_simp
  then show "n < 16 \<Longrightarrow> ?thesis" by simp
qed

lemma hex_nat_head: "0 < n \<Longrightarrow> \<exists>c cs. hex_nat n = c # cs \<and> c \<noteq> CHR ''0''"
proof (induction n rule: hex_nat.induct)
  case (1 n)
  show ?case
  proof (cases "n < 16")
    case True
    then show ?thesis using 1(2) hex_digit_zero [of n] by (simp add: hex_nat.simps [of n])
  next
    case False
    then have "\<exists>c cs. hex_nat (n div 16) = c # cs \<and> c \<noteq> CHR ''0''" using 1 by auto
    then show ?thesis using False by (auto simp: hex_nat.simps [of n])
  qed
qed

lemma strip0_append: "strip0 xs \<noteq> [] \<Longrightarrow> strip0 (xs @ ys) = strip0 xs @ ys"
proof -
  assume "strip0 xs \<noteq> []"
  then obtain x where "x \<in> set xs" "\<not> x = CHR ''0''" by (auto simp only: dropWhile_eq_Nil_conv)
  then show ?thesis by (rule dropWhile_append1)
qed

lemma strip0_nibbles: "0 < n \<Longrightarrow> strip0 (nibbles (be_bytes n)) = hex_nat n"
proof (induction n rule: be_bytes.induct)
  case (1 n)
  have last: "nibbles (be_bytes n) = nibbles (be_bytes (n div 256)) @ [hex_digit (n div 16 mod 16), hex_digit (n mod 16)]"
  proof -
    have "n mod 256 = 16 * (n div 16 mod 16) + n mod 16" using mod_mult2_eq [of n 16 16] by simp
    then have "n mod 256 div 16 = n div 16 mod 16" "n mod 256 mod 16 = n mod 16" by simp_all
    then show ?thesis using 1(2) by (simp add: be_bytes.simps [of n] nibbles_def)
  qed
  show ?case
  proof (cases "n < 256")
    case True
    then have "n div 16 < 16" by simp
    then show ?thesis using 1(2) True last hex_digit_zero [of "n div 16"] hex_digit_zero [of n]
      by (cases "n < 16") (simp_all add: nibbles_def hex_nat.simps [of n] hex_nat.simps [of "n div 16"])
  next
    case False
    then have ih: "strip0 (nibbles (be_bytes (n div 256))) = hex_nat (n div 256)" using 1 by simp
    moreover have "hex_nat (n div 256) \<noteq> []" using hex_nat_head [of "n div 256"] False by fastforce
    moreover have "hex_nat n = hex_nat (n div 256) @ [hex_digit (n div 16 mod 16), hex_digit (n mod 16)]"
    proof -
      have "\<not> n div 16 < 16" "n div 16 div 16 = n div 256" using False by (simp_all flip: div_mult2_eq)
      then show ?thesis using False by (simp add: hex_nat.simps [of n] hex_nat.simps [of "n div 16"])
    qed
    ultimately show ?thesis unfolding last using strip0_append [of "nibbles (be_bytes (n div 256))"] by metis
  qed
qed

lemma nibbles_range:
  assumes "\<forall>b \<in> set bs. b < 256" and "c \<in> set (nibbles bs)"
  shows "\<exists>n < 16. c = hex_digit n"
proof -
  from assms(2) obtain b where b: "b \<in> set bs" "c = hex_digit (b div 16) \<or> c = hex_digit (b mod 16)"
    by (auto simp: nibbles_def)
  have "b div 16 < 16" "b mod 16 < 16" using assms(1) b(1) by auto
  with b(2) show ?thesis by blast
qed

lemma join_filter: "filter (\<lambda>c. c \<noteq> CHR '':'') (join '':'' xs) = concat (map (filter (\<lambda>c. c \<noteq> CHR '':'')) xs)"
  by (induction "'':''" xs rule: join.induct) auto

lemma lower_join: "map lower_char (join '':'' xs) = join '':'' (map (map lower_char) xs)"
proof -
  have "lower_char (CHR '':'') = CHR '':''" by code_simp
  then show ?thesis by (induction "'':''" xs rule: join.induct) auto
qed


lemma TrimSpace_id: "\<forall>c \<in> set s. \<not> is_space c \<Longrightarrow> TrimSpace s = s"
proof -
  have "dropWhile is_space t = t" if "\<forall>c \<in> set t. \<not> is_space c" for t using that by (cases t) auto
  then show "\<forall>c \<in> set s. \<not> is_space c \<Longrightarrow> ?thesis" using set_rev [of s] unfolding TrimSpace_def by (metis rev_rev_ident)
qed

lemma hex_upper_chars: "b < 256 \<Longrightarrow> c \<in> set (hex_upper b) \<Longrightarrow> \<not> is_space c"
proof -
  assume "b < 256" "c \<in> set (hex_upper b)"
  then have "c = ''0123456789ABCDEF'' ! (b div 16) \<or> c = ''0123456789ABCDEF'' ! (b mod 16)" "b div 16 < 16" "b mod 16 < 16"
    by (auto simp: hex_upper_def)
  then obtain n where n: "n < 16" "c = ''0123456789ABCDEF'' ! n" by blast
  have "\<forall>n \<in> set [0..<16]. \<not> is_space (''0123456789ABCDEF'' ! n)" by code_simp
  with n show ?thesis by simp
qed

lemma join_chars: "c \<in> set (join sep xs) \<Longrightarrow> c \<in> set sep \<or> (\<exists>x \<in> set xs. c \<in> set x)"
  by (induction sep xs rule: join.induct) auto

lemma nibbles_upper:
  "\<forall>b \<in> set bs. b < 256 \<Longrightarrow>
     concat (map (filter (\<lambda>c. c \<noteq> CHR '':'')) (map (map lower_char) (map hex_upper bs))) = nibbles bs"
proof (induction bs)
  case (Cons b bs)
  then have "b < 256" "b div 16 < 16" "b mod 16 < 16" by auto
  then show ?case
    using Cons lower_hex_upper [of b] hex_digit_not_special [of "b div 16"] hex_digit_not_special [of "b mod 16"]
    by (simp add: nibbles_def)
qed (simp add: nibbles_def)

lemma NormalizeSerial_formatSerial: "NormalizeSerial (formatSerial n) = SerialKey \<bar>n\<bar>"
proof -
  define bs where "bs = (if n = 0 then [0] else be_bytes (nat \<bar>n\<bar>))"
  have ne: "be_bytes (nat \<bar>n\<bar>) \<noteq> []" if "n \<noteq> 0" using that by (subst be_bytes.simps) simp
  have f: "formatSerial n = join '':'' (map hex_upper bs)"
    using ne by (auto simp: formatSerial_def bs_def Let_def)
  have r: "\<forall>b \<in> set bs. b < 256" using be_bytes_range by (auto simp: bs_def)
  have "\<forall>c \<in> set (formatSerial n). \<not> is_space c"
  proof
    fix c assume "c \<in> set (formatSerial n)"
    then have "c = CHR '':'' \<or> (\<exists>b \<in> set bs. c \<in> set (hex_upper b))" using join_chars [of c "'':''" "map hex_upper bs"] f by auto
    moreover have "\<not> is_space (CHR '':'')" by code_simp
    ultimately show "\<not> is_space c" using hex_upper_chars r by auto
  qed
  then have t: "TrimSpace (formatSerial n) = formatSerial n" by (rule TrimSpace_id)
  have "filter (\<lambda>c. c \<noteq> CHR '':'') (map lower_char (formatSerial n)) = nibbles bs"
    unfolding f lower_join join_filter by (rule nibbles_upper [OF r])
  moreover have "(if strip0 (nibbles bs) = [] then ''0'' else strip0 (nibbles bs)) = SerialKey \<bar>n\<bar>"
  proof (cases "n = 0")
    case True
    then show ?thesis by (simp add: bs_def nibbles_def SerialKey_def fmt_x_def hex_nat.simps hex_digit_def hexdigits_def)
  next
    case False
    then have "strip0 (nibbles bs) = hex_nat (nat \<bar>n\<bar>)" using strip0_nibbles [of "nat \<bar>n\<bar>"] by (simp add: bs_def)
    then show ?thesis using False hex_nat_head [of "nat \<bar>n\<bar>"] by (auto simp: SerialKey_def fmt_x_def)
  qed
  ultimately show ?thesis unfolding NormalizeSerial_def t Let_def by (simp only:)
qed

lemma hex_nat_digits: "c \<in> set (hex_nat n) \<Longrightarrow> \<exists>d < 16. c = hex_digit d"
proof (induction n rule: hex_nat.induct)
  case (1 n)
  show ?case
  proof (cases "n < 16")
    case True
    then show ?thesis using 1(2) by (auto simp: hex_nat.simps [of n])
  next
    case False
    then consider "c \<in> set (hex_nat (n div 16))" | "c = hex_digit (n mod 16)"
      using 1(2) by (auto simp: hex_nat.simps [of n])
    then show ?thesis using 1(1) [OF False] by cases (auto intro: exI [of _ "n mod 16"])
  qed
qed

lemma NormalizeSerial_SerialKey: "0 \<le> n \<Longrightarrow> NormalizeSerial (SerialKey n) = SerialKey n"
proof -
  assume "0 \<le> n"
  then have k: "SerialKey n = hex_nat (nat n)" by (simp add: SerialKey_def fmt_x_def)
  have c: "\<forall>c \<in> set (SerialKey n). c \<noteq> CHR '':'' \<and> lower_char c = c \<and> \<not> is_space c"
  proof
    fix c assume "c \<in> set (SerialKey n)"
    then obtain d where "d < 16" "c = hex_digit d" using hex_nat_digits unfolding k by blast
    then show "c \<noteq> CHR '':'' \<and> lower_char c = c \<and> \<not> is_space c" using hex_digit_not_special [of d] by simp
  qed
  then have "TrimSpace (SerialKey n) = SerialKey n" by (intro TrimSpace_id) simp
  moreover have "map lower_char (SerialKey n) = SerialKey n" using c by (simp add: map_idI)
  moreover have "filter (\<lambda>c. c \<noteq> CHR '':'') (SerialKey n) = SerialKey n" using c by simp
  moreover have "(if strip0 (SerialKey n) = [] then ''0'' else strip0 (SerialKey n)) = SerialKey n"
  proof (cases "n = 0")
    case True
    then have "SerialKey n = ''0''" by (simp add: SerialKey_def fmt_x_def hex_nat.simps [of 0] hex_digit_def hexdigits_def)
    then show ?thesis by simp
  next
    case False
    then have "0 < nat n" using \<open>0 \<le> n\<close> by simp
    then obtain c cs where "SerialKey n = c # cs" "c \<noteq> CHR ''0''" using hex_nat_head [of "nat n"] unfolding k by blast
    then show ?thesis by simp
  qed
  ultimately show ?thesis unfolding NormalizeSerial_def Let_def by (simp only:)
qed

lemma hex_nat_inject: "hex_nat m = hex_nat n \<Longrightarrow> m = n"
proof (induction m arbitrary: n rule: hex_nat.induct)
  case (1 m)
  have ne: "hex_nat k \<noteq> []" for k by (subst hex_nat.simps) simp
  show ?case
  proof (cases "m < 16")
    case True
    with 1(2) ne [of "n div 16"] have "n < 16" by (auto simp: hex_nat.simps [of m] hex_nat.simps [of n] split: if_splits)
    then show ?thesis using True 1(2) hex_digit_inject [of m n] by (simp add: hex_nat.simps [of m] hex_nat.simps [of n])
  next
    case False
    with 1(2) ne [of "m div 16"] have n: "\<not> n < 16"
      by (auto simp: hex_nat.simps [of m] hex_nat.simps [of n] split: if_splits)
    then have "hex_nat (m div 16) = hex_nat (n div 16)" "hex_digit (m mod 16) = hex_digit (n mod 16)"
      using False 1(2) by (simp_all add: hex_nat.simps [of m] hex_nat.simps [of n])
    then have "m div 16 = n div 16" "m mod 16 = n mod 16"
      using 1(1) [OF False] hex_digit_inject [of "m mod 16" "n mod 16"] by simp_all
    then show ?thesis by (rule nibbles_inject)
  qed
qed


subsection \<open>Accepted lists\<close>

lemma collect_revoked_Inr:
  "collect_revoked es acc = Inr serials \<Longrightarrow>
     set serials = set acc \<union> SerialKey ` re_SerialNumber ` set es \<and>
     (\<forall>e \<in> set es. check_entry (SerialKey (re_SerialNumber e)) (re_Extensions e) = None)"
  by (induction es acc rule: collect_revoked.induct) (auto split: option.splits)

lemma check_entry_None:
  "check_entry key exts = None \<longleftrightarrow> (\<forall>ext \<in> set exts. ext_Id ext \<noteq> oidExtCertIssuer \<and>
     (ext_Critical ext \<longrightarrow> ext_Id ext \<in> {oidExtReasonCode, oidExtInvalidityDate}))"
  by (induction exts) auto

definition extension_ok :: "crl_lib \<Rightarrow> extension \<Rightarrow> bool" where
  "extension_ok lib ext \<longleftrightarrow> ext_Id ext \<noteq> oidExtDeltaCRL \<and>
     (ext_Id ext = oidExtIDP \<longrightarrow> (\<exists>idp. asn1_IDP lib (ext_Value ext) = Some idp \<and> \<not> idp_IndirectCRL idp \<and>
        \<not> idp_OnlyContainsCACerts idp \<and> \<not> idp_OnlyContainsAttributeCerts idp \<and> idp_SomeReasonsBits idp = 0)) \<and>
     (ext_Critical ext \<longrightarrow> ext_Id ext \<in> {oidExtIDP, oidExtAuthorityKeyID, oidExtCRLNumber})"

lemma checkCRLExtensions_None: "checkCRLExtensions lib exts = None \<longleftrightarrow> (\<forall>ext \<in> set exts. extension_ok lib ext)"
  by (induction exts) (auto simp: extension_ok_def oid_defs split: option.split)

lemma VerifyCRL_Inr:
  assumes "VerifyCRL lib b anchor now = Inr v"
  obtains serials where "crl_der lib b = Inr (v_DER v)" "length b \<le> MaxCRLSize"
    "ParseRevocationList lib (v_DER v) = Inr (v_List v)" "check_list lib anchor now (v_List v) = None"
    "collect_revoked (rl_Entries (v_List v)) [] = Inr (v_Revoked v)" "v_Number v = rl_Number (v_List v)"
  using assms by (auto simp: VerifyCRL_def split: if_splits sum.splits option.splits)

lemma check_list_None:
  "check_list lib anchor now l = None \<longleftrightarrow>
     CheckSignatureFrom lib l anchor = None \<and> rl_RawIssuer l = cert_RawSubject anchor \<and>
     (rl_AuthorityKeyId l \<noteq> [] \<and> cert_SubjectKeyId anchor \<noteq> [] \<longrightarrow> rl_AuthorityKeyId l = cert_SubjectKeyId anchor) \<and>
     rl_NextUpdate l \<noteq> 0 \<and> rl_ThisUpdate l \<le> now + maxClockSkew \<and> (\<forall>ext \<in> set (rl_Extensions l). extension_ok lib ext)"
  by (auto simp: check_list_def IsZero_def checkCRLExtensions_None split: option.split)

subsection \<open>No rollback\<close>

definition crl_row :: "string \<Rightarrow> gotime \<Rightarrow> string \<Rightarrow> VerifiedCRL \<Rightarrow> operator_crl" where
  "crl_row issuer now source v =
     \<lparr>crl_IssuerSHA256 = issuer, crl_DER = Some (v_DER v), crl_Number = v_Number v,
      crl_ThisUpdate = rl_ThisUpdate (v_List v), crl_NextUpdate = rl_NextUpdate (v_List v), crl_FetchedAt = now,
      crl_Source = source, crl_LastError = [], crl_LastAttemptAt = 0\<rparr>"

text \<open>
  The part of \<^verbatim>\<open>store.OperatorTrust\<close> that holds CRLs, as both stores implement it: \<open>cur\<close> is the
  CRL stored for an issuer, and \<open>put\<close> asks the caller's rule about it and stores the new CRL in the same
  step.
\<close>

lemma crl_row_simps [simp]:
  "crl_IssuerSHA256 (crl_row issuer now source v) = issuer" "crl_FetchedAt (crl_row issuer now source v) = now"
  "crl_DER (crl_row issuer now source v) = Some (v_DER v)" "crl_Number (crl_row issuer now source v) = v_Number v"
  "crl_ThisUpdate (crl_row issuer now source v) = rl_ThisUpdate (v_List v)"
  "(crl_row issuer now source v)\<lparr>crl_LastError := []\<rparr> = crl_row issuer now source v"
  by (simp_all add: crl_row_def)

text \<open>Any sequence of attempts to store a CRL for one operator CA.\<close>

fun put_all ::
  "(operator_crl \<Rightarrow> (operator_crl \<Rightarrow> bool \<Rightarrow> crl_error + bool) \<Rightarrow> 's \<Rightarrow> ('e + bool) \<times> 's) \<Rightarrow>
   string \<Rightarrow> (gotime \<times> string \<times> VerifiedCRL) list \<Rightarrow> 's \<Rightarrow> 's" where
  "put_all put issuer [] s = s"
| "put_all put issuer ((now, source, v) # vs) s =
     put_all put issuer vs (snd (put (crl_row issuer now source v) (AcceptNewer v) s))"

lemma AcceptNewer_True:
  "AcceptNewer v old True = Inr True \<Longrightarrow> crl_DER old \<noteq> Some (v_DER v) \<and>
     (case (crl_Number old, v_Number v) of (Some m, Some n) \<Rightarrow> m < n | _ \<Rightarrow> crl_ThisUpdate old < rl_ThisUpdate (v_List v))"
  unfolding AcceptNewer_def by (cases "crl_Number old"; cases "v_Number v") (auto split: if_splits)

locale crl_store =
  fixes cur :: "'s \<Rightarrow> string \<Rightarrow> operator_crl option"
    and put :: "operator_crl \<Rightarrow> (operator_crl \<Rightarrow> bool \<Rightarrow> crl_error + bool) \<Rightarrow> 's \<Rightarrow> ('e + bool) \<times> 's"
  assumes put_kept: "fst (put c decide s) \<noteq> Inr True \<Longrightarrow> snd (put c decide s) = s"
    and put_stored: "fst (put c decide s) = Inr True \<Longrightarrow> crl_DER c \<noteq> None \<Longrightarrow>
      \<exists>c'. cur (snd (put c decide s)) (crl_IssuerSHA256 c) = Some c' \<and> crl_DER c' = crl_DER c \<and>
        crl_Number c' = crl_Number c \<and> crl_ThisUpdate c' = crl_ThisUpdate c \<and> crl_NextUpdate c' = crl_NextUpdate c"
    and put_decided: "fst (put c decide s) = Inr True \<Longrightarrow> cur s (crl_IssuerSHA256 c) = Some old \<Longrightarrow> decide old True = Inr True"
    and put_other: "i \<noteq> crl_IssuerSHA256 c \<Longrightarrow> cur (snd (put c decide s)) i = cur s i"
begin

lemma put_cases:
  obtains (kept) "snd (put (crl_row issuer now source v) (AcceptNewer v) s) = s"
  | (stored) c where "cur (snd (put (crl_row issuer now source v) (AcceptNewer v) s)) issuer = Some c"
      "crl_Number c = v_Number v" "crl_ThisUpdate c = rl_ThisUpdate (v_List v)"
      "\<And>old. cur s issuer = Some old \<Longrightarrow> (case (crl_Number old, v_Number v) of (Some m, Some n) \<Rightarrow> m < n
          | _ \<Rightarrow> crl_ThisUpdate old < rl_ThisUpdate (v_List v))"
proof (cases "fst (put (crl_row issuer now source v) (AcceptNewer v) s) = Inr True")
  case False
  then show thesis by (intro kept put_kept)
next
  case True
  obtain c where c: "cur (snd (put (crl_row issuer now source v) (AcceptNewer v) s)) issuer = Some c"
    "crl_Number c = v_Number v" "crl_ThisUpdate c = rl_ThisUpdate (v_List v)"
    using put_stored [OF True] by auto
  show thesis
    by (rule stored [OF c]) (use put_decided [OF True] AcceptNewer_True in auto)
qed

lemma numbered_chain:
  assumes "\<forall>(_, _, v) \<in> set vs. v_Number v \<noteq> None" and "cur s issuer = Some old" and "crl_Number old = Some m"
  shows "\<exists>c n. cur (put_all put issuer vs s) issuer = Some c \<and> crl_Number c = Some n \<and> m \<le> n \<and> (n = m \<longrightarrow> c = old)"
  using assms
proof (induction vs arbitrary: s old m)
  case (Cons a vs)
  obtain now source v where a: "a = (now, source, v)" by (cases a)
  show ?case
  proof (cases rule: put_cases [of issuer now source v s])
    case kept
    then show ?thesis using Cons a by simp
  next
    case (stored c)
    obtain n where n: "v_Number v = Some n" using Cons.prems(1) a by auto
    then have "m < n" using stored(4) [OF Cons.prems(2)] Cons.prems(3) by simp
    moreover obtain c' n' where
      "cur (put_all put issuer vs (snd (put (crl_row issuer now source v) (AcceptNewer v) s))) issuer = Some c'"
      "crl_Number c' = Some n'" "n \<le> n'"
      using Cons.IH [OF _ stored(1), of n] Cons.prems(1) stored(2) n by auto
    ultimately show ?thesis using a by auto
  qed
qed simp

lemma dated_chain:
  assumes "\<forall>(_, _, v) \<in> set vs. v_Number v = None" and "cur s issuer = Some old"
  shows "\<exists>c. cur (put_all put issuer vs s) issuer = Some c \<and> crl_ThisUpdate old \<le> crl_ThisUpdate c \<and>
    (crl_ThisUpdate c = crl_ThisUpdate old \<longrightarrow> c = old)"
  using assms
proof (induction vs arbitrary: s old)
  case (Cons a vs)
  obtain now source v where a: "a = (now, source, v)" by (cases a)
  show ?case
  proof (cases rule: put_cases [of issuer now source v s])
    case kept
    then show ?thesis using Cons a by simp
  next
    case (stored c)
    have "v_Number v = None" using Cons.prems(1) a by auto
    then have "crl_ThisUpdate old < crl_ThisUpdate c"
      using stored(4) [OF Cons.prems(2)] stored(3) by (simp split: option.splits)
    moreover obtain c' where
      "cur (put_all put issuer vs (snd (put (crl_row issuer now source v) (AcceptNewer v) s))) issuer = Some c'"
      "crl_ThisUpdate c \<le> crl_ThisUpdate c'"
      using Cons.IH [OF _ stored(1)] Cons.prems(1) by auto
    ultimately show ?thesis using a by auto
  qed
qed simp

end

definition stored_crl :: "mem_store \<Rightarrow> string \<Rightarrow> operator_crl option" where
  "stored_crl s issuer = (case mget (trust_crls s) issuer of None \<Rightarrow> None | Some c \<Rightarrow> if crl_DER c = None then None else Some c)"

definition current_crl :: "string \<Rightarrow> mem_store \<Rightarrow> operator_crl \<times> bool" where
  "current_crl issuer s = (case mget (trust_crls s) issuer of None \<Rightarrow> (zero_crl, False) | Some cur \<Rightarrow> (cur, True))"

lemma stored_crl_current:
  "stored_crl s issuer = Some old \<Longrightarrow> current_crl issuer s = (old, True) \<and> crl_DER old \<noteq> None"
  by (simp add: stored_crl_def current_crl_def split: option.splits if_splits)

lemma PutOperatorCRL_eq:
  "PutOperatorCRL c decide s =
     (let (old, ok) = current_crl (crl_IssuerSHA256 c) s
      in case decide old (ok \<and> crl_DER old \<noteq> None) of
           Inl e \<Rightarrow> (Inl e, s)
         | Inr acc \<Rightarrow> (Inr acc, if acc then s\<lparr>trust_crls := mput (crl_IssuerSHA256 c)
                (c\<lparr>crl_LastError := [], crl_LastAttemptAt := crl_FetchedAt c\<rparr>) (trust_crls s), trust_epoch := trust_epoch s + 1\<rparr> else s))"
  unfolding PutOperatorCRL_def current_crl_def Let_def by (simp split: prod.split sum.split bool.split)

interpretation mem_crls: crl_store stored_crl PutOperatorCRL
proof
  fix c old :: operator_crl and decide and s :: mem_store and i :: string
  let ?cur = "current_crl (crl_IssuerSHA256 c) s"
  show "snd (PutOperatorCRL c decide s) = s" if "fst (PutOperatorCRL c decide s) \<noteq> Inr True"
    using that by (auto simp: PutOperatorCRL_eq split_beta split: sum.splits)
  have acc: "decide (fst ?cur) (snd ?cur \<and> crl_DER (fst ?cur) \<noteq> None) = Inr True" if "fst (PutOperatorCRL c decide s) = Inr True"
    using that by (auto simp: PutOperatorCRL_eq split_beta split: sum.splits)
  show "\<exists>c'. stored_crl (snd (PutOperatorCRL c decide s)) (crl_IssuerSHA256 c) = Some c' \<and> crl_DER c' = crl_DER c \<and>
      crl_Number c' = crl_Number c \<and> crl_ThisUpdate c' = crl_ThisUpdate c \<and> crl_NextUpdate c' = crl_NextUpdate c"
    if "fst (PutOperatorCRL c decide s) = Inr True" and "crl_DER c \<noteq> None"
    using acc [OF that(1)] that(2) by (simp add: PutOperatorCRL_eq stored_crl_def gomap_simps split_beta)
  show "decide old True = Inr True" if "fst (PutOperatorCRL c decide s) = Inr True" and "stored_crl s (crl_IssuerSHA256 c) = Some old"
    using acc [OF that(1)] stored_crl_current [OF that(2)] by simp
  show "stored_crl (snd (PutOperatorCRL c decide s)) i = stored_crl s i" if "i \<noteq> crl_IssuerSHA256 c"
    using that by (simp add: PutOperatorCRL_eq stored_crl_def gomap_simps split_beta split: sum.split)
qed

subsection \<open>Properties\<close>

text \<open>Serials are compared in one form: the colon-separated upper-case form the audit log and identities
  carry and the key form itself normalise to the key of the number, and different serials have different keys.\<close>

theorem serial_forms_agree:
  "NormalizeSerial (formatSerial n) = SerialKey \<bar>n\<bar> \<and> NormalizeSerial (SerialKey \<bar>n\<bar>) = SerialKey \<bar>n\<bar> \<and>
   (SerialKey \<bar>m\<bar> = SerialKey \<bar>n\<bar> \<longleftrightarrow> \<bar>m\<bar> = \<bar>n\<bar>)"
proof -
  have "\<bar>m\<bar> = \<bar>n\<bar>" if "SerialKey \<bar>m\<bar> = SerialKey \<bar>n\<bar>"
    using that hex_nat_inject [of "nat \<bar>m\<bar>" "nat \<bar>n\<bar>"] by (simp add: SerialKey_def fmt_x_def)
  then show ?thesis using NormalizeSerial_formatSerial NormalizeSerial_SerialKey [of "\<bar>n\<bar>"] by auto
qed

text \<open>C17: an accepted CRL is at most four megabytes, signed by the operator CA and issued under its name and
  key, complete and direct for end-entity certificates, has a nextUpdate and is not from the future; its set of
  revoked serials is exactly the keys of the listed entries, whatever their reason.\<close>

theorem VerifyCRL_sound:
  assumes "VerifyCRL lib b anchor now = Inr v"
  shows "length b \<le> 4 * 2 ^ 20 \<and> ParseRevocationList lib (v_DER v) = Inr (v_List v) \<and>
    CheckSignatureFrom lib (v_List v) anchor = None \<and> rl_RawIssuer (v_List v) = cert_RawSubject anchor \<and>
    (rl_AuthorityKeyId (v_List v) \<noteq> [] \<and> cert_SubjectKeyId anchor \<noteq> [] \<longrightarrow>
      rl_AuthorityKeyId (v_List v) = cert_SubjectKeyId anchor) \<and>
    rl_NextUpdate (v_List v) \<noteq> 0 \<and> rl_ThisUpdate (v_List v) \<le> now + 5 * Minute \<and>
    (\<forall>ext \<in> set (rl_Extensions (v_List v)). extension_ok lib ext) \<and>
    (\<forall>e \<in> set (rl_Entries (v_List v)). \<forall>ext \<in> set (re_Extensions e). ext_Id ext \<noteq> oidExtCertIssuer) \<and>
    (\<forall>n. crl_IsRevoked v (SerialKey n) \<longleftrightarrow> SerialKey n \<in> SerialKey ` re_SerialNumber ` set (rl_Entries (v_List v)))"
proof -
  obtain serials :: nat where v: "length b \<le> MaxCRLSize"
    "ParseRevocationList lib (v_DER v) = Inr (v_List v)" "check_list lib anchor now (v_List v) = None"
    "collect_revoked (rl_Entries (v_List v)) [] = Inr (v_Revoked v)"
    using assms by (rule VerifyCRL_Inr) blast
  show ?thesis
    using v(1,2) v(3) [unfolded check_list_None] collect_revoked_Inr [OF v(4)]
    by (simp add: MaxCRLSize_def maxClockSkew_def crl_IsRevoked_def check_entry_None)
qed


definition example_list :: revocation_list where
  "example_list = \<lparr>rl_RawIssuer = ''ca'', rl_AuthorityKeyId = [], rl_Number = Some 7, rl_ThisUpdate = 100, rl_NextUpdate = 900,
     rl_Extensions = [\<lparr>ext_Id = [2, 5, 29, 20], ext_Critical = False, ext_Value = []\<rparr>],
     rl_Entries = [\<lparr>re_SerialNumber = 4660, re_Extensions = []\<rparr>]\<rparr>"

definition example_crl_lib :: crl_lib where
  "example_crl_lib = \<lparr>pem_Decode = (\<lambda>_. None), ParseRevocationList = (\<lambda>_. Inr example_list), CheckSignatureFrom = (\<lambda>_ _. None),
     asn1_IDP = (\<lambda>_. None)\<rparr>"

definition example_ca :: certificate where
  "example_ca = example_cert\<lparr>cert_Raw := ''ca'', cert_CommonName := ''CA'', cert_RawSubject := ''ca''\<rparr>"

definition example_vcrl :: VerifiedCRL where
  "example_vcrl = \<lparr>v_List = example_list, v_DER = ''crl'', v_Number = Some 7, v_Revoked = [SerialKey 4660]\<rparr>"

lemma example_verifies: "VerifyCRL example_crl_lib ''crl'' example_ca 200 = Inr example_vcrl"
  by (simp add: VerifyCRL_def MaxCRLSize_def crl_der_def example_crl_lib_def example_list_def check_list_def example_ca_def
      example_cert_def IsZero_def maxClockSkew_def Minute_def Second_def oid_defs example_vcrl_def)

lemma VerifyCRL_sound_witness: "crl_IsRevoked example_vcrl (SerialKey 4660) \<and> rl_NextUpdate (v_List example_vcrl) \<noteq> 0"
proof -
  have "rl_Entries (v_List example_vcrl) = [\<lparr>re_SerialNumber = 4660, re_Extensions = []\<rparr>]"
    by (simp add: example_vcrl_def example_list_def)
  with VerifyCRL_sound [OF example_verifies] show ?thesis by simp
qed

definition example_crl_store :: mem_store where
  "example_crl_store = snd (PutOperatorCRL (crl_row ''anchor'' 150 ''url'' example_vcrl) (AcceptNewer example_vcrl) (New (\<lambda>_. []) []))"

lemma example_crl_stored:
  "stored_crl example_crl_store ''anchor'' = Some ((crl_row ''anchor'' 150 ''url'' example_vcrl)\<lparr>crl_LastAttemptAt := 150\<rparr>)"
  by (simp add: example_crl_store_def PutOperatorCRL_eq current_crl_def New_def NewWithCatalog_def AcceptNewer_def stored_crl_def crl_row_def)


end
