(* ===== verification/Pg_Trust.thy ===== *)
theory Pg_Trust
  imports Operator_Crl
begin

text \<open>
  The tables of operator trust and first run in the Postgres store
  (\<^verbatim>\<open>internal/store/postgres/operatortrust.go\<close>, \<^verbatim>\<open>bootstrap.go\<close>). One table is one field
  of \<open>pg_db\<close>, rows in the order of their serial ids. Every operation is one statement or one
  transaction: \<open>fault\<close> is the error the database reports, if any, and then nothing is written. The
  checks the schema declares on \<^verbatim>\<open>operator_cas\<close> are the predicate \<open>cas_ok\<close>; a statement that
  breaks them fails. \<open>clk\<close> is the clock of the statement.
\<close>

record operator_ca =
  ca_SHA256 :: string
  ca_CertDER :: bytes
  ca_State :: string
  ca_CRLSource :: string
  ca_CRLURL :: string
  ca_OCSPMode :: string
  ca_OCSPURL :: string
  ca_Acknowledgements :: "string list"
  ca_Warnings :: "string list"
  ca_RegisteredAt :: gotime
  ca_RegisteredBy :: string
  ca_RetiredAt :: gotime
  ca_RetiredReason :: string
  ca_UpdatedAt :: gotime

record ca_row = operator_ca +
  row_confirmed :: "string option"

record denylist_entry =
  deny_IssuerSHA256 :: string
  deny_SerialHex :: string
  deny_Reason :: int
  deny_RevokedAt :: gotime
  deny_RevokedByCN :: string
  deny_RevokedBySerial :: string
  deny_Note :: string

record BootstrapState =
  bs_ClosedAt :: gotime
  bs_ClosedBySerial :: string
  bs_ClosedByCN :: string
  bs_ClosedByIssuerSHA256 :: string

definition Closed :: "BootstrapState \<Rightarrow> bool" where
  "Closed b \<longleftrightarrow> \<not> IsZero (bs_ClosedAt b)"

record BootstrapToken =
  tok_Hash :: string
  tok_CreatedAt :: gotime
  tok_ExpiresAt :: gotime
  tok_UsedAt :: gotime

record BootstrapSession =
  ses_Hash :: string
  ses_CreatedAt :: gotime
  ses_LastUsedAt :: gotime
  ses_ExpiresAt :: gotime
  ses_EndedAt :: gotime
  ses_EndedReason :: string

record pg_db =
  pg_cas :: "ca_row list"
  pg_crls :: "(string, operator_crl) gomap"
  pg_denylist :: "denylist_entry list"
  pg_epoch :: int
  pg_latch :: BootstrapState
  pg_tokens :: "BootstrapToken list"
  pg_sessions :: "BootstrapSession list"
  pg_credentials :: "operator_credential list"

datatype pg_error =
    DbError string
  | PgOperatorCANotFound
  | PgRotationInProgress
  | PgOperatorCATrusted
  | PgBootstrapClosed
  | PgDecide crl_error
  | PgConstraint

definition OperatorCAActive :: string where "OperatorCAActive = ''active''"
definition OperatorCARetiring :: string where "OperatorCARetiring = ''retiring''"
definition OperatorCARetired :: string where "OperatorCARetired = ''retired''"
definition SessionEndedSuperseded :: string where "SessionEndedSuperseded = ''superseded''"
definition SessionEndedClosed :: string where "SessionEndedClosed = ''closed''"
definition RetiredSuperseded :: string where "RetiredSuperseded = ''superseded''"
definition RetiredReset :: string where "RetiredReset = ''reset''"
definition OperatorCredentialFirstAdmin :: string where "OperatorCredentialFirstAdmin = ''first_admin''"

lemmas state_defs = OperatorCAActive_def OperatorCARetiring_def OperatorCARetired_def

definition open_latch :: BootstrapState where
  "open_latch = \<lparr>bs_ClosedAt = 0, bs_ClosedBySerial = [], bs_ClosedByCN = [], bs_ClosedByIssuerSHA256 = []\<rparr>"

definition migrated :: pg_db where
  "migrated = \<lparr>pg_cas = [], pg_crls = [], pg_denylist = [], pg_epoch = 0, pg_latch = open_latch, pg_tokens = [], pg_sessions = [],
     pg_credentials = []\<rparr>"

subsection \<open>Constraints of the schema\<close>

definition ca_row_ok :: "ca_row \<Rightarrow> bool" where
  "ca_row_ok r \<longleftrightarrow>
     ca_State r \<in> {OperatorCAActive, OperatorCARetiring, OperatorCARetired} \<and>
     ca_CRLSource r \<in> {''none'', ''url'', ''upload''} \<and> ca_OCSPMode r \<in> {''off'', ''aia'', ''url''} \<and>
     (ca_OCSPMode r = ''url'' \<longrightarrow> ca_OCSPURL r \<noteq> []) \<and> (ca_CRLSource r = ''url'' \<longrightarrow> ca_CRLURL r \<noteq> [])"

definition with_state :: "string \<Rightarrow> ca_row list \<Rightarrow> ca_row list" where
  "with_state st rows = filter (\<lambda>r. ca_State r = st) rows"

definition cas_ok :: "ca_row list \<Rightarrow> bool" where
  "cas_ok rows \<longleftrightarrow> distinct (map ca_SHA256 rows) \<and> list_all ca_row_ok rows \<and>
     length (with_state OperatorCAActive rows) \<le> 1 \<and> length (with_state OperatorCARetiring rows) \<le> 1"

definition write_cas :: "string option \<Rightarrow> ca_row list \<Rightarrow> pg_db \<Rightarrow> (pg_error + unit) \<times> pg_db" where
  "write_cas fault rows s =
     (case fault of
        Some e \<Rightarrow> (Inl (DbError e), s)
      | None \<Rightarrow> if cas_ok rows then (Inr (), s\<lparr>pg_cas := rows\<rparr>) else (Inl PgConstraint, s))"

definition trusted_state :: "string \<Rightarrow> bool" where
  "trusted_state st \<longleftrightarrow> st = OperatorCAActive \<or> st = OperatorCARetiring"

subsection \<open>Operator CAs\<close>

definition pg_OperatorCAs :: "pg_db \<Rightarrow> operator_ca list" where
  "pg_OperatorCAs s = map operator_ca.truncate (pg_cas s)"

definition default_mode :: "string \<Rightarrow> string" where
  "default_mode m = (if m = [] then ''aia'' else m)"

definition default_time :: "gotime \<Rightarrow> gotime \<Rightarrow> gotime" where
  "default_time clk t = (if IsZero t then clk else t)"

definition ca_insert :: "gotime \<Rightarrow> string option \<Rightarrow> operator_ca \<Rightarrow> ca_row" where
  "ca_insert clk confirmed ca =
     operator_ca.extend
       (ca\<lparr>ca_OCSPMode := default_mode (ca_OCSPMode ca), ca_RegisteredAt := default_time clk (ca_RegisteredAt ca),
           ca_UpdatedAt := clk\<rparr>)
       (ca_row.fields confirmed)"

definition pg_AddOperatorCA :: "string option \<Rightarrow> gotime \<Rightarrow> operator_ca \<Rightarrow> pg_db \<Rightarrow> (pg_error + unit) \<times> pg_db" where
  "pg_AddOperatorCA fault clk ca s = write_cas fault (pg_cas s @ [ca_insert clk None ca]) s"

definition pg_SetOperatorCAState ::
  "string option \<Rightarrow> gotime \<Rightarrow> string \<Rightarrow> string \<Rightarrow> string \<Rightarrow> gotime \<Rightarrow> pg_db \<Rightarrow> (pg_error + unit) \<times> pg_db" where
  "pg_SetOperatorCAState fault clk sha st reason at s =
     (if fault = None \<and> sha \<notin> ca_SHA256 ` set (pg_cas s) then (Inl PgOperatorCANotFound, s)
      else write_cas fault (map (\<lambda>r. if ca_SHA256 r = sha then r\<lparr>ca_State := st,
          ca_RetiredAt := (if st = OperatorCARetired then at else ca_RetiredAt r),
          ca_RetiredReason := (if st = OperatorCARetired then reason else ca_RetiredReason r), ca_UpdatedAt := clk\<rparr> else r) (pg_cas s)) s)"

text \<open>
  \<^verbatim>\<open>INSERT ... ON CONFLICT (sha256) DO UPDATE\<close>: the row is replaced in place, or added last. A
  rotation leaves the confirming session of an existing row alone.
\<close>

definition upsert_ca :: "bool \<Rightarrow> ca_row \<Rightarrow> ca_row list \<Rightarrow> ca_row list" where
  "upsert_ca keep r rows =
     (if ca_SHA256 r \<in> ca_SHA256 ` set rows
      then map (\<lambda>x. if ca_SHA256 x = ca_SHA256 r then (if keep then r\<lparr>row_confirmed := row_confirmed x\<rparr> else r) else x) rows
      else rows @ [r])"

definition activated :: "gotime \<Rightarrow> string option \<Rightarrow> operator_ca \<Rightarrow> ca_row" where
  "activated clk confirmed ca =
     (ca_insert clk confirmed ca)\<lparr>ca_State := OperatorCAActive, ca_RetiredAt := 0, ca_RetiredReason := []\<rparr>"

subsection \<open>CRLs and the denylist\<close>

definition pg_OperatorCRLs :: "pg_db \<Rightarrow> operator_crl list" where
  "pg_OperatorCRLs s = sort_key crl_IssuerSHA256 (mvals (pg_crls s))"

definition bumpEpoch :: "pg_db \<Rightarrow> pg_db" where
  "bumpEpoch s = s\<lparr>pg_epoch := pg_epoch s + 1\<rparr>"

definition putCRLTx ::
  "operator_crl \<Rightarrow> (operator_crl \<Rightarrow> bool \<Rightarrow> crl_error + bool) \<Rightarrow> pg_db \<Rightarrow> (pg_error + bool) \<times> pg_db" where
  "putCRLTx c decide s =
     (let (old, found) = (case mget (pg_crls s) (crl_IssuerSHA256 c) of None \<Rightarrow> (zero_crl, False) | Some old \<Rightarrow> (old, True))
      in case decide old (found \<and> crl_DER old \<noteq> None) of
           Inl e \<Rightarrow> (Inl (PgDecide e), s)
         | Inr accepted \<Rightarrow> (Inr accepted, if accepted then bumpEpoch (s\<lparr>pg_crls := mput (crl_IssuerSHA256 c)
                (c\<lparr>crl_LastError := [], crl_LastAttemptAt := crl_FetchedAt c\<rparr>) (pg_crls s)\<rparr>) else s))"

definition pg_PutOperatorCRL ::
  "string option \<Rightarrow> operator_crl \<Rightarrow> (operator_crl \<Rightarrow> bool \<Rightarrow> crl_error + bool) \<Rightarrow> pg_db \<Rightarrow> (pg_error + bool) \<times> pg_db" where
  "pg_PutOperatorCRL fault c decide s = (case fault of Some e \<Rightarrow> (Inl (DbError e), s) | None \<Rightarrow> putCRLTx c decide s)"

definition pg_RecordOperatorCRLAttempt :: "string option \<Rightarrow> string \<Rightarrow> string \<Rightarrow> gotime \<Rightarrow> pg_db \<Rightarrow> (pg_error + unit) \<times> pg_db" where
  "pg_RecordOperatorCRLAttempt fault issuer err at s =
     (case fault of
        Some e \<Rightarrow> (Inl (DbError e), s)
      | None \<Rightarrow>
          (let c = (case mget (pg_crls s) issuer of None \<Rightarrow> zero_crl\<lparr>crl_IssuerSHA256 := issuer\<rparr> | Some c \<Rightarrow> c)
           in (Inr (), s\<lparr>pg_crls := mput issuer (c\<lparr>crl_LastError := err, crl_LastAttemptAt := at\<rparr>) (pg_crls s)\<rparr>)))"

definition pg_OperatorDenylist :: "pg_db \<Rightarrow> denylist_entry list" where
  "pg_OperatorDenylist s =
     sort_key (\<lambda>e. (deny_RevokedAt e, deny_IssuerSHA256 e, deny_SerialHex e)) (pg_denylist s)"

definition pg_AddOperatorDenylistEntry :: "string option \<Rightarrow> gotime \<Rightarrow> denylist_entry \<Rightarrow> pg_db \<Rightarrow> (pg_error + bool) \<times> pg_db" where
  "pg_AddOperatorDenylistEntry fault clk e s =
     (case fault of
        Some err \<Rightarrow> (Inl (DbError err), s)
      | None \<Rightarrow>
          if \<exists>x \<in> set (pg_denylist s). deny_IssuerSHA256 x = deny_IssuerSHA256 e \<and> deny_SerialHex x = deny_SerialHex e
          then (Inr False, s)
          else (Inr True, bumpEpoch (s\<lparr>pg_denylist := pg_denylist s @ [e\<lparr>deny_RevokedAt := default_time clk (deny_RevokedAt e)\<rparr>]\<rparr>)))"

text \<open>\<open>render\<close> is the text Postgres makes of a time stamp.\<close>

definition pg_OperatorTrustVersion :: "(gotime \<Rightarrow> string) \<Rightarrow> pg_db \<Rightarrow> trust_version" where
  "pg_OperatorTrustVersion render s =
     \<lparr>tv_CAs = itoa (length (pg_cas s)) @ '':'' @
        (if pg_cas s = [] then [] else render (Max (ca_UpdatedAt ` set (pg_cas s)))), tv_Epoch = pg_epoch s\<rparr>"


subsection \<open>Rotation and settings\<close>

text \<open>The CRL that comes with a change is stored in the same transaction, or its refusal aborts the change.\<close>

definition with_crl ::
  "(operator_crl \<times> (operator_crl \<Rightarrow> bool \<Rightarrow> crl_error + bool)) option \<Rightarrow> pg_db \<Rightarrow> (pg_error + unit) \<times> pg_db" where
  "with_crl crl s =
     (case crl of
        None \<Rightarrow> (Inr (), bumpEpoch s)
      | Some (c, decide) \<Rightarrow>
          (case putCRLTx c decide s of
             (Inl e, _) \<Rightarrow> (Inl e, s)
           | (Inr _, s) \<Rightarrow> (Inr (), bumpEpoch s)))"

definition change_cas ::
  "string option \<Rightarrow> ca_row list \<Rightarrow> (operator_crl \<times> (operator_crl \<Rightarrow> bool \<Rightarrow> crl_error + bool)) option \<Rightarrow> pg_db \<Rightarrow>
   (pg_error + unit) \<times> pg_db" where
  "change_cas fault rows crl s =
     (case write_cas fault rows s of
        (Inl e, _) \<Rightarrow> (Inl e, s)
      | (Inr _, s1) \<Rightarrow> (case with_crl crl s1 of (Inl e, _) \<Rightarrow> (Inl e, s) | (Inr _, s2) \<Rightarrow> (Inr (), s2)))"

fun rotation_refused :: "string \<Rightarrow> ca_row list \<Rightarrow> pg_error option" where
  "rotation_refused sha [] = None"
| "rotation_refused sha (r # rows) =
     (if \<not> trusted_state (ca_State r) then rotation_refused sha rows
      else if ca_SHA256 r = sha then Some PgOperatorCATrusted
      else if ca_State r = OperatorCARetiring then Some PgRotationInProgress
      else rotation_refused sha rows)"

definition retire_active :: "gotime \<Rightarrow> ca_row list \<Rightarrow> ca_row list" where
  "retire_active clk rows =
     map (\<lambda>r. if ca_State r = OperatorCAActive then r\<lparr>ca_State := OperatorCARetiring, ca_UpdatedAt := clk\<rparr> else r) rows"

definition pg_RotateOperatorCA ::
  "string option \<Rightarrow> gotime \<Rightarrow> operator_ca \<Rightarrow> (operator_crl \<times> (operator_crl \<Rightarrow> bool \<Rightarrow> crl_error + bool)) option \<Rightarrow> pg_db \<Rightarrow>
   (pg_error + unit) \<times> pg_db" where
  "pg_RotateOperatorCA fault clk ca crl s =
     (case (if fault = None then rotation_refused (ca_SHA256 ca) (pg_cas s) else None) of
        Some e \<Rightarrow> (Inl e, s)
      | None \<Rightarrow> change_cas fault (upsert_ca True (activated clk None ca) (retire_active clk (pg_cas s))) crl s)"

definition update_trusted :: "string \<Rightarrow> (ca_row \<Rightarrow> ca_row) \<Rightarrow> ca_row list \<Rightarrow> ca_row list" where
  "update_trusted sha f rows = map (\<lambda>r. if ca_SHA256 r = sha \<and> trusted_state (ca_State r) then f r else r) rows"

definition has_trusted :: "string \<Rightarrow> ca_row list \<Rightarrow> bool" where
  "has_trusted sha rows \<longleftrightarrow> (\<exists>r \<in> set rows. ca_SHA256 r = sha \<and> trusted_state (ca_State r))"

definition pg_SetOperatorCACRLSource ::
  "string option \<Rightarrow> gotime \<Rightarrow> string \<Rightarrow> string \<Rightarrow> string \<Rightarrow> string list \<Rightarrow>
   (operator_crl \<times> (operator_crl \<Rightarrow> bool \<Rightarrow> crl_error + bool)) option \<Rightarrow> pg_db \<Rightarrow> (pg_error + unit) \<times> pg_db" where
  "pg_SetOperatorCACRLSource fault clk sha source url acks crl s =
     (if fault = None \<and> \<not> has_trusted sha (pg_cas s) then (Inl PgOperatorCANotFound, s)
      else change_cas fault (update_trusted sha (\<lambda>r. r\<lparr>ca_CRLSource := source, ca_CRLURL := url, ca_Acknowledgements := acks,
        ca_UpdatedAt := clk\<rparr>) (pg_cas s)) crl s)"

definition pg_SetOperatorCAOCSP :: "string option \<Rightarrow> gotime \<Rightarrow> string \<Rightarrow> string \<Rightarrow> string \<Rightarrow> pg_db \<Rightarrow> (pg_error + unit) \<times> pg_db" where
  "pg_SetOperatorCAOCSP fault clk sha mode url s =
     (if fault = None \<and> \<not> has_trusted sha (pg_cas s) then (Inl PgOperatorCANotFound, s)
      else write_cas fault (update_trusted sha (\<lambda>r. r\<lparr>ca_OCSPMode := mode, ca_OCSPURL := url, ca_UpdatedAt := clk\<rparr>) (pg_cas s)) s)"

subsection \<open>First run\<close>

definition pg_BootstrapState :: "pg_db \<Rightarrow> BootstrapState" where
  "pg_BootstrapState s = pg_latch s"

definition end_sessions :: "gotime \<Rightarrow> string \<Rightarrow> BootstrapSession list \<Rightarrow> BootstrapSession list" where
  "end_sessions at reason ss = map (\<lambda>x. if IsZero (ses_EndedAt x) then x\<lparr>ses_EndedAt := at, ses_EndedReason := reason\<rparr> else x) ss"

definition pg_CloseBootstrap :: "string option \<Rightarrow> BootstrapState \<Rightarrow> pg_db \<Rightarrow> (pg_error + bool) \<times> pg_db" where
  "pg_CloseBootstrap fault by s =
     (case fault of
        Some e \<Rightarrow> (Inl (DbError e), s)
      | None \<Rightarrow>
          if Closed (pg_latch s) then (Inr False, s)
          else (Inr True, s\<lparr>pg_latch := by, pg_sessions := end_sessions (bs_ClosedAt by) SessionEndedClosed (pg_sessions s),
                 pg_tokens := []\<rparr>))"

definition lockOpen :: "pg_db \<Rightarrow> pg_error option" where
  "lockOpen s = (if Closed (pg_latch s) then Some PgBootstrapClosed else None)"

definition retire_tokens :: "gotime \<Rightarrow> BootstrapToken list \<Rightarrow> BootstrapToken list" where
  "retire_tokens at ts = map (\<lambda>x. if IsZero (tok_UsedAt x) then x\<lparr>tok_UsedAt := at\<rparr> else x) ts"

definition pg_IssueBootstrapToken :: "string option \<Rightarrow> BootstrapToken \<Rightarrow> pg_db \<Rightarrow> (pg_error + unit) \<times> pg_db" where
  "pg_IssueBootstrapToken fault t s =
     (case fault of
        Some e \<Rightarrow> (Inl (DbError e), s)
      | None \<Rightarrow>
          (case lockOpen s of
             Some e \<Rightarrow> (Inl e, s)
           | None \<Rightarrow>
               if tok_Hash t \<in> tok_Hash ` set (pg_tokens s) then (Inl PgConstraint, s)
               else (Inr (), s\<lparr>pg_tokens := retire_tokens (tok_CreatedAt t) (pg_tokens s) @ [t\<lparr>tok_UsedAt := 0\<rparr>]\<rparr>)))"

definition token_live :: "gotime \<Rightarrow> BootstrapToken \<Rightarrow> bool" where
  "token_live now t \<longleftrightarrow> IsZero (tok_UsedAt t) \<and> now < tok_ExpiresAt t"

definition pg_LiveBootstrapToken :: "gotime \<Rightarrow> pg_db \<Rightarrow> BootstrapToken option" where
  "pg_LiveBootstrapToken now s = find (token_live now) (rev (pg_tokens s))"

definition pg_StartBootstrapSession ::
  "string option \<Rightarrow> string \<Rightarrow> BootstrapSession \<Rightarrow> gotime \<Rightarrow> pg_db \<Rightarrow> (pg_error + bool) \<times> pg_db" where
  "pg_StartBootstrapSession fault tokenHash bs now s =
     (case fault of
        Some e \<Rightarrow> (Inl (DbError e), s)
      | None \<Rightarrow>
          if lockOpen s \<noteq> None then (Inr False, s)
          else if \<not> (\<exists>t \<in> set (pg_tokens s). tok_Hash t = tokenHash \<and> token_live now t) then (Inr False, s)
          else if ses_Hash bs \<in> ses_Hash ` set (pg_sessions s) then (Inl PgConstraint, s)
          else (Inr True, s\<lparr>pg_tokens := map (\<lambda>t. if tok_Hash t = tokenHash \<and> token_live now t then t\<lparr>tok_UsedAt := now\<rparr> else t) (pg_tokens s),
                 pg_sessions := end_sessions now SessionEndedSuperseded (pg_sessions s) @ [bs\<lparr>ses_EndedAt := 0, ses_EndedReason := []\<rparr>]\<rparr>))"

definition pg_BootstrapSession :: "string \<Rightarrow> pg_db \<Rightarrow> BootstrapSession option" where
  "pg_BootstrapSession h s = find (\<lambda>x. ses_Hash x = h) (pg_sessions s)"

definition pg_TouchBootstrapSession :: "string \<Rightarrow> gotime \<Rightarrow> pg_db \<Rightarrow> pg_db" where
  "pg_TouchBootstrapSession h at s =
     s\<lparr>pg_sessions := map (\<lambda>x. if ses_Hash x = h \<and> IsZero (ses_EndedAt x) then x\<lparr>ses_LastUsedAt := at\<rparr> else x) (pg_sessions s)\<rparr>"

definition pg_EndBootstrapSession :: "string \<Rightarrow> string \<Rightarrow> gotime \<Rightarrow> pg_db \<Rightarrow> pg_db" where
  "pg_EndBootstrapSession h reason at s =
     s\<lparr>pg_sessions := map (\<lambda>x. if ses_Hash x = h \<and> IsZero (ses_EndedAt x)
        then x\<lparr>ses_EndedAt := at, ses_EndedReason := reason\<rparr> else x) (pg_sessions s)\<rparr>"

definition pg_EndBootstrapSessions :: "string \<Rightarrow> gotime \<Rightarrow> pg_db \<Rightarrow> nat \<times> pg_db" where
  "pg_EndBootstrapSessions reason at s =
     (length (filter (\<lambda>x. IsZero (ses_EndedAt x)) (pg_sessions s)), s\<lparr>pg_sessions := end_sessions at reason (pg_sessions s)\<rparr>)"

definition session_live :: "gotime \<Rightarrow> duration \<Rightarrow> BootstrapSession \<Rightarrow> bool" where
  "session_live now idle x \<longleftrightarrow> IsZero (ses_EndedAt x) \<and> now < ses_ExpiresAt x \<and> now - idle < ses_LastUsedAt x"

definition pg_HasLiveBootstrapSession :: "gotime \<Rightarrow> duration \<Rightarrow> pg_db \<Rightarrow> bool" where
  "pg_HasLiveBootstrapSession now idle s = list_ex (session_live now idle) (pg_sessions s)"

definition retire_others :: "string \<Rightarrow> gotime \<Rightarrow> gotime \<Rightarrow> ca_row list \<Rightarrow> ca_row list" where
  "retire_others sha clk at rows =
     map (\<lambda>r. if trusted_state (ca_State r) \<and> ca_SHA256 r \<noteq> sha then r\<lparr>ca_State := OperatorCARetired, ca_RetiredAt := at,
        ca_RetiredReason := RetiredSuperseded, ca_UpdatedAt := clk\<rparr> else r) rows"

definition pg_RegisterFirstRunOperatorCA ::
  "string option \<Rightarrow> gotime \<Rightarrow> operator_ca \<Rightarrow> string \<Rightarrow> (operator_crl \<times> (operator_crl \<Rightarrow> bool \<Rightarrow> crl_error + bool)) option \<Rightarrow> pg_db \<Rightarrow>
   (pg_error + unit) \<times> pg_db" where
  "pg_RegisterFirstRunOperatorCA fault clk ca sessionHash crl s =
     (case (if fault = None then lockOpen s else None) of
        Some e \<Rightarrow> (Inl e, s)
      | None \<Rightarrow> change_cas fault (upsert_ca False (activated clk (Some sessionHash) ca)
          (retire_others (ca_SHA256 ca) clk (default_time clk (ca_RegisteredAt ca)) (pg_cas s))) crl s)"

definition pg_ConfirmOperatorCA :: "string \<Rightarrow> string \<Rightarrow> pg_db \<Rightarrow> (pg_error + unit) \<times> pg_db" where
  "pg_ConfirmOperatorCA sha sessionHash s =
     (if sha \<notin> ca_SHA256 ` set (pg_cas s) then (Inl PgOperatorCANotFound, s)
      else (Inr (), s\<lparr>pg_cas := map (\<lambda>r. if ca_SHA256 r = sha then r\<lparr>row_confirmed := Some sessionHash\<rparr> else r) (pg_cas s)\<rparr>))"

definition pg_OperatorCAConfirmedBy :: "string \<Rightarrow> pg_db \<Rightarrow> pg_error + string" where
  "pg_OperatorCAConfirmedBy sha s =
     (case find (\<lambda>r. ca_SHA256 r = sha) (pg_cas s) of
        None \<Rightarrow> Inl PgOperatorCANotFound
      | Some r \<Rightarrow> Inr (case row_confirmed r of None \<Rightarrow> [] | Some h \<Rightarrow> h))"

definition same_credential :: "operator_credential \<Rightarrow> operator_credential \<Rightarrow> bool" where
  "same_credential c x \<longleftrightarrow> cred_IssuerSHA256 x = cred_IssuerSHA256 c \<and> cred_SerialHex x = cred_SerialHex c"

definition pg_RecordFirstAdmin :: "operator_credential \<Rightarrow> gotime \<Rightarrow> pg_db \<Rightarrow> pg_db" where
  "pg_RecordFirstAdmin c at s =
     s\<lparr>pg_credentials :=
       (if list_ex (same_credential c) (pg_credentials s)
        then map (\<lambda>x. if same_credential c x then x\<lparr>cred_Kind := OperatorCredentialFirstAdmin, cred_FullName := cred_FullName c,
          cred_Email := cred_Email c, cred_CommonName := cred_CommonName c, cred_Level := cred_Level c,
          cred_NotAfter := cred_NotAfter c, cred_LeafSHA256 := cred_LeafSHA256 c\<rparr> else x) (pg_credentials s)
        else pg_credentials s @ [c\<lparr>cred_Revoked := False, cred_Kind := OperatorCredentialFirstAdmin, cred_RequestID := [],
          cred_FirstSeenAt := at, cred_LastSeenAt := 0\<rparr>])\<rparr>"

definition pg_RecordFirstUse :: "string option \<Rightarrow> operator_credential \<Rightarrow> gotime \<Rightarrow> pg_db \<Rightarrow> (pg_error + bool) \<times> pg_db" where
  "pg_RecordFirstUse fault c at s =
     (case fault of
        Some e \<Rightarrow> (Inl (DbError e), s)
      | None \<Rightarrow>
          if list_ex (same_credential c) (pg_credentials s) then (Inr False, s)
          else (Inr True, s\<lparr>pg_credentials := pg_credentials s @ [c\<lparr>cred_Revoked := False,
             cred_Kind := OperatorCredentialFirstAdmin, cred_RequestID := [], cred_FirstSeenAt := at, cred_LastSeenAt := at\<rparr>]\<rparr>))"

definition pg_FirstAdminCredentials :: "pg_db \<Rightarrow> operator_credential list" where
  "pg_FirstAdminCredentials s = filter (\<lambda>c. cred_Kind c = OperatorCredentialFirstAdmin) (pg_credentials s)"

record FirstRunReset =
  fr_Previous :: BootstrapState
  fr_Sessions :: nat
  fr_Tokens :: nat
  fr_RetiredCAs :: nat

definition pg_ResetFirstRun :: "string option \<Rightarrow> gotime \<Rightarrow> gotime \<Rightarrow> pg_db \<Rightarrow> (pg_error + FirstRunReset) \<times> pg_db" where
  "pg_ResetFirstRun fault clk at s =
     (case fault of
        Some e \<Rightarrow> (Inl (DbError e), s)
      | None \<Rightarrow>
          (Inr \<lparr>fr_Previous = pg_latch s, fr_Sessions = length (pg_sessions s), fr_Tokens = length (pg_tokens s),
             fr_RetiredCAs = length (filter (\<lambda>r. ca_State r \<noteq> OperatorCARetired) (pg_cas s))\<rparr>,
           s\<lparr>pg_latch := open_latch, pg_sessions := [], pg_tokens := [],
             pg_cas := map (\<lambda>r. if ca_State r \<noteq> OperatorCARetired then r\<lparr>ca_State := OperatorCARetired, ca_RetiredAt := at,
               ca_RetiredReason := RetiredReset, ca_UpdatedAt := clk\<rparr> else r) (pg_cas s)\<rparr>))"


subsection \<open>Every operation keeps the schema's constraints\<close>

lemma write_cas_cases:
  obtains (kept) e where "write_cas fault rows s = (Inl e, s)" | (written) "write_cas fault rows s = (Inr (), s\<lparr>pg_cas := rows\<rparr>)" "cas_ok rows"
    "fault = None"
proof (cases "fault = None \<and> cas_ok rows")
  case True
  then show thesis using that(2) by (simp add: write_cas_def)
next
  case False
  then show thesis using that(1) by (cases fault) (simp_all add: write_cas_def)
qed

lemma putCRLTx_frame:
  "pg_cas (snd (putCRLTx c decide s)) = pg_cas s" "pg_latch (snd (putCRLTx c decide s)) = pg_latch s"
  "pg_tokens (snd (putCRLTx c decide s)) = pg_tokens s" "pg_sessions (snd (putCRLTx c decide s)) = pg_sessions s"
  "pg_denylist (snd (putCRLTx c decide s)) = pg_denylist s"
  by (simp_all add: putCRLTx_def bumpEpoch_def Let_def split_beta split: sum.split)

lemma with_crl_frame:
  "pg_cas (snd (with_crl crl s)) = pg_cas s" "pg_latch (snd (with_crl crl s)) = pg_latch s"
  "pg_tokens (snd (with_crl crl s)) = pg_tokens s" "pg_sessions (snd (with_crl crl s)) = pg_sessions s"
  "pg_denylist (snd (with_crl crl s)) = pg_denylist s"
  using putCRLTx_frame
  by (auto simp: with_crl_def bumpEpoch_def split: option.split prod.split sum.split) (metis snd_conv)+

lemma change_cas_cases:
  obtains (kept) e where "change_cas fault rows crl s = (Inl e, s)"
  | (changed) s' where "change_cas fault rows crl s = (Inr (), s')" "cas_ok rows" "fault = None" "pg_cas s' = rows" "pg_latch s' = pg_latch s"
      "pg_tokens s' = pg_tokens s" "pg_sessions s' = pg_sessions s" "pg_denylist s' = pg_denylist s"
proof (cases rule: write_cas_cases [of fault rows s])
  case (kept e)
  then show thesis using that(1) by (simp add: change_cas_def)
next
  case written
  obtain r s2 where w: "with_crl crl (s\<lparr>pg_cas := rows\<rparr>) = (r, s2)" by (cases "with_crl crl (s\<lparr>pg_cas := rows\<rparr>)")
  have f: "pg_cas s2 = rows" "pg_latch s2 = pg_latch s" "pg_tokens s2 = pg_tokens s" "pg_sessions s2 = pg_sessions s"
    "pg_denylist s2 = pg_denylist s"
    using with_crl_frame [of crl "s\<lparr>pg_cas := rows\<rparr>"] by (simp_all add: w)
  show thesis
  proof (cases r)
    case (Inl e)
    then show thesis using that(1) written w by (simp add: change_cas_def)
  next
    case (Inr u)
    then show thesis using that(2) [OF _ written(2,3) f] written(1) w by (simp add: change_cas_def)
  qed
qed

definition unused :: "pg_db \<Rightarrow> BootstrapToken list" where
  "unused s = filter (\<lambda>t. IsZero (tok_UsedAt t)) (pg_tokens s)"

definition unended :: "pg_db \<Rightarrow> BootstrapSession list" where
  "unended s = filter (\<lambda>x. IsZero (ses_EndedAt x)) (pg_sessions s)"

definition first_run_ok :: "pg_db \<Rightarrow> bool" where
  "first_run_ok s \<longleftrightarrow> distinct (map tok_Hash (pg_tokens s)) \<and> distinct (map ses_Hash (pg_sessions s)) \<and>
     length (unused s) \<le> 1 \<and> length (unended s) \<le> 1 \<and> (Closed (pg_latch s) \<longrightarrow> pg_tokens s = [] \<and> unended s = [])"

definition pg_ok :: "pg_db \<Rightarrow> bool" where
  "pg_ok s \<longleftrightarrow> cas_ok (pg_cas s) \<and> first_run_ok s"

text \<open>The calls the manager makes. The times it passes are those of a running clock, never the zero time.\<close>

inductive pg_step :: "pg_db \<Rightarrow> pg_db \<Rightarrow> bool" where
  add_ca: "pg_step s (snd (pg_AddOperatorCA fault clk ca s))"
| set_state: "pg_step s (snd (pg_SetOperatorCAState fault clk sha st reason at s))"
| put_crl: "pg_step s (snd (pg_PutOperatorCRL fault c decide s))"
| crl_attempt: "pg_step s (snd (pg_RecordOperatorCRLAttempt fault issuer err at s))"
| deny: "pg_step s (snd (pg_AddOperatorDenylistEntry fault clk e s))"
| rotate: "pg_step s (snd (pg_RotateOperatorCA fault clk ca crl s))"
| crl_source: "pg_step s (snd (pg_SetOperatorCACRLSource fault clk sha source url acks crl s))"
| ocsp: "pg_step s (snd (pg_SetOperatorCAOCSP fault clk sha mode url s))"
| close: "bs_ClosedAt by \<noteq> 0 \<Longrightarrow> pg_step s (snd (pg_CloseBootstrap fault by s))"
| issue: "tok_CreatedAt t \<noteq> 0 \<Longrightarrow> pg_step s (snd (pg_IssueBootstrapToken fault t s))"
| start: "now \<noteq> 0 \<Longrightarrow> pg_step s (snd (pg_StartBootstrapSession fault h bs now s))"
| touch: "pg_step s (pg_TouchBootstrapSession h at s)"
| end_one: "at \<noteq> 0 \<Longrightarrow> pg_step s (pg_EndBootstrapSession h reason at s)"
| end_all: "at \<noteq> 0 \<Longrightarrow> pg_step s (snd (pg_EndBootstrapSessions reason at s))"
| register: "pg_step s (snd (pg_RegisterFirstRunOperatorCA fault clk ca h crl s))"
| confirm: "pg_step s (snd (pg_ConfirmOperatorCA sha h s))"
| first_admin: "pg_step s (pg_RecordFirstAdmin cred at s)"
| first_use: "pg_step s (snd (pg_RecordFirstUse fault cred at s))"
| reset: "pg_step s (snd (pg_ResetFirstRun fault clk at s))"

lemma end_sessions_unended: "at \<noteq> 0 \<Longrightarrow> filter (\<lambda>x. IsZero (ses_EndedAt x)) (end_sessions at reason ss) = []"
  by (induction ss) (auto simp: end_sessions_def IsZero_def)

lemma end_sessions_hashes: "map ses_Hash (end_sessions at reason ss) = map ses_Hash ss"
  by (simp add: end_sessions_def)

lemma retire_tokens_unused: "at \<noteq> 0 \<Longrightarrow> filter (\<lambda>x. IsZero (tok_UsedAt x)) (retire_tokens at ts) = []"
  by (induction ts) (auto simp: retire_tokens_def IsZero_def)

lemma retire_tokens_hashes: "map tok_Hash (retire_tokens at ts) = map tok_Hash ts"
  by (simp add: retire_tokens_def)

lemma filter_map_shrinks: "(\<And>x. P (f x) \<Longrightarrow> P x) \<Longrightarrow> length (filter P (map f xs)) \<le> length (filter P xs)"
  by (induction xs) (auto intro: le_SucI)

lemma map_keeps: "(\<And>x. g (f x) = g x) \<Longrightarrow> map g (map f xs) = map g xs"
  by simp

text \<open>Steps that leave the first-run tables alone, and steps that leave the operator CAs alone.\<close>

lemma first_run_ok_frame:
  "pg_latch s' = pg_latch s \<Longrightarrow> pg_tokens s' = pg_tokens s \<Longrightarrow> pg_sessions s' = pg_sessions s \<Longrightarrow> first_run_ok s' = first_run_ok s"
  by (simp add: first_run_ok_def unused_def unended_def)

lemma first_run_ok_sessions:
  assumes "first_run_ok s" and "map ses_Hash ss = map ses_Hash (pg_sessions s)"
    and "length (filter (\<lambda>x. IsZero (ses_EndedAt x)) ss) \<le> length (unended s)"
  shows "first_run_ok (s\<lparr>pg_sessions := ss\<rparr>)"
  using assms by (auto simp: first_run_ok_def unused_def unended_def)

lemma change_cas_ok: "pg_ok s \<Longrightarrow> pg_ok (snd (change_cas fault rows crl s))"
proof (cases rule: change_cas_cases [of fault rows crl s])
  case (changed s')
  then show "pg_ok s \<Longrightarrow> ?thesis" using first_run_ok_frame [of s' s] by (simp add: pg_ok_def)
qed simp

lemma write_cas_ok: "pg_ok s \<Longrightarrow> pg_ok (snd (write_cas fault rows s))"
proof (cases rule: write_cas_cases [of fault rows s])
  case written
  then show "pg_ok s \<Longrightarrow> ?thesis" using first_run_ok_frame [of "s\<lparr>pg_cas := rows\<rparr>" s] by (simp add: pg_ok_def)
qed simp

lemma cas_ok_map:
  assumes "cas_ok rows" and "\<And>r. r \<in> set rows \<Longrightarrow> ca_SHA256 (f r) = ca_SHA256 r \<and> ca_row_ok (f r) \<and>
    (ca_State (f r) = OperatorCAActive \<longrightarrow> ca_State r = OperatorCAActive) \<and>
    (ca_State (f r) = OperatorCARetiring \<longrightarrow> ca_State r = OperatorCARetiring)"
  shows "cas_ok (map f rows)"
proof -
  have shas: "map ca_SHA256 (map f rows) = map ca_SHA256 rows" using assms(2) by simp
  have len: "length (with_state st (map f rows)) \<le> length (with_state st rows)" if "st \<in> {OperatorCAActive, OperatorCARetiring}" for st
    using assms(2) that unfolding with_state_def by (induction rows) (auto intro: le_SucI)
  have "list_all ca_row_ok (map f rows)" using assms(2) by (auto simp: list_all_iff)
  then show ?thesis
    using assms(1) len [of OperatorCAActive] len [of OperatorCARetiring] unfolding cas_ok_def shas by auto
qed


lemma reset_cas_ok:
  "cas_ok rows \<Longrightarrow> cas_ok (map (\<lambda>r. if ca_State r \<noteq> OperatorCARetired then r\<lparr>ca_State := OperatorCARetired, ca_RetiredAt := at,
     ca_RetiredReason := reason, ca_UpdatedAt := clk\<rparr> else r) rows)"
  by (rule cas_ok_map) (auto simp: state_defs ca_row_ok_def cas_ok_def list_all_iff)

lemma confirm_cas_ok:
  "cas_ok rows \<Longrightarrow> cas_ok (map (\<lambda>r. if ca_SHA256 r = sha then r\<lparr>row_confirmed := h\<rparr> else r) rows)"
  by (rule cas_ok_map) (auto simp: ca_row_ok_def cas_ok_def list_all_iff)

lemma close_ok: "bs_ClosedAt by \<noteq> 0 \<Longrightarrow> first_run_ok s \<Longrightarrow> first_run_ok (snd (pg_CloseBootstrap fault by s))"
  by (simp add: pg_CloseBootstrap_def first_run_ok_def unused_def unended_def end_sessions_unended end_sessions_hashes
      split: option.split)

lemma issue_ok:
  assumes "tok_CreatedAt t \<noteq> 0" and "first_run_ok s"
  shows "first_run_ok (snd (pg_IssueBootstrapToken fault t s))"
proof -
  have "tok_Hash ` set (retire_tokens at ts) = tok_Hash ` set ts" for at ts
    using arg_cong [OF retire_tokens_hashes [of at ts], of set] by simp
  then show ?thesis
    using assms by (auto simp: pg_IssueBootstrapToken_def first_run_ok_def unused_def unended_def retire_tokens_unused
      retire_tokens_hashes lockOpen_def split: option.split)
qed

lemma start_session_ok:
  assumes "now \<noteq> 0" and "first_run_ok s"
  shows "first_run_ok (snd (pg_StartBootstrapSession fault h bs now s))"
proof (cases "fst (pg_StartBootstrapSession fault h bs now s) = Inr True")
  case False
  then show ?thesis using assms(2) by (auto simp: pg_StartBootstrapSession_def split: option.splits if_splits)
next
  case True
  let ?use = "\<lambda>t. if tok_Hash t = h \<and> token_live now t then t\<lparr>tok_UsedAt := now\<rparr> else t"
  have s': "snd (pg_StartBootstrapSession fault h bs now s) =
      s\<lparr>pg_tokens := map ?use (pg_tokens s),
        pg_sessions := end_sessions now SessionEndedSuperseded (pg_sessions s) @ [bs\<lparr>ses_EndedAt := 0, ses_EndedReason := []\<rparr>]\<rparr>"
    and op: "\<not> Closed (pg_latch s)" "ses_Hash bs \<notin> ses_Hash ` set (pg_sessions s)"
    using True by (auto simp: pg_StartBootstrapSession_def lockOpen_def split: option.splits if_splits)
  have hashes: "map tok_Hash (map ?use (pg_tokens s)) = map tok_Hash (pg_tokens s)" by simp
  have "length (filter (\<lambda>t. IsZero (tok_UsedAt t)) (map ?use (pg_tokens s))) \<le> length (unused s)"
    unfolding unused_def by (rule filter_map_shrinks) (auto simp: IsZero_def assms(1) split: if_splits)
  moreover have "distinct (map tok_Hash (map ?use (pg_tokens s)))" unfolding hashes using assms(2) by (simp add: first_run_ok_def)
  moreover have "distinct (map ses_Hash (end_sessions now SessionEndedSuperseded (pg_sessions s) @ [bs\<lparr>ses_EndedAt := 0, ses_EndedReason := []\<rparr>]))"
    using assms(2) op(2) by (simp add: first_run_ok_def end_sessions_hashes)
  ultimately show ?thesis
    using op(1) assms unfolding first_run_ok_def s' unused_def unended_def
    by (simp add: end_sessions_unended [OF assms(1)])
qed

lemma first_run_ok_map:
  assumes "first_run_ok s" and "\<And>x. ses_Hash (f x) = ses_Hash x" and "\<And>x. IsZero (ses_EndedAt (f x)) \<Longrightarrow> IsZero (ses_EndedAt x)"
  shows "first_run_ok (s\<lparr>pg_sessions := map f (pg_sessions s)\<rparr>)"
proof (rule first_run_ok_sessions [OF assms(1)])
  show "map ses_Hash (map f (pg_sessions s)) = map ses_Hash (pg_sessions s)" using assms(2) by simp
  show "length (filter (\<lambda>x. IsZero (ses_EndedAt x)) (map f (pg_sessions s))) \<le> length (unended s)"
    unfolding unended_def by (rule filter_map_shrinks) (rule assms(3))
qed

lemma first_run_ok_touch: "first_run_ok s \<Longrightarrow> first_run_ok (pg_TouchBootstrapSession h at s)"
  unfolding pg_TouchBootstrapSession_def by (rule first_run_ok_map) (auto split: if_splits)

lemma first_run_ok_end_one: "first_run_ok s \<Longrightarrow> first_run_ok (pg_EndBootstrapSession h reason at s)"
  unfolding pg_EndBootstrapSession_def by (rule first_run_ok_map) (auto split: if_splits)

lemma first_run_ok_end_all: "at \<noteq> 0 \<Longrightarrow> first_run_ok s \<Longrightarrow> first_run_ok (snd (pg_EndBootstrapSessions reason at s))"
  unfolding pg_EndBootstrapSessions_def snd_conv
  by (rule first_run_ok_sessions) (simp_all add: end_sessions_hashes end_sessions_unended)

lemma pg_ok_other_tables [simp]:
  "pg_ok (s\<lparr>pg_credentials := x\<rparr>) = pg_ok s" "pg_ok (s\<lparr>pg_crls := y\<rparr>) = pg_ok s" "pg_ok (s\<lparr>pg_denylist := z\<rparr>) = pg_ok s"
  "pg_ok (s\<lparr>pg_epoch := n\<rparr>) = pg_ok s" "pg_ok (s\<lparr>pg_denylist := z, pg_epoch := n\<rparr>) = pg_ok s"
  by (simp_all add: pg_ok_def first_run_ok_def unused_def unended_def)

lemma pg_step_ok:
  assumes "pg_step s s'" and ok: "pg_ok s"
  shows "pg_ok s'"
  using assms(1)
proof cases
  case (put_crl fault c decide)
  have "pg_ok (snd (putCRLTx c decide s))"
    using ok first_run_ok_frame [OF putCRLTx_frame(2-4) [of c decide s]] by (simp add: pg_ok_def putCRLTx_frame)
  then show ?thesis using ok put_crl by (simp add: pg_PutOperatorCRL_def split: option.split)
next
  case (reset fault clk at)
  then show ?thesis using ok reset_cas_ok
    by (simp add: pg_ResetFirstRun_def pg_ok_def first_run_ok_def unused_def unended_def Closed_def open_latch_def IsZero_def split: option.split)
next
  case (confirm sha h)
  then show ?thesis
    using ok confirm_cas_ok [of "pg_cas s" sha "Some h"]
    by (simp add: pg_ConfirmOperatorCA_def pg_ok_def first_run_ok_def unused_def unended_def)
next
  case (close b fault)
  then show ?thesis using ok close_ok [of b s fault] by (simp add: pg_ok_def pg_CloseBootstrap_def split: option.splits if_splits)
next
  case (issue t fault)
  then show ?thesis using ok issue_ok [of t s fault]
    by (auto simp: pg_ok_def pg_IssueBootstrapToken_def split: option.splits if_splits)
next
  case (start now fault h bs)
  then show ?thesis using ok start_session_ok [of now s fault h bs]
    by (auto simp: pg_ok_def pg_StartBootstrapSession_def split: option.splits if_splits)
next
  case (touch h at)
  then show ?thesis using ok first_run_ok_touch by (simp add: pg_ok_def) (simp add: pg_TouchBootstrapSession_def)
next
  case (end_one at h reason)
  then show ?thesis using ok first_run_ok_end_one by (simp add: pg_ok_def) (simp add: pg_EndBootstrapSession_def)
next
  case (end_all at reason)
  then show ?thesis using ok first_run_ok_end_all by (simp add: pg_ok_def) (simp add: pg_EndBootstrapSessions_def)
qed (use ok in \<open>auto simp: pg_AddOperatorCA_def pg_SetOperatorCAState_def pg_RotateOperatorCA_def pg_SetOperatorCACRLSource_def
  pg_SetOperatorCAOCSP_def pg_RegisterFirstRunOperatorCA_def pg_RecordOperatorCRLAttempt_def pg_AddOperatorDenylistEntry_def
  pg_RecordFirstAdmin_def pg_RecordFirstUse_def Let_def bumpEpoch_def intro: change_cas_ok write_cas_ok split: option.split\<close>)

lemma pg_ok_migrated: "pg_ok migrated"
  by (simp add: pg_ok_def migrated_def cas_ok_def with_state_def first_run_ok_def unused_def unended_def)

subsection \<open>Rotation\<close>

lemma rotation_refused_None:
  "rotation_refused sha rows = None \<longleftrightarrow> (\<forall>r \<in> set rows. trusted_state (ca_State r) \<longrightarrow> ca_SHA256 r \<noteq> sha \<and> ca_State r \<noteq> OperatorCARetiring)"
  by (induction rows) auto

lemma with_state_simps:
  "with_state st [] = []" "with_state st (r # rows) = (if ca_State r = st then r # with_state st rows else with_state st rows)"
  "with_state st (xs @ ys) = with_state st xs @ with_state st ys"
  by (simp_all add: with_state_def)

lemma retire_active_shas: "map ca_SHA256 (retire_active clk rows) = map ca_SHA256 rows"
  by (simp add: retire_active_def)

lemma with_state_none: "\<forall>r \<in> set rows. ca_State r \<noteq> st \<Longrightarrow> with_state st rows = []"
  by (simp add: with_state_def)

lemma with_state_retire_active:
  "with_state OperatorCAActive (retire_active clk rows) = []"
  "\<forall>r \<in> set rows. ca_State r \<noteq> OperatorCARetiring \<Longrightarrow>
   map ca_SHA256 (with_state OperatorCARetiring (retire_active clk rows)) = map ca_SHA256 (with_state OperatorCAActive rows)"
  by (induction rows) (auto simp: retire_active_def with_state_simps state_defs)

text \<open>Putting an active row where the rows of its fingerprint, if any, are retired.\<close>

lemma with_state_map_other:
  assumes "\<forall>r \<in> set rows. P r \<longrightarrow> ca_State r \<noteq> st" and "\<And>r. ca_State (f r) \<noteq> st"
  shows "with_state st (map (\<lambda>r. if P r then f r else r) rows) = with_state st rows"
  using assms by (induction rows) (auto simp: with_state_simps)

lemma with_state_map_new:
  assumes "distinct (map ca_SHA256 rows)" and "with_state st rows = []" and "sha \<in> ca_SHA256 ` set rows"
    and "\<And>r. ca_State (f r) = st" and "\<And>r. ca_SHA256 (f r) = sha"
  shows "map ca_SHA256 (with_state st (map (\<lambda>r. if ca_SHA256 r = sha then f r else r) rows)) = [sha]"
  using assms(1-3)
proof (induction rows)
  case (Cons r rows)
  have "map (\<lambda>r. if ca_SHA256 r = sha then f r else r) rows = rows" if "ca_SHA256 r = sha"
    using Cons.prems(1) that by (auto intro!: map_idI simp: image_iff)
  then show ?case using Cons assms(4,5) by (auto simp: with_state_simps split: if_splits)
qed simp

lemma upsert_active:
  assumes "distinct (map ca_SHA256 rows)" and "with_state OperatorCAActive rows = []" and "ca_State r = OperatorCAActive"
    and old: "\<forall>x \<in> set rows. ca_SHA256 x = ca_SHA256 r \<longrightarrow> ca_State x \<noteq> OperatorCARetiring"
  shows "map ca_SHA256 (with_state OperatorCAActive (upsert_ca keep r rows)) = [ca_SHA256 r]"
    and "with_state OperatorCARetiring (upsert_ca keep r rows) = with_state OperatorCARetiring rows"
    and "distinct (map ca_SHA256 (upsert_ca keep r rows))"
proof -
  let ?f = "\<lambda>x. if keep then r\<lparr>row_confirmed := row_confirmed x\<rparr> else r"
  have st: "ca_State (?f x) = OperatorCAActive" "ca_SHA256 (?f x) = ca_SHA256 r" for x using assms(3) by simp_all
  have "map ca_SHA256 (map (\<lambda>x. if ca_SHA256 x = ca_SHA256 r then ?f x else x) rows) = map ca_SHA256 rows" by simp
  then show "distinct (map ca_SHA256 (upsert_ca keep r rows))" using assms(1) by (auto simp: upsert_ca_def simp del: map_map)
  show "map ca_SHA256 (with_state OperatorCAActive (upsert_ca keep r rows)) = [ca_SHA256 r]"
    using with_state_map_new [OF assms(1,2) _ st] assms(2,3) by (auto simp: upsert_ca_def with_state_simps)
  show "with_state OperatorCARetiring (upsert_ca keep r rows) = with_state OperatorCARetiring rows"
    using with_state_map_other [OF old, of ?f] st(1) assms(3) by (auto simp: upsert_ca_def with_state_simps state_defs)
qed

definition can_rotate :: "string \<Rightarrow> ca_row list \<Rightarrow> bool" where
  "can_rotate sha rows \<longleftrightarrow> (\<forall>r \<in> set rows. trusted_state (ca_State r) \<longrightarrow> ca_SHA256 r \<noteq> sha \<and> ca_State r \<noteq> OperatorCARetiring)"

definition rotated :: "gotime \<Rightarrow> operator_ca \<Rightarrow> ca_row list \<Rightarrow> ca_row list" where
  "rotated clk ca rows = upsert_ca True (activated clk None ca) (retire_active clk rows)"

lemma activated_simps [simp]:
  "ca_SHA256 (activated clk c ca) = ca_SHA256 ca" "ca_State (activated clk c ca) = OperatorCAActive"
  by (simp_all add: activated_def ca_insert_def operator_ca.defs)

lemma rotated_states:
  assumes "distinct (map ca_SHA256 rows)" and "can_rotate (ca_SHA256 ca) rows"
  shows "map ca_SHA256 (with_state OperatorCAActive (rotated clk ca rows)) = [ca_SHA256 ca]"
    and "map ca_SHA256 (with_state OperatorCARetiring (rotated clk ca rows)) = map ca_SHA256 (with_state OperatorCAActive rows)"
    and "distinct (map ca_SHA256 (rotated clk ca rows))"
proof -
  have d: "distinct (map ca_SHA256 (retire_active clk rows))" using assms(1) by (simp only: retire_active_shas)
  have old: "\<forall>x \<in> set (retire_active clk rows). ca_SHA256 x = ca_SHA256 (activated clk None ca) \<longrightarrow> ca_State x \<noteq> OperatorCARetiring"
    using assms(2) by (auto simp: can_rotate_def retire_active_def trusted_state_def)
  have new: "\<forall>r \<in> set rows. ca_State r \<noteq> OperatorCARetiring"
    using assms(2) by (auto simp: can_rotate_def trusted_state_def)
  note u = upsert_active [OF d with_state_retire_active(1) activated_simps(2) old, of True]
  show "map ca_SHA256 (with_state OperatorCAActive (rotated clk ca rows)) = [ca_SHA256 ca]"
    using u(1) by (simp add: rotated_def)
  show "map ca_SHA256 (with_state OperatorCARetiring (rotated clk ca rows)) = map ca_SHA256 (with_state OperatorCAActive rows)"
    using u(2) with_state_retire_active(2) [OF new] by (simp add: rotated_def)
  show "distinct (map ca_SHA256 (rotated clk ca rows))" using u(3) by (simp only: rotated_def)
qed

lemma ca_row_ok_confirmed: "ca_row_ok (r\<lparr>row_confirmed := h\<rparr>) = ca_row_ok r"
  by (simp add: ca_row_ok_def)

lemma upsert_row_ok: "list_all ca_row_ok rows \<Longrightarrow> ca_row_ok r \<Longrightarrow> list_all ca_row_ok (upsert_ca keep r rows)"
  by (auto simp: upsert_ca_def list_all_iff ca_row_ok_confirmed)

lemma rotated_ok:
  assumes "cas_ok rows" and "can_rotate (ca_SHA256 ca) rows" and "ca_row_ok (activated clk None ca)"
  shows "cas_ok (rotated clk ca rows)"
proof -
  have d: "distinct (map ca_SHA256 rows)" "list_all ca_row_ok rows" "length (with_state OperatorCAActive rows) \<le> 1"
    using assms(1) by (simp_all add: cas_ok_def)
  have "list_all ca_row_ok (retire_active clk rows)"
    using d(2) by (auto simp: retire_active_def list_all_iff ca_row_ok_def)
  then have "list_all ca_row_ok (rotated clk ca rows)"
    unfolding rotated_def by (rule upsert_row_ok [OF _ assms(3)])
  moreover note r = rotated_states [OF d(1) assms(2), of clk]
  moreover have "length (with_state OperatorCAActive (rotated clk ca rows)) = 1"
    using arg_cong [OF r(1), of length] by (simp del: One_nat_def)
  moreover have "length (with_state OperatorCARetiring (rotated clk ca rows)) = length (with_state OperatorCAActive rows)"
    using arg_cong [OF r(2), of length] by simp
  ultimately show ?thesis using d(3) unfolding cas_ok_def by simp
qed

lemma pg_RotateOperatorCA_eq:
  "pg_RotateOperatorCA None clk ca crl s =
     (if can_rotate (ca_SHA256 ca) (pg_cas s) then change_cas None (rotated clk ca (pg_cas s)) crl s
      else (Inl (the (rotation_refused (ca_SHA256 ca) (pg_cas s))), s))"
  using rotation_refused_None [of "ca_SHA256 ca" "pg_cas s"]
  by (auto simp: pg_RotateOperatorCA_def can_rotate_def rotated_def split: option.split)

lemma change_cas_error: "fst (change_cas fault rows crl s) \<noteq> Inr () \<Longrightarrow> snd (change_cas fault rows crl s) = s"
  by (cases rule: change_cas_cases [of fault rows crl s]) simp_all

lemma with_crl_epoch: "fst (with_crl crl s) = Inr () \<Longrightarrow> pg_epoch s < pg_epoch (snd (with_crl crl s))"
  by (auto simp: with_crl_def putCRLTx_def bumpEpoch_def Let_def split: option.splits sum.splits prod.splits if_splits)

lemma change_cas_epoch: "fst (change_cas fault rows crl s) = Inr () \<Longrightarrow> pg_epoch s < pg_epoch (snd (change_cas fault rows crl s))"
  using with_crl_epoch [of crl "s\<lparr>pg_cas := rows\<rparr>"]
  by (cases rule: write_cas_cases [of fault rows s]) (auto simp: change_cas_def split: prod.splits sum.splits)

text \<open>A rotation is all or nothing. It is refused exactly while another one is under way or the certificate is
  already trusted; once it succeeds the new CA is the only active one, the CA that was active is the only retiring
  one, and the epoch the other replicas watch has moved; with any error nothing has changed.\<close>

theorem rotation_effect:
  assumes "cas_ok (pg_cas s)"
  shows "(fst (pg_RotateOperatorCA fault clk ca crl s) \<noteq> Inr () \<longrightarrow> snd (pg_RotateOperatorCA fault clk ca crl s) = s) \<and>
    (fst (pg_RotateOperatorCA fault clk ca crl s) = Inr () \<longrightarrow>
       can_rotate (ca_SHA256 ca) (pg_cas s) \<and>
       map ca_SHA256 (with_state OperatorCAActive (pg_cas (snd (pg_RotateOperatorCA fault clk ca crl s)))) = [ca_SHA256 ca] \<and>
       map ca_SHA256 (with_state OperatorCARetiring (pg_cas (snd (pg_RotateOperatorCA fault clk ca crl s)))) =
         map ca_SHA256 (with_state OperatorCAActive (pg_cas s)) \<and>
       pg_epoch s < pg_epoch (snd (pg_RotateOperatorCA fault clk ca crl s))) \<and>
    (can_rotate (ca_SHA256 ca) (pg_cas s) \<and> ca_row_ok (activated clk None ca) \<longrightarrow>
       fst (pg_RotateOperatorCA None clk ca None s) = Inr ())"
proof (intro conjI impI)
  show "snd (pg_RotateOperatorCA fault clk ca crl s) = s" if "fst (pg_RotateOperatorCA fault clk ca crl s) \<noteq> Inr ()"
    using that change_cas_error by (auto simp: pg_RotateOperatorCA_def split: option.splits)
  show "fst (pg_RotateOperatorCA None clk ca None s) = Inr ()"
    if "can_rotate (ca_SHA256 ca) (pg_cas s) \<and> ca_row_ok (activated clk None ca)"
    using that rotated_ok [OF assms] by (simp add: pg_RotateOperatorCA_eq change_cas_def write_cas_def with_crl_def)
  assume ok: "fst (pg_RotateOperatorCA fault clk ca crl s) = Inr ()"
  then have fault: "fault = None" by (cases fault) (auto simp: pg_RotateOperatorCA_def change_cas_def write_cas_def)
  with ok show can: "can_rotate (ca_SHA256 ca) (pg_cas s)" by (simp add: pg_RotateOperatorCA_eq split: if_splits)
  have eq: "pg_RotateOperatorCA fault clk ca crl s = change_cas None (rotated clk ca (pg_cas s)) crl s"
    using can fault by (simp add: pg_RotateOperatorCA_eq)
  have cas: "pg_cas (snd (pg_RotateOperatorCA fault clk ca crl s)) = rotated clk ca (pg_cas s)"
    using ok unfolding eq by (cases rule: change_cas_cases [of None "rotated clk ca (pg_cas s)" crl s]) simp_all
  show "pg_epoch s < pg_epoch (snd (pg_RotateOperatorCA fault clk ca crl s))"
    using ok change_cas_epoch unfolding eq by simp
  have d: "distinct (map ca_SHA256 (pg_cas s))" using assms by (simp add: cas_ok_def)
  show "map ca_SHA256 (with_state OperatorCAActive (pg_cas (snd (pg_RotateOperatorCA fault clk ca crl s)))) = [ca_SHA256 ca]"
    "map ca_SHA256 (with_state OperatorCARetiring (pg_cas (snd (pg_RotateOperatorCA fault clk ca crl s)))) =
       map ca_SHA256 (with_state OperatorCAActive (pg_cas s))"
    unfolding cas by (rule rotated_states [OF d can])+
qed

text \<open>C11: in every database a running manager can reach, fingerprints, token hashes and session hashes are
  unique, at most one operator CA is active and at most one retiring, at most one setup token is unused and at most
  one setup session is open, and a closed latch leaves no token and no open session.\<close>

theorem pg_trust_invariant:
  assumes "pg_step\<^sup>*\<^sup>* migrated s"
  shows "cas_ok (pg_cas s) \<and> first_run_ok s"
proof -
  have "pg_ok s" using assms by (induction rule: rtranclp_induct) (auto intro: pg_ok_migrated pg_step_ok)
  then show ?thesis by (simp add: pg_ok_def)
qed

subsection \<open>What a step may touch\<close>

lemmas pg_ca_ops = pg_AddOperatorCA_def pg_SetOperatorCAState_def pg_RotateOperatorCA_def pg_SetOperatorCACRLSource_def
  pg_SetOperatorCAOCSP_def pg_RegisterFirstRunOperatorCA_def

lemmas pg_row_ops = pg_RecordOperatorCRLAttempt_def pg_AddOperatorDenylistEntry_def pg_RecordFirstAdmin_def pg_RecordFirstUse_def
  pg_ConfirmOperatorCA_def pg_TouchBootstrapSession_def pg_EndBootstrapSession_def pg_EndBootstrapSessions_def bumpEpoch_def

lemma change_cas_frame:
  "pg_latch (snd (change_cas fault rows crl s)) = pg_latch s" "pg_tokens (snd (change_cas fault rows crl s)) = pg_tokens s"
  "pg_denylist (snd (change_cas fault rows crl s)) = pg_denylist s"
  by (cases rule: change_cas_cases [of fault rows crl s]; simp)+

lemma write_cas_frame:
  "pg_latch (snd (write_cas fault rows s)) = pg_latch s" "pg_tokens (snd (write_cas fault rows s)) = pg_tokens s"
  "pg_denylist (snd (write_cas fault rows s)) = pg_denylist s" "pg_crls (snd (write_cas fault rows s)) = pg_crls s"
  "pg_epoch (snd (write_cas fault rows s)) = pg_epoch s"
  by (cases rule: write_cas_cases [of fault rows s]; simp)+

lemma pg_PutOperatorCRL_frame:
  "pg_latch (snd (pg_PutOperatorCRL fault c decide s)) = pg_latch s" "pg_tokens (snd (pg_PutOperatorCRL fault c decide s)) = pg_tokens s"
  "pg_denylist (snd (pg_PutOperatorCRL fault c decide s)) = pg_denylist s"
  by (simp_all add: pg_PutOperatorCRL_def putCRLTx_frame split: option.split)

lemmas pg_frames = change_cas_frame write_cas_frame pg_PutOperatorCRL_frame

definition spent :: "string \<Rightarrow> pg_db \<Rightarrow> bool" where
  "spent h s \<longleftrightarrow> (\<forall>t \<in> set (pg_tokens s). tok_Hash t = h \<longrightarrow> tok_UsedAt t \<noteq> 0)"

text \<open>A step that does not put a token of this hash back after it was deleted: tokens are random.\<close>

definition fresh_step :: "string \<Rightarrow> pg_db \<Rightarrow> pg_db \<Rightarrow> bool" where
  "fresh_step h s s' \<longleftrightarrow> pg_step s s' \<and> (h \<in> tok_Hash ` set (pg_tokens s') \<longrightarrow> h \<in> tok_Hash ` set (pg_tokens s))"

lemma spent_step:
  assumes "fresh_step h s s'" and "spent h s"
  shows "spent h s'"
proof -
  have "pg_step s s'" using assms(1) by (simp add: fresh_step_def)
  then show ?thesis
  proof cases
    case (issue t fault)
    have "tok_Hash t \<noteq> h" if "fst (pg_IssueBootstrapToken fault t s) = Inr ()"
      using that assms(1) issue(1)
      by (auto simp: fresh_step_def pg_IssueBootstrapToken_def lockOpen_def split: option.splits if_splits)
    then show ?thesis
      using assms(2) issue by (auto simp: spent_def pg_IssueBootstrapToken_def retire_tokens_def lockOpen_def split: option.splits if_splits)
  next
    case (start now fault g bs)
    then show ?thesis
      using assms(2) by (auto simp: spent_def pg_StartBootstrapSession_def split: option.splits if_splits)
  qed (use assms(2) in \<open>auto simp: spent_def pg_ca_ops pg_row_ops pg_frames pg_CloseBootstrap_def pg_ResetFirstRun_def split: option.splits\<close>)
qed

text \<open>A setup token opens one session. Opening it ends every other session, and whatever happens afterwards the
  same token never opens a second one.\<close>

theorem token_opens_one_session:
  assumes "pg_step\<^sup>*\<^sup>* migrated s" and "now \<noteq> 0" and "pg_StartBootstrapSession fault h bs now s = (Inr True, s1)"
    and "(fresh_step h)\<^sup>*\<^sup>* s1 s2"
  shows "unended s1 = [bs\<lparr>ses_EndedAt := 0, ses_EndedReason := []\<rparr>] \<and> fst (pg_StartBootstrapSession fault' h bs' now' s2) \<noteq> Inr True"
proof
  show "unended s1 = [bs\<lparr>ses_EndedAt := 0, ses_EndedReason := []\<rparr>]"
    using assms(2,3) by (auto simp: pg_StartBootstrapSession_def unended_def end_sessions_unended [unfolded IsZero_def] IsZero_def
      split: option.splits if_splits)
  have ok: "pg_ok s" using assms(1) by (induction rule: rtranclp_induct) (auto intro: pg_ok_migrated pg_step_ok)
  have inj: "x = y" if "x \<in> set (pg_tokens s)" "y \<in> set (pg_tokens s)" "tok_Hash x = tok_Hash y" for x y
    using ok that by (auto simp: pg_ok_def first_run_ok_def distinct_map inj_on_def)
  then have "spent h s1"
    using assms(2,3) by (auto simp: spent_def pg_StartBootstrapSession_def token_live_def IsZero_def split: option.splits if_splits)
      (metis inj)
  with assms(4) have "spent h s2" by (induction rule: rtranclp_induct) (auto intro: spent_step)
  then show "fst (pg_StartBootstrapSession fault' h bs' now' s2) \<noteq> Inr True"
    by (auto simp: spent_def pg_StartBootstrapSession_def token_live_def IsZero_def split: option.split)
qed

text \<open>The bootstrap latch closes once. While it is closed no call issues a token, opens a session or registers a
  first-run CA, a second close changes nothing, and only a reset opens it again.\<close>

theorem latch_one_way:
  assumes "Closed (pg_latch s)"
  shows "(pg_step s s' \<longrightarrow> pg_latch s' = pg_latch s \<or> (\<exists>clk at. s' = snd (pg_ResetFirstRun None clk at s))) \<and>
    pg_IssueBootstrapToken None t s = (Inl PgBootstrapClosed, s) \<and> pg_StartBootstrapSession None h bs now s = (Inr False, s) \<and>
    pg_RegisterFirstRunOperatorCA None clk ca h crl s = (Inl PgBootstrapClosed, s) \<and> pg_CloseBootstrap None b s = (Inr False, s)"
proof (intro conjI impI)
  assume "pg_step s s'"
  then show "pg_latch s' = pg_latch s \<or> (\<exists>clk at. s' = snd (pg_ResetFirstRun None clk at s))"
  proof cases
    case (reset fault clk at)
    then show ?thesis by (cases fault) (auto simp: pg_ResetFirstRun_def)
  qed (use assms in \<open>auto simp: pg_ca_ops pg_row_ops pg_frames pg_CloseBootstrap_def pg_IssueBootstrapToken_def
    pg_StartBootstrapSession_def Let_def split: option.splits\<close>)
qed (use assms in \<open>simp_all add: pg_IssueBootstrapToken_def pg_StartBootstrapSession_def pg_RegisterFirstRunOperatorCA_def
  pg_CloseBootstrap_def lockOpen_def\<close>)

definition pg_der :: "pg_db \<Rightarrow> string \<Rightarrow> bytes option" where
  "pg_der s issuer = Option.bind (mget (pg_crls s) issuer) crl_DER"

lemma putCRLTx_epoch:
  "pg_epoch s \<le> pg_epoch (snd (putCRLTx c decide s)) \<and>
   (pg_epoch (snd (putCRLTx c decide s)) = pg_epoch s \<longrightarrow> pg_crls (snd (putCRLTx c decide s)) = pg_crls s)"
  by (simp add: putCRLTx_def bumpEpoch_def Let_def split_beta split: sum.split)

lemma change_cas_epoch_kept:
  "pg_epoch s \<le> pg_epoch (snd (change_cas fault rows crl s)) \<and>
   (pg_epoch (snd (change_cas fault rows crl s)) = pg_epoch s \<longrightarrow> pg_crls (snd (change_cas fault rows crl s)) = pg_crls s)"
proof (cases "fst (change_cas fault rows crl s) = Inr ()")
  case True
  then show ?thesis using change_cas_epoch [OF True] by simp
next
  case False
  then show ?thesis using change_cas_error [OF False] by simp
qed

lemma pg_PutOperatorCRL_epoch:
  "pg_epoch s \<le> pg_epoch (snd (pg_PutOperatorCRL fault c decide s)) \<and>
   (pg_epoch (snd (pg_PutOperatorCRL fault c decide s)) = pg_epoch s \<longrightarrow> pg_crls (snd (pg_PutOperatorCRL fault c decide s)) = pg_crls s)"
  using putCRLTx_epoch by (simp add: pg_PutOperatorCRL_def split: option.split)

lemma pg_step_epoch:
  assumes "pg_step s s'"
  shows "pg_epoch s \<le> pg_epoch s' \<and> (pg_epoch s' = pg_epoch s \<longrightarrow> pg_denylist s' = pg_denylist s \<and> pg_der s' = pg_der s)"
  using assms
proof cases
  case (crl_attempt fault issuer err at)
  then show ?thesis
    by (auto simp: pg_RecordOperatorCRLAttempt_def pg_der_def fun_eq_iff gomap_simps zero_crl_def Let_def split: option.split)
next
  case (rotate fault clk ca crl)
  then show ?thesis using change_cas_epoch_kept [of s] by (auto simp: pg_ca_ops pg_frames pg_der_def fun_eq_iff split: option.split)
next
  case (crl_source fault clk sha source url acks crl)
  then show ?thesis using change_cas_epoch_kept [of s] by (auto simp: pg_ca_ops pg_frames pg_der_def fun_eq_iff split: option.split)
next
  case (register fault clk ca h crl)
  then show ?thesis using change_cas_epoch_kept [of s] by (auto simp: pg_ca_ops pg_frames pg_der_def fun_eq_iff split: option.split)
next
  case (put_crl fault c decide)
  then show ?thesis using pg_PutOperatorCRL_epoch [of s] by (simp add: pg_frames pg_der_def fun_eq_iff)
qed (auto simp: pg_ca_ops pg_row_ops pg_frames pg_der_def fun_eq_iff pg_CloseBootstrap_def pg_IssueBootstrapToken_def
  pg_StartBootstrapSession_def pg_ResetFirstRun_def Let_def split: option.splits)

text \<open>Replicas that watch the epoch miss no revocation: no call lowers it, and every call that changes the
  denylist or a stored CRL raises it in the same transaction.\<close>

theorem revocations_move_epoch:
  assumes "pg_step s s'"
  shows "pg_epoch s \<le> pg_epoch s' \<and> (pg_denylist s' \<noteq> pg_denylist s \<or> pg_der s' \<noteq> pg_der s \<longrightarrow> pg_epoch s < pg_epoch s')"
  using pg_step_epoch [OF assms] by auto

subsection \<open>The two stores keep the same CRLs\<close>

definition pg_stored :: "pg_db \<Rightarrow> string \<Rightarrow> operator_crl option" where
  "pg_stored s issuer = (case mget (pg_crls s) issuer of None \<Rightarrow> None | Some c \<Rightarrow> if crl_DER c = None then None else Some c)"

definition pg_current :: "string \<Rightarrow> pg_db \<Rightarrow> operator_crl \<times> bool" where
  "pg_current issuer s = (case mget (pg_crls s) issuer of None \<Rightarrow> (zero_crl, False) | Some cur \<Rightarrow> (cur, True))"

lemma pg_stored_current: "pg_stored s issuer = Some old \<Longrightarrow> pg_current issuer s = (old, True) \<and> crl_DER old \<noteq> None"
  by (simp add: pg_stored_def pg_current_def split: option.splits if_splits)

lemma pg_PutOperatorCRL_eq:
  "pg_PutOperatorCRL None c decide s =
     (case decide (fst (pg_current (crl_IssuerSHA256 c) s))
        (snd (pg_current (crl_IssuerSHA256 c) s) \<and> crl_DER (fst (pg_current (crl_IssuerSHA256 c) s)) \<noteq> None) of
        Inl e \<Rightarrow> (Inl (PgDecide e), s)
      | Inr acc \<Rightarrow> (Inr acc, if acc then s\<lparr>pg_crls := mput (crl_IssuerSHA256 c)
          (c\<lparr>crl_LastError := [], crl_LastAttemptAt := crl_FetchedAt c\<rparr>) (pg_crls s), pg_epoch := pg_epoch s + 1\<rparr> else s))"
  by (simp add: pg_PutOperatorCRL_def putCRLTx_def pg_current_def Let_def split_beta bumpEpoch_def split: sum.split)

interpretation pg_store: crl_store pg_stored "pg_PutOperatorCRL None"
proof
  fix c old :: operator_crl and decide and s :: pg_db and i :: string
  let ?cur = "pg_current (crl_IssuerSHA256 c) s"
  show "snd (pg_PutOperatorCRL None c decide s) = s" if "fst (pg_PutOperatorCRL None c decide s) \<noteq> Inr True"
    using that by (auto simp: pg_PutOperatorCRL_eq split: sum.splits)
  have acc: "decide (fst ?cur) (snd ?cur \<and> crl_DER (fst ?cur) \<noteq> None) = Inr True" if "fst (pg_PutOperatorCRL None c decide s) = Inr True"
    using that by (auto simp: pg_PutOperatorCRL_eq split: sum.splits)
  show "\<exists>c'. pg_stored (snd (pg_PutOperatorCRL None c decide s)) (crl_IssuerSHA256 c) = Some c' \<and> crl_DER c' = crl_DER c \<and>
      crl_Number c' = crl_Number c \<and> crl_ThisUpdate c' = crl_ThisUpdate c \<and> crl_NextUpdate c' = crl_NextUpdate c"
    if "fst (pg_PutOperatorCRL None c decide s) = Inr True" and "crl_DER c \<noteq> None"
    using acc [OF that(1)] that(2) by (simp add: pg_PutOperatorCRL_eq pg_stored_def gomap_simps)
  show "decide old True = Inr True" if "fst (pg_PutOperatorCRL None c decide s) = Inr True" and "pg_stored s (crl_IssuerSHA256 c) = Some old"
    using acc [OF that(1)] pg_stored_current [OF that(2)] by simp
  show "pg_stored (snd (pg_PutOperatorCRL None c decide s)) i = pg_stored s i" if "i \<noteq> crl_IssuerSHA256 c"
    using that by (simp add: pg_PutOperatorCRL_eq pg_stored_def gomap_simps split: sum.split)
qed

datatype crl_call = PutCRL operator_crl "operator_crl \<Rightarrow> bool \<Rightarrow> crl_error + bool" | CRLAttempt string string gotime

fun mem_calls :: "crl_call list \<Rightarrow> mem_store \<Rightarrow> (crl_error + bool) list \<times> mem_store" where
  "mem_calls [] m = ([], m)"
| "mem_calls (PutCRL c decide # cs) m =
     (let (r, m) = PutOperatorCRL c decide m; (rs, m) = mem_calls cs m in (r # rs, m))"
| "mem_calls (CRLAttempt issuer err at # cs) m = mem_calls cs (RecordOperatorCRLAttempt issuer err at m)"

fun pg_calls :: "crl_call list \<Rightarrow> pg_db \<Rightarrow> (pg_error + bool) list \<times> pg_db" where
  "pg_calls [] s = ([], s)"
| "pg_calls (PutCRL c decide # cs) s =
     (let (r, s) = pg_PutOperatorCRL None c decide s; (rs, s) = pg_calls cs s in (r # rs, s))"
| "pg_calls (CRLAttempt issuer err at # cs) s = pg_calls cs (snd (pg_RecordOperatorCRLAttempt None issuer err at s))"

definition same_crls :: "mem_store \<Rightarrow> pg_db \<Rightarrow> bool" where
  "same_crls m s \<longleftrightarrow> trust_crls m = pg_crls s \<and> trust_epoch m = pg_epoch s \<and> (\<forall>i c. mget (pg_crls s) i = Some c \<longrightarrow> crl_IssuerSHA256 c = i)"

lemma same_crls_put:
  assumes "same_crls m s"
  shows "fst (pg_PutOperatorCRL None c decide s) = map_sum PgDecide id (fst (PutOperatorCRL c decide m)) \<and>
    same_crls (snd (PutOperatorCRL c decide m)) (snd (pg_PutOperatorCRL None c decide s))"
proof -
  have "current_crl i m = pg_current i s" for i using assms by (simp add: current_crl_def pg_current_def same_crls_def)
  then show ?thesis
    using assms by (auto simp: PutOperatorCRL_eq pg_PutOperatorCRL_eq split_beta same_crls_def gomap_simps split: sum.split)
qed

lemma crl_same_issuer:
  "crl_IssuerSHA256 c = i \<Longrightarrow> c\<lparr>crl_IssuerSHA256 := i, crl_LastError := err, crl_LastAttemptAt := at\<rparr> = c\<lparr>crl_LastError := err, crl_LastAttemptAt := at\<rparr>"
  by (cases c) simp

lemma same_crls_attempt:
  "same_crls m s \<Longrightarrow> same_crls (RecordOperatorCRLAttempt issuer err at m) (snd (pg_RecordOperatorCRLAttempt None issuer err at s))"
  by (auto simp: crl_same_issuer same_crls_def RecordOperatorCRLAttempt_def pg_RecordOperatorCRLAttempt_def Let_def gomap_simps split: option.split)

text \<open>The in-memory and the Postgres store answer any sequence of CRL writes and failed attempts alike and end
  with the same stored CRLs and the same epoch.\<close>

theorem mem_pg_crls_agree:
  assumes "trust_crls m = pg_crls s" and "trust_epoch m = pg_epoch s" and "\<forall>i c. mget (pg_crls s) i = Some c \<longrightarrow> crl_IssuerSHA256 c = i"
  shows "fst (pg_calls cs s) = map (map_sum PgDecide id) (fst (mem_calls cs m)) \<and>
    trust_crls (snd (mem_calls cs m)) = pg_crls (snd (pg_calls cs s)) \<and> trust_epoch (snd (mem_calls cs m)) = pg_epoch (snd (pg_calls cs s))"
proof -
  have "same_crls m s" using assms by (simp add: same_crls_def)
  then have "fst (pg_calls cs s) = map (map_sum PgDecide id) (fst (mem_calls cs m)) \<and> same_crls (snd (mem_calls cs m)) (snd (pg_calls cs s))"
  proof (induction cs arbitrary: m s)
    case (Cons x cs)
    then show ?case
    proof (cases x)
      case (PutCRL c decide)
      then show ?thesis using Cons.IH [OF conjunct2 [OF same_crls_put [OF Cons.prems]]] same_crls_put [OF Cons.prems]
        by (simp add: split_beta Let_def id_def)
    next
      case (CRLAttempt issuer err at)
      then show ?thesis using Cons.IH [OF same_crls_attempt [OF Cons.prems]] by simp
    qed
  qed simp
  then show ?thesis by (simp add: same_crls_def)
qed

subsection \<open>Examples\<close>

definition example_opca :: "string \<Rightarrow> operator_ca" where
  "example_opca sha = \<lparr>ca_SHA256 = sha, ca_CertDER = ''der'', ca_State = ''active'', ca_CRLSource = ''upload'', ca_CRLURL = [],
     ca_OCSPMode = [], ca_OCSPURL = [], ca_Acknowledgements = [], ca_Warnings = [], ca_RegisteredAt = 90, ca_RegisteredBy = ''op'',
     ca_RetiredAt = 0, ca_RetiredReason = [], ca_UpdatedAt = 0\<rparr>"

definition example_registered :: pg_db where
  "example_registered = migrated\<lparr>pg_cas := [activated 100 (Some ''s'') (example_opca ''a'')]\<rparr>"

definition example_token :: BootstrapToken where
  "example_token = \<lparr>tok_Hash = ''t'', tok_CreatedAt = 10, tok_ExpiresAt = 60, tok_UsedAt = 0\<rparr>"

definition example_issued :: pg_db where
  "example_issued = migrated\<lparr>pg_tokens := [example_token]\<rparr>"

definition example_session :: "string \<Rightarrow> BootstrapSession" where
  "example_session h = \<lparr>ses_Hash = h, ses_CreatedAt = 20, ses_LastUsedAt = 20, ses_ExpiresAt = 90, ses_EndedAt = 0, ses_EndedReason = []\<rparr>"

definition example_closed :: pg_db where
  "example_closed = migrated\<lparr>pg_latch := open_latch\<lparr>bs_ClosedAt := 50, bs_ClosedByCN := ''op''\<rparr>\<rparr>"

lemma example_registered_row: "operator_ca.truncate (hd (pg_cas example_registered)) =
    (example_opca ''a'')\<lparr>ca_OCSPMode := ''aia'', ca_UpdatedAt := 100\<rparr>"
  by (simp add: example_registered_def activated_def ca_insert_def example_opca_def operator_ca.defs ca_row.defs default_mode_def
      default_time_def IsZero_def OperatorCAActive_def)

lemma example_row_ok: "ca_row_ok (activated clk h (example_opca sha))"
  by (simp add: ca_row_ok_def activated_def ca_insert_def example_opca_def operator_ca.defs ca_row.defs default_mode_def)

lemma example_registered_ok: "cas_ok (pg_cas example_registered)"
  using example_row_ok by (simp add: example_registered_def cas_ok_def with_state_def state_defs example_opca_def)

lemma example_issued_reached: "pg_step\<^sup>*\<^sup>* migrated example_issued"
proof -
  have "snd (pg_IssueBootstrapToken None example_token migrated) = example_issued"
    by (simp add: example_issued_def pg_IssueBootstrapToken_def migrated_def lockOpen_def Closed_def open_latch_def IsZero_def
        retire_tokens_def example_token_def)
  then show ?thesis using pg_step.issue [of example_token migrated None] by (simp add: example_token_def r_into_rtranclp)
qed

lemma rotation_effect_witness:
  "map ca_SHA256 (with_state OperatorCARetiring (pg_cas (snd (pg_RotateOperatorCA None 200 (example_opca ''b'') None example_registered)))) = [''a'']"
proof -
  have "can_rotate ''b'' (pg_cas example_registered)"
    by (simp add: can_rotate_def example_registered_def example_opca_def state_defs)
  then show ?thesis
    using rotation_effect [OF example_registered_ok, of None 200 "example_opca ''b''" None] example_row_ok [of 200 None "''b''"]
    by (simp add: example_registered_def with_state_def) (simp add: example_opca_def)
qed

lemma pg_trust_invariant_witness: "first_run_ok example_issued \<and> cas_ok (pg_cas example_issued)"
  using pg_trust_invariant [OF example_issued_reached] by simp

lemma token_opens_one_session_witness:
  "fst (pg_StartBootstrapSession None ''t'' (example_session ''again'') 40
     (snd (pg_StartBootstrapSession None ''t'' (example_session ''first'') 30 example_issued))) \<noteq> Inr True"
proof -
  have "fst (pg_StartBootstrapSession None ''t'' (example_session ''first'') 30 example_issued) = Inr True"
    by (simp add: pg_StartBootstrapSession_def example_issued_def migrated_def lockOpen_def Closed_def open_latch_def IsZero_def
        example_token_def token_live_def)
  then have "pg_StartBootstrapSession None ''t'' (example_session ''first'') 30 example_issued =
      (Inr True, snd (pg_StartBootstrapSession None ''t'' (example_session ''first'') 30 example_issued))"
    by (simp add: prod_eq_iff)
  from token_opens_one_session [OF example_issued_reached _ this rtranclp.rtrancl_refl] show ?thesis by simp
qed

lemma latch_one_way_witness: "pg_CloseBootstrap None open_latch example_closed = (Inr False, example_closed)"
proof -
  have "Closed (pg_latch example_closed)" by (simp add: example_closed_def Closed_def IsZero_def)
  from latch_one_way [OF this, of example_closed undefined undefined undefined undefined undefined undefined undefined open_latch]
  show ?thesis by blast
qed

definition example_denied :: denylist_entry where
  "example_denied = \<lparr>deny_IssuerSHA256 = ''a'', deny_SerialHex = ''1f'', deny_Reason = 1, deny_RevokedAt = 70, deny_RevokedByCN = ''op'',
     deny_RevokedBySerial = ''02'', deny_Note = []\<rparr>"

lemma revocations_move_epoch_witness:
  "pg_epoch migrated < pg_epoch (snd (pg_AddOperatorDenylistEntry None 75 example_denied migrated))"
proof -
  have "pg_denylist (snd (pg_AddOperatorDenylistEntry None 75 example_denied migrated)) \<noteq> pg_denylist migrated"
    by (simp add: pg_AddOperatorDenylistEntry_def migrated_def bumpEpoch_def)
  with revocations_move_epoch [OF pg_step.deny [of migrated None 75 example_denied]] show ?thesis by blast
qed

lemma mem_pg_crls_agree_witness:
  "trust_epoch (snd (mem_calls [PutCRL (crl_row ''anchor'' 150 ''url'' example_vcrl) (AcceptNewer example_vcrl), CRLAttempt ''anchor'' ''down'' 160]
     (New (\<lambda>_. []) []))) =
   pg_epoch (snd (pg_calls [PutCRL (crl_row ''anchor'' 150 ''url'' example_vcrl) (AcceptNewer example_vcrl), CRLAttempt ''anchor'' ''down'' 160]
     migrated))"
proof -
  have "trust_crls (New (\<lambda>_. []) []) = pg_crls migrated" "trust_epoch (New (\<lambda>_. []) []) = pg_epoch migrated"
    "\<forall>i c. mget (pg_crls migrated) i = Some c \<longrightarrow> crl_IssuerSHA256 c = i"
    by (simp_all add: New_def NewWithCatalog_def migrated_def)
  from mem_pg_crls_agree [OF this] show ?thesis by blast
qed

end
