(* ===== verification/Credential_Store.thy ===== *)
theory Credential_Store
  imports Pg_Trust
begin

text \<open>
  Operator credentials and the requests for them: the rows (\<^verbatim>\<open>store/operatorcredentials.go\<close>) and their Postgres
  statements (\<^verbatim>\<open>store/postgres/operatorcredentials.go\<close>). A request is pending until it is completed,
  cancelled or expired, and then final; a completed request has exactly one credential.
\<close>

subsection \<open>Rows\<close>

definition RequestPending :: string where "RequestPending = ''pending''"
definition RequestCompleted :: string where "RequestCompleted = ''completed''"
definition RequestCancelled :: string where "RequestCancelled = ''cancelled''"
definition RequestExpired :: string where "RequestExpired = ''expired''"

definition OperatorCredentialRequested :: string where "OperatorCredentialRequested = ''requested''"
definition OperatorCredentialRecorded :: string where "OperatorCredentialRecorded = ''recorded''"
definition OperatorCredentialObserved :: string where "OperatorCredentialObserved = ''observed''"

lemmas request_states = RequestPending_def RequestCompleted_def RequestCancelled_def RequestExpired_def

record OperatorCredentialRequest =
  ocr_ID :: string
  ocr_Level :: string
  ocr_Email :: string
  ocr_FullName :: string
  ocr_CSRDER :: "bytes option"
  ocr_State :: string
  ocr_CreatedByCN :: string
  ocr_CreatedAt :: gotime
  ocr_ExpiresAt :: gotime
  ocr_CompletedSerial :: string

text \<open>The table of requests beside the tables of \<open>pg_db\<close>, which hold the credentials.\<close>

record cred_db =
  cq_db :: pg_db
  cq_requests :: "OperatorCredentialRequest list"

text \<open>
  \<^verbatim>\<open>uuid.Parse\<close> decides what can name a request, and Postgres reads a text as a UUID, here in its canonical
  form; the two accept different spellings. Both are parameters.
\<close>

record uuid_lib =
  u_Parse :: "string \<Rightarrow> bool"
  u_cast :: "string \<Rightarrow> string option"

datatype cred_error = RequestNotFound | RequestNotPending | CredentialRecorded | CredDatabaseRequired | CredConstraint | CredDb string

abbreviation cq_credentials :: "cred_db \<Rightarrow> operator_credential list" where
  "cq_credentials s \<equiv> pg_credentials (cq_db s)"

subsection \<open>Statements\<close>

definition expire :: "gotime \<Rightarrow> OperatorCredentialRequest \<Rightarrow> OperatorCredentialRequest" where
  "expire now r = (if ocr_State r = RequestPending \<and> ocr_ExpiresAt r \<le> now then r\<lparr>ocr_State := RequestExpired, ocr_CSRDER := None\<rparr> else r)"

definition expireRequests :: "gotime \<Rightarrow> OperatorCredentialRequest list \<Rightarrow> OperatorCredentialRequest list" where
  "expireRequests now rs = map (expire now) rs"

definition bad_uuid :: string where
  "bad_uuid = ''invalid input syntax for type uuid''"

definition requestByID :: "uuid_lib \<Rightarrow> string \<Rightarrow> OperatorCredentialRequest list \<Rightarrow> cred_error + OperatorCredentialRequest" where
  "requestByID lib i rs =
     (if \<not> u_Parse lib i then Inl RequestNotFound
      else case u_cast lib i of
        None \<Rightarrow> Inl (CredDb bad_uuid)
      | Some u \<Rightarrow> (case find (\<lambda>r. ocr_ID r = u) rs of None \<Rightarrow> Inl RequestNotFound | Some r \<Rightarrow> Inr r))"

text \<open>The constraints of the table: the primary key, the type of the key and the four states.\<close>

definition pg_AddOperatorCredentialRequest ::
  "uuid_lib \<Rightarrow> string option \<Rightarrow> OperatorCredentialRequest \<Rightarrow> cred_db \<Rightarrow> (cred_error + unit) \<times> cred_db" where
  "pg_AddOperatorCredentialRequest lib fault r s =
     (case fault of
        Some e \<Rightarrow> (Inl (CredDb e), s)
      | None \<Rightarrow>
          (case u_cast lib (ocr_ID r) of
             None \<Rightarrow> (Inl (CredDb bad_uuid), s)
           | Some u \<Rightarrow>
               if ocr_State r \<notin> {RequestPending, RequestCompleted, RequestCancelled, RequestExpired} \<or> u \<in> ocr_ID ` set (cq_requests s)
               then (Inl CredConstraint, s)
               else (Inr (), s\<lparr>cq_requests := cq_requests s @ [r\<lparr>ocr_ID := u\<rparr>]\<rparr>)))"

definition newest_first :: "OperatorCredentialRequest list \<Rightarrow> OperatorCredentialRequest list" where
  "newest_first rs = sort_key (\<lambda>r. - ocr_CreatedAt r) (sort_key ocr_ID rs)"

definition pg_OperatorCredentialRequests ::
  "string option \<Rightarrow> string \<Rightarrow> gotime \<Rightarrow> cred_db \<Rightarrow> (cred_error + OperatorCredentialRequest list) \<times> cred_db" where
  "pg_OperatorCredentialRequests fault state now s =
     (case fault of
        Some e \<Rightarrow> (Inl (CredDb e), s)
      | None \<Rightarrow>
          (let rs = expireRequests now (cq_requests s)
           in (Inr (newest_first (filter (\<lambda>r. state = [] \<or> ocr_State r = state) rs)), s\<lparr>cq_requests := rs\<rparr>)))"

text \<open>\<^verbatim>\<open>inTx\<close> commits only when its function returns nil: an error takes the expiry back with it.\<close>

definition pg_OperatorCredentialRequest ::
  "uuid_lib \<Rightarrow> string option \<Rightarrow> string \<Rightarrow> gotime \<Rightarrow> cred_db \<Rightarrow> (cred_error + OperatorCredentialRequest) \<times> cred_db" where
  "pg_OperatorCredentialRequest lib fault i now s =
     (case fault of
        Some e \<Rightarrow> (Inl (CredDb e), s)
      | None \<Rightarrow>
          (let rs = expireRequests now (cq_requests s)
           in case requestByID lib i rs of
                Inl e \<Rightarrow> (Inl e, s)
              | Inr r \<Rightarrow> (Inr r, s\<lparr>cq_requests := rs\<rparr>)))"

definition update_request :: "string \<Rightarrow> (OperatorCredentialRequest \<Rightarrow> OperatorCredentialRequest) \<Rightarrow> OperatorCredentialRequest list \<Rightarrow> OperatorCredentialRequest list" where
  "update_request u f rs = map (\<lambda>r. if ocr_ID r = u then f r else r) rs"

text \<open>A request that is not pending is returned beside the error.\<close>

definition pg_CancelOperatorCredentialRequest ::
  "uuid_lib \<Rightarrow> string option \<Rightarrow> string \<Rightarrow> gotime \<Rightarrow> cred_db \<Rightarrow> (cred_error \<times> OperatorCredentialRequest option + OperatorCredentialRequest) \<times> cred_db" where
  "pg_CancelOperatorCredentialRequest lib fault i now s =
     (case fault of
        Some e \<Rightarrow> (Inl (CredDb e, None), s)
      | None \<Rightarrow>
          (let rs = expireRequests now (cq_requests s)
           in case requestByID lib i rs of
                Inl e \<Rightarrow> (Inl (e, None), s)
              | Inr r \<Rightarrow>
                  if ocr_State r \<noteq> RequestPending then (Inl (RequestNotPending, Some r), s)
                  else (let f = (\<lambda>r. r\<lparr>ocr_State := RequestCancelled, ocr_CSRDER := None\<rparr>)
                        in (Inr (f r), s\<lparr>cq_requests := update_request (ocr_ID r) f rs\<rparr>))))"

text \<open>\<^verbatim>\<open>INSERT ... ON CONFLICT ... DO UPDATE ... WHERE kind = 'observed'\<close>; \<open>None\<close> when no row is affected.\<close>

definition upsert_credential :: "operator_credential \<Rightarrow> string \<Rightarrow> operator_credential list \<Rightarrow> operator_credential list option" where
  "upsert_credential c rid cs =
     (case find (same_credential c) cs of
        None \<Rightarrow> Some (cs @ [c\<lparr>cred_Revoked := False, cred_RequestID := rid, cred_FirstSeenAt := 0, cred_LastSeenAt := 0\<rparr>])
      | Some old \<Rightarrow>
          if cred_Kind old \<noteq> OperatorCredentialObserved then None
          else Some (map (\<lambda>x. if same_credential c x then x\<lparr>cred_CommonName := cred_CommonName c, cred_Level := cred_Level c,
            cred_NotAfter := cred_NotAfter c, cred_Kind := cred_Kind c, cred_Email := cred_Email c, cred_FullName := cred_FullName c,
            cred_LeafSHA256 := cred_LeafSHA256 c, cred_RequestID := rid\<rparr> else x) cs))"

definition pending_request :: "uuid_lib \<Rightarrow> string \<Rightarrow> OperatorCredentialRequest list \<Rightarrow> cred_error + OperatorCredentialRequest option" where
  "pending_request lib rid rs =
     (if rid = [] then Inr None
      else case requestByID lib rid rs of
        Inl e \<Rightarrow> Inl e
      | Inr r \<Rightarrow> if ocr_State r \<noteq> RequestPending then Inl RequestNotPending else Inr (Some r))"

definition pg_RecordOperatorCredential ::
  "uuid_lib \<Rightarrow> string option \<Rightarrow> operator_credential \<Rightarrow> string \<Rightarrow> gotime \<Rightarrow> cred_db \<Rightarrow> (cred_error + unit) \<times> cred_db" where
  "pg_RecordOperatorCredential lib fault c rid now s =
     (case fault of
        Some e \<Rightarrow> (Inl (CredDb e), s)
      | None \<Rightarrow>
          (let rs = expireRequests now (cq_requests s)
           in case pending_request lib rid rs of
                Inl e \<Rightarrow> (Inl e, s)
              | Inr q \<Rightarrow>
                  (case upsert_credential c (case q of None \<Rightarrow> [] | Some r \<Rightarrow> ocr_ID r) (cq_credentials s) of
                     None \<Rightarrow> (Inl CredentialRecorded, s)
                   | Some cs \<Rightarrow>
                       (Inr (), \<lparr>cq_db = (cq_db s)\<lparr>pg_credentials := cs\<rparr>,
                          cq_requests = (case q of None \<Rightarrow> rs
                            | Some r \<Rightarrow> update_request (ocr_ID r) (\<lambda>r. r\<lparr>ocr_State := RequestCompleted, ocr_CSRDER := None,
                                ocr_CompletedSerial := cred_SerialHex c\<rparr>) rs)\<rparr>))))"

text \<open>\<^verbatim>\<open>coalesce\<close> and \<^verbatim>\<open>greatest\<close> pass over NULL, the zero time.\<close>

definition coalesce :: "gotime \<Rightarrow> gotime \<Rightarrow> gotime" where
  "coalesce old new = (if IsZero old then new else old)"

definition greatest :: "gotime \<Rightarrow> gotime \<Rightarrow> gotime" where
  "greatest old new = (if IsZero old then new else max old new)"

definition pg_ObserveOperatorCredential ::
  "string option \<Rightarrow> operator_credential \<Rightarrow> gotime \<Rightarrow> cred_db \<Rightarrow> (cred_error + unit) \<times> cred_db" where
  "pg_ObserveOperatorCredential fault c at s =
     (case fault of
        Some e \<Rightarrow> (Inl (CredDb e), s)
      | None \<Rightarrow>
          (Inr (), s\<lparr>cq_db := (cq_db s)\<lparr>pg_credentials :=
             (if list_ex (same_credential c) (cq_credentials s)
              then map (\<lambda>x. if same_credential c x then x\<lparr>cred_FirstSeenAt := coalesce (cred_FirstSeenAt x) at,
                cred_LastSeenAt := greatest (cred_LastSeenAt x) at\<rparr> else x) (cq_credentials s)
              else cq_credentials s @ [c\<lparr>cred_Revoked := False, cred_Kind := OperatorCredentialObserved, cred_FullName := [], cred_RequestID := [],
                cred_FirstSeenAt := at, cred_LastSeenAt := at\<rparr>])\<rparr>\<rparr>))"

subsection \<open>The two tables over any sequence of operations\<close>

text \<open>
  As the callers use them: requests are filed pending, and what is recorded is not an observed credential. Everything
  else on the database is a step of \<open>pg_step\<close>.
\<close>

inductive cred_step :: "uuid_lib \<Rightarrow> cred_db \<Rightarrow> cred_db \<Rightarrow> bool" for lib where
  add: "ocr_State r = RequestPending \<Longrightarrow> cred_step lib s (snd (pg_AddOperatorCredentialRequest lib fault r s))"
| list: "cred_step lib s (snd (pg_OperatorCredentialRequests fault state now s))"
| get: "cred_step lib s (snd (pg_OperatorCredentialRequest lib fault i now s))"
| cancel: "cred_step lib s (snd (pg_CancelOperatorCredentialRequest lib fault i now s))"
| record_credential: "cred_Kind c \<noteq> OperatorCredentialObserved \<Longrightarrow> cred_step lib s (snd (pg_RecordOperatorCredential lib fault c rid now s))"
| observe: "cred_step lib s (snd (pg_ObserveOperatorCredential fault c at s))"
| other: "pg_step (cq_db s) db \<Longrightarrow> cred_step lib s (s\<lparr>cq_db := db\<rparr>)"

definition cred_empty :: cred_db where
  "cred_empty = \<lparr>cq_db = migrated, cq_requests = []\<rparr>"

text \<open>The serials of the credentials recorded for a request.\<close>

definition made_for :: "string \<Rightarrow> operator_credential list \<Rightarrow> string list" where
  "made_for u cs = map cred_SerialHex (filter (\<lambda>c. cred_RequestID c = u) cs)"

definition request_ok :: "operator_credential list \<Rightarrow> OperatorCredentialRequest \<Rightarrow> bool" where
  "request_ok cs r \<longleftrightarrow>
     ocr_ID r \<noteq> [] \<and> ocr_State r \<in> {RequestPending, RequestCompleted, RequestCancelled, RequestExpired} \<and>
     (ocr_State r \<noteq> RequestPending \<longrightarrow> ocr_CSRDER r = None) \<and>
     made_for (ocr_ID r) cs = (if ocr_State r = RequestCompleted then [ocr_CompletedSerial r] else [])"

definition cred_key :: "operator_credential \<Rightarrow> string \<times> string" where
  "cred_key c = (cred_IssuerSHA256 c, cred_SerialHex c)"

definition credentials_ok :: "operator_credential list \<Rightarrow> string list \<Rightarrow> bool" where
  "credentials_ok cs ids \<longleftrightarrow> distinct (map cred_key cs) \<and>
     (\<forall>c \<in> set cs. (cred_RequestID c = [] \<or> cred_RequestID c \<in> set ids) \<and> (cred_Kind c = OperatorCredentialObserved \<longrightarrow> cred_RequestID c = []))"

definition cred_ok :: "cred_db \<Rightarrow> bool" where
  "cred_ok s \<longleftrightarrow> distinct (map ocr_ID (cq_requests s)) \<and> credentials_ok (cq_credentials s) (map ocr_ID (cq_requests s)) \<and>
     (\<forall>r \<in> set (cq_requests s). request_ok (cq_credentials s) r)"

subsection \<open>Steps on the credentials\<close>

text \<open>The other steps keep what names a credential and its request, and add rows made for no request.\<close>

definition evolves :: "operator_credential list \<Rightarrow> operator_credential list \<Rightarrow> bool" where
  "evolves cs cs' \<longleftrightarrow> (\<exists>f new. cs' = map f cs @ new \<and>
     (\<forall>x \<in> set cs. cred_key (f x) = cred_key x \<and> cred_RequestID (f x) = cred_RequestID x \<and>
        (cred_Kind (f x) = OperatorCredentialObserved \<longrightarrow> cred_Kind x = OperatorCredentialObserved)) \<and>
     (new = [] \<or> (\<exists>c. new = [c] \<and> cred_RequestID c = [] \<and> cred_key c \<notin> cred_key ` set cs)))"

lemma evolves_refl [simp]: "evolves cs cs"
  unfolding evolves_def by (intro exI [of _ id] exI [of _ "[]"]) simp

lemma evolves_map:
  assumes "\<And>x. cred_key (f x) = cred_key x \<and> cred_RequestID (f x) = cred_RequestID x \<and>
      (cred_Kind (f x) = OperatorCredentialObserved \<longrightarrow> cred_Kind x = OperatorCredentialObserved)"
  shows "evolves cs (map f cs)"
  unfolding evolves_def using assms by (intro exI [of _ f] exI [of _ "[]"]) simp

lemma evolves_new: "cred_RequestID c = [] \<Longrightarrow> cred_key c \<notin> cred_key ` set cs \<Longrightarrow> evolves cs (cs @ [c])"
  unfolding evolves_def by (intro exI [of _ id] exI [of _ "[c]"]) simp

lemma same_credential_key: "same_credential c x \<longleftrightarrow> cred_key x = cred_key c"
  by (auto simp: same_credential_def cred_key_def)

lemma evolves_made:
  assumes "evolves cs cs'" and "u \<noteq> []"
  shows "made_for u cs' = made_for u cs"
proof -
  obtain f new where cs': "cs' = map f cs @ new" and f: "\<forall>x \<in> set cs. cred_key (f x) = cred_key x \<and> cred_RequestID (f x) = cred_RequestID x"
    and n: "new = [] \<or> (\<exists>c. new = [c] \<and> cred_RequestID c = [] \<and> cred_key c \<notin> cred_key ` set cs)"
    using assms(1) unfolding evolves_def by blast
  from n have new: "\<forall>c \<in> set new. cred_RequestID c = []" by auto
  have "made_for u (map f cs) = made_for u cs"
    using f by (induction cs) (auto simp: made_for_def cred_key_def)
  moreover have "filter (\<lambda>c. cred_RequestID c = u) new = []" using new assms(2) by (auto simp: filter_empty_conv)
  ultimately show ?thesis by (simp add: cs' made_for_def)
qed

lemma evolves_credentials_ok:
  assumes "evolves cs cs'" and "credentials_ok cs ids"
  shows "credentials_ok cs' ids"
proof -
  obtain f new where cs': "cs' = map f cs @ new" and f: "\<forall>x \<in> set cs. cred_key (f x) = cred_key x \<and> cred_RequestID (f x) = cred_RequestID x \<and>
        (cred_Kind (f x) = OperatorCredentialObserved \<longrightarrow> cred_Kind x = OperatorCredentialObserved)"
    and new: "new = [] \<or> (\<exists>c. new = [c] \<and> cred_RequestID c = [] \<and> cred_key c \<notin> cred_key ` set cs)"
    using assms(1) unfolding evolves_def by blast
  have keys: "map cred_key (map f cs) = map cred_key cs" using f by simp
  have "distinct (map cred_key cs')"
    using new assms(2) unfolding cs' map_append keys credentials_ok_def by auto
  moreover have "\<forall>c \<in> set cs'. (cred_RequestID c = [] \<or> cred_RequestID c \<in> set ids) \<and> (cred_Kind c = OperatorCredentialObserved \<longrightarrow> cred_RequestID c = [])"
    using new f assms(2) unfolding cs' credentials_ok_def by auto
  ultimately show ?thesis by (simp add: credentials_ok_def)
qed

lemma change_cas_credentials: "pg_credentials (snd (change_cas fault rows crl s)) = pg_credentials s"
  by (auto simp: change_cas_def write_cas_def with_crl_def putCRLTx_def bumpEpoch_def split: option.split sum.split prod.split)

lemma pg_step_evolves:
  assumes "pg_step s s'"
  shows "evolves (pg_credentials s) (pg_credentials s')"
  using assms
proof cases
  case (first_admin cred at)
  show ?thesis
  proof (cases "list_ex (same_credential cred) (pg_credentials s)")
    case True
    then show ?thesis
      unfolding first_admin pg_RecordFirstAdmin_def
      by (simp add: OperatorCredentialObserved_def) (rule evolves_map, simp add: cred_key_def OperatorCredentialFirstAdmin_def OperatorCredentialObserved_def)
  next
    case False
    then show ?thesis
      unfolding first_admin pg_RecordFirstAdmin_def
      by simp (rule evolves_new, auto simp: same_credential_key cred_key_def list_ex_iff)
  qed
next
  case (first_use fault cred at)
  then show ?thesis
    by (auto simp: pg_RecordFirstUse_def split: option.split intro!: evolves_new) (auto simp: same_credential_key cred_key_def list_ex_iff)
qed (auto simp: pg_ca_ops pg_row_ops change_cas_credentials write_cas_def pg_PutOperatorCRL_def putCRLTx_def pg_CloseBootstrap_def pg_IssueBootstrapToken_def
   pg_StartBootstrapSession_def pg_ResetFirstRun_def Let_def lockOpen_def split: option.split sum.split)

lemma distinct_single: "distinct xs \<Longrightarrow> set xs = {a} \<Longrightarrow> xs = [a]"
proof (cases xs)
  case (Cons x ys)
  assume "distinct xs" "set xs = {a}"
  with Cons show ?thesis by (cases ys) auto
qed simp

text \<open>Recording a credential for a request adds it to what was made for that request and for no other.\<close>

lemma upsert_made:
  assumes "upsert_credential c rid cs = Some cs'" and "credentials_ok cs ids" and "u \<noteq> []"
  shows "(u \<noteq> rid \<longrightarrow> made_for u cs' = made_for u cs) \<and> (made_for rid cs = [] \<longrightarrow> made_for rid cs' = [cred_SerialHex c])"
proof (cases "find (same_credential c) cs")
  case None
  then show ?thesis using assms by (auto simp: upsert_credential_def made_for_def)
next
  case (Some old)
  then have old: "old \<in> set cs" "cred_key old = cred_key c" by (auto simp: find_Some_iff same_credential_key)
  then have obs: "cred_RequestID old = []"
    using Some assms(1,2) by (auto simp: upsert_credential_def credentials_ok_def split: if_split_asm)
  let ?f = "\<lambda>x. if same_credential c x then x\<lparr>cred_CommonName := cred_CommonName c, cred_Level := cred_Level c,
            cred_NotAfter := cred_NotAfter c, cred_Kind := cred_Kind c, cred_Email := cred_Email c, cred_FullName := cred_FullName c,
            cred_LeafSHA256 := cred_LeafSHA256 c, cred_RequestID := rid\<rparr> else x"
  have cs': "cs' = map ?f cs" using Some assms(1) by (simp add: upsert_credential_def split: if_split_asm)
  have one: "x = old" if "x \<in> set cs" "same_credential c x" for x
    using that old assms(2) by (auto simp: credentials_ok_def distinct_map inj_on_def same_credential_key)
  have other: "made_for u (map ?f xs) = made_for u xs" if "u \<noteq> rid" "set xs \<subseteq> set cs" for xs
    using that(2)
  proof (induction xs)
    case (Cons x xs)
    have "cred_RequestID x \<noteq> u" if "same_credential c x" using one [OF _ that] Cons.prems obs assms(3) by auto
    then show ?case using Cons that(1) by (simp add: made_for_def)
  qed (simp add: made_for_def)
  have same: "made_for rid (map ?f xs) = map cred_SerialHex (filter (same_credential c) xs)" if "made_for rid xs = []" for xs
    using that by (induction xs) (auto simp: made_for_def split: if_split_asm)
  have "filter (same_credential c) cs = [old]"
  proof -
    have "distinct cs" using assms(2) by (auto simp: credentials_ok_def distinct_map)
    moreover have "x \<in> set (filter (same_credential c) cs) \<longleftrightarrow> x = old" for x
      using one [of x] old by (simp add: same_credential_key) blast
    then have "set (filter (same_credential c) cs) = {old}" by blast
    ultimately show ?thesis by (intro distinct_single) simp_all
  qed
  then show ?thesis
    using other [of cs] same [of cs] old(2) unfolding cs' by (simp add: cred_key_def)
qed

lemma upsert_credentials_ok:
  assumes "upsert_credential c rid cs = Some cs'" and "credentials_ok cs ids" and "rid = [] \<or> rid \<in> set ids" and "cred_Kind c \<noteq> OperatorCredentialObserved"
  shows "credentials_ok cs' ids"
proof (cases "find (same_credential c) cs")
  case None
  then have "cred_key c \<notin> cred_key ` set cs" by (auto simp: find_None_iff same_credential_key)
  moreover have "cred_key (c\<lparr>cred_Revoked := False, cred_RequestID := rid, cred_FirstSeenAt := 0, cred_LastSeenAt := 0\<rparr>) = cred_key c"
    by (simp add: cred_key_def)
  ultimately show ?thesis using None assms by (auto simp: upsert_credential_def credentials_ok_def)
next
  case (Some old)
  let ?f = "\<lambda>x. if same_credential c x then x\<lparr>cred_CommonName := cred_CommonName c, cred_Level := cred_Level c,
            cred_NotAfter := cred_NotAfter c, cred_Kind := cred_Kind c, cred_Email := cred_Email c, cred_FullName := cred_FullName c,
            cred_LeafSHA256 := cred_LeafSHA256 c, cred_RequestID := rid\<rparr> else x"
  have cs': "cs' = map ?f cs" using Some assms(1) by (simp add: upsert_credential_def split: if_split_asm)
  have keys: "map cred_key cs' = map cred_key cs" by (simp add: cs' cred_key_def)
  have "\<forall>x \<in> set cs'. (cred_RequestID x = [] \<or> cred_RequestID x \<in> set ids) \<and> (cred_Kind x = OperatorCredentialObserved \<longrightarrow> cred_RequestID x = [])"
    using assms(2-4) by (auto simp: cs' credentials_ok_def)
  then show ?thesis using assms(2) by (simp add: credentials_ok_def keys)
qed

subsection \<open>The invariant\<close>

lemma expire_simps [simp]: "ocr_ID (expire now r) = ocr_ID r"
  by (simp add: expire_def)

lemma expireRequests_ids [simp]: "map ocr_ID (expireRequests now rs) = map ocr_ID rs"
  by (simp add: expireRequests_def)

lemma request_ok_expire: "request_ok cs r \<Longrightarrow> request_ok cs (expire now r)"
  by (auto simp: request_ok_def expire_def request_states)

lemma cred_ok_expire: "cred_ok s \<Longrightarrow> cred_ok (s\<lparr>cq_requests := expireRequests now (cq_requests s)\<rparr>)"
  using request_ok_expire by (auto simp: cred_ok_def expireRequests_def comp_def)

lemma update_request_ids: "(\<And>r. ocr_ID (f r) = ocr_ID r) \<Longrightarrow> map ocr_ID (update_request u f rs) = map ocr_ID rs"
  by (simp add: update_request_def)

lemma requestByID_Inr: "requestByID lib i rs = Inr r \<Longrightarrow> r \<in> set rs \<and> u_cast lib i = Some (ocr_ID r)"
  by (auto simp: requestByID_def find_Some_iff split: if_split_asm option.splits)

lemma unique_request: "distinct (map ocr_ID rs) \<Longrightarrow> r \<in> set rs \<Longrightarrow> x \<in> set rs \<Longrightarrow> ocr_ID x = ocr_ID r \<Longrightarrow> x = r"
  by (auto simp: distinct_map inj_on_def)

lemma cred_ok_update:
  assumes "cred_ok s" and "r \<in> set (cq_requests s)" and "\<And>x. ocr_ID (f x) = ocr_ID x" and "request_ok (cq_credentials s) (f r)"
  shows "cred_ok (s\<lparr>cq_requests := update_request (ocr_ID r) f (cq_requests s)\<rparr>)"
proof -
  have "request_ok (cq_credentials s) (if ocr_ID x = ocr_ID r then f x else x)" if "x \<in> set (cq_requests s)" for x
    using that assms unique_request [of "cq_requests s" r x] by (auto simp: cred_ok_def)
  then have "\<forall>x \<in> set (update_request (ocr_ID r) f (cq_requests s)). request_ok (cq_credentials s) x"
    unfolding update_request_def set_map by blast
  then show ?thesis
    using assms(1) update_request_ids [of f "ocr_ID r" "cq_requests s", OF assms(3)] by (simp add: cred_ok_def)
qed

lemma add_ok:
  assumes "\<And>i. u_cast lib i \<noteq> Some []" and "cred_ok s" and "ocr_State r = RequestPending"
  shows "cred_ok (snd (pg_AddOperatorCredentialRequest lib fault r s))"
proof (cases "fst (pg_AddOperatorCredentialRequest lib fault r s)")
  case (Inr ok)
  then obtain u where u: "u_cast lib (ocr_ID r) = Some u" "u \<notin> ocr_ID ` set (cq_requests s)" "fault = None"
    by (auto simp: pg_AddOperatorCredentialRequest_def split: option.splits if_split_asm)
  have "made_for u (cq_credentials s) = []" using u(1,2) assms(1,2) by (auto simp: made_for_def filter_empty_conv cred_ok_def credentials_ok_def)
  moreover have "u \<noteq> []" using u(1) assms(1) by auto
  ultimately show ?thesis
    using u assms(2,3) by (auto simp: pg_AddOperatorCredentialRequest_def cred_ok_def credentials_ok_def request_ok_def request_states)
qed (use assms(2) in \<open>auto simp: pg_AddOperatorCredentialRequest_def split: option.splits if_split_asm\<close>)

lemma cancel_ok: "cred_ok s \<Longrightarrow> cred_ok (snd (pg_CancelOperatorCredentialRequest lib fault i now s))"
proof -
  assume ok: "cred_ok s"
  let ?s = "s\<lparr>cq_requests := expireRequests now (cq_requests s)\<rparr>"
  have e: "cred_ok ?s" by (rule cred_ok_expire [OF ok])
  have "cred_ok (s\<lparr>cq_requests := update_request (ocr_ID r) (\<lambda>r. r\<lparr>ocr_State := RequestCancelled, ocr_CSRDER := None\<rparr>) (expireRequests now (cq_requests s))\<rparr>)"
    if "requestByID lib i (expireRequests now (cq_requests s)) = Inr r" "ocr_State r = RequestPending" for r
  proof -
    have "r \<in> set (cq_requests ?s)" using requestByID_Inr [OF that(1)] by simp
    moreover from this have "request_ok (cq_credentials ?s) (r\<lparr>ocr_State := RequestCancelled, ocr_CSRDER := None\<rparr>)"
      using e that(2) by (auto simp: cred_ok_def request_ok_def request_states)
    ultimately show ?thesis using cred_ok_update [OF e, of r "\<lambda>r. r\<lparr>ocr_State := RequestCancelled, ocr_CSRDER := None\<rparr>"] by simp
  qed
  then show ?thesis using ok by (auto simp: pg_CancelOperatorCredentialRequest_def Let_def split: option.split sum.split)
qed

lemma pending_request_Inr:
  "pending_request lib rid rs = Inr q \<Longrightarrow>
     (case q of None \<Rightarrow> rid = [] | Some r \<Rightarrow> r \<in> set rs \<and> ocr_State r = RequestPending \<and> u_cast lib rid = Some (ocr_ID r))"
  using requestByID_Inr by (auto simp: pending_request_def split: if_split_asm sum.splits option.splits)

lemma record_ok:
  assumes "cred_ok s" and "cred_Kind c \<noteq> OperatorCredentialObserved"
  shows "cred_ok (snd (pg_RecordOperatorCredential lib fault c rid now s))"
proof (cases "fst (pg_RecordOperatorCredential lib fault c rid now s)")
  case (Inr ok)
  let ?rs = "expireRequests now (cq_requests s)"
  obtain q cs where q: "pending_request lib rid ?rs = Inr q" and cs: "upsert_credential c (case q of None \<Rightarrow> [] | Some r \<Rightarrow> ocr_ID r) (cq_credentials s) = Some cs"
    and f: "fault = None"
    using Inr by (auto simp: pg_RecordOperatorCredential_def Let_def split: option.splits sum.splits)
  have e: "cred_ok (s\<lparr>cq_requests := ?rs\<rparr>)" by (rule cred_ok_expire [OF assms(1)])
  then have reqs: "\<forall>r \<in> set ?rs. request_ok (cq_credentials s) r" and creds: "credentials_ok (cq_credentials s) (map ocr_ID ?rs)" by (simp_all add: cred_ok_def)
  note made = upsert_made [OF cs creds]
  show ?thesis
  proof (cases q)
    case None
    have "credentials_ok cs (map ocr_ID ?rs)" by (rule upsert_credentials_ok [OF cs creds _ assms(2)]) (simp add: None)
    moreover have "request_ok cs r" if "r \<in> set ?rs" for r
      using reqs that made [of "ocr_ID r"] by (auto simp: None request_ok_def)
    ultimately show ?thesis using e q cs f None by (auto simp: pg_RecordOperatorCredential_def Let_def cred_ok_def)
  next
    case (Some r)
    have r: "r \<in> set ?rs" "ocr_State r = RequestPending" using pending_request_Inr [OF q] Some by simp_all
    let ?f = "\<lambda>r. r\<lparr>ocr_State := RequestCompleted, ocr_CSRDER := None, ocr_CompletedSerial := cred_SerialHex c\<rparr>"
    have cok: "credentials_ok cs (map ocr_ID ?rs)" by (rule upsert_credentials_ok [OF cs creds _ assms(2)]) (use r(1) Some in \<open>auto simp: expireRequests_def\<close>)
    have this: "ocr_ID r \<noteq> []" "made_for (ocr_ID r) (cq_credentials s) = []" using reqs r by (auto simp: request_ok_def request_states)
    then have "request_ok cs (?f r)" using made [of "ocr_ID r"] Some by (simp add: request_ok_def)
    moreover have "request_ok cs x" if "x \<in> set ?rs" "ocr_ID x \<noteq> ocr_ID r" for x
      using reqs that made [of "ocr_ID x"] Some by (auto simp: request_ok_def)
    ultimately have "\<forall>x \<in> set (update_request (ocr_ID r) ?f ?rs). request_ok cs x"
      using unique_request [of ?rs r] r(1) e by (auto simp: update_request_def cred_ok_def)
    then show ?thesis
      using e q cs f Some cok update_request_ids [of ?f "ocr_ID r" ?rs] by (simp add: pg_RecordOperatorCredential_def Let_def cred_ok_def)
  qed
qed (use assms(1) in \<open>auto simp: pg_RecordOperatorCredential_def Let_def split: option.splits sum.splits\<close>)

lemma observe_evolves: "evolves (cq_credentials s) (cq_credentials (snd (pg_ObserveOperatorCredential fault c at s)))"
proof (cases fault)
  case None
  then show ?thesis
    by (auto simp: pg_ObserveOperatorCredential_def cred_key_def intro!: evolves_map evolves_new)
      (auto simp: list_ex_iff same_credential_def split: if_split_asm)
qed (simp add: pg_ObserveOperatorCredential_def)

lemma cred_ok_evolves:
  assumes "cred_ok s" and "evolves (cq_credentials s) (pg_credentials db)"
  shows "cred_ok (s\<lparr>cq_db := db\<rparr>)"
proof -
  have "request_ok (pg_credentials db) r" if "request_ok (cq_credentials s) r" for r
    using that evolves_made [OF assms(2), of "ocr_ID r"] by (simp add: request_ok_def)
  then show ?thesis using assms(1) evolves_credentials_ok [OF assms(2)] by (simp add: cred_ok_def)
qed

lemma cred_step_ok:
  assumes "cred_step lib s s'" and "cred_ok s" and "\<And>i. u_cast lib i \<noteq> Some []"
  shows "cred_ok s'"
  using assms(1)
proof cases
  case (observe fault c at)
  have "snd (pg_ObserveOperatorCredential fault c at s) = s\<lparr>cq_db := cq_db (snd (pg_ObserveOperatorCredential fault c at s))\<rparr>"
    by (simp add: pg_ObserveOperatorCredential_def split: option.split)
  then show ?thesis using cred_ok_evolves [OF assms(2) observe_evolves] observe by metis
next
  case (other db)
  then show ?thesis using cred_ok_evolves [OF assms(2) pg_step_evolves] by blast
next
  case (list fault state now)
  then show ?thesis using assms(2) cred_ok_expire by (simp add: pg_OperatorCredentialRequests_def Let_def split: option.split)
next
  case (get fault i now)
  then show ?thesis using assms(2) cred_ok_expire by (simp add: pg_OperatorCredentialRequest_def Let_def split: option.split sum.split)
qed (use assms add_ok cancel_ok record_ok in blast)+

text \<open>Over any sequence of operations on the database the requests and credentials stay consistent: IDs and the pairs of issuer and
  serial are unique, a request is in one of its four states and keeps its CSR only while pending, a completed request has exactly one
  credential, with the serial it names, and no credential is made for a request in another state.\<close>

theorem credential_requests_invariant:
  assumes "(cred_step lib)\<^sup>*\<^sup>* cred_empty s" and "\<And>i. u_cast lib i \<noteq> Some []"
  shows "distinct (map ocr_ID (cq_requests s)) \<and> distinct (map cred_key (cq_credentials s)) \<and>
    (\<forall>r \<in> set (cq_requests s). ocr_State r \<in> {RequestPending, RequestCompleted, RequestCancelled, RequestExpired} \<and>
       (ocr_State r \<noteq> RequestPending \<longrightarrow> ocr_CSRDER r = None) \<and>
       made_for (ocr_ID r) (cq_credentials s) = (if ocr_State r = RequestCompleted then [ocr_CompletedSerial r] else [])) \<and>
    (\<forall>c \<in> set (cq_credentials s). cred_RequestID c \<noteq> [] \<longrightarrow>
       (\<exists>r \<in> set (cq_requests s). ocr_ID r = cred_RequestID c \<and> ocr_State r = RequestCompleted \<and> ocr_CompletedSerial r = cred_SerialHex c))"
proof -
  have "cred_ok s"
    using assms(1)
  proof (induction rule: rtranclp_induct)
    case base
    then show ?case by (simp add: cred_empty_def cred_ok_def credentials_ok_def migrated_def)
  next
    case (step s s')
    then show ?case using cred_step_ok assms(2) by blast
  qed
  then have ok: "distinct (map ocr_ID (cq_requests s))" "credentials_ok (cq_credentials s) (map ocr_ID (cq_requests s))"
    "\<forall>r \<in> set (cq_requests s). request_ok (cq_credentials s) r" by (simp_all add: cred_ok_def)
  have "\<exists>r \<in> set (cq_requests s). ocr_ID r = cred_RequestID c \<and> ocr_State r = RequestCompleted \<and> ocr_CompletedSerial r = cred_SerialHex c"
    if "c \<in> set (cq_credentials s)" "cred_RequestID c \<noteq> []" for c
  proof -
    have "cred_RequestID c \<in> ocr_ID ` set (cq_requests s)" using ok(2) that by (auto simp: credentials_ok_def)
    then obtain r where r: "r \<in> set (cq_requests s)" "ocr_ID r = cred_RequestID c" by (metis imageE)
    moreover have "cred_SerialHex c \<in> set (made_for (ocr_ID r) (cq_credentials s))" using that(1) r(2) by (auto simp: made_for_def)
    moreover have "request_ok (cq_credentials s) r" using ok(3) r(1) by blast
    ultimately show ?thesis by (intro bexI [of _ r]) (auto simp: request_ok_def split: if_split_asm)
  qed
  then show ?thesis using ok by (auto simp: credentials_ok_def request_ok_def)
qed

definition example_uuids :: uuid_lib where
  "example_uuids = \<lparr>u_Parse = (\<lambda>_. True), u_cast = (\<lambda>i. if i = [] then None else Some i)\<rparr>"

definition example_filing :: OperatorCredentialRequest where
  "example_filing = \<lparr>ocr_ID = ''r1'', ocr_Level = ''operator'', ocr_Email = ''a@b.c'', ocr_FullName = [], ocr_CSRDER = Some ''csr'', ocr_State = RequestPending,
     ocr_CreatedByCN = ''root'', ocr_CreatedAt = 1, ocr_ExpiresAt = 9, ocr_CompletedSerial = []\<rparr>"

definition example_credential :: operator_credential where
  "example_credential = \<lparr>cred_CommonName = ''a@b.c'', cred_SerialHex = ''0a'', cred_Level = ''operator'', cred_NotAfter = [], cred_Revoked = False,
     cred_IssuerSHA256 = ''ca'', cred_Kind = OperatorCredentialRequested, cred_Email = ''a@b.c'', cred_FullName = [], cred_LeafSHA256 = ''11'',
     cred_RequestID = ''r1'', cred_FirstSeenAt = 0, cred_LastSeenAt = 0\<rparr>"

definition example_filed :: cred_db where
  "example_filed = snd (pg_AddOperatorCredentialRequest example_uuids None example_filing cred_empty)"

definition example_completed :: cred_db where
  "example_completed = snd (pg_RecordOperatorCredential example_uuids None example_credential ''r1'' 2 example_filed)"

lemmas credential_examples = example_uuids_def example_filing_def example_credential_def example_filed_def example_completed_def cred_empty_def
  migrated_def pg_AddOperatorCredentialRequest_def pg_RecordOperatorCredential_def

lemma example_cast: "u_cast example_uuids i \<noteq> Some []"
  by (simp add: example_uuids_def)

lemma example_steps: "cred_step example_uuids cred_empty example_filed" "cred_step example_uuids example_filed example_completed"
  unfolding example_filed_def example_completed_def
  by (rule cred_step.add cred_step.record_credential, simp add: example_filing_def example_credential_def OperatorCredentialRequested_def OperatorCredentialObserved_def)+

lemma example_requests: "cq_requests example_filed = [example_filing]"
  "cq_requests example_completed = [example_filing\<lparr>ocr_State := RequestCompleted, ocr_CSRDER := None, ocr_CompletedSerial := ''0a''\<rparr>]"
  "cq_credentials example_completed = [example_credential]"
  by (simp_all add: credential_examples Let_def expireRequests_def expire_def pending_request_def requestByID_def upsert_credential_def update_request_def)

theorem credential_requests_invariant_witness:
  "(cred_step example_uuids)\<^sup>*\<^sup>* cred_empty example_completed \<and> (\<forall>i. u_cast example_uuids i \<noteq> Some []) \<and>
   made_for ''r1'' (cq_credentials example_completed) = [''0a'']"
proof -
  have steps: "(cred_step example_uuids)\<^sup>*\<^sup>* cred_empty example_completed"
    using example_steps by (meson r_into_rtranclp rtranclp.rtrancl_into_rtrancl)
  show ?thesis
    using credential_requests_invariant [OF steps example_cast] steps example_cast by (simp add: example_requests example_filing_def)
qed

subsection \<open>What may become of a request\<close>

definition settled :: "OperatorCredentialRequest \<Rightarrow> OperatorCredentialRequest \<Rightarrow> bool" where
  "settled r r' \<longleftrightarrow> r' = r \<or> ocr_State r = RequestPending \<and>
     (\<exists>st x. r' = r\<lparr>ocr_State := st, ocr_CSRDER := None, ocr_CompletedSerial := x\<rparr> \<and> st \<in> {RequestCompleted, RequestCancelled, RequestExpired})"

lemma settled_trans: "settled a b \<Longrightarrow> settled b c \<Longrightarrow> settled a c"
  by (auto simp: settled_def request_states)

lemma settled_expire: "settled r (expire now r)"
proof (cases "ocr_State r = RequestPending \<and> ocr_ExpiresAt r \<le> now")
  case True
  then have "expire now r = r\<lparr>ocr_State := RequestExpired, ocr_CSRDER := None, ocr_CompletedSerial := ocr_CompletedSerial r\<rparr>" by (simp add: expire_def)
  with True show ?thesis unfolding settled_def by blast
qed (auto simp: expire_def settled_def)

lemma settled_to:
  "ocr_State r = RequestPending \<Longrightarrow> st \<in> {RequestCompleted, RequestCancelled, RequestExpired} \<Longrightarrow>
   settled r (r\<lparr>ocr_State := st, ocr_CSRDER := None, ocr_CompletedSerial := x\<rparr>)"
  unfolding settled_def by blast

definition requests_settle :: "OperatorCredentialRequest list \<Rightarrow> OperatorCredentialRequest list \<Rightarrow> bool" where
  "requests_settle rs rs' \<longleftrightarrow> (\<forall>r \<in> set rs. \<exists>r' \<in> set rs'. settled r r')"

lemma requests_settle_refl [simp]: "requests_settle rs rs"
  by (auto simp: requests_settle_def settled_def)

lemma requests_settle_trans: "requests_settle a b \<Longrightarrow> requests_settle b c \<Longrightarrow> requests_settle a c"
  unfolding requests_settle_def using settled_trans by blast

lemma requests_settle_map: "(\<And>r. r \<in> set rs \<Longrightarrow> settled r (g r)) \<Longrightarrow> requests_settle rs (map g rs)"
  by (auto simp: requests_settle_def)

lemma requests_settle_expire: "requests_settle rs (expireRequests now rs)"
  unfolding expireRequests_def by (rule requests_settle_map) (rule settled_expire)

lemma requests_settle_update:
  assumes "distinct (map ocr_ID rs)" and "r \<in> set rs" and "settled r (f r)"
  shows "requests_settle rs (update_request (ocr_ID r) f rs)"
  unfolding update_request_def
proof (rule requests_settle_map)
  fix x assume "x \<in> set rs"
  then show "settled x (if ocr_ID x = ocr_ID r then f x else x)"
    using unique_request [OF assms(1,2)] assms(3) by (auto simp: settled_def [of x x])
qed

lemma cred_step_settles:
  assumes "cred_step lib s s'" and "distinct (map ocr_ID (cq_requests s))"
  shows "requests_settle (cq_requests s) (cq_requests s')"
  using assms(1)
proof cases
  case (add r fault)
  then show ?thesis by (auto simp: pg_AddOperatorCredentialRequest_def requests_settle_def settled_def split: option.split)
next
  case (cancel fault i now)
  let ?rs = "expireRequests now (cq_requests s)" and ?f = "\<lambda>r. r\<lparr>ocr_State := RequestCancelled, ocr_CSRDER := None\<rparr>"
  have "requests_settle ?rs (update_request (ocr_ID r) ?f ?rs)" if "requestByID lib i ?rs = Inr r" "ocr_State r = RequestPending" for r
  proof (rule requests_settle_update)
    show "distinct (map ocr_ID ?rs)" using assms(2) by simp
    show "r \<in> set ?rs" using requestByID_Inr [OF that(1)] by simp
    show "settled r (?f r)" using settled_to [OF that(2), of RequestCancelled "ocr_CompletedSerial r"] by simp
  qed
  moreover have "cq_requests s' = cq_requests s \<or>
      (\<exists>r. requestByID lib i ?rs = Inr r \<and> ocr_State r = RequestPending \<and> cq_requests s' = update_request (ocr_ID r) ?f ?rs)"
    unfolding cancel by (simp add: pg_CancelOperatorCredentialRequest_def Let_def split: option.split sum.split)
  ultimately show ?thesis using requests_settle_trans [OF requests_settle_expire] by (metis requests_settle_refl)
next
  case (record_credential c fault rid now)
  let ?rs = "expireRequests now (cq_requests s)"
    and ?f = "\<lambda>r. r\<lparr>ocr_State := RequestCompleted, ocr_CSRDER := None, ocr_CompletedSerial := cred_SerialHex c\<rparr>"
  have "requests_settle ?rs (update_request (ocr_ID r) ?f ?rs)" if "pending_request lib rid ?rs = Inr (Some r)" for r
  proof (rule requests_settle_update)
    show "distinct (map ocr_ID ?rs)" using assms(2) by simp
    show "r \<in> set ?rs" using pending_request_Inr [OF that] by simp
    show "settled r (?f r)" using settled_to [of r] pending_request_Inr [OF that] by simp
  qed
  moreover have "cq_requests s' = cq_requests s \<or> cq_requests s' = ?rs \<or>
      (\<exists>r. pending_request lib rid ?rs = Inr (Some r) \<and> cq_requests s' = update_request (ocr_ID r) ?f ?rs)"
    unfolding record_credential by (simp add: pg_RecordOperatorCredential_def Let_def split: option.split sum.split)
  ultimately show ?thesis using requests_settle_trans [OF requests_settle_expire] requests_settle_expire by (metis requests_settle_refl)
next
  case (list fault state now)
  then show ?thesis using requests_settle_expire by (simp add: pg_OperatorCredentialRequests_def Let_def split: option.split)
next
  case (get fault i now)
  then show ?thesis using requests_settle_expire by (simp add: pg_OperatorCredentialRequest_def Let_def split: option.split sum.split)
next
  case (observe fault c at)
  then show ?thesis by (simp add: pg_ObserveOperatorCredential_def split: option.split)
qed simp

lemma cred_steps_settle:
  assumes "(cred_step lib)\<^sup>*\<^sup>* s s'" and "cred_ok s" and "\<And>i. u_cast lib i \<noteq> Some []"
  shows "cred_ok s'" "requests_settle (cq_requests s) (cq_requests s')"
proof -
  have "cred_ok s' \<and> requests_settle (cq_requests s) (cq_requests s')"
    using assms(1)
  proof (induction rule: rtranclp_induct)
    case base then show ?case using assms(2) by simp
  next
    case (step y z)
    then show ?case
      using cred_step_ok [OF step(2) _ assms(3)] cred_step_settles [OF step(2)] requests_settle_trans by (auto simp: cred_ok_def)
  qed
  then show "cred_ok s'" "requests_settle (cq_requests s) (cq_requests s')" by blast+
qed

text \<open>A request is decided once. Whatever happens on the database, a request that is completed, cancelled or expired stays as it is, and
  a pending one keeps what was asked for and can only become one of those.\<close>

theorem request_decided_once:
  assumes "(cred_step lib)\<^sup>*\<^sup>* s s'" and "cred_ok s" and "\<And>i. u_cast lib i \<noteq> Some []" and "r \<in> set (cq_requests s)"
  shows "\<exists>r' \<in> set (cq_requests s'). ocr_ID r' = ocr_ID r \<and> (ocr_State r \<noteq> RequestPending \<longrightarrow> r' = r) \<and>
    (ocr_State r = RequestPending \<longrightarrow> r' = r \<or>
      (\<exists>st x. r' = r\<lparr>ocr_State := st, ocr_CSRDER := None, ocr_CompletedSerial := x\<rparr> \<and> st \<in> {RequestCompleted, RequestCancelled, RequestExpired}))"
proof -
  obtain r' where "r' \<in> set (cq_requests s')" "settled r r'" using cred_steps_settle [OF assms(1-3)] assms(4) by (auto simp: requests_settle_def)
  then show ?thesis by (intro bexI [of _ r']) (auto simp: settled_def)
qed

theorem request_decided_once_witness:
  "\<exists>r' \<in> set (cq_requests example_completed). ocr_ID r' = ''r1'' \<and> r' \<noteq> example_filing \<and>
     (\<exists>st x. r' = example_filing\<lparr>ocr_State := st, ocr_CSRDER := None, ocr_CompletedSerial := x\<rparr> \<and> st \<in> {RequestCompleted, RequestCancelled, RequestExpired})"
proof -
  have ok: "cred_ok example_filed"
    by (rule cred_step_ok [OF example_steps(1) _ example_cast]) (simp add: cred_empty_def cred_ok_def credentials_ok_def migrated_def)
  obtain r' where r: "r' \<in> set (cq_requests example_completed)" "ocr_ID r' = ocr_ID example_filing"
    "r' = example_filing \<or> (\<exists>st x. r' = example_filing\<lparr>ocr_State := st, ocr_CSRDER := None, ocr_CompletedSerial := x\<rparr> \<and>
        st \<in> {RequestCompleted, RequestCancelled, RequestExpired})"
    using request_decided_once [OF r_into_rtranclp [of "cred_step example_uuids", OF example_steps(2)] ok example_cast, of example_filing]
    by (auto simp: example_requests example_filing_def)
  moreover have "r' \<noteq> example_filing" using r(1) by (simp add: example_requests example_filing_def)
  ultimately show ?thesis by (intro bexI [of _ r']) (auto simp: example_filing_def)
qed

end
