(* ===== verification/Bootstrap_Token.thy ===== *)
theory Bootstrap_Token
  imports Operator_Crl
begin

text \<open>
  \<^verbatim>\<open>internal/bootstrap/token.go\<close>: the text of bootstrap tokens and session secrets. The accumulator of
  the base32 encoder is a 64-bit integer that wraps around: sums are taken modulo \<open>2 ^ 64\<close>. Tokens as
  typed are ASCII text.
\<close>

definition TokenPrefix :: string where "TokenPrefix = ''fos_boot_''"
definition SessionPrefix :: string where "SessionPrefix = ''fos_bsess_''"
definition TokenTTL :: duration where "TokenTTL = 60 * Minute"
definition SessionIdle :: duration where "SessionIdle = 15 * Minute"
definition SessionMax :: duration where "SessionMax = 60 * Minute"
definition secretBytes :: nat where "secretBytes = 32"
definition tokenBodyLength :: nat where "tokenBodyLength = 52"
definition tokenGroup :: nat where "tokenGroup = 4"
definition crockfordAlphabet :: string where "crockfordAlphabet = ''0123456789ABCDEFGHJKMNPQRSTVWXYZ''"

subsection \<open>The encoder\<close>

fun drain :: "nat \<Rightarrow> nat \<Rightarrow> string \<Rightarrow> string \<times> nat" where
  "drain acc bits out =
     (if bits \<ge> 5 then drain acc (bits - 5) (out @ [crockfordAlphabet ! (acc div 2 ^ (bits - 5) mod 32)]) else (out, bits))"

declare drain.simps [simp del]

fun crockford_loop :: "bytes \<Rightarrow> nat \<Rightarrow> nat \<Rightarrow> string \<Rightarrow> string" where
  "crockford_loop [] acc bits out =
     (if bits > 0 then out @ [crockfordAlphabet ! (acc * 2 ^ (5 - bits) mod 2 ^ 64 mod 32)] else out)"
| "crockford_loop (c # cs) acc bits out =
     (let acc = (acc * 2 ^ 8 + of_char c) mod 2 ^ 64;
          (out, bits) = drain acc (bits + 8) out
      in crockford_loop cs acc bits out)"

definition crockford :: "bytes \<Rightarrow> string" where
  "crockford b = crockford_loop b 0 0 []"

fun groups :: "nat \<Rightarrow> string \<Rightarrow> string list" where
  "groups n s = (if n = 0 \<or> s = [] then [] else take n s # groups n (drop n s))"

declare groups.simps [simp del]

text \<open>\<open>rnd\<close> is what the random reader returns. Its slices \<^verbatim>\<open>body[i:i+4]\<close> stay inside the body: a body of 52
  characters is thirteen groups.\<close>

definition NewToken :: "string + bytes \<Rightarrow> string + string" where
  "NewToken rnd =
     (case rnd of
        Inl e \<Rightarrow> Inl (''bootstrap: token randomness: '' @ e)
      | Inr b \<Rightarrow> Inr (TokenPrefix @ join ''-'' (groups tokenGroup (crockford b))))"

definition upper_char :: "char \<Rightarrow> char" where
  "upper_char c = (if CHR ''a'' \<le> c \<and> c \<le> CHR ''z'' then char_of (of_char c - 32 :: nat) else c)"

definition EqualFold :: "string \<Rightarrow> string \<Rightarrow> bool" where
  "EqualFold s t \<longleftrightarrow> map lower_char s = map lower_char t"

fun canonical_body :: "string \<Rightarrow> string option" where
  "canonical_body [] = Some []"
| "canonical_body (c # cs) =
     (if c = CHR ''-'' then canonical_body cs
      else if c = CHR ''O'' then map_option (Cons (CHR ''0'')) (canonical_body cs)
      else if c = CHR ''I'' \<or> c = CHR ''L'' then map_option (Cons (CHR ''1'')) (canonical_body cs)
      else if c \<notin> set crockfordAlphabet then None
      else map_option (Cons c) (canonical_body cs))"

definition CanonicalToken :: "string \<Rightarrow> string option" where
  "CanonicalToken s =
     (let s = TrimSpace s
      in if length s < length TokenPrefix \<or> \<not> EqualFold (take (length TokenPrefix) s) TokenPrefix then None
         else case canonical_body (map upper_char (drop (length TokenPrefix) s)) of
           None \<Rightarrow> None
         | Some body \<Rightarrow> if length body \<noteq> tokenBodyLength then None else Some (TokenPrefix @ body))"

definition HashSecret :: "(bytes \<Rightarrow> bytes) \<Rightarrow> string \<Rightarrow> string" where
  "HashSecret sha s = hex_encode (sha s)"

definition newSessionSecret :: "string + bytes \<Rightarrow> string + string" where
  "newSessionSecret rnd =
     (case rnd of Inl e \<Rightarrow> Inl (''bootstrap: session randomness: '' @ e) | Inr b \<Rightarrow> Inr (SessionPrefix @ crockford b))"

subsection \<open>The encoder writes the number in base 32\<close>

fun digits32 :: "nat \<Rightarrow> nat \<Rightarrow> string" where
  "digits32 0 x = []"
| "digits32 (Suc k) x = digits32 k (x div 32) @ [crockfordAlphabet ! (x mod 32)]"

definition number :: "bytes \<Rightarrow> nat" where
  "number b = foldl (\<lambda>n c. n * 256 + of_char c) 0 b"

lemma number_snoc [simp]: "number [] = 0" "number (b @ [c]) = number b * 256 + of_char c"
  by (simp_all add: number_def)

lemma mod_word_bits:
  assumes "j + 5 \<le> 64"
  shows "(n mod 2 ^ 64) div 2 ^ j mod 32 = n div 2 ^ j mod (32::nat)"
proof -
  have "take_bit 5 (drop_bit j (take_bit 64 n)) = take_bit 5 (drop_bit j n)"
    using assms by (simp add: drop_bit_take_bit min_absorb1)
  then show ?thesis by (simp add: take_bit_eq_mod drop_bit_eq_div)
qed

lemma digits32_numeral: "digits32 (numeral k) x = digits32 (pred_numeral k) (x div 32) @ [crockfordAlphabet ! (x mod 32)]"
  by (subst numeral_eq_Suc) simp

lemma digits32_append:
  "digits32 (k + m) x = digits32 k (x div 32 ^ m) @ digits32 m x"
proof (induction m arbitrary: x)
  case (Suc m)
  show ?case by (simp add: Suc.IH div_mult2_eq [symmetric])
qed simp

lemma length_digits32 [simp]: "length (digits32 k x) = k"
  by (induction k arbitrary: x) simp_all

text \<open>Between two bytes the encoder has written the digits of all complete groups of five bits of the number read so far,
  \<open>bits\<close> bits of it are still unwritten, and the accumulator is that number modulo the word size.\<close>

lemma drain_digits:
  "b \<le> 60 \<Longrightarrow> acc = n mod 2 ^ 64 \<Longrightarrow> out = digits32 k (n div 2 ^ b) \<Longrightarrow>
   drain acc b out = (digits32 (k + b div 5) (n div 2 ^ (b mod 5)), b mod 5)"
proof (induction acc b out arbitrary: k rule: drain.induct)
  case (1 acc b out)
  show ?case
  proof (cases "b \<ge> 5")
    case True
    have "(2::nat) ^ b = 2 ^ (b - 5) * 32"
      using True power_add [of "2::nat" "b - 5" 5] by simp
    then have "n div 2 ^ b = n div 2 ^ (b - 5) div 32"
      by (simp add: div_mult2_eq)
    then have out: "out @ [crockfordAlphabet ! (acc div 2 ^ (b - 5) mod 32)] = digits32 (Suc k) (n div 2 ^ (b - 5))"
      using 1(2-4) True mod_word_bits [of "b - 5" n] by simp
    have "b div 5 = Suc ((b - 5) div 5)" "b mod 5 = (b - 5) mod 5"
      using True by (simp_all add: le_div_geq le_mod_geq)
    then show ?thesis
      using 1(1) [of "Suc k"] 1(2,3) True out by (subst drain.simps) simp
  next
    case False
    then show ?thesis using 1 by (subst drain.simps) simp
  qed
qed

lemma crockford_loop_digits:
  "crockford_loop cs (number p mod 2 ^ 64) (8 * length p mod 5) (digits32 (8 * length p div 5) (number p div 2 ^ (8 * length p mod 5))) =
   (let q = p @ cs; r = 8 * length q mod 5
    in if r = 0 then digits32 (8 * length q div 5) (number q)
       else digits32 (Suc (8 * length q div 5)) (number q * 2 ^ (5 - r)))"
proof (induction cs arbitrary: p)
  case Nil
  define r where "r = 8 * length p mod 5"
  have r: "r < 5" by (simp add: r_def)
  then have "(32::nat) = 2 ^ (5 - r) * 2 ^ r" using power_add [of "2::nat" "5 - r" r] by simp
  then have d: "number p * 2 ^ (5 - r) div 32 = number p div 2 ^ r" by (metis div_mult_mult2 mult.commute power_not_zero zero_neq_numeral)
  have m: "number p mod 2 ^ 64 * 2 ^ (5 - r) mod 2 ^ 64 mod 32 = number p * 2 ^ (5 - r) mod 32"
    by (simp add: mod_mult_left_eq mod_mod_cancel)
  show ?case
    using d m by (simp add: Let_def flip: r_def)
next
  case (Cons c cs)
  define b where "b = 8 * length p mod 5"
  have b: "b < 5" by (simp add: b_def)
  let ?n = "number (p @ [c])"
  have "(x mod m * 256 + d) mod m = (x * 256 + d) mod m" for x d m :: nat by (metis mod_add_left_eq mod_mult_left_eq)
  then have acc: "(number p mod 2 ^ 64 * 2 ^ 8 + of_char c) mod 2 ^ 64 = ?n mod 2 ^ 64" by simp
  have "of_char c < (256::nat)" by simp
  then have "?n div 2 ^ (b + 8) = number p div 2 ^ b"
    by (simp add: power_add div_mult2_eq mult.commute [of "2 ^ b"])
  then have drain: "drain (?n mod 2 ^ 64) (b + 8) (digits32 (8 * length p div 5) (number p div 2 ^ b)) =
      (digits32 (8 * length p div 5 + (b + 8) div 5) (?n div 2 ^ ((b + 8) mod 5)), (b + 8) mod 5)"
    using b by (intro drain_digits) simp_all
  have "8 * length (p @ [c]) = (b + 8) + 5 * (8 * length p div 5)"
    using mult_div_mod_eq [of 5 "8 * length p"] unfolding b_def by simp
  then have "8 * length p div 5 + (b + 8) div 5 = 8 * length (p @ [c]) div 5" "(b + 8) mod 5 = 8 * length (p @ [c]) mod 5"
    by (simp_all only: div_mult_self2 mod_mult_self2 add.commute)
  then show ?case
    using Cons.IH [of "p @ [c]"] drain acc by (simp add: Let_def flip: b_def)
qed

text \<open>The reference: the bits of the bytes, zero-filled on the right to a multiple of five, written in base 32.\<close>

lemma crockford_digits:
  "crockford b = digits32 ((8 * length b + 4) div 5) (number b * 2 ^ (5 * ((8 * length b + 4) div 5) - 8 * length b))"
proof -
  define m q r where "m = 8 * length b" and "q = m div 5" and "r = m mod 5"
  have m: "m = 5 * q + r" and r: "r < 5" by (simp_all add: q_def r_def)
  have "(r + 4) div 5 = (if r = 0 then 0 else 1)" using r by (cases "r = 0") (simp_all add: div_nat_eqI)
  then have d: "(m + 4) div 5 = (if r = 0 then q else Suc q)"
    unfolding m using div_mult_self4 [of 5 q "r + 4"] by (simp add: add.assoc)
  have "crockford b = (if r = 0 then digits32 q (number b) else digits32 (Suc q) (number b * 2 ^ (5 - r)))"
    using crockford_loop_digits [of b "[]"] unfolding crockford_def Let_def q_def r_def m_def by simp
  moreover have "5 * (if r = 0 then q else Suc q) - m = (if r = 0 then 0 else 5 - r)" unfolding m by simp
  ultimately show ?thesis unfolding m_def [symmetric] d by simp
qed

lemma digits32_inj: "x < 32 ^ k \<Longrightarrow> y < 32 ^ k \<Longrightarrow> digits32 k x = digits32 k y \<Longrightarrow> x = y"
proof (induction k arbitrary: x y)
  case (Suc k)
  have "distinct crockfordAlphabet" "length crockfordAlphabet = 32" by (simp_all add: crockfordAlphabet_def)
  then have "x mod 32 = y mod 32" using Suc.prems(3) by (simp add: nth_eq_iff_index_eq)
  moreover have "x div 32 = y div 32"
    using Suc.prems by (intro Suc.IH) (simp_all add: less_mult_imp_div_less mult.commute)
  ultimately show ?case by (metis div_mult_mod_eq)
qed simp

lemma number_bound: "number b < 2 ^ (8 * length b)"
proof (induction b rule: rev_induct)
  case (snoc c b)
  have "of_char c < (256::nat)" by simp
  then have "number b * 256 + of_char c < (number b + 1) * 256" by simp
  also have "\<dots> \<le> 2 ^ (8 * length b) * 256" using snoc.IH by (intro mult_right_mono) simp_all
  finally show ?case by (simp add: power_add)
qed simp

lemma number_inj: "length a = length b \<Longrightarrow> number a = number b \<Longrightarrow> a = b"
proof (induction a arbitrary: b rule: rev_induct)
  case (snoc c a)
  then obtain b' d where b: "b = b' @ [d]" by (cases b rule: rev_cases) auto
  have lt: "of_char c < (256::nat)" "of_char d < (256::nat)" by simp_all
  have eq: "number a * 256 + of_char c = number b' * 256 + of_char d" using snoc.prems b by simp
  have "of_char c = (of_char d :: nat)" using arg_cong [OF eq, of "\<lambda>n. n mod 256"] lt by simp
  moreover have "number a = number b'" using eq calculation by simp
  ultimately show ?case using snoc b by simp
qed simp

lemma crockford_inj: "length a = length b \<Longrightarrow> crockford a = crockford b \<Longrightarrow> a = b"
proof -
  assume len: "length a = length b" and eq: "crockford a = crockford b"
  define k pad where "k = (8 * length a + 4) div 5" and "pad = 5 * k - 8 * length a"
  have "8 * length a \<le> 5 * k"
    using mult_div_mod_eq [of 5 "8 * length a + 4"] mod_less_divisor [of 5 "8 * length a + 4"] unfolding k_def by linarith
  then have "5 * k = 8 * length a + pad" by (simp add: pad_def)
  then have p: "(32::nat) ^ k = 2 ^ (8 * length a) * 2 ^ pad"
    using power_mult [of "2::nat" 5 k] by (simp add: power_add)
  have "number a * 2 ^ pad = number b * 2 ^ pad"
    using eq number_bound [of a] number_bound [of b] len
    by (intro digits32_inj [of _ k]) (simp_all add: p crockford_digits, simp add: pad_def k_def)
  then show "a = b" using number_inj len by simp
qed

lemma digits32_chars: "set (digits32 k x) \<subseteq> set crockfordAlphabet"
proof (induction k arbitrary: x)
  case (Suc k)
  have "crockfordAlphabet ! (x mod 32) \<in> set crockfordAlphabet"
    by (rule nth_mem) (simp add: crockfordAlphabet_def)
  then show ?case using Suc.IH by simp
qed simp

lemma crockford_text:
  "set (crockford b) \<subseteq> set crockfordAlphabet" "length b = secretBytes \<Longrightarrow> length (crockford b) = tokenBodyLength"
  by (simp_all add: crockford_digits digits32_chars secretBytes_def tokenBodyLength_def)

subsection \<open>What the canonical form depends on\<close>

lemma alphabet_chars:
  "c \<in> set crockfordAlphabet \<Longrightarrow>
   c \<noteq> CHR ''-'' \<and> c \<noteq> CHR ''O'' \<and> c \<noteq> CHR ''I'' \<and> c \<noteq> CHR ''L'' \<and> upper_char c = c \<and> \<not> is_space c \<and> upper_char (lower_char c) = c"
proof -
  have "list_all (\<lambda>c. c \<noteq> CHR ''-'' \<and> c \<noteq> CHR ''O'' \<and> c \<noteq> CHR ''I'' \<and> c \<noteq> CHR ''L'' \<and> upper_char c = c \<and> \<not> is_space c \<and>
    upper_char (lower_char c) = c) crockfordAlphabet"
    by code_simp
  then show "c \<in> set crockfordAlphabet \<Longrightarrow> ?thesis" by (simp add: list_all_iff)
qed

lemma canonical_body_letters: "set s \<subseteq> set crockfordAlphabet \<Longrightarrow> canonical_body s = Some s"
  by (induction s) (auto dest: alphabet_chars)

definition letters :: "string \<Rightarrow> string" where
  "letters s = map (\<lambda>c. if c = CHR ''O'' then CHR ''0'' else if c \<in> {CHR ''I'', CHR ''L''} then CHR ''1'' else c)
     (filter (\<lambda>c. c \<noteq> CHR ''-'') (map upper_char s))"

lemma canonical_body_letters_of: "canonical_body (letters s) = canonical_body (map upper_char s)"
proof -
  have "CHR ''0'' \<in> set crockfordAlphabet" "CHR ''1'' \<in> set crockfordAlphabet" by (simp_all add: crockfordAlphabet_def)
  then show ?thesis by (induction s) (simp_all add: letters_def)
qed

lemma canonical_body_alphabet: "canonical_body s = Some b \<Longrightarrow> set b \<subseteq> set crockfordAlphabet"
proof (induction s arbitrary: b)
  case (Cons c s)
  have "CHR ''0'' \<in> set crockfordAlphabet" "CHR ''1'' \<in> set crockfordAlphabet" by (simp_all add: crockfordAlphabet_def)
  with Cons show ?case by (auto split: if_split_asm)
qed simp

lemma join_groups:
  assumes "n > 0"
  shows "filter (\<lambda>c. c \<noteq> CHR ''-'') (join ''-'' (groups n s)) = filter (\<lambda>c. c \<noteq> CHR ''-'') s"
proof (induction s rule: length_induct)
  case (1 s)
  have step: "join sep (x # xs) = (if xs = [] then x else x @ sep @ join sep xs)" for sep x and xs :: "string list"
    by (cases xs) simp_all
  have nil: "groups n t = [] \<longleftrightarrow> t = []" for t using assms by (subst groups.simps) simp
  show ?case
  proof (cases "s = []")
    case False
    then have "length (drop n s) < length s" using assms by simp
    then have "filter (\<lambda>c. c \<noteq> CHR ''-'') (join ''-'' (groups n (drop n s))) = filter (\<lambda>c. c \<noteq> CHR ''-'') (drop n s)"
      using 1 by blast
    moreover have "filter P (take n s) @ filter P (drop n s) = filter P s" for P by (metis append_take_drop_id filter_append)
    moreover have "groups n s = take n s # groups n (drop n s)" using False assms by (subst groups.simps) simp
    moreover have "length s \<le> n \<Longrightarrow> take n s = s" by simp
    ultimately show ?thesis by (simp add: step nil)
  qed (simp add: groups.simps)
qed

lemma canonical_typed:
  assumes "TrimSpace t = p @ q" and "EqualFold p TokenPrefix"
    and "letters q = crockford b" and "length b = secretBytes"
  shows "CanonicalToken t = Some (TokenPrefix @ crockford b)"
proof -
  have "length p = length TokenPrefix" using assms(2) unfolding EqualFold_def by (metis length_map)
  moreover have "canonical_body (map upper_char q) = Some (crockford b)"
    using canonical_body_letters_of [of q] assms(3) canonical_body_letters [OF crockford_text(1) [of b]] by simp
  ultimately show ?thesis using assms by (simp add: CanonicalToken_def crockford_text)
qed

lemma canonical_form:
  assumes "CanonicalToken t = Some c"
  shows "\<exists>body. c = TokenPrefix @ body \<and> length body = tokenBodyLength \<and> set body \<subseteq> set crockfordAlphabet"
  using assms by (auto simp: CanonicalToken_def Let_def split: if_splits option.splits dest: canonical_body_alphabet)

text \<open>The grouped body keeps its letters and gains dashes only.\<close>

lemma grouped_chars: "c \<in> set (join ''-'' (groups n s)) \<Longrightarrow> c = CHR ''-'' \<or> c \<in> set s"
proof -
  have "x \<in> set (groups n s) \<Longrightarrow> set x \<subseteq> set s" for x
    by (induction n s rule: groups.induct) (subst (asm) (2) groups.simps, auto split: if_splits dest: in_set_takeD in_set_dropD)
  then show "c \<in> set (join ''-'' (groups n s)) \<Longrightarrow> ?thesis" using join_chars by fastforce
qed

lemma NewToken_typed:
  assumes "length b = secretBytes" and "NewToken (Inr b) = Inr tok"
  shows "TrimSpace tok = TokenPrefix @ join ''-'' (groups tokenGroup (crockford b))"
    and "letters (join ''-'' (groups tokenGroup (crockford b))) = crockford b"
proof -
  let ?j = "join ''-'' (groups tokenGroup (crockford b))"
  have tok: "tok = TokenPrefix @ ?j" using assms(2) by (simp add: NewToken_def)
  have chars: "upper_char c = c \<and> \<not> is_space c" if "c \<in> set ?j" for c
  proof (cases "c = CHR ''-''")
    case True
    then show ?thesis by (simp add: upper_char_def is_space_def less_eq_char_def)
  next
    case False
    then have "c \<in> set crockfordAlphabet" using grouped_chars [OF that] crockford_text(1) [of b] by blast
    then show ?thesis using alphabet_chars by simp
  qed
  have "\<forall>c \<in> set TokenPrefix. \<not> is_space c" by (simp add: TokenPrefix_def is_space_def)
  then show "TrimSpace tok = TokenPrefix @ ?j"
    using chars unfolding tok by (intro TrimSpace_id) auto
  have "CHR ''-'' \<notin> set (crockford b)" using crockford_text(1) [of b] alphabet_chars by blast
  then have "filter (\<lambda>c. c \<noteq> CHR ''-'') (crockford b) = crockford b" by (auto simp: filter_id_conv)
  moreover have "map upper_char ?j = ?j" using chars by (simp add: map_idI)
  moreover have "map (\<lambda>c. if c = CHR ''O'' then CHR ''0'' else if c \<in> {CHR ''I'', CHR ''L''} then CHR ''1'' else c) (crockford b) = crockford b"
    using crockford_text(1) [of b] alphabet_chars by (intro map_idI) fastforce
  ultimately show "letters ?j = crockford b"
    using join_groups [of tokenGroup "crockford b"] by (simp add: tokenGroup_def letters_def)
qed

lemma NewToken_canonical:
  assumes "length b = secretBytes" and "NewToken (Inr b) = Inr tok"
  shows "CanonicalToken tok = Some (TokenPrefix @ crockford b)"
  using canonical_typed [OF NewToken_typed(1) [OF assms] _ NewToken_typed(2) [OF assms] assms(1)] by (simp add: EqualFold_def)

subsection \<open>Claims\<close>

text \<open>The encoder writes its input in base 32. The wrapping accumulator loses no bit: the text is the input read as a number,
  most significant byte first, zero-filled on the right to whole digits and written in Crockford's alphabet, one
  digit for every five bits begun. Two inputs of one length have the same text only if they are equal.\<close>

theorem crockford_is_base32:
  "crockford b = digits32 ((8 * length b + 4) div 5) (number b * 2 ^ (5 * ((8 * length b + 4) div 5) - 8 * length b)) \<and>
   (length a = length b \<and> crockford a = crockford b \<longrightarrow> a = b)"
  using crockford_digits crockford_inj by blast

lemma crockford_is_base32_witness:
  "crockford [CHR 0xFF, CHR 0x00] = ''ZW00'' \<and> (crockford [CHR 0xFF, CHR 0x00] = crockford [CHR 0xFF, CHR 0x00] \<longrightarrow> [CHR 0xFF, CHR 0x00] = [CHR 0xFF, CHR 0x00])"
  using crockford_is_base32 [of "[CHR 0xFF, CHR 0x00]" "[CHR 0xFF, CHR 0x00]"] by (simp add: number_def digits32_numeral crockfordAlphabet_def)

text \<open>C40: a token survives being read aloud and typed: whatever the case of its letters, with O for 0 and I or L for 1, wherever dashes are put into or left
  out of the body, and with space around it, the typed text has the canonical form of the printed one, and tokens of
  different secrets have different canonical forms. Everything else has no canonical form or one of the same shape: the
  prefix and 52 letters of the alphabet.\<close>

theorem token_round_trip:
  assumes "length b = secretBytes" and "NewToken (Inr b) = Inr tok"
    and "TrimSpace t = p @ q" and "EqualFold p TokenPrefix"
    and "letters q = letters (drop (length TokenPrefix) tok)"
  shows "CanonicalToken t = CanonicalToken tok \<and> CanonicalToken tok = Some (TokenPrefix @ crockford b) \<and>
    (\<forall>b' tok'. length b' = secretBytes \<and> NewToken (Inr b') = Inr tok' \<and> CanonicalToken tok' = CanonicalToken t \<longrightarrow> b' = b) \<and>
    (\<forall>s c. CanonicalToken s = Some c \<longrightarrow>
       (\<exists>body. c = TokenPrefix @ body \<and> length body = tokenBodyLength \<and> set body \<subseteq> set crockfordAlphabet))"
proof (intro conjI allI impI)
  have "drop (length TokenPrefix) tok = join ''-'' (groups tokenGroup (crockford b))"
    using assms(2) by (auto simp: NewToken_def)
  then have "letters q = crockford b"
    using assms(5) NewToken_typed(2) [OF assms(1,2)] by simp
  then have typed: "CanonicalToken t = Some (TokenPrefix @ crockford b)"
    by (rule canonical_typed [OF assms(3,4) _ assms(1)])
  show tok: "CanonicalToken tok = Some (TokenPrefix @ crockford b)" using NewToken_canonical assms by blast
  show "CanonicalToken t = CanonicalToken tok" using typed tok by simp
  show "b' = b" if "length b' = secretBytes \<and> NewToken (Inr b') = Inr tok' \<and> CanonicalToken tok' = CanonicalToken t" for b' tok'
  proof (rule crockford_inj)
    show "length b' = length b" using that assms(1) by simp
    have "CanonicalToken tok' = Some (TokenPrefix @ crockford b')" using that NewToken_canonical by blast
    then show "crockford b' = crockford b" using that typed by simp
  qed
  show "\<exists>body. c = TokenPrefix @ body \<and> length body = tokenBodyLength \<and> set body \<subseteq> set crockfordAlphabet"
    if "CanonicalToken s = Some c" for s c by (rule canonical_form [OF that])
qed

definition example_secret :: bytes where
  "example_secret = replicate 31 (CHR 0x00) @ [CHR 0xFF]"

definition example_printed :: string where
  "example_printed = ''fos_boot_0000-0000-0000-0000-0000-0000-0000-0000-0000-0000-0000-0000-03ZG''"

definition example_typed :: string where
  "example_typed = '' FOS_boot_000000000000OO00-00000000000000000000-00000000-0000-03zg''"

lemma groups_Cons: "groups 4 (a # b # c # d # s) = [a, b, c, d] # groups 4 s" "groups 4 [] = []"
  by (subst groups.simps, simp)+

lemma example_crockford: "crockford example_secret = replicate 48 (CHR ''0'') @ ''03ZG''"
proof -
  have "number (replicate n (CHR 0x00)) = 0" for n by (induction n) (simp_all add: number_def)
  then have "number example_secret = 255" by (simp add: example_secret_def)
  moreover have "length example_secret = 32" by (simp add: example_secret_def)
  ultimately have "crockford example_secret = digits32 (48 + 4) 4080" by (simp add: crockford_digits)
  moreover have "digits32 k 0 = replicate k (CHR ''0'')" for k
    by (induction k) (simp_all add: crockfordAlphabet_def replicate_append_same)
  moreover have "digits32 4 4080 = ''03ZG''" by (simp add: digits32_numeral crockfordAlphabet_def)
  ultimately show ?thesis by (simp only: digits32_append) simp
qed

lemma example_NewToken: "length example_secret = secretBytes" "NewToken (Inr example_secret) = Inr example_printed"
proof -
  have "replicate 48 c @ ''03ZG'' = [c,c,c,c, c,c,c,c, c,c,c,c, c,c,c,c, c,c,c,c, c,c,c,c, c,c,c,c, c,c,c,c, c,c,c,c, c,c,c,c, c,c,c,c, c,c,c,c] @ ''03ZG''" for c
    by (simp add: numeral_eq_Suc)
  then show "NewToken (Inr example_secret) = Inr example_printed"
    by (simp add: NewToken_def example_crockford tokenGroup_def groups_Cons TokenPrefix_def example_printed_def)
qed (simp add: example_secret_def secretBytes_def)

lemma token_round_trip_witness:
  "CanonicalToken example_typed = CanonicalToken example_printed"
proof -
  have "TrimSpace example_typed = ''FOS_boot_'' @ drop 10 example_typed"
    by (simp add: TrimSpace_def is_space_def example_typed_def)
  moreover have "EqualFold ''FOS_boot_'' TokenPrefix" "letters (drop 10 example_typed) = letters (drop (length TokenPrefix) example_printed)"
    by code_simp+
  ultimately show ?thesis using token_round_trip example_NewToken by blast
qed

end
