(* ===== verification/Lru_Cache.thy ===== *)
theory Lru_Cache
  imports Prelude
begin

text \<open>
  \<^verbatim>\<open>internal/operatorca/lru.go\<close>: the size-bounded map the OCSP client caches with. The map and
  the recency list are two structures over shared list elements, as in the code: elements are
  addresses into a heap of entries, and the lemmas show the pair refines one list of bindings, the
  most recent first.
\<close>

record ('k, 'v) lruEntry =
  lru_key :: 'k
  lru_val :: 'v

record ('k, 'v) lru =
  lru_max :: int
  lru_order :: "nat list"
  lru_items :: "('k, nat) gomap"
  lru_elems :: "(nat, ('k, 'v) lruEntry) gomap"
  lru_fresh :: nat

subsection \<open>container/list\<close>

definition PushFront :: "nat \<Rightarrow> nat list \<Rightarrow> nat list" where
  "PushFront e l = e # l"

definition MoveToFront :: "nat \<Rightarrow> nat list \<Rightarrow> nat list" where
  "MoveToFront e l = (if e \<in> set l then e # remove1 e l else l)"

subsection \<open>Operations\<close>

definition newLRU :: "int \<Rightarrow> ('k, 'v) lru" where
  "newLRU n = \<lparr>lru_max = n, lru_order = [], lru_items = [], lru_elems = [], lru_fresh = 0\<rparr>"

text \<open>A miss is \<open>None\<close>. An element without an entry would be a nil dereference; the invariant excludes it.\<close>

definition lru_get :: "'k \<Rightarrow> ('k, 'v) lru \<Rightarrow> 'v option \<times> ('k, 'v) lru" where
  "lru_get k c =
     (case mget (lru_items c) k of
        Some e \<Rightarrow> (map_option lru_val (mget (lru_elems c) e), c\<lparr>lru_order := MoveToFront e (lru_order c)\<rparr>)
      | None \<Rightarrow> (None, c))"

definition evict :: "('k, 'v) lru \<Rightarrow> ('k, 'v) lru" where
  "evict c =
     (if int (length (lru_order c)) > lru_max c then
        (let oldest = last (lru_order c)
         in c\<lparr>lru_order := remove1 oldest (lru_order c),
              lru_items := (case mget (lru_elems c) oldest of
                 None \<Rightarrow> lru_items c
               | Some en \<Rightarrow> mdel (lru_key en) (lru_items c))\<rparr>)
      else c)"

definition lru_put :: "'k \<Rightarrow> 'v \<Rightarrow> ('k, 'v) lru \<Rightarrow> ('k, 'v) lru" where
  "lru_put k v c =
     (case mget (lru_items c) k of
        Some e \<Rightarrow> c\<lparr>lru_elems := mput e \<lparr>lru_key = k, lru_val = v\<rparr> (lru_elems c), lru_order := MoveToFront e (lru_order c)\<rparr>
      | None \<Rightarrow>
          evict (c\<lparr>lru_elems := mput (lru_fresh c) \<lparr>lru_key = k, lru_val = v\<rparr> (lru_elems c),
                   lru_order := PushFront (lru_fresh c) (lru_order c),
                   lru_items := mput k (lru_fresh c) (lru_items c),
                   lru_fresh := lru_fresh c + 1\<rparr>))"

definition remove_item :: "('k \<Rightarrow> bool) \<Rightarrow> 'k \<times> nat \<Rightarrow> ('k, 'v) lru \<Rightarrow> ('k, 'v) lru" where
  "remove_item matches it c =
     (if matches (fst it) then c\<lparr>lru_order := remove1 (snd it) (lru_order c), lru_items := mdel (fst it) (lru_items c)\<rparr> else c)"

definition lru_remove :: "('k \<Rightarrow> bool) \<Rightarrow> ('k, 'v) lru \<Rightarrow> ('k, 'v) lru" where
  "lru_remove matches c = fold (remove_item matches) (lru_items c) c"

definition lru_len :: "('k, 'v) lru \<Rightarrow> nat" where
  "lru_len c = length (lru_order c)"

subsection \<open>Invariant and abstraction\<close>

text \<open>The map holds exactly the elements of the list, each under the key of its entry.\<close>

definition lru_ok :: "('k, 'v) lru \<Rightarrow> bool" where
  "lru_ok c \<longleftrightarrow> distinct (mkeys (lru_items c)) \<and> distinct (lru_order c) \<and> set (lru_order c) \<subseteq> set (mkeys (lru_elems c)) \<and>
     (\<forall>k e. mget (lru_items c) k = Some e \<longleftrightarrow>
        e \<in> set (lru_order c) \<and> map_option lru_key (mget (lru_elems c) e) = Some k) \<and>
     (\<forall>e \<in> set (mkeys (lru_elems c)). e < lru_fresh c)"

definition binding :: "('k, 'v) lru \<Rightarrow> nat \<Rightarrow> 'k \<times> 'v" where
  "binding c e = (case mget (lru_elems c) e of Some en \<Rightarrow> (lru_key en, lru_val en))"

definition bindings :: "('k, 'v) lru \<Rightarrow> ('k \<times> 'v) list" where
  "bindings c = map (binding c) (lru_order c)"

definition without :: "'k \<Rightarrow> ('k \<times> 'v) list \<Rightarrow> ('k \<times> 'v) list" where
  "without k l = filter (\<lambda>(j, _). j \<noteq> k) l"

lemma lru_entry:
  assumes "lru_ok c" and "e \<in> set (lru_order c)"
  obtains v where "mget (lru_elems c) e = Some \<lparr>lru_key = fst (binding c e), lru_val = v\<rparr>" "binding c e = (fst (binding c e), v)"
    "mget (lru_items c) (fst (binding c e)) = Some e"
proof -
  have "mget (lru_elems c) e \<noteq> None"
    using assms unfolding lru_ok_def map_of_eq_None_iff by auto
  then obtain en where en: "mget (lru_elems c) e = Some en" by blast
  then have b: "binding c e = (lru_key en, lru_val en)" by (simp add: binding_def)
  with en assms have "mget (lru_items c) (lru_key en) = Some e" by (simp add: lru_ok_def)
  with en b that show thesis by simp
qed

lemma lru_item:
  assumes "lru_ok c" and "mget (lru_items c) k = Some e"
  shows "e \<in> set (lru_order c)" and "fst (binding c e) = k"
  using assms by (auto simp: lru_ok_def binding_def)

lemma binding_key_inj:
  assumes "lru_ok c" and "e \<in> set (lru_order c)" and "e' \<in> set (lru_order c)" and "fst (binding c e) = fst (binding c e')"
  shows "e = e'"
  using lru_entry [OF assms(1,2)] lru_entry [OF assms(1,3)] assms(4) by (metis option.inject)

lemma filter_other_elements:
  assumes "lru_ok c" and "mget (lru_items c) k = Some e" and "set es \<subseteq> set (lru_order c)" and "distinct es"
  shows "without k (map (binding c) es) = map (binding c) (remove1 e es)"
  using assms(3,4)
proof (induction es)
  case (Cons x es)
  have "fst (binding c x) = k \<longleftrightarrow> x = e"
    using lru_item [OF assms(1,2)] binding_key_inj [OF assms(1)] Cons.prems(1) by auto
  then show ?case using Cons by (auto simp: without_def split_beta remove1_idem)
qed (simp add: without_def)

lemma no_item:
  assumes "lru_ok c" and "mget (lru_items c) k = None" and "set es \<subseteq> set (lru_order c)"
  shows "without k (map (binding c) es) = map (binding c) es"
proof -
  have "fst (binding c e) \<noteq> k" if "e \<in> set es" for e
    using lru_entry [OF assms(1) subsetD [OF assms(3) that]] assms(2) by (metis option.distinct(1))
  then show ?thesis by (auto simp: without_def filter_map comp_def split_beta intro!: filter_True)
qed

lemma bindings_lookup:
  assumes "lru_ok c"
  shows "map_of (bindings c) k = (case mget (lru_items c) k of None \<Rightarrow> None | Some e \<Rightarrow> Some (snd (binding c e)))"
proof (cases "mget (lru_items c) k")
  case None
  have "k \<notin> fst ` set (bindings c)"
    using no_item [OF assms None order_refl] by (auto simp: bindings_def without_def filter_id_conv)
  then have "map_of (bindings c) k = None" by (simp add: map_of_eq_None_iff)
  then show ?thesis using None by simp
next
  case (Some e)
  have "distinct (map fst (bindings c))"
    using assms binding_key_inj [OF assms] by (auto simp: bindings_def distinct_map inj_on_def lru_ok_def)
  moreover have "(k, snd (binding c e)) \<in> set (bindings c)"
    using lru_item [OF assms Some] by (auto simp: bindings_def intro!: rev_image_eqI [of e])
  ultimately show ?thesis using Some by simp
qed


subsection \<open>Refinement\<close>

lemma MoveToFront_in: "e \<in> set l \<Longrightarrow> MoveToFront e l = e # remove1 e l"
  by (simp add: MoveToFront_def)

lemma lru_ok_reorder:
  assumes "lru_ok c" and "e \<in> set (lru_order c)"
  shows "lru_ok (c\<lparr>lru_order := MoveToFront e (lru_order c)\<rparr>)"
  using assms by (auto simp: lru_ok_def MoveToFront_in set_remove1_eq)

lemma lru_get_refines:
  assumes "lru_ok c"
  shows "fst (lru_get k c) = map_of (bindings c) k"
    and "bindings (snd (lru_get k c)) =
      (case map_of (bindings c) k of None \<Rightarrow> bindings c | Some v \<Rightarrow> (k, v) # without k (bindings c))"
    and "lru_ok (snd (lru_get k c))" and "lru_max (snd (lru_get k c)) = lru_max c"
proof -
  show "lru_max (snd (lru_get k c)) = lru_max c" by (simp add: lru_get_def split: option.split)
  show "lru_ok (snd (lru_get k c))"
    using assms lru_item(1) [OF assms] by (auto simp: lru_get_def lru_ok_reorder split: option.split)
  show "fst (lru_get k c) = map_of (bindings c) k"
  proof (cases "mget (lru_items c) k")
    case (Some e)
    obtain v where "mget (lru_elems c) e = Some \<lparr>lru_key = fst (binding c e), lru_val = v\<rparr>" "binding c e = (fst (binding c e), v)"
      using lru_entry [OF assms lru_item(1) [OF assms Some]] by blast
    then show ?thesis using Some by (simp add: lru_get_def bindings_lookup [OF assms]) (metis snd_conv)
  qed (simp add: lru_get_def bindings_lookup [OF assms])
  show "bindings (snd (lru_get k c)) =
      (case map_of (bindings c) k of None \<Rightarrow> bindings c | Some v \<Rightarrow> (k, v) # without k (bindings c))"
  proof (cases "mget (lru_items c) k")
    case (Some e)
    note i = lru_item [OF assms Some]
    have "without k (bindings c) = map (binding c) (remove1 e (lru_order c))"
      unfolding bindings_def
      by (rule filter_other_elements [OF assms Some]) (use assms in \<open>simp_all add: lru_ok_def\<close>)
    moreover have "binding (c\<lparr>lru_order := l\<rparr>) = binding c" for l by (simp add: binding_def fun_eq_iff)
    moreover have "map_of (bindings c) k = Some (snd (binding c e))"
      using bindings_lookup [OF assms] Some by simp
    moreover have "binding c e = (k, snd (binding c e))" using i by (simp add: prod_eq_iff)
    moreover have "bindings (snd (lru_get k c)) = map (binding c) (e # remove1 e (lru_order c))"
      using Some i calculation(2) by (simp add: lru_get_def bindings_def MoveToFront_in)
    ultimately show ?thesis by simp
  qed (simp add: lru_get_def bindings_lookup [OF assms])
qed

text \<open>Writing through an element that is in the list.\<close>

lemma lru_put_existing:
  assumes "lru_ok c" and "mget (lru_items c) k = Some e"
  shows "lru_ok (lru_put k v c)" and "bindings (lru_put k v c) = (k, v) # without k (bindings c)"
proof -
  note i = lru_item [OF assms]
  obtain w where en: "mget (lru_elems c) e = Some \<lparr>lru_key = k, lru_val = w\<rparr>"
    using lru_entry [OF assms(1) i(1)] i(2) by metis
  let ?c = "c\<lparr>lru_elems := mput e \<lparr>lru_key = k, lru_val = v\<rparr> (lru_elems c)\<rparr>"
  have keys: "map_option lru_key (mget (lru_elems ?c) e') = map_option lru_key (mget (lru_elems c) e')" for e'
    using en by (simp add: gomap_simps)
  have dom: "set (mkeys (lru_elems ?c)) = set (mkeys (lru_elems c))"
    using en by (auto simp: update_keys map_of_SomeD split: if_splits dest!: map_of_SomeD intro: rev_image_eqI)
  have "lru_ok ?c"
    using assms(1) keys dom unfolding lru_ok_def by simp
  then have "lru_ok (?c\<lparr>lru_order := MoveToFront e (lru_order ?c)\<rparr>)" by (rule lru_ok_reorder) (simp add: i)
  then show "lru_ok (lru_put k v c)" using assms(2) by (simp add: lru_put_def)
  have rest: "without k (bindings c) = map (binding c) (remove1 e (lru_order c))"
    unfolding bindings_def
    by (rule filter_other_elements [OF assms]) (use assms in \<open>simp_all add: lru_ok_def\<close>)
  have "distinct (lru_order c)" using assms(1) by (simp add: lru_ok_def)
  then have "map (binding (lru_put k v c)) (remove1 e (lru_order c)) = map (binding c) (remove1 e (lru_order c))"
    using assms(2) by (auto simp: lru_put_def binding_def gomap_simps)
  moreover have "binding (lru_put k v c) e = (k, v)" "lru_order (lru_put k v c) = e # remove1 e (lru_order c)"
    using assms(2) i by (simp_all add: lru_put_def binding_def gomap_simps MoveToFront_in)
  ultimately show "bindings (lru_put k v c) = (k, v) # without k (bindings c)"
    using rest by (simp add: bindings_def)
qed


text \<open>Adding an element for a new key, before the size check.\<close>

definition pushed :: "'k \<Rightarrow> 'v \<Rightarrow> ('k, 'v) lru \<Rightarrow> ('k, 'v) lru" where
  "pushed k v c = c\<lparr>lru_elems := mput (lru_fresh c) \<lparr>lru_key = k, lru_val = v\<rparr> (lru_elems c),
     lru_order := PushFront (lru_fresh c) (lru_order c), lru_items := mput k (lru_fresh c) (lru_items c),
     lru_fresh := lru_fresh c + 1\<rparr>"

lemma pushed_refines:
  assumes "lru_ok c" and "mget (lru_items c) k = None"
  shows "lru_ok (pushed k v c)" and "bindings (pushed k v c) = (k, v) # bindings c"
proof -
  have new: "lru_fresh c \<notin> set (mkeys (lru_elems c))" "lru_fresh c \<notin> set (lru_order c)"
    using assms(1) unfolding lru_ok_def by (metis less_irrefl, metis less_irrefl subsetD)
  have old: "mget (lru_items c) j = Some e \<longleftrightarrow> e \<in> set (lru_order c) \<and> map_option lru_key (mget (lru_elems c) e) = Some j" for j e
    using assms(1) unfolding lru_ok_def by blast
  have k: "map_option lru_key (mget (lru_elems c) e) \<noteq> Some k" if "e \<in> set (lru_order c)" for e
    using old [of k e] assms(2) that by simp
  have keys: "set (mkeys (lru_elems (pushed k v c))) = insert (lru_fresh c) (set (mkeys (lru_elems c)))"
    by (auto simp: pushed_def update_keys)
  have items: "mget (lru_items (pushed k v c)) j = Some e \<longleftrightarrow>
      e \<in> set (lru_order (pushed k v c)) \<and> map_option lru_key (mget (lru_elems (pushed k v c)) e) = Some j" for j e
    using old [of j e] k [of e] new(2) by (auto simp: pushed_def PushFront_def gomap_simps)
  show "lru_ok (pushed k v c)"
    unfolding lru_ok_def keys using assms(1) new items
    by (auto simp: lru_ok_def pushed_def PushFront_def less_Suc_eq intro: distinct_update)
  have "map (binding (pushed k v c)) (lru_order c) = map (binding c) (lru_order c)"
    using new by (auto simp: pushed_def binding_def gomap_simps)
  then show "bindings (pushed k v c) = (k, v) # bindings c"
    by (simp add: bindings_def pushed_def PushFront_def) (simp add: binding_def gomap_simps)
qed

text \<open>Dropping one element from the list and from the map.\<close>

lemma dropped_refines:
  assumes "lru_ok c" and "e \<in> set (lru_order c)"
  defines "c' \<equiv> c\<lparr>lru_order := remove1 e (lru_order c), lru_items := mdel (fst (binding c e)) (lru_items c)\<rparr>"
  shows "lru_ok c'" and "bindings c' = map (binding c) (remove1 e (lru_order c))"
proof -
  obtain v where v: "mget (lru_elems c) e = Some \<lparr>lru_key = fst (binding c e), lru_val = v\<rparr>" "mget (lru_items c) (fst (binding c e)) = Some e"
    using lru_entry [OF assms(1,2)] by blast
  have old: "mget (lru_items c) j = Some e' \<longleftrightarrow> e' \<in> set (lru_order c) \<and> map_option lru_key (mget (lru_elems c) e') = Some j" for j e'
    using assms(1) unfolding lru_ok_def by blast
  have dist: "distinct (lru_order c)" using assms(1) by (simp add: lru_ok_def)
  have "mget (lru_items c') j = Some e' \<longleftrightarrow>
      e' \<in> set (lru_order c') \<and> map_option lru_key (mget (lru_elems c') e') = Some j" for j e'
  proof (cases "j = fst (binding c e)")
    case True
    then have "e' = e" if "e' \<in> set (lru_order c)" "map_option lru_key (mget (lru_elems c) e') = Some j"
      using old [of j e'] that v(2) by simp
    then show ?thesis using True dist by (auto simp: c'_def gomap_simps)
  next
    case False
    then have "e' \<noteq> e" if "map_option lru_key (mget (lru_elems c) e') = Some j"
      using v(1) that by auto
    then show ?thesis using False old [of j e'] dist by (auto simp: c'_def gomap_simps)
  qed
  then show "lru_ok c'" using assms(1) dist by (auto simp: lru_ok_def c'_def distinct_delete)
  show "bindings c' = map (binding c) (remove1 e (lru_order c))"
    by (simp add: bindings_def c'_def binding_def)
qed

lemma remove1_last: "distinct l \<Longrightarrow> l \<noteq> [] \<Longrightarrow> remove1 (last l) l = butlast l"
  by (induction l) auto

lemma evict_refines:
  assumes "lru_ok c" and "int (length (lru_order c)) \<le> lru_max c + 1" and "0 \<le> lru_max c"
  shows "lru_ok (evict c)" and "bindings (evict c) = take (nat (lru_max c)) (bindings c)"
proof -
  have "lru_ok (evict c) \<and> bindings (evict c) = take (nat (lru_max c)) (bindings c)"
  proof (cases "int (length (lru_order c)) > lru_max c")
    case True
    let ?e = "last (lru_order c)"
    have ne: "lru_order c \<noteq> []" using True assms(3) by auto
    then have e: "?e \<in> set (lru_order c)" by simp
    obtain v where v: "mget (lru_elems c) ?e = Some \<lparr>lru_key = fst (binding c ?e), lru_val = v\<rparr>"
      using lru_entry [OF assms(1) e] by blast
    have ev: "evict c = c\<lparr>lru_order := remove1 ?e (lru_order c), lru_items := mdel (fst (binding c ?e)) (lru_items c)\<rparr>"
      using True v by (simp add: evict_def Let_def)
    have "length (lru_order c) - 1 = nat (lru_max c)" using assms(2,3) True by linarith
    moreover have "distinct (lru_order c)" using assms(1) by (simp add: lru_ok_def)
    ultimately have "remove1 ?e (lru_order c) = take (nat (lru_max c)) (lru_order c)"
      using remove1_last [OF _ ne] by (simp add: butlast_conv_take)
    then show ?thesis
      using dropped_refines [OF assms(1) e] by (simp add: ev bindings_def take_map)
  next
    case False
    then show ?thesis using assms(1) by (simp add: evict_def bindings_def)
  qed
  then show "lru_ok (evict c)" and "bindings (evict c) = take (nat (lru_max c)) (bindings c)" by auto
qed


lemma lru_put_refines:
  assumes "lru_ok c" and "int (lru_len c) \<le> lru_max c"
  shows "lru_ok (lru_put k v c)" and "lru_max (lru_put k v c) = lru_max c"
    and "bindings (lru_put k v c) = take (nat (lru_max c)) ((k, v) # without k (bindings c))"
proof -
  have len: "length (bindings c) \<le> nat (lru_max c)" "0 \<le> lru_max c"
    using assms(2) by (auto simp: lru_len_def bindings_def)
  have "lru_ok (lru_put k v c) \<and> lru_max (lru_put k v c) = lru_max c \<and>
      bindings (lru_put k v c) = take (nat (lru_max c)) ((k, v) # without k (bindings c))"
  proof (cases "mget (lru_items c) k")
    case (Some e)
    have "length (bindings c) = Suc (length (without k (bindings c)))"
      using filter_other_elements [OF assms(1) Some order_refl] assms(1) lru_item(1) [OF assms(1) Some]
      by (auto simp: bindings_def lru_ok_def length_remove1 dest: length_pos_if_in_set)
    then show ?thesis
      using len lru_put_existing [OF assms(1) Some, of v] Some by (simp add: lru_put_def)
  next
    case None
    have put: "lru_put k v c = evict (pushed k v c)" using None by (simp add: lru_put_def pushed_def)
    have "lru_max (pushed k v c) = lru_max c" "length (lru_order (pushed k v c)) = Suc (length (lru_order c))"
      by (simp_all add: pushed_def PushFront_def)
    then show ?thesis
      using evict_refines [OF pushed_refines(1) [OF assms(1) None, of v]] pushed_refines(2) [OF assms(1) None, of v]
        no_item [OF assms(1) None order_refl] assms(2)
      by (simp add: put bindings_def lru_len_def) (simp add: evict_def Let_def)
  qed
  then show "lru_ok (lru_put k v c)" and "lru_max (lru_put k v c) = lru_max c"
    and "bindings (lru_put k v c) = take (nat (lru_max c)) ((k, v) # without k (bindings c))" by auto
qed

lemma remove_item_refines:
  assumes "lru_ok c" and "mget (lru_items c) k = Some e"
  shows "lru_ok (remove_item matches (k, e) c)"
    and "bindings (remove_item matches (k, e) c) = (if matches k then without k (bindings c) else bindings c)"
    and "lru_max (remove_item matches (k, e) c) = lru_max c"
    and "j \<noteq> k \<Longrightarrow> mget (lru_items (remove_item matches (k, e) c)) j = mget (lru_items c) j"
proof -
  note i = lru_item [OF assms]
  note d = dropped_refines [OF assms(1) i(1)]
  have "without k (bindings c) = map (binding c) (remove1 e (lru_order c))"
    unfolding bindings_def
    by (rule filter_other_elements [OF assms]) (use assms in \<open>simp_all add: lru_ok_def\<close>)
  then show "lru_ok (remove_item matches (k, e) c)"
    and "bindings (remove_item matches (k, e) c) = (if matches k then without k (bindings c) else bindings c)"
    using d i assms(1) by (simp_all add: remove_item_def)
qed (simp_all add: remove_item_def gomap_simps)

lemma fold_remove_refines:
  assumes "lru_ok c" and "distinct (mkeys its)" and "\<forall>(k, e) \<in> set its. mget (lru_items c) k = Some e"
  shows "lru_ok (fold (remove_item matches) its c) \<and> lru_max (fold (remove_item matches) its c) = lru_max c \<and>
    bindings (fold (remove_item matches) its c) = filter (\<lambda>(j, _). \<not> (j \<in> set (mkeys its) \<and> matches j)) (bindings c)"
  using assms
proof (induction its arbitrary: c)
  case (Cons it its)
  obtain k e where it: "it = (k, e)" by (cases it)
  let ?c = "remove_item matches (k, e) c"
  have look: "mget (lru_items c) k = Some e" using Cons.prems(3) it by simp
  note r = remove_item_refines [OF Cons.prems(1) look, where matches = matches]
  have rest: "\<forall>(j, e) \<in> set its. mget (lru_items ?c) j = Some e"
  proof safe
    fix j e' assume j: "(j, e') \<in> set its"
    then have "j \<noteq> k" using Cons.prems(2) it by force
    with j Cons.prems(3) show "mget (lru_items ?c) j = Some e'" using r(4) by fastforce
  qed
  have "filter (\<lambda>(j, _). \<not> (j \<in> set (mkeys its) \<and> matches j)) (bindings ?c) =
      filter (\<lambda>(j, _). \<not> (j \<in> set (mkeys (it # its)) \<and> matches j)) (bindings c)"
    by (auto simp: r(2) without_def it intro!: filter_cong)
  then show ?case using Cons.IH [OF r(1) _ rest] Cons.prems(2) r(3) by (simp add: it)
qed simp

lemma lru_remove_refines:
  assumes "lru_ok c"
  shows "lru_ok (lru_remove matches c)" and "lru_max (lru_remove matches c) = lru_max c"
    and "bindings (lru_remove matches c) = filter (\<lambda>(j, _). \<not> matches j) (bindings c)"
proof -
  have d: "distinct (mkeys (lru_items c))" using assms by (simp add: lru_ok_def)
  have "\<forall>(k, e) \<in> set (lru_items c). mget (lru_items c) k = Some e" using d by auto
  note r = fold_remove_refines [OF assms d this, of matches]
  have "j \<in> set (mkeys (lru_items c))" if "(j, v) \<in> set (bindings c)" for j v
  proof -
    from that obtain e where "e \<in> set (lru_order c)" "binding c e = (j, v)" by (auto simp: bindings_def)
    then have "mget (lru_items c) j = Some e" using lru_entry [OF assms] by (metis fst_conv)
    then show ?thesis by (force dest: map_of_SomeD)
  qed
  then have "filter (\<lambda>(j, _). \<not> (j \<in> set (mkeys (lru_items c)) \<and> matches j)) (bindings c) = filter (\<lambda>(j, _). \<not> matches j) (bindings c)"
    by (auto intro!: filter_cong)
  then show "lru_ok (lru_remove matches c)" and "lru_max (lru_remove matches c) = lru_max c"
    and "bindings (lru_remove matches c) = filter (\<lambda>(j, _). \<not> matches j) (bindings c)"
    using r by (simp_all add: lru_remove_def)
qed


subsection \<open>What a client of a bounded cache may rely on\<close>

datatype ('k, 'v) cache_op = CacheGet 'k | CachePut 'k 'v | CacheRemove "'k \<Rightarrow> bool"

text \<open>The map the same calls would build with no bound.\<close>

fun unbounded :: "('k, 'v) cache_op \<Rightarrow> ('k \<rightharpoonup> 'v) \<Rightarrow> ('k \<rightharpoonup> 'v)" where
  "unbounded (CacheGet k) m = m"
| "unbounded (CachePut k v) m = m(k \<mapsto> v)"
| "unbounded (CacheRemove p) m = (\<lambda>j. if p j then None else m j)"

locale bounded_cache =
  fixes inv :: "'s \<Rightarrow> bool"
    and look :: "'s \<Rightarrow> 'k \<Rightarrow> 'v option"
    and step :: "('k, 'v) cache_op \<Rightarrow> 's \<Rightarrow> 's"
  assumes step_inv: "inv c \<Longrightarrow> inv (step a c)"
    and step_look: "inv c \<Longrightarrow> look (step a c) k = Some v \<Longrightarrow> unbounded a (look c) k = Some v"
begin

lemma run_inv: "inv c \<Longrightarrow> inv (fold step ops c)"
  by (induction ops arbitrary: c) (simp_all add: step_inv)

lemma unbounded_mono: "m \<subseteq>\<^sub>m m' \<Longrightarrow> unbounded a m \<subseteq>\<^sub>m unbounded a m'"
  by (cases a) (auto simp: map_le_def dom_def)

lemma unbounded_run_mono: "m \<subseteq>\<^sub>m m' \<Longrightarrow> fold unbounded ops m \<subseteq>\<^sub>m fold unbounded ops m'"
  by (induction ops arbitrary: m m') (simp_all add: unbounded_mono)

lemma never_stale: "inv c \<Longrightarrow> look (fold step ops c) \<subseteq>\<^sub>m fold unbounded ops (look c)"
proof (induction ops arbitrary: c)
  case (Cons a ops)
  have "look (step a c) \<subseteq>\<^sub>m unbounded a (look c)"
    using step_look [OF Cons.prems] by (auto simp: map_le_def dom_def)
  then show ?case
    using map_le_trans [OF Cons.IH [OF step_inv [OF Cons.prems]] unbounded_run_mono] by simp
qed simp

end

fun lru_step :: "('k, 'v) cache_op \<Rightarrow> ('k, 'v) lru \<Rightarrow> ('k, 'v) lru" where
  "lru_step (CacheGet k) c = snd (lru_get k c)"
| "lru_step (CachePut k v) c = lru_put k v c"
| "lru_step (CacheRemove p) c = lru_remove p c"

definition lru_inv :: "('k, 'v) lru \<Rightarrow> bool" where
  "lru_inv c \<longleftrightarrow> lru_ok c \<and> int (lru_len c) \<le> lru_max c"

fun recency :: "int \<Rightarrow> ('k, 'v) cache_op \<Rightarrow> ('k \<times> 'v) list \<Rightarrow> ('k \<times> 'v) list" where
  "recency n (CacheGet k) l = (case map_of l k of None \<Rightarrow> l | Some v \<Rightarrow> (k, v) # without k l)"
| "recency n (CachePut k v) l = take (nat n) ((k, v) # without k l)"
| "recency n (CacheRemove p) l = filter (\<lambda>(j, _). \<not> p j) l"

lemma lru_len_bindings: "lru_len c = length (bindings c)"
  by (simp add: lru_len_def bindings_def)

lemma without_shorter: "map_of l k = Some v \<Longrightarrow> length (without k l) < length l"
  unfolding without_def by (rule length_filter_less [of "(k, v)"]) (auto dest: map_of_SomeD)

lemma lru_step_refines:
  assumes "lru_inv c"
  shows "lru_inv (lru_step a c)" and "lru_max (lru_step a c) = lru_max c"
    and "bindings (lru_step a c) = recency (lru_max c) a (bindings c)"
proof -
  have ok: "lru_ok c" and len: "int (length (bindings c)) \<le> lru_max c"
    using assms by (simp_all add: lru_inv_def lru_len_bindings)
  have r: "lru_ok (lru_step a c) \<and> lru_max (lru_step a c) = lru_max c \<and>
      bindings (lru_step a c) = recency (lru_max c) a (bindings c)"
    using lru_get_refines [OF ok] lru_put_refines [OF ok] lru_remove_refines [OF ok] assms
    by (cases a) (simp_all add: lru_inv_def)
  moreover have "int (length (recency (lru_max c) a (bindings c))) \<le> lru_max c"
  proof (cases a)
    case (CacheGet k)
    then show ?thesis using len without_shorter [of "bindings c" k] by (auto split: option.split)
  next
    case (CachePut k v)
    then show ?thesis using len by simp
  next
    case (CacheRemove p)
    have "length (filter (\<lambda>(j, _). \<not> p j) (bindings c)) \<le> length (bindings c)" by (rule length_filter_le)
    then show ?thesis unfolding CacheRemove recency.simps using len by linarith
  qed
  ultimately show "lru_inv (lru_step a c)" and "lru_max (lru_step a c) = lru_max c"
    and "bindings (lru_step a c) = recency (lru_max c) a (bindings c)"
    by (simp_all add: lru_inv_def lru_len_bindings)
qed

lemma map_of_without: "map_of (without k l) j = (if j = k then None else map_of l j)"
  by (induction l) (auto simp: without_def)

lemma map_of_take: "map_of (take n l) k = Some v \<Longrightarrow> map_of l k = Some v"
proof (induction l arbitrary: n)
  case (Cons a l)
  then show ?case by (cases n; cases a) (auto split: if_splits)
qed simp

lemma recency_look: "map_of (recency n a l) k = Some v \<Longrightarrow> unbounded a (map_of l) k = Some v"
proof (cases a)
  case (CachePut j w)
  assume "map_of (recency n a l) k = Some v"
  then have "map_of ((j, w) # without j l) k = Some v" unfolding CachePut recency.simps by (rule map_of_take)
  then show ?thesis using CachePut by (auto simp: map_of_without split: if_splits)
next
  case (CacheRemove p)
  moreover have "map_of (filter (\<lambda>(j, _). \<not> p j) l) k = (if p k then None else map_of l k)"
    by (induction l) auto
  ultimately show "map_of (recency n a l) k = Some v \<Longrightarrow> ?thesis" by simp
qed (auto simp: map_of_without split: option.splits if_splits)

interpretation lru_cache: bounded_cache lru_inv "\<lambda>c. map_of (bindings c)" lru_step
  by unfold_locales (auto simp: lru_step_refines dest: recency_look)

lemma newLRU_inv: "0 \<le> n \<Longrightarrow> lru_inv (newLRU n)"
  by (simp add: lru_inv_def lru_ok_def newLRU_def lru_len_def)

lemma newLRU_bindings [simp]: "bindings (newLRU n) = []"
  by (simp add: bindings_def newLRU_def)

lemma lru_run_refines:
  assumes "lru_inv c"
  shows "lru_max (fold lru_step ops c) = lru_max c \<and> bindings (fold lru_step ops c) = fold (recency (lru_max c)) ops (bindings c)"
  using assms by (induction ops arbitrary: c) (simp_all add: lru_step_refines)

subsection \<open>Properties\<close>

text \<open>C21: after any sequence of calls the map and the linked list together hold exactly the bindings of the
  recency list that reads move to the front and writes truncate, never more than the maximum, and a read
  returns what that list holds.\<close>

theorem lru_refines_recency_list:
  assumes "0 \<le> n"
  shows "bindings (fold lru_step ops (newLRU n)) = fold (recency n) ops [] \<and>
    int (lru_len (fold lru_step ops (newLRU n))) \<le> n \<and>
    fst (lru_get k (fold lru_step ops (newLRU n))) = map_of (fold (recency n) ops []) k"
proof -
  have new: "lru_inv (newLRU n)" "lru_max (newLRU n) = n" using assms by (simp_all add: newLRU_inv) (simp add: newLRU_def)
  have inv: "lru_inv (fold lru_step ops (newLRU n))" by (rule lru_cache.run_inv [OF new(1)])
  have b: "bindings (fold lru_step ops (newLRU n)) = fold (recency n) ops []" and m: "lru_max (fold lru_step ops (newLRU n)) = n"
    using lru_run_refines [OF new(1), of ops] unfolding new(2) by simp_all
  show ?thesis using inv b m lru_get_refines(1) [of "fold lru_step ops (newLRU n)" k] by (simp add: lru_inv_def)
qed

text \<open>The cache never answers with a value that was replaced or removed: what a read returns is what an
  unbounded map would hold after the same calls.\<close>

theorem lru_never_stale:
  assumes "0 \<le> n" and "fst (lru_get k (fold lru_step ops (newLRU n))) = Some v"
  shows "fold unbounded ops Map.empty k = Some v"
proof -
  have new: "lru_inv (newLRU n)" using assms(1) by (rule newLRU_inv)
  have "lru_ok (fold lru_step ops (newLRU n))" using lru_cache.run_inv [OF new, of ops] by (simp add: lru_inv_def)
  then have "map_of (bindings (fold lru_step ops (newLRU n))) k = Some v" using assms(2) lru_get_refines(1) by metis
  moreover have "map_of (bindings (fold lru_step ops (newLRU n))) \<subseteq>\<^sub>m fold unbounded ops Map.empty"
    using lru_cache.never_stale [OF new, of ops] by simp
  ultimately show ?thesis unfolding map_le_def by (metis domI)
qed

definition example_ops :: "(nat, string) cache_op list" where
  "example_ops = [CachePut 1 ''a'', CachePut 2 ''b'', CacheGet 1, CachePut 3 ''c'', CachePut 1 ''d'', CacheRemove (\<lambda>k. k = 3)]"

lemmas example_ops_eval = example_ops_def lru_get_def lru_put_def lru_remove_def remove_item_def evict_def newLRU_def
  MoveToFront_def PushFront_def without_def

lemma lru_refines_recency_list_witness:
  "bindings (fold lru_step example_ops (newLRU 2)) = [(1, ''d'')] \<and> int (lru_len (fold lru_step example_ops (newLRU 2))) \<le> 2"
  using lru_refines_recency_list [of 2 example_ops 1] by (simp add: example_ops_def without_def)

lemma lru_never_stale_witness: "fold unbounded example_ops Map.empty 1 = Some ''d''"
  by (rule lru_never_stale [of 2]) (simp_all add: example_ops_eval)

end
