(* ===== verification/Ocsp_Client.thy ===== *)
theory Ocsp_Client
  imports Lru_Cache Operator_Crl
begin

text \<open>
  \<^verbatim>\<open>internal/operatorca/ocspclient.go\<close>: the cache of OCSP answers. Cache entries are shared by
  reference: the cache maps a certificate to the address of an entry, and a refresh changes the entry
  it started from even when the cache holds another one by then. What the responder answered (the
  request, the transport and the validation of the response) is an argument, with the time it arrived.
\<close>

record Anchor =
  an_Cert :: certificate
  an_SHA256 :: string
  an_State :: string
  an_CRLSource :: string
  an_CRLLocation :: string
  an_OCSPMode :: string
  an_OCSPURL :: string
  an_FromConfig :: bool

definition CRLSourceNone :: string where "CRLSourceNone = ''none''"
definition CRLSourceUpload :: string where "CRLSourceUpload = ''upload''"
definition OCSPModeOff :: string where "OCSPModeOff = ''off''"
definition OCSPModeAIA :: string where "OCSPModeAIA = ''aia''"
definition OCSPModeURL :: string where "OCSPModeURL = ''url''"

definition HasCRL :: "Anchor \<Rightarrow> bool" where
  "HasCRL a \<longleftrightarrow> an_CRLSource a \<noteq> [] \<and> an_CRLSource a \<noteq> CRLSourceNone"

definition an_name :: "Anchor \<Rightarrow> string" where
  "an_name a = cert_CommonName (an_Cert a)"

definition ResponderURL :: "Anchor \<Rightarrow> certificate option \<Rightarrow> string" where
  "ResponderURL a leaf =
     (if an_OCSPMode a = OCSPModeURL then an_OCSPURL a
      else if an_OCSPMode a = OCSPModeAIA then
        (case leaf of
           None \<Rightarrow> []
         | Some l \<Rightarrow> (case cert_OCSPServer l of [] \<Rightarrow> [] | u # _ \<Rightarrow> u))
      else [])"

subsection \<open>Answers and entries\<close>

datatype OCSPStatus = OCSPGood | OCSPRevoked | OCSPUnknown

record OCSPResult =
  res_Status :: OCSPStatus
  res_ThisUpdate :: gotime
  res_NextUpdate :: gotime

datatype ocsp_error = OCSPInvalid string | OCSPUnreachable string

type_synonym ocsp_answer = "ocsp_error + OCSPResult"

definition ocspMaxTTL :: duration where "ocspMaxTTL = 60 * Minute"
definition ocspNoNextTTL :: duration where "ocspNoNextTTL = 5 * Minute"
definition ocspFailureTTL :: duration where "ocspFailureTTL = 30 * Second"
definition ocspCacheSize :: int where "ocspCacheSize = 4096"
definition KindOCSPUnknown :: string where "KindOCSPUnknown = ''operator-ocsp-unknown''"
definition KindOCSPUnavailable :: string where "KindOCSPUnavailable = ''operator-ocsp-unavailable''"

lemmas ocsp_ttl_defs = ocspMaxTTL_def ocspNoNextTTL_def ocspFailureTTL_def Minute_def Second_def

type_synonym ocspKey = "string \<times> string"

record ocspEntry =
  oe_answer :: ocsp_answer
  oe_fetchedAt :: gotime
  oe_expires :: gotime
  oe_nextRefresh :: gotime
  oe_refreshing :: bool

record OCSPClient =
  oc_cache :: "(ocspKey, nat) lru"
  oc_heap :: "(nat, ocspEntry) gomap"
  oc_fresh :: nat
  oc_lastErr :: "(string, string) gomap"

definition NewOCSPClient :: OCSPClient where
  "NewOCSPClient = \<lparr>oc_cache = newLRU ocspCacheSize, oc_heap = [], oc_fresh = 0, oc_lastErr = []\<rparr>"

fun ocspClass :: "ocsp_error \<Rightarrow> string" where
  "ocspClass (OCSPInvalid _) = ''OCSP_INVALID''"
| "ocspClass (OCSPUnreachable _) = ''OCSP_UNREACHABLE''"

definition noteResult :: "(string \<Rightarrow> string) \<Rightarrow> gotime \<Rightarrow> string \<Rightarrow> string \<Rightarrow> ocsp_answer \<Rightarrow> OCSPClient \<Rightarrow> OCSPClient" where
  "noteResult redact now anchor responder ans c =
     (case ans of
        Inr _ \<Rightarrow> c\<lparr>oc_lastErr := mdel anchor (oc_lastErr c)\<rparr>
      | Inl e \<Rightarrow> c\<lparr>oc_lastErr := mput anchor (ocspClass e @ '' from '' @ redact responder @ '' at '' @ rfc3339 now) (oc_lastErr c)\<rparr>)"

definition LastError :: "OCSPClient \<Rightarrow> string \<Rightarrow> string" where
  "LastError c anchor = (case mget (oc_lastErr c) anchor of None \<Rightarrow> [] | Some e \<Rightarrow> e)"

definition ClearAnchor :: "string \<Rightarrow> OCSPClient \<Rightarrow> OCSPClient" where
  "ClearAnchor anchor c =
     c\<lparr>oc_cache := lru_remove (\<lambda>k. fst k = anchor) (oc_cache c), oc_lastErr := mdel anchor (oc_lastErr c)\<rparr>"

text \<open>Integer division of Go, which rounds to zero.\<close>

definition half :: "duration \<Rightarrow> duration" where
  "half d = (if d < 0 then - ((- d) div 2) else d div 2)"

definition entry_of :: "gotime \<Rightarrow> ocsp_answer \<Rightarrow> ocspEntry" where
  "entry_of now ans =
     (case ans of
        Inl e \<Rightarrow> \<lparr>oe_answer = Inl e, oe_fetchedAt = now, oe_expires = now + ocspFailureTTL, oe_nextRefresh = 0, oe_refreshing = False\<rparr>
      | Inr res \<Rightarrow>
          (let expires = now + ocspMaxTTL;
               expires = (if IsZero (res_NextUpdate res) then now + ocspNoNextTTL
                          else if res_NextUpdate res < expires then res_NextUpdate res else expires)
           in \<lparr>oe_answer = Inr res, oe_fetchedAt = now, oe_expires = expires, oe_nextRefresh = now + half (expires - now),
               oe_refreshing = False\<rparr>))"

definition put_entry :: "ocspKey \<Rightarrow> ocspEntry \<Rightarrow> OCSPClient \<Rightarrow> OCSPClient" where
  "put_entry key e c =
     c\<lparr>oc_heap := mput (oc_fresh c) e (oc_heap c), oc_cache := lru_put key (oc_fresh c) (oc_cache c), oc_fresh := oc_fresh c + 1\<rparr>"

definition unknown_audit :: "Anchor \<Rightarrow> string \<Rightarrow> ocsp_answer \<Rightarrow> audit_event list" where
  "unknown_audit a serial ans =
     (case ans of
        Inl _ \<Rightarrow> []
      | Inr res \<Rightarrow>
          if res_Status res = OCSPUnknown then
            [zero_event\<lparr>ev_Kind := KindOCSPUnknown,
               ev_Summary := ''The OCSP responder for operator CA '' @ an_name a @ '' answered unknown for serial '' @ serial @
                 ''; the certificate is refused as revoked'',
               ev_TargetKind := ''operator-ca'', ev_TargetPath := ''/operator-cas/'' @ an_SHA256 a\<rparr>]
          else [])"

text \<open>\<open>live_old\<close>: a failed refresh keeps the entry it started from while that is still in its lifetime.\<close>

definition live_old :: "gotime \<Rightarrow> nat option \<Rightarrow> OCSPClient \<Rightarrow> (nat \<times> ocspEntry) option" where
  "live_old now old c =
     (case old of
        None \<Rightarrow> None
      | Some r \<Rightarrow> (case mget (oc_heap c) r of
          None \<Rightarrow> None
        | Some e \<Rightarrow> if now < oe_expires e then Some (r, e) else None))"

definition fill ::
  "(string \<Rightarrow> string) \<Rightarrow> gotime \<Rightarrow> Anchor \<Rightarrow> string \<Rightarrow> string \<Rightarrow> ocsp_answer \<Rightarrow> nat option \<Rightarrow> OCSPClient \<Rightarrow>
   ocsp_answer \<times> audit_event list \<times> OCSPClient" where
  "fill redact now a serial responder ans old c =
     (let c = noteResult redact now (an_SHA256 a) responder ans c
      in case (ans, live_old now old c) of
           (Inl _, Some (r, e)) \<Rightarrow>
             (oe_answer e, [],
              c\<lparr>oc_heap := mput r (e\<lparr>oe_refreshing := False, oe_nextRefresh := now + ocspFailureTTL\<rparr>) (oc_heap c)\<rparr>)
         | _ \<Rightarrow> (ans, unknown_audit a serial ans, put_entry (an_SHA256 a, serial) (entry_of now ans) c))"

record ocsp_check =
  ck_answer :: ocsp_answer
  ck_refresh :: bool  \<comment> \<open>a background refresh was started\<close>
  ck_audits :: "audit_event list"

text \<open>\<open>ans\<close> is what the responder answers to a fetch made now, arriving at \<open>later\<close>.\<close>

definition OCSPCheck ::
  "(string \<Rightarrow> string) \<Rightarrow> gotime \<Rightarrow> gotime \<Rightarrow> ocsp_answer \<Rightarrow> Anchor \<Rightarrow> int \<Rightarrow> string \<Rightarrow> OCSPClient \<Rightarrow> ocsp_check \<times> OCSPClient" where
  "OCSPCheck redact now later ans a serial responder c =
     (let key = (an_SHA256 a, SerialKey serial);
          (hit, cache) = lru_get key (oc_cache c);
          c = c\<lparr>oc_cache := cache\<rparr>;
          fetch = (\<lambda>c. let (r, audits, c) = fill redact later a (SerialKey serial) responder ans None c
                       in (\<lparr>ck_answer = r, ck_refresh = False, ck_audits = audits\<rparr>, c))
      in case hit of
           None \<Rightarrow> fetch c
         | Some r \<Rightarrow>
             (case mget (oc_heap c) r of
                None \<Rightarrow> fetch c
              | Some e \<Rightarrow>
                  if now < oe_expires e then
                    (let refresh = ((case oe_answer e of Inr _ \<Rightarrow> True | Inl _ \<Rightarrow> False) \<and> \<not> oe_refreshing e \<and> \<not> now < oe_nextRefresh e)
                     in (\<lparr>ck_answer = oe_answer e, ck_refresh = refresh, ck_audits = []\<rparr>,
                         if refresh then c\<lparr>oc_heap := mput r (e\<lparr>oe_refreshing := True\<rparr>) (oc_heap c)\<rparr> else c))
                  else fetch c))"

definition OCSPRefresh ::
  "(string \<Rightarrow> string) \<Rightarrow> gotime \<Rightarrow> ocsp_answer \<Rightarrow> Anchor \<Rightarrow> string \<Rightarrow> string \<Rightarrow> OCSPClient \<Rightarrow> audit_event list \<times> OCSPClient" where
  "OCSPRefresh redact later ans a serial responder c =
     (let (old, cache) = lru_get (an_SHA256 a, serial) (oc_cache c);
          (_, audits, c) = fill redact later a serial responder ans old (c\<lparr>oc_cache := cache\<rparr>)
      in (audits, c))"


subsection \<open>The cache as a map\<close>

definition cached_entry :: "OCSPClient \<Rightarrow> ocspKey \<Rightarrow> ocspEntry option" where
  "cached_entry c key = (case map_of (bindings (oc_cache c)) key of None \<Rightarrow> None | Some r \<Rightarrow> mget (oc_heap c) r)"

definition entry_ok :: "ocspEntry \<Rightarrow> bool" where
  "entry_ok e \<longleftrightarrow>
     (case oe_answer e of
        Inl _ \<Rightarrow> oe_expires e \<le> oe_fetchedAt e + ocspFailureTTL
      | Inr res \<Rightarrow> oe_expires e \<le> oe_fetchedAt e + ocspMaxTTL \<and>
          (if res_NextUpdate res = 0 then oe_expires e \<le> oe_fetchedAt e + ocspNoNextTTL else oe_expires e \<le> res_NextUpdate res))"

definition ocsp_ok :: "OCSPClient \<Rightarrow> bool" where
  "ocsp_ok c \<longleftrightarrow> lru_inv (oc_cache c) \<and> lru_max (oc_cache c) = ocspCacheSize \<and>
     (\<forall>r e. mget (oc_heap c) r = Some e \<longrightarrow> r < oc_fresh c \<and> entry_ok e) \<and>
     (\<forall>(_, r) \<in> set (bindings (oc_cache c)). mget (oc_heap c) r \<noteq> None)"

lemma entry_of_ok: "entry_ok (entry_of now ans)"
  by (simp add: entry_ok_def entry_of_def IsZero_def Let_def ocsp_ttl_defs split: sum.split)

lemma entry_ok_update [simp]:
  "entry_ok (e\<lparr>oe_refreshing := b\<rparr>) = entry_ok e" "entry_ok (e\<lparr>oe_nextRefresh := t\<rparr>) = entry_ok e"
  by (simp_all add: entry_ok_def split: sum.split)

lemma oe_answer_entry_of [simp]: "oe_answer (entry_of now ans) = ans"
  by (simp add: entry_of_def Let_def split: sum.split)

lemma lru_get_bindings_set:
  assumes "lru_inv c"
  shows "set (bindings (snd (lru_get k c))) \<subseteq> set (bindings c)"
proof -
  have ok: "lru_ok c" using assms by (simp add: lru_inv_def)
  show ?thesis
    using lru_get_refines(2) [OF ok, of k] map_of_SomeD [of "bindings c" k]
    by (auto simp: without_def split: option.splits)
qed

lemma lru_get_inv: "lru_inv c \<Longrightarrow> lru_inv (snd (lru_get k c)) \<and> lru_max (snd (lru_get k c)) = lru_max c"
  using lru_step_refines(1,2) [of c "CacheGet k"] by simp

lemma lru_put_inv: "lru_inv c \<Longrightarrow> lru_inv (lru_put k v c) \<and> lru_max (lru_put k v c) = lru_max c \<and>
    bindings (lru_put k v c) = take (nat (lru_max c)) ((k, v) # without k (bindings c))"
  using lru_step_refines [of c "CachePut k v"] by simp

lemma lru_remove_inv: "lru_inv c \<Longrightarrow> lru_inv (lru_remove p c) \<and> lru_max (lru_remove p c) = lru_max c \<and>
    bindings (lru_remove p c) = filter (\<lambda>(j, _). \<not> p j) (bindings c)"
  using lru_step_refines [of c "CacheRemove p"] by simp

lemma noteResult_ok [simp]:
  "ocsp_ok (noteResult redact now sha url ans c) = ocsp_ok c" "oc_cache (noteResult redact now sha url ans c) = oc_cache c"
  "oc_heap (noteResult redact now sha url ans c) = oc_heap c" "oc_fresh (noteResult redact now sha url ans c) = oc_fresh c"
  by (simp_all add: noteResult_def ocsp_ok_def split: sum.split)

lemma ocsp_ok_touch: "ocsp_ok c \<Longrightarrow> ocsp_ok (c\<lparr>oc_cache := snd (lru_get k (oc_cache c))\<rparr>)"
  using lru_get_inv [of "oc_cache c" k] lru_get_bindings_set [of "oc_cache c" k]
  unfolding ocsp_ok_def by (auto dest: subsetD)

lemma ocsp_ok_write:
  assumes "ocsp_ok c" and "mget (oc_heap c) r = Some e" and "entry_ok e'"
  shows "ocsp_ok (c\<lparr>oc_heap := mput r e' (oc_heap c)\<rparr>)"
  using assms unfolding ocsp_ok_def by (simp add: gomap_simps split_beta)

lemma ocsp_ok_put:
  assumes "ocsp_ok c" and "entry_ok e"
  shows "ocsp_ok (put_entry key e c)"
proof -
  have inv: "lru_inv (oc_cache c)" using assms(1) by (simp add: ocsp_ok_def)
  note p = lru_put_inv [OF inv, of key "oc_fresh c"]
  have "set (bindings (lru_put key (oc_fresh c) (oc_cache c))) \<subseteq> insert (key, oc_fresh c) (set (bindings (oc_cache c)))"
    using p set_take_subset by (fastforce simp: without_def)
  then have "\<forall>(_, r) \<in> set (bindings (lru_put key (oc_fresh c) (oc_cache c))). r = oc_fresh c \<or> mget (oc_heap c) r \<noteq> None"
    using assms(1) unfolding ocsp_ok_def by blast
  then show ?thesis
    using p assms unfolding ocsp_ok_def put_entry_def by (auto simp: gomap_simps less_Suc_eq split: if_splits)
qed

lemma ocsp_ok_clear: "ocsp_ok c \<Longrightarrow> ocsp_ok (ClearAnchor sha c)"
  using lru_remove_inv [of "oc_cache c" "\<lambda>k. fst k = sha"] unfolding ocsp_ok_def ClearAnchor_def by auto

lemma fill_ok:
  assumes "ocsp_ok c"
  shows "ocsp_ok (snd (snd (fill redact now a serial url ans old c)))"
proof -
  let ?c = "noteResult redact now (an_SHA256 a) url ans c"
  have put: "ocsp_ok (put_entry (an_SHA256 a, serial) (entry_of now ans) ?c)"
    by (rule ocsp_ok_put) (simp_all add: assms entry_of_ok)
  have "ocsp_ok (?c\<lparr>oc_heap := mput r (e\<lparr>oe_refreshing := False, oe_nextRefresh := now + ocspFailureTTL\<rparr>) (oc_heap ?c)\<rparr>)"
    if "live_old now old ?c = Some (r, e)" for r e
  proof (rule ocsp_ok_write)
    show "ocsp_ok ?c" using assms by simp
    show e: "mget (oc_heap ?c) r = Some e" using that by (auto simp: live_old_def split: option.splits if_splits)
    have "entry_ok e" using assms e by (simp add: ocsp_ok_def)
    then show "entry_ok (e\<lparr>oe_refreshing := False, oe_nextRefresh := now + ocspFailureTTL\<rparr>)" by simp
  qed
  then show ?thesis using put by (cases ans) (auto simp: fill_def Let_def split: option.split)
qed

lemma OCSPCheck_ok: "ocsp_ok c \<Longrightarrow> ocsp_ok (snd (OCSPCheck redact now later ans a serial url c))"
proof -
  assume ok: "ocsp_ok c"
  let ?k = "(an_SHA256 a, SerialKey serial)"
  let ?c = "c\<lparr>oc_cache := snd (lru_get ?k (oc_cache c))\<rparr>"
  have t: "ocsp_ok ?c" using ok by (rule ocsp_ok_touch)
  have "ocsp_ok (?c\<lparr>oc_heap := mput r (e\<lparr>oe_refreshing := True\<rparr>) (oc_heap ?c)\<rparr>)" if "mget (oc_heap ?c) r = Some e" for r e
    by (rule ocsp_ok_write [OF t that]) (use t that in \<open>simp add: ocsp_ok_def\<close>)
  then show ?thesis
    using t fill_ok [OF t] by (simp add: OCSPCheck_def Let_def split_beta split: option.split)
qed

lemma OCSPRefresh_ok: "ocsp_ok c \<Longrightarrow> ocsp_ok (snd (OCSPRefresh redact later ans a serial url c))"
  using fill_ok [OF ocsp_ok_touch] by (simp add: OCSPRefresh_def Let_def split_beta)


inductive ocsp_reachable :: "OCSPClient \<Rightarrow> bool" where
  start: "ocsp_reachable NewOCSPClient"
| check: "ocsp_reachable c \<Longrightarrow> ocsp_reachable (snd (OCSPCheck redact now later ans a serial url c))"
| refresh: "ocsp_reachable c \<Longrightarrow> ocsp_reachable (snd (OCSPRefresh redact later ans a key url c))"
| finish: "ocsp_reachable c \<Longrightarrow> ocsp_reachable (snd (snd (fill redact later a key url ans old c)))"
| clear: "ocsp_reachable c \<Longrightarrow> ocsp_reachable (ClearAnchor sha c)"

lemma ocsp_reachable_ok: "ocsp_reachable c \<Longrightarrow> ocsp_ok c"
proof (induction rule: ocsp_reachable.induct)
  case start
  show ?case by (simp add: ocsp_ok_def NewOCSPClient_def newLRU_inv ocspCacheSize_def) (simp add: newLRU_def)
qed (simp_all add: OCSPCheck_ok OCSPRefresh_ok fill_ok ocsp_ok_clear)

text \<open>A check answers from a live entry or with what the responder says now.\<close>

lemma OCSPCheck_answer:
  assumes "ocsp_ok c"
  shows "ck_answer (fst (OCSPCheck redact now later ans a serial url c)) =
    (case cached_entry c (an_SHA256 a, SerialKey serial) of
       Some e \<Rightarrow> if now < oe_expires e then oe_answer e else ans
     | None \<Rightarrow> ans)"
proof -
  have get: "fst (lru_get (an_SHA256 a, SerialKey serial) (oc_cache c)) = map_of (bindings (oc_cache c)) (an_SHA256 a, SerialKey serial)"
    by (rule lru_get_refines(1)) (use assms in \<open>simp add: ocsp_ok_def lru_inv_def\<close>)
  have fresh: "fst (fill redact later a key url ans None c') = ans" for key c'
    by (cases ans) (simp_all add: fill_def live_old_def Let_def)
  show ?thesis
    by (simp add: cached_entry_def OCSPCheck_def get fresh Let_def split_beta split: option.split)
qed

lemma cached_after_clear: "ocsp_ok c \<Longrightarrow> cached_entry (ClearAnchor sha c) (sha, key) = None"
proof -
  assume "ocsp_ok c"
  then have "bindings (oc_cache (ClearAnchor sha c)) = filter (\<lambda>(j, _). fst j \<noteq> sha) (bindings (oc_cache c))"
    using lru_remove_inv [of "oc_cache c" "\<lambda>k. fst k = sha"] by (simp add: ClearAnchor_def ocsp_ok_def)
  then have "map_of (bindings (oc_cache (ClearAnchor sha c))) (sha, key) = None"
    by (auto simp: map_of_eq_None_iff)
  then show ?thesis by (simp add: cached_entry_def)
qed

lemma cached_after_put:
  assumes "ocsp_ok c"
  shows "cached_entry (put_entry key e c) key = Some e"
proof -
  have "lru_inv (oc_cache c)" "lru_max (oc_cache c) = 4096" using assms by (simp_all add: ocsp_ok_def ocspCacheSize_def)
  then have "bindings (lru_put key (oc_fresh c) (oc_cache c)) = take 4096 ((key, oc_fresh c) # without key (bindings (oc_cache c)))"
    using lru_put_inv [of "oc_cache c" key "oc_fresh c"] by simp
  then show ?thesis by (simp add: cached_entry_def put_entry_def gomap_simps take_Cons')
qed

subsection \<open>Properties\<close>

text \<open>In every reachable state the cache holds at most 4096 answers, and a check that does not return what
  the responder says now returns an answer fetched less than an hour ago, before its nextUpdate, less than five
  minutes ago where it has none, and less than thirty seconds ago where it is a failure.\<close>

theorem ocsp_answers_fresh:
  assumes "ocsp_reachable c"
  shows "lru_len (oc_cache c) \<le> 4096 \<and>
    (ck_answer (fst (OCSPCheck redact now later ans a serial url c)) = ans \<or>
     (\<exists>t. case ck_answer (fst (OCSPCheck redact now later ans a serial url c)) of
        Inl _ \<Rightarrow> now < t + 30 * Second
      | Inr res \<Rightarrow> now < t + 60 * Minute \<and>
          (if res_NextUpdate res = 0 then now < t + 5 * Minute else now < res_NextUpdate res)))"
proof -
  have ok: "ocsp_ok c" using assms by (rule ocsp_reachable_ok)
  then have len: "lru_len (oc_cache c) \<le> 4096" by (simp add: ocsp_ok_def lru_inv_def ocspCacheSize_def)
  have "entry_ok e" if "cached_entry c k = Some e" for k e
    using ok that by (auto simp: cached_entry_def ocsp_ok_def split: option.splits)
  note entry = this
  show ?thesis
  proof (cases "cached_entry c (an_SHA256 a, SerialKey serial)")
    case None
    then show ?thesis using len by (simp add: OCSPCheck_answer [OF ok])
  next
    case (Some e)
    show ?thesis
    proof (cases "now < oe_expires e")
      case True
      then show ?thesis
        using len entry [OF Some] Some
        by (intro conjI disjI2 exI [of _ "oe_fetchedAt e"])
          (auto simp: OCSPCheck_answer [OF ok] entry_ok_def ocspMaxTTL_def ocspNoNextTTL_def ocspFailureTTL_def split: sum.splits)
    next
      case False
      then show ?thesis using len Some by (simp add: OCSPCheck_answer [OF ok])
    qed
  qed
qed

text \<open>After an operator CA's cached answers are dropped, the next check of any of its certificates asks the
  responder.\<close>

theorem ClearAnchor_asks_again:
  assumes "ocsp_reachable c"
  shows "ck_answer (fst (OCSPCheck redact now later ans a serial url (ClearAnchor (an_SHA256 a) c))) = ans"
proof -
  have "ocsp_ok c" using assms by (rule ocsp_reachable_ok)
  then show ?thesis
    by (simp add: OCSPCheck_answer [OF ocsp_ok_clear] cached_after_clear)
qed

text \<open>Dropping the cached answers does not reach a fetch under way. An answer the earlier responder gave
  before its URL changed, stored when the fetch ends after the change, is returned by the next check for up to
  its lifetime, whatever the new responder says.\<close>

theorem ClearAnchor_race:
  assumes "ocsp_reachable c" and "now < oe_expires (entry_of later (Inr res))" and "an_SHA256 a' = an_SHA256 a"
  shows "ck_answer (fst (OCSPCheck redact now later' ans a' serial newURL
    (snd (snd (fill redact later a (SerialKey serial) oldURL (Inr res) None (ClearAnchor (an_SHA256 a) c)))))) = Inr res"
proof -
  let ?c = "noteResult redact later (an_SHA256 a) oldURL (Inr res) (ClearAnchor (an_SHA256 a) c)"
  have ok: "ocsp_ok ?c" using ocsp_ok_clear [OF ocsp_reachable_ok [OF assms(1)]] by simp
  have f: "snd (snd (fill redact later a (SerialKey serial) oldURL (Inr res) None (ClearAnchor (an_SHA256 a) c))) =
      put_entry (an_SHA256 a, SerialKey serial) (entry_of later (Inr res)) ?c"
    by (simp add: fill_def Let_def)
  have "cached_entry (put_entry (an_SHA256 a, SerialKey serial) (entry_of later (Inr res)) ?c) (an_SHA256 a', SerialKey serial) =
      Some (entry_of later (Inr res))"
    unfolding assms(3) by (rule cached_after_put [OF ok])
  then show ?thesis
    unfolding f OCSPCheck_answer [OF ocsp_ok_put [OF ok entry_of_ok]] using assms(2) by simp
qed

definition example_anchor :: Anchor where
  "example_anchor = \<lparr>an_Cert = example_ca, an_SHA256 = ''anchor'', an_State = ''active'', an_CRLSource = ''url'',
     an_CRLLocation = ''http://crl'', an_OCSPMode = ''url'', an_OCSPURL = ''http://old'', an_FromConfig = False\<rparr>"

definition example_good :: OCSPResult where
  "example_good = \<lparr>res_Status = OCSPGood, res_ThisUpdate = 10, res_NextUpdate = 0\<rparr>"

lemma ocsp_answers_fresh_witness: "lru_len (oc_cache (snd (OCSPCheck id 20 21 (Inr example_good) example_anchor 7 ''http://old'' NewOCSPClient))) \<le> 4096"
  using ocsp_answers_fresh [OF ocsp_reachable.check [OF ocsp_reachable.start]] by blast

lemma ClearAnchor_asks_again_witness:
  "ck_answer (fst (OCSPCheck id 20 21 (Inl (OCSPUnreachable ''x'')) example_anchor 7 ''http://new''
     (ClearAnchor (an_SHA256 example_anchor) NewOCSPClient))) = Inl (OCSPUnreachable ''x'')"
  by (rule ClearAnchor_asks_again [OF ocsp_reachable.start])

lemma ClearAnchor_race_witness:
  "ck_answer (fst (OCSPCheck id 40 41 (Inr (example_good\<lparr>res_Status := OCSPRevoked\<rparr>)) (example_anchor\<lparr>an_OCSPURL := ''http://new''\<rparr>) 7
     ''http://new'' (snd (snd (fill id 30 example_anchor (SerialKey 7) ''http://old'' (Inr example_good) None
       (ClearAnchor (an_SHA256 example_anchor) NewOCSPClient)))))) = Inr example_good"
  by (rule ClearAnchor_race [OF ocsp_reachable.start])
    (simp_all add: entry_of_def example_good_def IsZero_def ocsp_ttl_defs example_anchor_def)

end
