(* ===== verification/Revocation_Engine.thy ===== *)
theory Revocation_Engine
  imports Ocsp_Client Pg_Trust
begin

text \<open>
  \<^verbatim>\<open>internal/operatorca/revocation.go\<close>: the revocation engine of one replica. It keeps the denylist and
  the last good CRL of every trusted operator CA and decides whether a certificate may be used. The
  store is the Go interface \<^verbatim>\<open>store.OperatorTrust\<close>, here the record \<open>trust_store\<close>, provided by the
  Postgres and by the in-memory store. Log lines are left out; audit rows are results. \<open>now\<close> is the
  clock.
\<close>

subsection \<open>The store interface\<close>

datatype trust_error =
    DatabaseRequired
  | StoreFailure pg_error
  | CrlRefused crl_error
  | UnknownAnchor

record 's trust_store =
  ts_OperatorCRLs :: "'s \<Rightarrow> trust_error + operator_crl list"
  ts_PutOperatorCRL :: "operator_crl \<Rightarrow> (operator_crl \<Rightarrow> bool \<Rightarrow> crl_error + bool) \<Rightarrow> 's \<Rightarrow> (trust_error + bool) \<times> 's"
  ts_OperatorDenylist :: "'s \<Rightarrow> trust_error + denylist_entry list"
  ts_AddOperatorDenylistEntry :: "denylist_entry \<Rightarrow> 's \<Rightarrow> (trust_error + bool) \<times> 's"
  ts_OperatorTrustVersion :: "'s \<Rightarrow> trust_error + trust_version"

fun pg_trust_error :: "pg_error \<Rightarrow> trust_error" where
  "pg_trust_error (PgDecide e) = CrlRefused e"
| "pg_trust_error e = StoreFailure e"

definition read_result :: "string option \<Rightarrow> 'a \<Rightarrow> trust_error + 'a" where
  "read_result fault x = (case fault of None \<Rightarrow> Inr x | Some e \<Rightarrow> Inl (StoreFailure (DbError e)))"

definition pg_trust :: "string option \<Rightarrow> gotime \<Rightarrow> (gotime \<Rightarrow> string) \<Rightarrow> pg_db trust_store" where
  "pg_trust fault clk render =
     \<lparr>ts_OperatorCRLs = (\<lambda>s. read_result fault (pg_OperatorCRLs s)),
      ts_PutOperatorCRL = (\<lambda>c decide s. apfst (map_sum pg_trust_error id) (pg_PutOperatorCRL fault c decide s)),
      ts_OperatorDenylist = (\<lambda>s. read_result fault (pg_OperatorDenylist s)),
      ts_AddOperatorDenylistEntry = (\<lambda>e s. apfst (map_sum pg_trust_error id) (pg_AddOperatorDenylistEntry fault clk e s)),
      ts_OperatorTrustVersion = (\<lambda>s. read_result fault (pg_OperatorTrustVersion render s))\<rparr>"

definition mem_OperatorDenylist :: "mem_store \<Rightarrow> trust_error + denylist_entry list" where
  "mem_OperatorDenylist s = Inr []"

definition mem_AddOperatorDenylistEntry :: "denylist_entry \<Rightarrow> mem_store \<Rightarrow> (trust_error + bool) \<times> mem_store" where
  "mem_AddOperatorDenylistEntry e s = (Inl DatabaseRequired, s)"

definition mem_trust :: "mem_store trust_store" where
  "mem_trust =
     \<lparr>ts_OperatorCRLs = (\<lambda>s. Inr (OperatorCRLs s)),
      ts_PutOperatorCRL = (\<lambda>c decide s. apfst (map_sum CrlRefused id) (PutOperatorCRL c decide s)),
      ts_OperatorDenylist = mem_OperatorDenylist,
      ts_AddOperatorDenylistEntry = mem_AddOperatorDenylistEntry,
      ts_OperatorTrustVersion = (\<lambda>s. Inr (OperatorTrustVersion s))\<rparr>"

subsection \<open>State and refusals\<close>

definition PolicySoft :: string where "PolicySoft = ''soft''"
definition PolicyHard :: string where "PolicyHard = ''hard''"
definition BadgeNotObserved :: string where "BadgeNotObserved = ''CA revocations not observed''"
definition BadgeOCSPOnly :: string where "BadgeOCSPOnly = ''CA revocations seen through OCSP only''"
definition KindCRLExpired :: string where "KindCRLExpired = ''operator-crl-expired''"
definition maxDenylistAge :: duration where "maxDenylistAge = 5 * Minute"
definition staleLogEvery :: duration where "staleLogEvery = 60 * Minute"

datatype error_reason =
    REASON_UNSPECIFIED | DATABASE_REQUIRED | FIRST_RUN_DISABLED | NOT_A_CA | EXPIRING | KEY_TYPE | IS_NODE_CA | CRL_SIGN_MISSING
  | NO_CRL_NOT_ACKNOWLEDGED | CRL_UNREACHABLE | CRL_INVALID | CRL_ROLLBACK | OCSP_UNREACHABLE | OCSP_INVALID | NOT_CONFIRMED
  | ROTATION_IN_PROGRESS | SIZE | SIGNATURE | SUBJECT_MISMATCH | STALE_CRL | STALE_OCSP | STALE_DENYLIST | NO_CRL | NOT_CHAINED
  | NOT_ACTIVE_ANCHOR | WRONG_LEVEL | LEVEL_EXT_CRITICAL | EKU | KEY_USAGE | BASIC_CONSTRAINTS | KEY_MISMATCH | REVOKED | REVOKED_OCSP
  | OCSP_UNKNOWN | DUPLICATE | NOT_FOUND | EXPIRED | NOT_PENDING | FULL_NAME

definition CodeCertRejected :: nat where "CodeCertRejected = 1610"
definition CodeUnavailable :: nat where "CodeUnavailable = 1603"

record refusal =
  rf_Code :: nat
  rf_Reason :: error_reason
  rf_Cause :: string

definition Reasoned :: "nat \<Rightarrow> error_reason \<Rightarrow> string \<Rightarrow> refusal" where
  "Reasoned code reason cause = \<lparr>rf_Code = code, rf_Reason = reason, rf_Cause = cause\<rparr>"

definition rejectCert :: "error_reason \<Rightarrow> string \<Rightarrow> refusal" where
  "rejectCert reason cause = Reasoned CodeCertRejected reason (''operatorca: '' @ cause)"

record anchorState =
  st_anchor :: Anchor
  st_denied :: "string list"
  st_crl :: "VerifiedCRL option"
  st_lastError :: string
  st_lastStaleLog :: gotime
  st_expiredAudited :: bool
  st_ocspOutage :: bool
  st_lastOCSPLog :: gotime

record Revocations =
  rv_policy :: string
  rv_anchors :: "(string, anchorState) gomap"
  rv_denylist :: "(string, string list) gomap"
  rv_polledAt :: gotime
  rv_ocsp :: "OCSPClient option"

definition NewRevocations :: "string \<Rightarrow> bool \<Rightarrow> Revocations" where
  "NewRevocations policy fetcher =
     \<lparr>rv_policy = (if policy = [] then PolicySoft else policy), rv_anchors = [], rv_denylist = [], rv_polledAt = 0,
      rv_ocsp = (if fetcher then Some NewOCSPClient else None)\<rparr>"

definition denied :: "(string, string list) gomap \<Rightarrow> string \<Rightarrow> string list" where
  "denied m sha = (case mget m sha of None \<Rightarrow> [] | Some l \<Rightarrow> l)"

subsection \<open>Anchors\<close>

definition new_anchor_state :: "Anchor \<Rightarrow> anchorState" where
  "new_anchor_state a = \<lparr>st_anchor = a, st_denied = [], st_crl = None, st_lastError = [], st_lastStaleLog = 0,
     st_expiredAudited = False, st_ocspOutage = False, st_lastOCSPLog = 0\<rparr>"

definition responder_changed :: "Anchor \<Rightarrow> Anchor \<Rightarrow> bool" where
  "responder_changed a b \<longleftrightarrow> an_OCSPMode a \<noteq> an_OCSPMode b \<or> an_OCSPURL a \<noteq> an_OCSPURL b"

definition moved :: "Revocations \<Rightarrow> Anchor \<Rightarrow> bool" where
  "moved r a \<longleftrightarrow> rv_ocsp r \<noteq> None \<and>
     (case mget (rv_anchors r) (an_SHA256 a) of None \<Rightarrow> False | Some st \<Rightarrow> responder_changed (st_anchor st) a)"

definition next_state :: "Revocations \<Rightarrow> Anchor \<Rightarrow> anchorState" where
  "next_state r a =
     (let st = (case mget (rv_anchors r) (an_SHA256 a) of None \<Rightarrow> new_anchor_state a | Some st \<Rightarrow> st);
          st = (if moved r a then st\<lparr>st_ocspOutage := False\<rparr> else st)
      in st\<lparr>st_anchor := a, st_denied := denied (rv_denylist r) (an_SHA256 a)\<rparr>)"

text \<open>
  One turn of the loop of \<^verbatim>\<open>SetAnchors\<close>. The states are shared by pointer: an anchor listed twice is
  changed twice, so the loop reads the old map as it has become.
\<close>

definition set_anchor :: "Anchor \<Rightarrow> Revocations \<times> (string, anchorState) gomap \<Rightarrow> Revocations \<times> (string, anchorState) gomap" where
  "set_anchor a rn =
     (let (r, next) = rn;
          st = next_state r a;
          r1 = (if moved r a then r\<lparr>rv_ocsp := map_option (ClearAnchor (an_SHA256 a)) (rv_ocsp r)\<rparr> else r);
          r2 = (if mget (rv_anchors r) (an_SHA256 a) = None then r1 else r1\<lparr>rv_anchors := mput (an_SHA256 a) st (rv_anchors r)\<rparr>)
      in (r2, mput (an_SHA256 a) st next))"

definition SetAnchors :: "Anchor list \<Rightarrow> Revocations \<Rightarrow> Revocations" where
  "SetAnchors as r = (let (r, next) = fold set_anchor as (r, []) in r\<lparr>rv_anchors := next\<rparr>)"

definition rv_Anchors :: "Revocations \<Rightarrow> Anchor list" where
  "rv_Anchors r = map st_anchor (mvals (rv_anchors r))"

subsection \<open>Loading\<close>

definition deny_set :: "denylist_entry list \<Rightarrow> (string, string list) gomap" where
  "deny_set es = fold (\<lambda>e m. mput (deny_IssuerSHA256 e) (List.insert (NormalizeSerial (deny_SerialHex e)) (denied m (deny_IssuerSHA256 e))) m) es []"

definition on_anchors :: "(string \<Rightarrow> anchorState \<Rightarrow> anchorState) \<Rightarrow> Revocations \<Rightarrow> Revocations" where
  "on_anchors f r = r\<lparr>rv_anchors := map (\<lambda>(sha, st). (sha, f sha st)) (rv_anchors r)\<rparr>"

text \<open>
  The store is read before the lock is taken: \<open>reloadDenylist\<close> gets what was read, and other calls may
  come between the reading and this.
\<close>

definition install_denylist :: "denylist_entry list \<Rightarrow> Revocations \<Rightarrow> Revocations" where
  "install_denylist es r = on_anchors (\<lambda>sha st. st\<lparr>st_denied := denied (deny_set es) sha\<rparr>) (r\<lparr>rv_denylist := deny_set es\<rparr>)"

definition reloadDenylist :: "trust_error + denylist_entry list \<Rightarrow> Revocations \<Rightarrow> trust_error option \<times> Revocations" where
  "reloadDenylist dl r = (case dl of Inl e \<Rightarrow> (Some e, r) | Inr es \<Rightarrow> (None, install_denylist es r))"

definition reload_anchor :: "crl_lib \<Rightarrow> gotime \<Rightarrow> operator_crl option \<Rightarrow> anchorState \<Rightarrow> anchorState" where
  "reload_anchor lib now stored st =
     (let st = (case stored of None \<Rightarrow> st | Some c \<Rightarrow> st\<lparr>st_lastError := crl_LastError c\<rparr>);
          st = (case Option.bind stored crl_DER of
                  None \<Rightarrow> st
                | Some der \<Rightarrow>
                    if map_option v_DER (st_crl st) = Some der then st
                    else (case VerifyCRL lib der (an_Cert (st_anchor st)) now of
                            Inl _ \<Rightarrow> st
                          | Inr v \<Rightarrow> st\<lparr>st_crl := Some v, st_expiredAudited := (if Fresh v now then False else st_expiredAudited st)\<rparr>))
      in if HasCRL (st_anchor st) \<and> st_crl st = None then st\<lparr>st_lastStaleLog := now\<rparr> else st)"

definition by_issuer :: "operator_crl list \<Rightarrow> string \<Rightarrow> operator_crl option" where
  "by_issuer cs = map_of (rev (map (\<lambda>c. (crl_IssuerSHA256 c, c)) cs))"

definition Reload ::
  "crl_lib \<Rightarrow> gotime \<Rightarrow> trust_error + denylist_entry list \<Rightarrow> trust_error + operator_crl list \<Rightarrow> Revocations \<Rightarrow> trust_error option \<times> Revocations" where
  "Reload lib now dl crls r =
     (case reloadDenylist dl r of
        (Some e, r) \<Rightarrow> (Some e, r)
      | (None, r) \<Rightarrow>
          (case crls of
             Inl e \<Rightarrow> (Some e, r)
           | Inr cs \<Rightarrow> (None, (on_anchors (\<lambda>sha st. reload_anchor lib now (by_issuer cs sha) st) r)\<lparr>rv_polledAt := now\<rparr>)))"

definition MarkPolled :: "gotime \<Rightarrow> Revocations \<Rightarrow> Revocations" where
  "MarkPolled now r = r\<lparr>rv_polledAt := now\<rparr>"

definition revokedLocked :: "Revocations \<Rightarrow> string \<Rightarrow> string \<Rightarrow> bool" where
  "revokedLocked r sha serial \<longleftrightarrow>
     serial \<in> set (denied (rv_denylist r) sha) \<or>
     (case mget (rv_anchors r) sha of
        None \<Rightarrow> False
      | Some st \<Rightarrow> (case st_crl st of None \<Rightarrow> False | Some v \<Rightarrow> crl_IsRevoked v serial))"

definition IsRevoked :: "Revocations \<Rightarrow> string \<Rightarrow> string \<Rightarrow> bool" where
  "IsRevoked r sha serial = revokedLocked r sha (NormalizeSerial serial)"

definition Denylisted :: "Revocations \<Rightarrow> string \<Rightarrow> string \<Rightarrow> bool" where
  "Denylisted r sha serial \<longleftrightarrow> NormalizeSerial serial \<in> set (denied (rv_denylist r) sha)"

definition CRLRevoked :: "Revocations \<Rightarrow> string \<Rightarrow> string \<Rightarrow> bool" where
  "CRLRevoked r sha serial \<longleftrightarrow>
     (case mget (rv_anchors r) sha of
        None \<Rightarrow> False
      | Some st \<Rightarrow> (case st_crl st of None \<Rightarrow> False | Some v \<Rightarrow> crl_IsRevoked v (NormalizeSerial serial)))"

definition RecordCRLError :: "string \<Rightarrow> string \<Rightarrow> Revocations \<Rightarrow> Revocations" where
  "RecordCRLError sha msg r =
     (case mget (rv_anchors r) sha of
        None \<Rightarrow> r
      | Some st \<Rightarrow> r\<lparr>rv_anchors := mput sha (st\<lparr>st_lastError := msg\<rparr>) (rv_anchors r)\<rparr>)"

definition rv_CRL :: "Revocations \<Rightarrow> string \<Rightarrow> VerifiedCRL option" where
  "rv_CRL r sha = Option.bind (mget (rv_anchors r) sha) st_crl"

subsection \<open>Writing\<close>

definition Deny ::
  "'s trust_store \<Rightarrow> gotime \<Rightarrow> denylist_entry \<Rightarrow> 's \<Rightarrow> Revocations \<Rightarrow> (trust_error option \<times> nat option) \<times> 's \<times> Revocations" where
  "Deny T now e s r =
     (let e = e\<lparr>deny_SerialHex := NormalizeSerial (deny_SerialHex e), deny_RevokedAt := default_time now (deny_RevokedAt e)\<rparr>
      in case ts_AddOperatorDenylistEntry T e s of
           (Inl err, s) \<Rightarrow> ((Some err, if err = DatabaseRequired then Some CodeUnavailable else None), s, r)
         | (Inr _, s) \<Rightarrow> (let (err, r) = reloadDenylist (ts_OperatorDenylist T s) r in ((err, None), s, r)))"

definition use_crl :: "gotime \<Rightarrow> string \<Rightarrow> VerifiedCRL \<Rightarrow> Revocations \<Rightarrow> Revocations" where
  "use_crl now sha v r =
     (case mget (rv_anchors r) sha of
        None \<Rightarrow> r
      | Some st \<Rightarrow> r\<lparr>rv_anchors := mput sha (st\<lparr>st_crl := Some v, st_lastError := [],
          st_expiredAudited := (if Fresh v now then False else st_expiredAudited st)\<rparr>) (rv_anchors r)\<rparr>)"

definition StoreCRL ::
  "'s trust_store \<Rightarrow> crl_lib \<Rightarrow> gotime \<Rightarrow> string \<Rightarrow> bytes \<Rightarrow> string \<Rightarrow> 's \<Rightarrow> Revocations \<Rightarrow> (trust_error + bool) \<times> 's \<times> Revocations" where
  "StoreCRL T lib now sha der source s r =
     (case mget (rv_anchors r) sha of
        None \<Rightarrow> (Inl UnknownAnchor, s, r)
      | Some st \<Rightarrow>
          (case VerifyCRL lib der (an_Cert (st_anchor st)) now of
             Inl e \<Rightarrow> (Inl (CrlRefused e), s, r)
           | Inr v \<Rightarrow>
               (case ts_PutOperatorCRL T (crl_row sha now source v) (AcceptNewer v) s of
                  (Inl e, s) \<Rightarrow> (Inl e, s, r)
                | (Inr False, s) \<Rightarrow> (Inr False, s, r)
                | (Inr True, s) \<Rightarrow> (Inr True, s, use_crl now sha v r))))"

subsection \<open>Decisions\<close>

definition revoked_refusal :: "string \<Rightarrow> Anchor \<Rightarrow> refusal" where
  "revoked_refusal serial a =
     rejectCert REVOKED (''serial '' @ serial @ '' under operator CA '' @ an_name a @ '' is on the denylist or in the CRL'')"

definition unknownAnchor :: "string \<Rightarrow> refusal" where
  "unknownAnchor sha = Reasoned CodeCertRejected NOT_CHAINED (''operatorca: not a trusted operator CA: '' @ sha)"

definition noRevocationSource :: "error_reason \<Rightarrow> string \<Rightarrow> refusal" where
  "noRevocationSource reason cause = Reasoned CodeNoRevocationSource reason (''operatorca: '' @ cause)"

definition responderFor :: "Revocations \<Rightarrow> Anchor \<Rightarrow> certificate option \<Rightarrow> string" where
  "responderFor r a leaf = (if rv_ocsp r = None then [] else ResponderURL a leaf)"

definition ocspRefusal :: "OCSPResult \<Rightarrow> string \<Rightarrow> Anchor \<Rightarrow> refusal option" where
  "ocspRefusal res serial a =
     (case res_Status res of
        OCSPGood \<Rightarrow> None
      | OCSPRevoked \<Rightarrow> Some (rejectCert REVOKED_OCSP
          (''the OCSP responder for operator CA '' @ an_name a @ '' says serial '' @ serial @ '' is revoked''))
      | OCSPUnknown \<Rightarrow> Some (rejectCert OCSP_UNKNOWN
          (''the OCSP responder for operator CA '' @ an_name a @ '' says serial '' @ serial @ '' is unknown, which counts as revoked'')))"

definition endOCSPOutage :: "string \<Rightarrow> Revocations \<Rightarrow> Revocations" where
  "endOCSPOutage sha r =
     (case mget (rv_anchors r) sha of
        None \<Rightarrow> r
      | Some st \<Rightarrow> if st_ocspOutage st then r\<lparr>rv_anchors := mput sha (st\<lparr>st_ocspOutage := False\<rparr>) (rv_anchors r)\<rparr> else r)"

definition anchor_event :: "string \<Rightarrow> string \<Rightarrow> Anchor \<Rightarrow> audit_event" where
  "anchor_event kind summary a =
     zero_event\<lparr>ev_Kind := kind, ev_Summary := summary, ev_TargetKind := ''operator-ca'', ev_TargetPath := ''/operator-cas/'' @ an_SHA256 a\<rparr>"

definition noteOCSPOutageLocked :: "gotime \<Rightarrow> anchorState \<Rightarrow> audit_event list \<times> anchorState" where
  "noteOCSPOutageLocked now st =
     (let st = (if IsZero (st_lastOCSPLog st) \<or> staleLogEvery \<le> now - st_lastOCSPLog st then st\<lparr>st_lastOCSPLog := now\<rparr> else st)
      in if st_ocspOutage st then ([], st)
         else ([anchor_event KindOCSPUnavailable
             (''No fresh OCSP response and no fresh CRL for operator CA '' @ an_name (st_anchor st) @
              ''; certificates are allowed under operatorRevocationPolicy soft until the responder answers'') (st_anchor st)],
           st\<lparr>st_ocspOutage := True\<rparr>))"

definition noteStaleLocked :: "gotime \<Rightarrow> anchorState \<Rightarrow> audit_event list \<times> anchorState" where
  "noteStaleLocked now st =
     (let st = (if IsZero (st_lastStaleLog st) \<or> staleLogEvery \<le> now - st_lastStaleLog st then st\<lparr>st_lastStaleLog := now\<rparr> else st)
      in case st_crl st of
           None \<Rightarrow> ([], st)
         | Some v \<Rightarrow>
             if st_expiredAudited st then ([], st)
             else ([anchor_event KindCRLExpired
                 (''The CRL for operator CA '' @ an_name (st_anchor st) @ '' expired at '' @ rfc3339 (rl_NextUpdate (v_List v)) @
                  ''; the last good CRL and the denylist stay enforced'') (st_anchor st)],
               st\<lparr>st_expiredAudited := True\<rparr>))"

text \<open>
  What an OCSP check meets: the time it starts, the answer of the responder if it is asked and the time
  that arrives, and the time the decision is taken.
\<close>

record ocsp_io =
  io_redact :: "string \<Rightarrow> string"
  io_now :: gotime
  io_answer :: ocsp_answer
  io_later :: gotime
  io_end :: gotime

definition ask_responder :: "ocsp_io \<Rightarrow> Anchor \<Rightarrow> int \<Rightarrow> string \<Rightarrow> Revocations \<Rightarrow> ocsp_answer \<times> audit_event list \<times> Revocations" where
  "ask_responder io a serial responder r =
     (case rv_ocsp r of
        None \<Rightarrow> (Inl (OCSPUnreachable []), [], r)
      | Some c \<Rightarrow>
          (let (ck, c) = OCSPCheck (io_redact io) (io_now io) (io_later io) (io_answer io) a serial responder c
           in (ck_answer ck, ck_audits ck, r\<lparr>rv_ocsp := Some c\<rparr>)))"

text \<open>The second half of \<^verbatim>\<open>checkWeb\<close>, under the write lock: no OCSP answer was had.\<close>

definition web_without_ocsp :: "gotime \<Rightarrow> string \<Rightarrow> string \<Rightarrow> string \<Rightarrow> Revocations \<Rightarrow> refusal option \<times> audit_event list \<times> Revocations" where
  "web_without_ocsp now sha key responder r =
     (case mget (rv_anchors r) sha of
        None \<Rightarrow> (Some (unknownAnchor sha), [], r)
      | Some st \<Rightarrow>
          (let has = HasCRL (st_anchor st);
               crlFresh = (has \<and> (case st_crl st of None \<Rightarrow> False | Some v \<Rightarrow> Fresh v now))
           in if crlFresh \<or> (\<not> has \<and> responder = []) then (None, [], r)
              else if rv_policy r = PolicyHard then
                (Some (if responder \<noteq> []
                   then noRevocationSource STALE_OCSP (''no fresh OCSP response and no fresh CRL for serial '' @ key @
                     '' under operator CA '' @ an_name (st_anchor st) @ '', and operatorRevocationPolicy is hard'')
                   else noRevocationSource STALE_CRL (''no fresh CRL for operator CA '' @ an_name (st_anchor st) @
                     '' and operatorRevocationPolicy is hard'')), [], r)
              else
                (let (ev1, st) = (if has then noteStaleLocked now st else ([], st));
                     (ev2, st) = (if responder \<noteq> [] then noteOCSPOutageLocked now st else ([], st))
                 in (None, ev1 @ ev2, r\<lparr>rv_anchors := mput sha st (rv_anchors r)\<rparr>))))"

text \<open>
  \<open>rd\<close> is the engine as the call first reads it, \<open>r\<close> as it is when the OCSP answer has arrived: another
  call may have changed it between the two locks.
\<close>

definition checkWeb ::
  "ocsp_io \<Rightarrow> string \<Rightarrow> int \<Rightarrow> certificate option \<Rightarrow> Revocations \<Rightarrow> Revocations \<Rightarrow> refusal option \<times> audit_event list \<times> Revocations" where
  "checkWeb io sha serial leaf rd r =
     (let key = SerialKey serial
      in case mget (rv_anchors rd) sha of
           None \<Rightarrow> (Some (unknownAnchor sha), [], r)
         | Some st \<Rightarrow>
             (let a = st_anchor st
              in if revokedLocked rd sha key then (Some (revoked_refusal key a), [], r)
                 else
                   (let responder = responderFor rd a leaf
                    in if responder = [] then web_without_ocsp (io_end io) sha key responder r
                       else (case ask_responder io a serial responder r of
                               (Inr res, ev, r) \<Rightarrow> (ocspRefusal res key a, ev, endOCSPOutage sha r)
                             | (Inl _, ev, r) \<Rightarrow>
                                 (let (x, ev', r) = web_without_ocsp (io_end io) sha key responder r in (x, ev @ ev', r))))))"

text \<open>\<^verbatim>\<open>big.Int.SetString(s, 16)\<close>: an optional sign and hexadecimal digits.\<close>

definition hex_value :: "char \<Rightarrow> nat option" where
  "hex_value c =
     (if CHR ''0'' \<le> c \<and> c \<le> CHR ''9'' then Some (of_char c - 48)
      else if CHR ''a'' \<le> c \<and> c \<le> CHR ''f'' then Some (of_char c - 87)
      else if CHR ''A'' \<le> c \<and> c \<le> CHR ''F'' then Some (of_char c - 55) else None)"

fun hex_digits :: "string \<Rightarrow> nat \<Rightarrow> nat option" where
  "hex_digits [] acc = Some acc"
| "hex_digits (c # cs) acc = (case hex_value c of None \<Rightarrow> None | Some d \<Rightarrow> hex_digits cs (acc * 16 + d))"

definition hex_number :: "string \<Rightarrow> int option" where
  "hex_number s = (if s = [] then None else map_option int (hex_digits s 0))"

definition SetString16 :: "string \<Rightarrow> int option" where
  "SetString16 s =
     (case s of
        [] \<Rightarrow> None
      | c # cs \<Rightarrow> if c = CHR ''-'' then map_option uminus (hex_number cs)
                  else if c = CHR ''+'' then hex_number cs else hex_number s)"

definition not_hex :: "(string \<Rightarrow> string) \<Rightarrow> string \<Rightarrow> refusal" where
  "not_hex quote serial = rejectCert REVOKED (''serial '' @ quote serial @ '' isn't hex'')"

definition CheckWeb ::
  "(string \<Rightarrow> string) \<Rightarrow> ocsp_io \<Rightarrow> string \<Rightarrow> string \<Rightarrow> Revocations \<Rightarrow> Revocations \<Rightarrow> refusal option \<times> audit_event list \<times> Revocations" where
  "CheckWeb quote io sha serial rd r =
     (case SetString16 (NormalizeSerial serial) of
        None \<Rightarrow> (Some (not_hex quote serial), [], r)
      | Some n \<Rightarrow> checkWeb io sha n None rd r)"

definition CheckWebCert ::
  "ocsp_io \<Rightarrow> string \<Rightarrow> certificate \<Rightarrow> Revocations \<Rightarrow> Revocations \<Rightarrow> refusal option \<times> audit_event list \<times> Revocations" where
  "CheckWebCert io sha leaf rd r = checkWeb io sha (cert_SerialNumber leaf) (Some leaf) rd r"

definition checkMCPSets :: "gotime \<Rightarrow> string \<Rightarrow> string \<Rightarrow> Revocations \<Rightarrow> refusal + Anchor" where
  "checkMCPSets now sha serial r =
     (case mget (rv_anchors r) sha of
        None \<Rightarrow> Inl (unknownAnchor sha)
      | Some st \<Rightarrow>
          if revokedLocked r sha serial then Inl (revoked_refusal serial (st_anchor st))
          else if now - rv_polledAt r > maxDenylistAge then
            Inl (noRevocationSource STALE_DENYLIST (''the last successful revocation poll was at '' @ rfc3339 (rv_polledAt r) @
              '', more than 5 minutes ago''))
          else if \<not> HasCRL (st_anchor st) then
            Inl (noRevocationSource NO_CRL (''operator CA '' @ an_name (st_anchor st) @ '' has no CRL source, and MCP needs one''))
          else if (case st_crl st of None \<Rightarrow> True | Some v \<Rightarrow> \<not> Fresh v now) then
            Inl (noRevocationSource STALE_CRL (''no CRL within nextUpdate for operator CA '' @ an_name (st_anchor st)))
          else Inr (st_anchor st))"

definition checkMCP ::
  "ocsp_io \<Rightarrow> string \<Rightarrow> int \<Rightarrow> certificate option \<Rightarrow> Revocations \<Rightarrow> Revocations \<Rightarrow> refusal option \<times> audit_event list \<times> Revocations" where
  "checkMCP io sha serial cert rd r =
     (let key = SerialKey serial
      in case checkMCPSets (io_now io) sha key rd of
           Inl e \<Rightarrow> (Some e, [], r)
         | Inr a \<Rightarrow>
             (let responder = responderFor rd a cert
              in if responder = [] then (None, [], r)
                 else (case ask_responder io a serial responder r of
                         (Inl _, ev, r) \<Rightarrow> (None, ev, r)
                       | (Inr res, ev, r) \<Rightarrow> (ocspRefusal res key a, ev, endOCSPOutage sha r))))"

definition rv_CheckMCP ::
  "(string \<Rightarrow> string) \<Rightarrow> ocsp_io \<Rightarrow> string \<Rightarrow> string \<Rightarrow> Revocations \<Rightarrow> Revocations \<Rightarrow> refusal option \<times> audit_event list \<times> Revocations" where
  "rv_CheckMCP quote io sha serial rd r =
     (case SetString16 (NormalizeSerial serial) of
        None \<Rightarrow> (Some (not_hex quote serial), [], r)
      | Some n \<Rightarrow> checkMCP io sha n None rd r)"

definition rv_CheckMCPCert ::
  "ocsp_io \<Rightarrow> string \<Rightarrow> certificate \<Rightarrow> Revocations \<Rightarrow> Revocations \<Rightarrow> refusal option \<times> audit_event list \<times> Revocations" where
  "rv_CheckMCPCert io sha cert rd r = checkMCP io sha (cert_SerialNumber cert) (Some cert) rd r"

subsection \<open>Status\<close>

record AnchorStatus =
  as_CRLConfigured :: bool
  as_CRLLoaded :: bool
  as_CRLFresh :: bool
  as_ThisUpdate :: gotime
  as_NextUpdate :: gotime
  as_RevokedCount :: nat
  as_LastError :: string
  as_Banner :: string
  as_Badge :: string
  as_OCSPBanner :: string

definition zero_status :: AnchorStatus where
  "zero_status = \<lparr>as_CRLConfigured = False, as_CRLLoaded = False, as_CRLFresh = False, as_ThisUpdate = 0, as_NextUpdate = 0,
     as_RevokedCount = 0, as_LastError = [], as_Banner = [], as_Badge = [], as_OCSPBanner = []\<rparr>"

text \<open>\<open>share\<close> is the product with \<^verbatim>\<open>expiringShare\<close> in floating point.\<close>

definition crl_banner :: "(duration \<Rightarrow> duration) \<Rightarrow> gotime \<Rightarrow> Anchor \<Rightarrow> revocation_list \<Rightarrow> string" where
  "crl_banner share now a l =
     (let next = rfc3339 (rl_NextUpdate l)
      in if \<not> now < rl_NextUpdate l then ''The CRL for operator CA '' @ an_name a @ '' expired at '' @ next @ ''.''
         else if rl_NextUpdate l - now < share (rl_NextUpdate l - rl_ThisUpdate l) then
           (if an_CRLSource a = CRLSourceUpload then ''Upload a new CRL for operator CA '' @ an_name a @ '' before '' @ next @ ''.''
            else ''The CRL for operator CA '' @ an_name a @ '' expires at '' @ next @ ''.'')
         else [])"

definition rv_Status :: "(duration \<Rightarrow> duration) \<Rightarrow> gotime \<Rightarrow> string \<Rightarrow> Revocations \<Rightarrow> AnchorStatus" where
  "rv_Status share now sha r =
     (case mget (rv_anchors r) sha of
        None \<Rightarrow> zero_status
      | Some st \<Rightarrow>
          (let a = st_anchor st;
               out = zero_status\<lparr>as_CRLConfigured := HasCRL a, as_LastError := st_lastError st,
                 as_OCSPBanner := (if st_ocspOutage st then ''OCSP responder unreachable for '' @ an_name a @ ''.'' else [])\<rparr>
           in if \<not> HasCRL a then
                out\<lparr>as_Badge := (if an_OCSPMode a \<noteq> [] \<and> an_OCSPMode a \<noteq> OCSPModeOff then BadgeOCSPOnly else BadgeNotObserved)\<rparr>
              else (case st_crl st of
                      None \<Rightarrow> out\<lparr>as_Banner := ''No CRL has been loaded for operator CA '' @ an_name a @ '' yet.''\<rparr>
                    | Some v \<Rightarrow> out\<lparr>as_CRLLoaded := True, as_ThisUpdate := rl_ThisUpdate (v_List v), as_NextUpdate := rl_NextUpdate (v_List v),
                        as_RevokedCount := length (v_Revoked v), as_CRLFresh := Fresh v now,
                        as_Banner := crl_banner share now a (v_List v)\<rparr>)))"

subsection \<open>Polling\<close>

record Poller =
  po_last :: trust_version
  po_first :: bool

definition NewPoller :: Poller where
  "NewPoller = \<lparr>po_last = \<lparr>tv_CAs = [], tv_Epoch = 0\<rparr>, po_first = True\<rparr>"

text \<open>
  \<open>rebuild\<close> is the trust store, if the anchors can change. The version is read from the store as it is at
  \<open>sv\<close>; the anchors, the denylist and the CRLs are read later, at \<open>s\<close>.
\<close>

definition PollOnce ::
  "'s trust_store \<Rightarrow> crl_lib \<Rightarrow> gotime \<Rightarrow> ('s \<Rightarrow> Revocations \<Rightarrow> trust_error option \<times> Revocations) option \<Rightarrow> 's \<Rightarrow> 's \<Rightarrow> Poller \<Rightarrow> Revocations \<Rightarrow>
   trust_error option \<times> Poller \<times> Revocations" where
  "PollOnce T lib now rebuild sv s p r =
     (case ts_OperatorTrustVersion T sv of
        Inl e \<Rightarrow> (Some e, p, r)
      | Inr v \<Rightarrow>
          (let (err, r) =
             (case rebuild of
                None \<Rightarrow> (None, r)
              | Some f \<Rightarrow> if po_first p \<or> tv_CAs v \<noteq> tv_CAs (po_last p) then f s r else (None, r))
           in if err \<noteq> None then (err, p, r)
              else
                (let (err, r) =
                   (if po_first p \<or> tv_Epoch v \<noteq> tv_Epoch (po_last p)
                    then Reload lib now (ts_OperatorDenylist T s) (ts_OperatorCRLs T s) r
                    else (None, MarkPolled now r))
                 in if err \<noteq> None then (err, p, r) else (None, \<lparr>po_last = v, po_first = False\<rparr>, r))))"

subsection \<open>What the loads and checks do to the state\<close>

lemma mget_map_entries: "mget (map (\<lambda>(k, v). (k, f k v)) m) k = map_option (f k) (mget m k)"
  by (induction m) auto

lemma on_anchors_simps [simp]:
  "mget (rv_anchors (on_anchors f r)) sha = map_option (f sha) (mget (rv_anchors r) sha)"
  "rv_denylist (on_anchors f r) = rv_denylist r" "rv_policy (on_anchors f r) = rv_policy r"
  "rv_polledAt (on_anchors f r) = rv_polledAt r" "rv_ocsp (on_anchors f r) = rv_ocsp r"
  by (simp_all add: on_anchors_def mget_map_entries)

lemma denied_fold:
  "x \<in> set (denied (fold (\<lambda>e m. mput (deny_IssuerSHA256 e) (List.insert (NormalizeSerial (deny_SerialHex e)) (denied m (deny_IssuerSHA256 e))) m) es m) sha) \<longleftrightarrow>
   x \<in> set (denied m sha) \<or> (\<exists>e \<in> set es. deny_IssuerSHA256 e = sha \<and> NormalizeSerial (deny_SerialHex e) = x)"
proof (induction es arbitrary: m)
  case (Cons e es)
  have "x \<in> set (denied (mput i (List.insert y (denied m i)) m) sha) \<longleftrightarrow> x \<in> set (denied m sha) \<or> i = sha \<and> y = x" for i y
    by (auto simp: denied_def gomap_simps split: option.splits)
  then show ?case using Cons by auto
qed simp

lemma denied_deny_set:
  "x \<in> set (denied (deny_set es) sha) \<longleftrightarrow> (\<exists>e \<in> set es. deny_IssuerSHA256 e = sha \<and> NormalizeSerial (deny_SerialHex e) = x)"
  using denied_fold [of x es "[]" sha] by (simp add: deny_set_def denied_def)

lemma install_denylist_denied [simp]: "rv_denylist (install_denylist es r) = deny_set es"
  by (simp add: install_denylist_def)

lemma Reload_None:
  assumes "Reload lib now dl crls r = (None, r')"
  obtains es cs where "dl = Inr es" "crls = Inr cs" "rv_denylist r' = deny_set es" "rv_polledAt r' = now"
    "\<And>sha. mget (rv_anchors r') sha =
       map_option (\<lambda>st. reload_anchor lib now (by_issuer cs sha) (st\<lparr>st_denied := denied (deny_set es) sha\<rparr>)) (mget (rv_anchors r) sha)"
proof (cases dl)
  case (Inr es)
  then obtain cs where cs: "crls = Inr cs" using assms by (cases crls) (auto simp: Reload_def reloadDenylist_def)
  have r': "r' = (on_anchors (\<lambda>sha st. reload_anchor lib now (by_issuer cs sha) st) (install_denylist es r))\<lparr>rv_polledAt := now\<rparr>"
    using assms Inr cs by (simp add: Reload_def reloadDenylist_def)
  show thesis
    by (rule that [OF Inr cs]) (simp_all add: r' install_denylist_def option.map_comp comp_def)
qed (use assms in \<open>simp add: Reload_def reloadDenylist_def\<close>)

lemma web_without_ocsp_decision:
  "fst (web_without_ocsp now sha key responder r) = None \<longleftrightarrow>
     (\<exists>st. mget (rv_anchors r) sha = Some st \<and>
        (rv_policy r \<noteq> PolicyHard \<or> HasCRL (st_anchor st) \<and> (\<exists>v. st_crl st = Some v \<and> Fresh v now) \<or>
         \<not> HasCRL (st_anchor st) \<and> responder = []))"
  by (auto simp: web_without_ocsp_def Let_def split_beta split: option.splits)

lemma ocspRefusal_None: "ocspRefusal res serial a = None \<longleftrightarrow> res_Status res = OCSPGood"
  by (simp add: ocspRefusal_def split: OCSPStatus.split)

lemma ocspRefusal_good [simp]: "res_Status res = OCSPGood \<Longrightarrow> ocspRefusal res serial a = None"
  by (simp add: ocspRefusal_None)

text \<open>The answer an OCSP check had, if the certificate has a responder and it answered.\<close>

definition ocsp_answered :: "ocsp_io \<Rightarrow> Anchor \<Rightarrow> int \<Rightarrow> certificate option \<Rightarrow> Revocations \<Rightarrow> Revocations \<Rightarrow> OCSPResult option" where
  "ocsp_answered io a serial leaf rd r =
     (if responderFor rd a leaf = [] then None
      else case fst (ask_responder io a serial (responderFor rd a leaf) r) of Inl _ \<Rightarrow> None | Inr res \<Rightarrow> Some res)"

lemma ask_responder_frame:
  "rv_anchors (snd (snd (ask_responder io a serial url r))) = rv_anchors r" "rv_policy (snd (snd (ask_responder io a serial url r))) = rv_policy r"
  "rv_denylist (snd (snd (ask_responder io a serial url r))) = rv_denylist r" "rv_polledAt (snd (snd (ask_responder io a serial url r))) = rv_polledAt r"
  by (simp_all add: ask_responder_def Let_def split_beta split: option.split)

lemma checkWeb_answered:
  assumes "mget (rv_anchors rd) sha = Some st" and "\<not> revokedLocked rd sha (SerialKey n)"
    and "ocsp_answered io (st_anchor st) n leaf rd r = Some res"
  shows "fst (checkWeb io sha n leaf rd r) = ocspRefusal res (SerialKey n) (st_anchor st)"
  using assms by (auto simp: checkWeb_def ocsp_answered_def Let_def split_beta split: if_splits sum.splits prod.splits)

lemma checkWeb_unanswered:
  assumes "mget (rv_anchors rd) sha = Some st" and "\<not> revokedLocked rd sha (SerialKey n)"
    and "ocsp_answered io (st_anchor st) n leaf rd r = None"
  obtains ev r1 where "checkWeb io sha n leaf rd r =
      (let (x, ev', r2) = web_without_ocsp (io_end io) sha (SerialKey n) (responderFor rd (st_anchor st) leaf) r1 in (x, ev @ ev', r2))"
    "rv_anchors r1 = rv_anchors r" "rv_policy r1 = rv_policy r"
proof (cases "responderFor rd (st_anchor st) leaf = []")
  case True
  show thesis
    by (rule that [of r "[]"]) (use assms True in \<open>simp_all add: checkWeb_def Let_def\<close>)
next
  case False
  let ?a = "ask_responder io (st_anchor st) n (responderFor rd (st_anchor st) leaf) r"
  obtain e where e: "fst ?a = Inl e" using assms(3) False by (auto simp: ocsp_answered_def split: sum.splits)
  show thesis
    by (rule that [of "snd (snd ?a)" "fst (snd ?a)"])
      (use assms(1,2) False e in \<open>simp_all add: checkWeb_def Let_def split_beta ask_responder_frame split: prod.split\<close>)
qed

lemma checkWeb_iff:
  "fst (checkWeb io sha n leaf rd r) = None \<longleftrightarrow>
     (\<exists>st. mget (rv_anchors rd) sha = Some st \<and> SerialKey n \<notin> set (denied (rv_denylist rd) sha) \<and>
        (\<forall>v. st_crl st = Some v \<longrightarrow> \<not> crl_IsRevoked v (SerialKey n)) \<and>
        (case ocsp_answered io (st_anchor st) n leaf rd r of
           Some res \<Rightarrow> res_Status res = OCSPGood
         | None \<Rightarrow> (\<exists>st'. mget (rv_anchors r) sha = Some st' \<and>
             (rv_policy r \<noteq> PolicyHard \<or> HasCRL (st_anchor st') \<and> (\<exists>v. st_crl st' = Some v \<and> Fresh v (io_end io)) \<or>
              \<not> HasCRL (st_anchor st') \<and> responderFor rd (st_anchor st) leaf = []))))"
proof (cases "mget (rv_anchors rd) sha")
  case None
  then show ?thesis by (simp add: checkWeb_def)
next
  case (Some st)
  have rev: "revokedLocked rd sha (SerialKey n) \<longleftrightarrow> SerialKey n \<in> set (denied (rv_denylist rd) sha) \<or>
      (\<exists>v. st_crl st = Some v \<and> crl_IsRevoked v (SerialKey n))"
    using Some by (simp add: revokedLocked_def split: option.split)
  show ?thesis
  proof (cases "revokedLocked rd sha (SerialKey n)")
    case True
    then show ?thesis using Some rev by (auto simp: checkWeb_def)
  next
    case False
    show ?thesis
    proof (cases "ocsp_answered io (st_anchor st) n leaf rd r")
      case None
      obtain ev r1 where r1: "checkWeb io sha n leaf rd r =
          (let (x, ev', r2) = web_without_ocsp (io_end io) sha (SerialKey n) (responderFor rd (st_anchor st) leaf) r1 in (x, ev @ ev', r2))"
        "rv_anchors r1 = rv_anchors r" "rv_policy r1 = rv_policy r"
        by (rule checkWeb_unanswered [OF Some False None])
      have "fst (checkWeb io sha n leaf rd r) = fst (web_without_ocsp (io_end io) sha (SerialKey n) (responderFor rd (st_anchor st) leaf) r1)"
        by (simp add: r1(1) split_beta)
      then show ?thesis
        using web_without_ocsp_decision [of "io_end io" sha "SerialKey n" "responderFor rd (st_anchor st) leaf" r1] rev False Some None
        by (auto simp: r1(2,3))
    next
      case res: (Some res)
      then show ?thesis using checkWeb_answered [OF Some False res] rev False Some by (auto simp: ocspRefusal_None)
    qed
  qed
qed

text \<open>The web path lets a certificate through exactly when its operator CA is trusted, neither the denylist nor
  the last good CRL lists it, and, where the OCSP responder answered, it answered good, and where not, a CRL is
  fresh, or there is nothing to check against, or the policy is not hard. Under the hard policy missing
  revocation data is therefore never enough.\<close>

theorem checkWeb_decision:
  "fst (checkWeb io sha n leaf rd r) = None \<longleftrightarrow>
     (\<exists>st. mget (rv_anchors rd) sha = Some st \<and> SerialKey n \<notin> set (denied (rv_denylist rd) sha) \<and>
        (\<forall>v. st_crl st = Some v \<longrightarrow> \<not> crl_IsRevoked v (SerialKey n)) \<and>
        (case ocsp_answered io (st_anchor st) n leaf rd r of
           Some res \<Rightarrow> res_Status res = OCSPGood
         | None \<Rightarrow> (\<exists>st'. mget (rv_anchors r) sha = Some st' \<and>
             (rv_policy r \<noteq> PolicyHard \<or> HasCRL (st_anchor st') \<and> (\<exists>v. st_crl st' = Some v \<and> Fresh v (io_end io)) \<or>
              \<not> HasCRL (st_anchor st') \<and> responderFor rd (st_anchor st) leaf = []))))"
  by (rule checkWeb_iff)

text \<open>What an agent key needs of its certificate before OCSP is asked.\<close>

definition mcp_data :: "gotime \<Rightarrow> anchorState \<Rightarrow> Revocations \<Rightarrow> bool" where
  "mcp_data now st r \<longleftrightarrow> now - rv_polledAt r \<le> maxDenylistAge \<and> HasCRL (st_anchor st) \<and> (\<exists>v. st_crl st = Some v \<and> Fresh v now)"

lemma checkMCPSets_cases:
  obtains (unknown) "mget (rv_anchors r) sha = None" "checkMCPSets now sha key r = Inl (unknownAnchor sha)"
  | (revoked) st where "mget (rv_anchors r) sha = Some st" "revokedLocked r sha key" "checkMCPSets now sha key r = Inl (revoked_refusal key (st_anchor st))"
  | (stale) st reason cause where "mget (rv_anchors r) sha = Some st" "\<not> revokedLocked r sha key" "\<not> mcp_data now st r"
      "checkMCPSets now sha key r = Inl (noRevocationSource reason cause)"
  | (ok) st where "mget (rv_anchors r) sha = Some st" "\<not> revokedLocked r sha key" "mcp_data now st r" "checkMCPSets now sha key r = Inr (st_anchor st)"
proof (cases "mget (rv_anchors r) sha")
  case None
  then show thesis by (intro unknown) (simp_all add: checkMCPSets_def)
next
  case (Some st)
  show thesis
  proof (cases "revokedLocked r sha key")
    case True
    then show thesis using Some by (intro revoked) (simp_all add: checkMCPSets_def)
  next
    case False
    show thesis
    proof (cases "mcp_data now st r")
      case True
      then show thesis using Some False by (intro ok) (auto simp: checkMCPSets_def mcp_data_def)
    next
      case data: False
      have "\<exists>reason cause. checkMCPSets now sha key r = Inl (noRevocationSource reason cause)"
        using Some False data by (auto simp: checkMCPSets_def mcp_data_def not_le split: option.splits)
      then show thesis using stale [OF Some False data] by blast
    qed
  qed
qed

lemma refusal_codes [simp]:
  "rf_Code (unknownAnchor sha) = CodeCertRejected" "rf_Code (revoked_refusal key a) = CodeCertRejected"
  "rf_Code (noRevocationSource reason cause) = CodeNoRevocationSource"
  "ocspRefusal res key a = Some e \<Longrightarrow> rf_Code e = CodeCertRejected"
  by (auto simp: unknownAnchor_def revoked_refusal_def noRevocationSource_def rejectCert_def Reasoned_def ocspRefusal_def
      split: OCSPStatus.splits)

lemma codes_differ [simp]: "CodeCertRejected \<noteq> CodeNoRevocationSource" "CodeNoRevocationSource \<noteq> CodeCertRejected"
  by (simp_all add: CodeCertRejected_def CodeNoRevocationSource_def)

lemma checkMCP_ok:
  assumes "checkMCPSets (io_now io) sha (SerialKey n) rd = Inr a"
  shows "fst (checkMCP io sha n cert rd r) =
    (case ocsp_answered io a n cert rd r of None \<Rightarrow> None | Some res \<Rightarrow> ocspRefusal res (SerialKey n) a)"
  using assms by (simp add: checkMCP_def ocsp_answered_def Let_def split_beta split: sum.split prod.split)

lemma checkMCP_refused:
  "checkMCPSets (io_now io) sha (SerialKey n) rd = Inl e \<Longrightarrow> checkMCP io sha n cert rd r = (Some e, [], r)"
  by (simp add: checkMCP_def Let_def)

lemma checkMCP_iff:
  "(fst (checkMCP io sha n cert rd r) = None \<longleftrightarrow>
     (\<exists>st v. mget (rv_anchors rd) sha = Some st \<and> SerialKey n \<notin> set (denied (rv_denylist rd) sha) \<and>
        HasCRL (st_anchor st) \<and> st_crl st = Some v \<and> \<not> crl_IsRevoked v (SerialKey n) \<and> Fresh v (io_now io) \<and>
        io_now io - rv_polledAt rd \<le> 5 * Minute \<and>
        (case ocsp_answered io (st_anchor st) n cert rd r of None \<Rightarrow> True | Some res \<Rightarrow> res_Status res = OCSPGood))) \<and>
   (case fst (checkMCP io sha n cert rd r) of
      None \<Rightarrow> True
    | Some e \<Rightarrow> rf_Code e = (if \<exists>st. mget (rv_anchors rd) sha = Some st \<and> \<not> revokedLocked rd sha (SerialKey n) \<and> \<not> mcp_data (io_now io) st rd
        then CodeNoRevocationSource else CodeCertRejected))"
proof (cases rule: checkMCPSets_cases [of rd sha "io_now io" "SerialKey n"])
  case unknown
  then show ?thesis by (simp add: checkMCP_refused)
next
  case (revoked st)
  then show ?thesis by (auto simp: checkMCP_refused revokedLocked_def split: option.splits)
next
  case (stale st reason cause)
  then show ?thesis by (auto simp: checkMCP_refused mcp_data_def maxDenylistAge_def)
next
  case (ok st)
  then obtain v where "st_crl st = Some v" "Fresh v (io_now io)" by (auto simp: mcp_data_def)
  with ok show ?thesis
    by (cases "ocsp_answered io (st_anchor st) n cert rd r")
      (auto simp: checkMCP_ok revokedLocked_def mcp_data_def maxDenylistAge_def ocspRefusal_None split: option.splits)
qed

text \<open>C16: an agent key's certificate passes exactly when its operator CA is trusted and has a CRL source, this
  replica polled within five minutes, the CRL is within nextUpdate, neither it nor the denylist lists the
  certificate, and OCSP, where it answered, answered good, whatever the policy. Missing or stale data is refused
  with code 1608, everything else with 1610.\<close>

theorem checkMCP_decision:
  "(fst (checkMCP io sha n cert rd r) = None \<longleftrightarrow>
     (\<exists>st v. mget (rv_anchors rd) sha = Some st \<and> SerialKey n \<notin> set (denied (rv_denylist rd) sha) \<and>
        HasCRL (st_anchor st) \<and> st_crl st = Some v \<and> \<not> crl_IsRevoked v (SerialKey n) \<and> Fresh v (io_now io) \<and>
        io_now io - rv_polledAt rd \<le> 5 * Minute \<and>
        (case ocsp_answered io (st_anchor st) n cert rd r of None \<Rightarrow> True | Some res \<Rightarrow> res_Status res = OCSPGood))) \<and>
   (case fst (checkMCP io sha n cert rd r) of
      None \<Rightarrow> True
    | Some e \<Rightarrow> rf_Code e = (if \<exists>st. mget (rv_anchors rd) sha = Some st \<and> \<not> revokedLocked rd sha (SerialKey n) \<and> \<not> mcp_data (io_now io) st rd
        then CodeNoRevocationSource else CodeCertRejected))"
  by (rule checkMCP_iff)

subsection \<open>The denylist\<close>

text \<open>What the engine relies on the store for: an entry that was added is listed, and adding loses none.\<close>

locale deny_store =
  fixes T :: "'s trust_store"
  assumes add_listed: "ts_AddOperatorDenylistEntry T e s = (Inr b, s') \<Longrightarrow> ts_OperatorDenylist T s' = Inr es \<Longrightarrow>
      \<exists>x \<in> set es. deny_IssuerSHA256 x = deny_IssuerSHA256 e \<and> deny_SerialHex x = deny_SerialHex e"
    and add_keeps: "ts_AddOperatorDenylistEntry T e s = (res, s') \<Longrightarrow> ts_OperatorDenylist T s = Inr es \<Longrightarrow>
      ts_OperatorDenylist T s' = Inr es' \<Longrightarrow> set es \<subseteq> set es'"
begin

lemma Deny_lists:
  assumes "Deny T now e s r = ((None, c), s', r')"
  shows "NormalizeSerial (NormalizeSerial (deny_SerialHex e)) \<in> set (denied (rv_denylist r') (deny_IssuerSHA256 e))"
proof -
  let ?e = "e\<lparr>deny_SerialHex := NormalizeSerial (deny_SerialHex e), deny_RevokedAt := default_time now (deny_RevokedAt e)\<rparr>"
  obtain b es where a: "ts_AddOperatorDenylistEntry T ?e s = (Inr b, s')" "ts_OperatorDenylist T s' = Inr es" "r' = install_denylist es r"
    using assms by (auto simp: Deny_def reloadDenylist_def Let_def split: prod.splits sum.splits)
  from add_listed [OF a(1,2)] show ?thesis by (auto simp: a(3) denied_deny_set)
qed

lemma Deny_keeps:
  assumes "Deny T now e s r = ((None, c), s', r')" and "ts_OperatorDenylist T s = Inr es" and "x \<in> set (denied (deny_set es) sha)"
  shows "x \<in> set (denied (rv_denylist r') sha)"
proof -
  let ?e = "e\<lparr>deny_SerialHex := NormalizeSerial (deny_SerialHex e), deny_RevokedAt := default_time now (deny_RevokedAt e)\<rparr>"
  obtain b es' where a: "ts_AddOperatorDenylistEntry T ?e s = (Inr b, s')" "ts_OperatorDenylist T s' = Inr es'" "r' = install_denylist es' r"
    using assms(1) by (auto simp: Deny_def reloadDenylist_def Let_def split: prod.splits sum.splits)
  from add_keeps [OF a(1) assms(2) a(2)] assms(3) show ?thesis by (auto simp: a(3) denied_deny_set)
qed

end

lemma pg_OperatorDenylist_set: "set (pg_OperatorDenylist s) = set (pg_denylist s)"
  by (simp add: pg_OperatorDenylist_def)

interpretation pg_deny: deny_store "pg_trust fault clk render"
proof
  fix e and s s' :: pg_db and b res and es es' :: "denylist_entry list"
  assume l: "ts_OperatorDenylist (pg_trust fault clk render) s' = Inr es'"
  then have es': "es' = pg_OperatorDenylist s'" "fault = None" by (auto simp: pg_trust_def read_result_def split: option.splits)
  show "\<exists>x \<in> set es'. deny_IssuerSHA256 x = deny_IssuerSHA256 e \<and> deny_SerialHex x = deny_SerialHex e"
    if "ts_AddOperatorDenylistEntry (pg_trust fault clk render) e s = (Inr b, s')"
    using that unfolding es'(1) pg_OperatorDenylist_set
    by (auto simp: pg_trust_def pg_AddOperatorDenylistEntry_def bumpEpoch_def split: option.splits if_splits)
  assume "ts_OperatorDenylist (pg_trust fault clk render) s = Inr es"
  then have es: "es = pg_OperatorDenylist s" by (auto simp: pg_trust_def read_result_def split: option.splits)
  show "set es \<subseteq> set es'" if "ts_AddOperatorDenylistEntry (pg_trust fault clk render) e s = (res, s')"
    using that unfolding es es'(1) pg_OperatorDenylist_set
    by (auto simp: pg_trust_def pg_AddOperatorDenylistEntry_def bumpEpoch_def split: option.splits if_splits)
qed

interpretation mem_deny: deny_store mem_trust
  by unfold_locales (auto simp: mem_trust_def mem_AddOperatorDenylistEntry_def mem_OperatorDenylist_def)

lemma denied_revoked: "x \<in> set (denied (rv_denylist r) sha) \<Longrightarrow> revokedLocked r sha x"
  by (simp add: revokedLocked_def)

lemma revoked_checkWeb: "revokedLocked rd sha (SerialKey n) \<Longrightarrow> fst (checkWeb io sha n leaf rd r) \<noteq> None"
  by (simp add: checkWeb_def Let_def split: option.split)

lemma revoked_checkMCP: "revokedLocked rd sha (SerialKey n) \<Longrightarrow> fst (checkMCP io sha n cert rd r) \<noteq> None"
  by (simp add: checkMCP_def checkMCPSets_def Let_def split: option.split)

text \<open>Once a denial returns, the replica that wrote it refuses the certificate at once, on the web path and for
  agent keys, in whatever spelling the serial was given, and every entry the store held stays in force. Without
  Postgres nothing changes and the call fails with code 1603.\<close>

theorem Deny_effective:
  assumes "Deny (pg_trust fault clk render) now e s r = ((None, c), s', r')" and "NormalizeSerial (deny_SerialHex e) = SerialKey n" and "0 \<le> n"
  shows "(\<forall>spelling. NormalizeSerial spelling = SerialKey n \<longrightarrow> IsRevoked r' (deny_IssuerSHA256 e) spelling \<and> Denylisted r' (deny_IssuerSHA256 e) spelling) \<and>
    fst (checkWeb io (deny_IssuerSHA256 e) n leaf r' r'') \<noteq> None \<and> fst (checkMCP io (deny_IssuerSHA256 e) n leaf r' r'') \<noteq> None \<and>
    (\<forall>x \<in> set (pg_denylist s). Denylisted r' (deny_IssuerSHA256 x) (deny_SerialHex x)) \<and>
    Deny mem_trust now e m r = ((Some DatabaseRequired, Some CodeUnavailable), m, r)"
proof -
  have n: "SerialKey n \<in> set (denied (rv_denylist r') (deny_IssuerSHA256 e))"
    using pg_deny.Deny_lists [OF assms(1)] by (simp add: assms(2) NormalizeSerial_SerialKey [OF assms(3)])
  have "ts_OperatorDenylist (pg_trust fault clk render) s = Inr (pg_OperatorDenylist s)"
    using assms(1) by (auto simp: Deny_def pg_trust_def read_result_def pg_AddOperatorDenylistEntry_def Let_def split: option.splits)
  from pg_deny.Deny_keeps [OF assms(1) this] have "\<forall>x \<in> set (pg_denylist s). Denylisted r' (deny_IssuerSHA256 x) (deny_SerialHex x)"
    by (auto simp: Denylisted_def denied_deny_set pg_OperatorDenylist_set)
  moreover have "Deny mem_trust now e m r = ((Some DatabaseRequired, Some CodeUnavailable), m, r)"
    by (simp add: Deny_def mem_trust_def mem_AddOperatorDenylistEntry_def Let_def)
  ultimately show ?thesis
    using n denied_revoked [OF n] revoked_checkWeb revoked_checkMCP by (simp add: IsRevoked_def Denylisted_def)
qed

subsection \<open>Polling keeps a replica in step\<close>

definition enforces :: "Revocations \<Rightarrow> pg_db \<Rightarrow> bool" where
  "enforces r s \<longleftrightarrow> (\<forall>sha x. x \<in> set (denied (rv_denylist r) sha) \<longleftrightarrow>
     (\<exists>e \<in> set (pg_denylist s). deny_IssuerSHA256 e = sha \<and> NormalizeSerial (deny_SerialHex e) = x))"

definition synced :: "Poller \<Rightarrow> Revocations \<Rightarrow> pg_db \<Rightarrow> bool" where
  "synced p r s \<longleftrightarrow> po_first p \<or> tv_Epoch (po_last p) < pg_epoch s \<or> tv_Epoch (po_last p) = pg_epoch s \<and> enforces r s"

lemma enforces_deny_set: "rv_denylist r = deny_set (pg_OperatorDenylist s) \<Longrightarrow> enforces r s"
  by (simp add: enforces_def denied_deny_set pg_OperatorDenylist_set)

lemma pg_steps_epoch:
  assumes "pg_step\<^sup>*\<^sup>* s s'"
  shows "pg_epoch s \<le> pg_epoch s' \<and> (pg_epoch s' = pg_epoch s \<longrightarrow> pg_denylist s' = pg_denylist s)"
  using assms
proof (induction rule: rtranclp_induct)
  case (step y z)
  then show ?case using pg_step_epoch [OF step.hyps(2)] by auto
qed simp

lemma denylist_grows:
  assumes "pg_step\<^sup>*\<^sup>* s s'"
  shows "set (pg_denylist s) \<subseteq> set (pg_denylist s')"
  using assms
proof (induction rule: rtranclp_induct)
  case (step y z)
  have "set (pg_denylist y) \<subseteq> set (pg_denylist z)"
    using step.hyps(2)
    by cases (auto simp: pg_ca_ops pg_row_ops pg_frames pg_CloseBootstrap_def pg_IssueBootstrapToken_def pg_StartBootstrapSession_def
        pg_ResetFirstRun_def Let_def split: option.splits)
  then show ?case using step.IH by blast
qed simp

lemma synced_steps: "synced p r s \<Longrightarrow> pg_step\<^sup>*\<^sup>* s s' \<Longrightarrow> synced p r s'"
  using pg_steps_epoch [of s s'] by (auto simp: synced_def enforces_def)

definition reads_pg :: "pg_db trust_store \<Rightarrow> bool" where
  "reads_pg T \<longleftrightarrow> (\<forall>s es. ts_OperatorDenylist T s = Inr es \<longrightarrow> es = pg_OperatorDenylist s) \<and>
     (\<forall>s v. ts_OperatorTrustVersion T s = Inr v \<longrightarrow> tv_Epoch v = pg_epoch s)"

definition sets_anchors :: "(Anchor \<Rightarrow> bool) \<Rightarrow> (pg_db \<Rightarrow> Revocations \<Rightarrow> trust_error option \<times> Revocations) option \<Rightarrow> bool" where
  "sets_anchors ok rebuild \<longleftrightarrow>
     (\<forall>f s r. rebuild = Some f \<longrightarrow> snd (f s r) = r \<or> (\<exists>as. list_all ok as \<and> snd (f s r) = SetAnchors as r))"

text \<open>
  One replica beside the database. Any read may fail while a poll runs, other replicas may write between
  its reads, and the anchors may be rebuilt from any certificates that satisfy \<open>ok\<close>.
\<close>

inductive replica_step :: "crl_lib \<Rightarrow> (Anchor \<Rightarrow> bool) \<Rightarrow> pg_db \<times> Poller \<times> Revocations \<Rightarrow> pg_db \<times> Poller \<times> Revocations \<Rightarrow> bool" for lib ok where
  database: "pg_step s s' \<Longrightarrow> replica_step lib ok (s, p, r) (s', p, r)"
| poll: "reads_pg T \<Longrightarrow> sets_anchors ok rebuild \<Longrightarrow> pg_step\<^sup>*\<^sup>* s s' \<Longrightarrow> PollOnce T lib now rebuild s s' p r = (err, p', r') \<Longrightarrow>
    replica_step lib ok (s, p, r) (s', p', r')"
| denial: "Deny (pg_trust fault clk render) now e s r = (res, s', r') \<Longrightarrow> replica_step lib ok (s, p, r) (s', p, r')"
| crl: "StoreCRL (pg_trust fault clk render) lib now sha der source s r = (res, s', r') \<Longrightarrow> replica_step lib ok (s, p, r) (s', p, r')"
| crl_error: "replica_step lib ok (s, p, r) (s, p, RecordCRLError sha msg r)"
| anchors: "list_all ok as \<Longrightarrow> replica_step lib ok (s, p, r) (s, p, SetAnchors as r)"
| web: "replica_step lib ok (s, p, r) (s, p, snd (snd (checkWeb io sha n leaf rd r)))"
| mcp: "replica_step lib ok (s, p, r) (s, p, snd (snd (checkMCP io sha n leaf rd r)))"

lemma SetAnchors_denylist: "rv_denylist (SetAnchors as r) = rv_denylist r"
proof -
  have "rv_denylist (fst (fold set_anchor as rn)) = rv_denylist (fst rn)" for rn
    by (induction as arbitrary: rn) (simp_all add: set_anchor_def Let_def split_beta)
  from this [of "(r, [])"] show ?thesis by (simp add: SetAnchors_def Let_def split_beta)
qed

lemma endOCSPOutage_denylist: "rv_denylist (endOCSPOutage sha r) = rv_denylist r"
  by (simp add: endOCSPOutage_def split: option.split)

lemma web_without_ocsp_denylist: "rv_denylist (snd (snd (web_without_ocsp now sha key responder r))) = rv_denylist r"
  by (simp add: web_without_ocsp_def Let_def split_beta split: option.split)

lemma checkWeb_denylist: "rv_denylist (snd (snd (checkWeb io sha n leaf rd r))) = rv_denylist r"
proof -
  have "rv_denylist r1 = rv_denylist r" if "snd (ask_responder io a n url r) = (ev, r1)" for a url ev r1
    using ask_responder_frame(3) [of io a n url r] that by simp
  then show ?thesis
    by (auto simp: checkWeb_def Let_def split_beta endOCSPOutage_denylist web_without_ocsp_denylist split: option.split prod.split sum.split)
qed

lemma checkMCP_denylist: "rv_denylist (snd (snd (checkMCP io sha n leaf rd r))) = rv_denylist r"
proof -
  have "rv_denylist r1 = rv_denylist r" if "snd (ask_responder io a n url r) = (ev, r1)" for a url ev r1
    using ask_responder_frame(3) [of io a n url r] that by simp
  then show ?thesis
    by (auto simp: checkMCP_def Let_def split_beta endOCSPOutage_denylist split: option.split prod.split sum.split)
qed

lemma StoreCRL_denylist: "StoreCRL T lib now sha der source s r = (res, s', r') \<Longrightarrow> rv_denylist r' = rv_denylist r"
  by (auto simp: StoreCRL_def use_crl_def split: option.splits sum.splits prod.splits bool.splits)

lemma RecordCRLError_denylist: "rv_denylist (RecordCRLError sha msg r) = rv_denylist r"
  by (simp add: RecordCRLError_def split: option.split)

lemmas denylist_frames = SetAnchors_denylist checkWeb_denylist checkMCP_denylist RecordCRLError_denylist

lemma Reload_denylist:
  assumes "Reload lib now dl crls r = (err, r')"
  shows "rv_denylist r' = rv_denylist r \<and> err \<noteq> None \<or> (\<exists>es. dl = Inr es \<and> rv_denylist r' = deny_set es)"
  using assms by (auto simp: Reload_def reloadDenylist_def split: sum.splits)

lemma sets_anchors_denylist: "sets_anchors ok rebuild \<Longrightarrow> rebuild = Some f \<Longrightarrow> rv_denylist (snd (f s r)) = rv_denylist r"
  unfolding sets_anchors_def by (metis SetAnchors_denylist)

lemma PollOnce_synced:
  assumes "reads_pg T" and "sets_anchors ok rebuild" and "pg_step\<^sup>*\<^sup>* sv s" and "PollOnce T lib now rebuild sv s p r = (err, p', r')"
    and "synced p r sv"
  shows "synced p' r' s"
proof (cases "ts_OperatorTrustVersion T sv")
  case (Inl e)
  then show ?thesis using assms(3,4,5) synced_steps by (auto simp: PollOnce_def)
next
  case (Inr v)
  define q where "q = (case rebuild of None \<Rightarrow> (None, r)
    | Some f \<Rightarrow> if po_first p \<or> tv_CAs v \<noteq> tv_CAs (po_last p) then f s r else (None, r))"
  have q: "rv_denylist (snd q) = rv_denylist r"
    by (simp add: q_def sets_anchors_denylist [OF assms(2)] split: option.split)
  have v: "tv_Epoch v = pg_epoch sv" using assms(1) Inr by (auto simp: reads_pg_def)
  have before: "synced p r1 s" if "rv_denylist r1 = rv_denylist r" for r1
    using synced_steps [OF assms(5,3)] that by (simp add: synced_def enforces_def)
  have loaded: "enforces r1 s" if "ts_OperatorDenylist T s = Inr es" "rv_denylist r1 = deny_set es" for r1 es
    using assms(1) that by (intro enforces_deny_set) (auto simp: reads_pg_def)
  have le: "pg_epoch sv \<le> pg_epoch s" using pg_steps_epoch [OF assms(3)] by simp
  show ?thesis
  proof (cases "fst q")
    case (Some e)
    then show ?thesis using assms(4) Inr before q by (auto simp: PollOnce_def q_def [symmetric] split_beta)
  next
    case None
    show ?thesis
    proof (cases "po_first p \<or> tv_Epoch v \<noteq> tv_Epoch (po_last p)")
      case True
      obtain e2 r2 where rl: "Reload lib now (ts_OperatorDenylist T s) (ts_OperatorCRLs T s) (snd q) = (e2, r2)" by fastforce
      have res: "(err, p', r') = (if e2 \<noteq> None then (e2, p, r2) else (None, \<lparr>po_last = v, po_first = False\<rparr>, r2))"
        using assms(4) Inr None True rl by (auto simp: PollOnce_def q_def [symmetric] split_beta split: if_splits)
      from Reload_denylist [OF rl] show ?thesis
      proof (elim disjE exE conjE)
        show ?thesis if "rv_denylist r2 = rv_denylist (snd q)" "e2 \<noteq> None" using res that q before by auto
        fix es assume "ts_OperatorDenylist T s = Inr es" "rv_denylist r2 = deny_set es"
        then have "enforces r2 s" by (rule loaded)
        then show ?thesis using res le v synced_steps [OF assms(5,3)] by (auto simp: synced_def split: if_splits)
      qed
    next
      case False
      then have res: "p' = \<lparr>po_last = v, po_first = False\<rparr>" "rv_denylist r' = rv_denylist r"
        using assms(4) Inr None q by (auto simp: PollOnce_def q_def [symmetric] split_beta MarkPolled_def)
      show ?thesis using before [OF res(2)] False res(1) by (simp add: synced_def)
    qed
  qed
qed

lemma Deny_synced:
  assumes "Deny (pg_trust fault clk render) now e s r = (res, s', r')" and "synced p r s"
  shows "synced p r' s'"
proof -
  let ?e = "e\<lparr>deny_SerialHex := NormalizeSerial (deny_SerialHex e), deny_RevokedAt := default_time now (deny_RevokedAt e)\<rparr>"
  have s': "s' = snd (pg_AddOperatorDenylistEntry fault clk ?e s)" "r' = r \<or> r' = install_denylist (pg_OperatorDenylist s') r"
    using assms(1)
    by (auto simp: Deny_def Let_def pg_trust_def reloadDenylist_def read_result_def apfst_def map_prod_def split: prod.splits sum.splits option.splits)
  then have "pg_step\<^sup>*\<^sup>* s s'" using pg_step.deny [of s fault clk ?e] by (simp add: r_into_rtranclp)
  from synced_steps [OF assms(2) this] s'(2) show ?thesis
    by (auto simp: synced_def intro: enforces_deny_set)
qed

lemma StoreCRL_synced:
  assumes "StoreCRL (pg_trust fault clk render) lib now sha der source s r = (res, s', r')" and "synced p r s"
  shows "synced p r' s'"
proof -
  have "s' = s \<or> (\<exists>v. s' = snd (pg_PutOperatorCRL fault (crl_row sha now source v) (AcceptNewer v) s))"
    using assms(1) by (auto simp: StoreCRL_def pg_trust_def apfst_def map_prod_def split: option.splits sum.splits prod.splits bool.splits)
      (metis snd_conv)+
  then have "pg_step\<^sup>*\<^sup>* s s'" using pg_step.put_crl by blast
  from synced_steps [OF assms(2) this] StoreCRL_denylist [OF assms(1)] show ?thesis by (simp add: synced_def enforces_def)
qed

lemma replica_step_synced:
  assumes "replica_step lib ok x y" and "synced (fst (snd x)) (snd (snd x)) (fst x)"
  shows "synced (fst (snd y)) (snd (snd y)) (fst y)"
  using assms
proof cases
  case (database s s' p r)
  then show ?thesis using assms(2) synced_steps [of p r s s'] by (simp add: r_into_rtranclp)
next
  case (poll T rebuild s s' now p r err p' r')
  then show ?thesis using assms(2) PollOnce_synced by simp
next
  case (denial fault clk render now e s r res s' r' p)
  then show ?thesis using assms(2) Deny_synced by simp
next
  case (crl fault clk render now sha der source s r res s' r' p)
  then show ?thesis using assms(2) StoreCRL_synced by simp
qed (use assms(2) in \<open>simp_all add: synced_def enforces_def denylist_frames\<close>)

lemma replica_synced:
  assumes "(replica_step lib ok)\<^sup>*\<^sup>* (migrated, NewPoller, NewRevocations policy fetcher) (s, p, r)"
  shows "synced p r s"
proof -
  have "synced (fst (snd y)) (snd (snd y)) (fst y)" if "(replica_step lib ok)\<^sup>*\<^sup>* (migrated, NewPoller, NewRevocations policy fetcher) y" for y
    using that
  proof (induction rule: rtranclp_induct)
    case base
    show ?case by (simp add: synced_def NewPoller_def)
  qed (rule replica_step_synced)
  from this [OF assms] show ?thesis by simp
qed

lemma reads_pg_trust: "reads_pg (pg_trust fault clk render)"
  by (auto simp: reads_pg_def pg_trust_def read_result_def pg_OperatorTrustVersion_def split: option.splits)

lemma polled_enforces:
  assumes "(replica_step lib ok)\<^sup>*\<^sup>* (migrated, NewPoller, NewRevocations policy fetcher) (s, p, r)"
    and "PollOnce (pg_trust fault clk render) lib now None s s p r = (None, p', r')"
  shows "enforces r' s"
proof -
  have "synced p' r' s"
    using PollOnce_synced [OF reads_pg_trust _ _ assms(2) replica_synced [OF assms(1)], of "\<lambda>_. True"] by (simp add: sets_anchors_def)
  moreover have "\<not> po_first p' \<and> tv_Epoch (po_last p') = pg_epoch s"
    using assms(2) by (auto simp: PollOnce_def pg_trust_def read_result_def pg_OperatorTrustVersion_def split_beta split: option.splits if_splits)
  ultimately show ?thesis by (simp add: synced_def)
qed

text \<open>A replica misses no denial. However polls, denials, CRL uploads, checks and the writes of other replicas
  interleave, and whichever reads of a poll fail, a replica whose last successful poll saw the present epoch enforces
  exactly the store's denylist; any other replica has not seen the epoch yet and reloads at its next poll.\<close>

theorem poll_misses_nothing:
  assumes "(replica_step lib ok)\<^sup>*\<^sup>* (migrated, NewPoller, NewRevocations policy fetcher) (s, p, r)"
  shows "po_first p \<or> tv_Epoch (po_last p) < pg_epoch s \<or>
    (\<forall>sha serial. Denylisted r sha serial \<longleftrightarrow>
       (\<exists>e \<in> set (pg_denylist s). deny_IssuerSHA256 e = sha \<and> NormalizeSerial (deny_SerialHex e) = NormalizeSerial serial))"
  using replica_synced [OF assms] by (auto simp: synced_def enforces_def Denylisted_def)

text \<open>The reload of the denylist reads the store before it takes the lock, so a late one undoes a newer one. A
  replica that denies a certificate and is overtaken between its read and its write by a poll that has seen another
  replica's denial drops that other denial again, and no later poll puts it back while the epoch stands still.\<close>

theorem late_reload_loses_denial:
  assumes "pg_AddOperatorDenylistEntry None clk y s1 = (Inr True, s2)"
    and "\<forall>e \<in> set (pg_denylist s1). deny_IssuerSHA256 e = deny_IssuerSHA256 y \<longrightarrow> NormalizeSerial (deny_SerialHex e) \<noteq> NormalizeSerial (deny_SerialHex y)"
    and "po_first p \<or> tv_Epoch (po_last p) \<noteq> pg_epoch s2"
    and "PollOnce (pg_trust None clk render) lib now None s2 s2 p r = (None, p2, r2)"
    and "reloadDenylist (ts_OperatorDenylist (pg_trust None clk render) s1) r2 = (None, r3)"
  shows "Denylisted r2 (deny_IssuerSHA256 y) (deny_SerialHex y) \<and> \<not> Denylisted r3 (deny_IssuerSHA256 y) (deny_SerialHex y) \<and>
    fst (PollOnce (pg_trust None clk render) lib now' None s2 s2 p2 r3) = None \<and>
    \<not> Denylisted (snd (snd (PollOnce (pg_trust None clk render) lib now' None s2 s2 p2 r3))) (deny_IssuerSHA256 y) (deny_SerialHex y)"
proof -
  have v: "ts_OperatorTrustVersion (pg_trust None clk render) s2 = Inr (pg_OperatorTrustVersion render s2)"
    "tv_Epoch (pg_OperatorTrustVersion render s2) = pg_epoch s2"
    by (simp_all add: pg_trust_def read_result_def pg_OperatorTrustVersion_def)
  obtain e r' where rl: "Reload lib now (ts_OperatorDenylist (pg_trust None clk render) s2) (ts_OperatorCRLs (pg_trust None clk render) s2) r = (e, r')"
    by fastforce
  have "e = None" using rl by (auto simp: pg_trust_def read_result_def Reload_def reloadDenylist_def)
  then have p2: "p2 = \<lparr>po_last = pg_OperatorTrustVersion render s2, po_first = False\<rparr>" "r2 = r'"
    using assms(3,4) v rl by (auto simp: PollOnce_def)
  have l: "ts_OperatorDenylist (pg_trust None clk render) s = Inr (pg_OperatorDenylist s)" for s by (simp add: pg_trust_def read_result_def)
  obtain es where es: "rv_denylist r2 = deny_set es" "set es = set (pg_denylist s2)"
    using Reload_denylist [OF rl] p2(2) l \<open>e = None\<close> pg_OperatorDenylist_set by auto
  have y: "\<exists>x \<in> set (pg_denylist s2). deny_IssuerSHA256 x = deny_IssuerSHA256 y \<and> deny_SerialHex x = deny_SerialHex y"
    using assms(1) by (auto simp: pg_AddOperatorDenylistEntry_def bumpEpoch_def split: if_splits)
  have r3: "r3 = install_denylist (pg_OperatorDenylist s1) r2" using assms(5) by (simp add: reloadDenylist_def l)
  have gone: "\<not> Denylisted r3 (deny_IssuerSHA256 y) (deny_SerialHex y)"
    using assms(2) by (auto simp: Denylisted_def r3 denied_deny_set pg_OperatorDenylist_set)
  have "PollOnce (pg_trust None clk render) lib now' None s2 s2 p2 r3 = (None, p2, MarkPolled now' r3)"
    by (simp add: PollOnce_def v p2(1))
  then show ?thesis using y gone by (auto simp: Denylisted_def es denied_deny_set MarkPolled_def)
qed

subsection \<open>Only verified CRLs are enforced\<close>

definition verified :: "crl_lib \<Rightarrow> (Anchor \<Rightarrow> bool) \<Rightarrow> string \<Rightarrow> VerifiedCRL \<Rightarrow> bool" where
  "verified lib ok sha v \<longleftrightarrow> (\<exists>a der t. ok a \<and> an_SHA256 a = sha \<and> VerifyCRL lib der (an_Cert a) t = Inr v)"

definition state_ok :: "crl_lib \<Rightarrow> (Anchor \<Rightarrow> bool) \<Rightarrow> string \<Rightarrow> anchorState \<Rightarrow> bool" where
  "state_ok lib ok sha st \<longleftrightarrow> ok (st_anchor st) \<and> an_SHA256 (st_anchor st) = sha \<and> (\<forall>v. st_crl st = Some v \<longrightarrow> verified lib ok sha v)"

definition engine_ok :: "crl_lib \<Rightarrow> (Anchor \<Rightarrow> bool) \<Rightarrow> Revocations \<Rightarrow> bool" where
  "engine_ok lib ok r \<longleftrightarrow> (\<forall>sha st. mget (rv_anchors r) sha = Some st \<longrightarrow> state_ok lib ok sha st)"

lemma engine_ok_put:
  "engine_ok lib ok r \<Longrightarrow> state_ok lib ok sha st \<Longrightarrow> engine_ok lib ok (r\<lparr>rv_anchors := mput sha st (rv_anchors r)\<rparr>)"
  by (simp add: engine_ok_def gomap_simps)

lemma state_ok_same: "st_anchor st' = st_anchor st \<Longrightarrow> st_crl st' = st_crl st \<Longrightarrow> state_ok lib ok sha st' = state_ok lib ok sha st"
  by (simp add: state_ok_def)

lemma note_same:
  "st_anchor (snd (noteStaleLocked now st)) = st_anchor st" "st_crl (snd (noteStaleLocked now st)) = st_crl st"
  "st_anchor (snd (noteOCSPOutageLocked now st)) = st_anchor st" "st_crl (snd (noteOCSPOutageLocked now st)) = st_crl st"
  by (simp_all add: noteStaleLocked_def noteOCSPOutageLocked_def Let_def split: option.split)

lemma web_without_ocsp_ok: "engine_ok lib ok r \<Longrightarrow> engine_ok lib ok (snd (snd (web_without_ocsp now sha key responder r)))"
proof (cases "mget (rv_anchors r) sha")
  case (Some st)
  assume ok: "engine_ok lib ok r"
  then have st: "state_ok lib ok sha st" using Some by (simp add: engine_ok_def)
  have "state_ok lib ok sha (snd (noteOCSPOutageLocked now (snd (noteStaleLocked now st))))" "state_ok lib ok sha (snd (noteStaleLocked now st))"
    "state_ok lib ok sha (snd (noteOCSPOutageLocked now st))"
    using st by (simp_all add: state_ok_def note_same)
  then show ?thesis
    using ok st Some by (simp add: web_without_ocsp_def Let_def split_beta engine_ok_put)
qed (simp add: web_without_ocsp_def)

lemma endOCSPOutage_ok: "engine_ok lib ok r \<Longrightarrow> engine_ok lib ok (endOCSPOutage sha r)"
  by (auto simp: endOCSPOutage_def engine_ok_def state_ok_def gomap_simps split: option.split)

lemma engine_ok_anchors: "rv_anchors r' = rv_anchors r \<Longrightarrow> engine_ok lib ok r' = engine_ok lib ok r"
  by (simp add: engine_ok_def)

lemma checkWeb_ok: "engine_ok lib ok r \<Longrightarrow> engine_ok lib ok (snd (snd (checkWeb io sha n leaf rd r)))"
proof -
  assume ok: "engine_ok lib ok r"
  have "engine_ok lib ok r1" if "snd (ask_responder io a n url r) = (ev, r1)" for a url ev r1
    using ask_responder_frame(1) [of io a n url r] that ok engine_ok_anchors [of r1 r] by simp
  then show ?thesis
    using ok by (auto simp: checkWeb_def Let_def split_beta endOCSPOutage_ok web_without_ocsp_ok split: option.split prod.split sum.split)
qed

lemma checkMCP_ok': "engine_ok lib ok r \<Longrightarrow> engine_ok lib ok (snd (snd (checkMCP io sha n leaf rd r)))"
proof -
  assume ok: "engine_ok lib ok r"
  have "engine_ok lib ok r1" if "snd (ask_responder io a n url r) = (ev, r1)" for a url ev r1
    using ask_responder_frame(1) [of io a n url r] that ok engine_ok_anchors [of r1 r] by simp
  then show ?thesis
    using ok by (auto simp: checkMCP_def Let_def split_beta endOCSPOutage_ok split: option.split prod.split sum.split)
qed

lemma reload_anchor_ok: "state_ok lib ok sha st \<Longrightarrow> state_ok lib ok sha (reload_anchor lib now stored st)"
  by (auto simp: reload_anchor_def state_ok_def verified_def Let_def split: option.splits sum.splits)

lemma on_anchors_ok: "engine_ok lib ok r \<Longrightarrow> (\<And>sha st. state_ok lib ok sha st \<Longrightarrow> state_ok lib ok sha (f sha st)) \<Longrightarrow> engine_ok lib ok (on_anchors f r)"
  by (auto simp: engine_ok_def)

lemma install_denylist_ok: "engine_ok lib ok r \<Longrightarrow> engine_ok lib ok (install_denylist es r)"
  unfolding install_denylist_def by (rule on_anchors_ok) (auto simp: engine_ok_def state_ok_def)

lemma Reload_ok:
  assumes "engine_ok lib ok r"
  shows "engine_ok lib ok (snd (Reload lib now dl crls r))"
proof -
  have "engine_ok lib ok ((on_anchors (\<lambda>sha st. reload_anchor lib now (by_issuer cs sha) st) (install_denylist es r))\<lparr>rv_polledAt := now\<rparr>)" for cs es
    using on_anchors_ok [OF install_denylist_ok [OF assms], of "\<lambda>sha st. reload_anchor lib now (by_issuer cs sha) st"] reload_anchor_ok
    by (simp add: engine_ok_anchors [of "r1\<lparr>rv_polledAt := now\<rparr>" r1 for r1])
  then show ?thesis
    using assms install_denylist_ok [OF assms] by (simp add: Reload_def reloadDenylist_def split: sum.split)
qed

lemma next_state_ok: "engine_ok lib ok r \<Longrightarrow> ok a \<Longrightarrow> state_ok lib ok (an_SHA256 a) (next_state r a)"
  by (auto simp: next_state_def new_anchor_state_def engine_ok_def state_ok_def Let_def split: option.split)

lemma set_anchor_ok:
  assumes "engine_ok lib ok (fst rn)" and "engine_ok lib ok (fst rn\<lparr>rv_anchors := snd rn\<rparr>)" and "ok a"
  shows "engine_ok lib ok (fst (set_anchor a rn)) \<and> engine_ok lib ok (fst (set_anchor a rn)\<lparr>rv_anchors := snd (set_anchor a rn)\<rparr>)"
  using assms next_state_ok [OF assms(1,3)] by (simp add: set_anchor_def engine_ok_def Let_def split_beta gomap_simps)

lemma SetAnchors_ok:
  assumes "engine_ok lib ok r" and "list_all ok as"
  shows "engine_ok lib ok (SetAnchors as r)"
proof -
  have "engine_ok lib ok (fst (fold set_anchor as rn)) \<and> engine_ok lib ok (fst (fold set_anchor as rn)\<lparr>rv_anchors := snd (fold set_anchor as rn)\<rparr>)"
    if "engine_ok lib ok (fst rn)" "engine_ok lib ok (fst rn\<lparr>rv_anchors := snd rn\<rparr>)" for rn
    using assms(2) that
  proof (induction as arbitrary: rn)
    case (Cons a as)
    then have "ok a" "list_all ok as" by simp_all
    with Cons.IH [of "set_anchor a rn"] set_anchor_ok [OF Cons.prems(2,3)] show ?case by simp
  qed simp
  moreover have "engine_ok lib ok (r\<lparr>rv_anchors := []\<rparr>)" by (simp add: engine_ok_def)
  ultimately show ?thesis using assms(1) by (simp add: SetAnchors_def Let_def split_beta)
qed

lemma StoreCRL_ok:
  assumes "StoreCRL T lib now sha der source s r = (res, s', r')" and "engine_ok lib ok r"
  shows "engine_ok lib ok r'"
proof (cases "r' = r")
  case False
  then obtain st v where st: "mget (rv_anchors r) sha = Some st" "VerifyCRL lib der (an_Cert (st_anchor st)) now = Inr v" "r' = use_crl now sha v r"
    using assms(1) by (auto simp: StoreCRL_def split: option.splits sum.splits prod.splits bool.splits)
  have "state_ok lib ok sha st" using assms(2) st(1) by (simp add: engine_ok_def)
  then have "state_ok lib ok sha (st\<lparr>st_crl := Some v, st_lastError := [], st_expiredAudited := x\<rparr>)" for x
    using st(2) by (auto simp: state_ok_def verified_def)
  then show ?thesis using st(1) by (simp add: st(3) use_crl_def engine_ok_put [OF assms(2)])
qed (use assms(2) in simp)

lemma Deny_ok: "Deny T now e s r = (res, s', r') \<Longrightarrow> engine_ok lib ok r \<Longrightarrow> engine_ok lib ok r'"
  using install_denylist_ok by (auto simp: Deny_def reloadDenylist_def Let_def split: prod.splits sum.splits)

lemma RecordCRLError_ok: "engine_ok lib ok r \<Longrightarrow> engine_ok lib ok (RecordCRLError sha msg r)"
  by (auto simp: RecordCRLError_def engine_ok_def state_ok_def gomap_simps split: option.split)

lemma PollOnce_ok:
  assumes "sets_anchors ok rebuild" and "PollOnce T lib now rebuild sv s p r = (err, p', r')" and "engine_ok lib ok r"
  shows "engine_ok lib ok r'"
proof -
  have f: "engine_ok lib ok (snd (f s r))" if "rebuild = Some f" for f
    using assms(1,3) that SetAnchors_ok [OF assms(3)] unfolding sets_anchors_def by metis
  have polled: "engine_ok lib ok (MarkPolled now r1) = engine_ok lib ok r1" for r1 by (simp add: MarkPolled_def engine_ok_def)
  have "engine_ok lib ok (snd (snd (PollOnce T lib now rebuild sv s p r)))"
    using assms(3) f Reload_ok by (simp add: PollOnce_def Let_def split_beta polled split: sum.split option.split)
  then show ?thesis using assms(2) by simp
qed

lemma replica_step_ok:
  assumes "replica_step lib ok x y" and "engine_ok lib ok (snd (snd x))"
  shows "engine_ok lib ok (snd (snd y))"
  using assms
  by cases (simp_all add: checkWeb_ok checkMCP_ok' SetAnchors_ok RecordCRLError_ok StoreCRL_ok Deny_ok PollOnce_ok)

lemma replica_engine_ok:
  assumes "(replica_step lib ok)\<^sup>*\<^sup>* (migrated, NewPoller, NewRevocations policy fetcher) (s, p, r)"
  shows "engine_ok lib ok r"
proof -
  have "engine_ok lib ok (snd (snd y))" if "(replica_step lib ok)\<^sup>*\<^sup>* (migrated, NewPoller, NewRevocations policy fetcher) y" for y
    using that
  proof (induction rule: rtranclp_induct)
    case base
    show ?case by (simp add: engine_ok_def NewRevocations_def)
  qed (rule replica_step_ok)
  from this [OF assms] show ?thesis by simp
qed

text \<open>The database is not trusted blindly: whatever CRLs it returns, in whatever order polls, uploads and rebuilds
  come, every CRL a replica enforces for an operator CA was verified against the certificate of a trust anchor of that
  fingerprint: signed by it, issued under its name, and complete.\<close>

theorem enforced_CRLs_verified:
  assumes "(replica_step lib ok)\<^sup>*\<^sup>* (migrated, NewPoller, NewRevocations policy fetcher) (s, p, r)" and "rv_CRL r sha = Some v"
  shows "\<exists>a der t. ok a \<and> an_SHA256 a = sha \<and> VerifyCRL lib der (an_Cert a) t = Inr v"
  using replica_engine_ok [OF assms(1)] assms(2) by (auto simp: engine_ok_def state_ok_def verified_def rv_CRL_def bind_eq_Some_conv)

subsection \<open>One audit row per outage\<close>

abbreviation kind_rows :: "string \<Rightarrow> audit_event list \<Rightarrow> nat" where
  "kind_rows kind ev \<equiv> length (filter (\<lambda>e. ev_Kind e = kind) ev)"

definition flag :: "(anchorState \<Rightarrow> bool) \<Rightarrow> string \<Rightarrow> Revocations \<Rightarrow> nat" where
  "flag f sha r = (case mget (rv_anchors r) sha of None \<Rightarrow> 0 | Some st \<Rightarrow> if f st then 1 else 0)"

definition had_answer :: "ocsp_io \<Rightarrow> string \<Rightarrow> int \<Rightarrow> certificate option \<Rightarrow> Revocations \<Rightarrow> bool" where
  "had_answer io sha n leaf r \<longleftrightarrow>
     (case mget (rv_anchors r) sha of None \<Rightarrow> False | Some st \<Rightarrow> ocsp_answered io (st_anchor st) n leaf r r \<noteq> None)"

fun web_run :: "string \<Rightarrow> (ocsp_io \<times> int \<times> certificate option) list \<Rightarrow> Revocations \<Rightarrow> audit_event list \<times> nat \<times> Revocations" where
  "web_run sha [] r = ([], 0, r)"
| "web_run sha ((io, n, leaf) # cs) r =
     (let (_, ev, r1) = checkWeb io sha n leaf r r;
          (evs, k, r2) = web_run sha cs r1
      in (ev @ evs, (if had_answer io sha n leaf r then k + 1 else k), r2))"

lemmas kind_defs = KindCRLExpired_def KindOCSPUnavailable_def KindOCSPUnknown_def

lemma unknown_audit_rows: "kind_rows KindCRLExpired (unknown_audit a s ans) = 0" "kind_rows KindOCSPUnavailable (unknown_audit a s ans) = 0"
  by (simp_all add: unknown_audit_def zero_event_def kind_defs split: sum.split)

lemma fill_rows:
  "kind_rows KindCRLExpired (fst (snd (fill redact now a s url ans old c))) = 0"
  "kind_rows KindOCSPUnavailable (fst (snd (fill redact now a s url ans old c))) = 0"
  using unknown_audit_rows by (simp_all add: fill_def Let_def split: sum.split option.split prod.split)

lemma OCSPCheck_rows:
  "kind_rows KindCRLExpired (ck_audits (fst (OCSPCheck redact now later ans a n url c))) = 0"
  "kind_rows KindOCSPUnavailable (ck_audits (fst (OCSPCheck redact now later ans a n url c))) = 0"
  using fill_rows by (simp_all add: OCSPCheck_def Let_def split_beta split: option.split)

lemma ask_responder_rows:
  "kind_rows KindCRLExpired (fst (snd (ask_responder io a n url r))) = 0" "kind_rows KindOCSPUnavailable (fst (snd (ask_responder io a n url r))) = 0"
  using OCSPCheck_rows by (simp_all add: ask_responder_def Let_def split_beta split: option.split)

lemma noteStale_rows:
  "kind_rows KindCRLExpired (fst (noteStaleLocked now st)) = (if st_crl st = None \<or> st_expiredAudited st then 0 else 1)"
  "st_expiredAudited (snd (noteStaleLocked now st)) \<longleftrightarrow> st_expiredAudited st \<or> st_crl st \<noteq> None"
  "kind_rows KindOCSPUnavailable (fst (noteStaleLocked now st)) = 0" "st_ocspOutage (snd (noteStaleLocked now st)) = st_ocspOutage st"
  by (simp_all add: noteStaleLocked_def Let_def anchor_event_def zero_event_def kind_defs split: option.split)

lemma noteOutage_rows:
  "kind_rows KindOCSPUnavailable (fst (noteOCSPOutageLocked now st)) = (if st_ocspOutage st then 0 else 1)" "st_ocspOutage (snd (noteOCSPOutageLocked now st))"
  "kind_rows KindCRLExpired (fst (noteOCSPOutageLocked now st)) = 0" "st_expiredAudited (snd (noteOCSPOutageLocked now st)) = st_expiredAudited st"
  by (simp_all add: noteOCSPOutageLocked_def Let_def anchor_event_def zero_event_def kind_defs)

lemma web_without_ocsp_rows:
  "kind_rows KindCRLExpired (fst (snd (web_without_ocsp now sha key url r))) + flag st_expiredAudited sha r \<le>
     flag st_expiredAudited sha (snd (snd (web_without_ocsp now sha key url r)))"
  "kind_rows KindOCSPUnavailable (fst (snd (web_without_ocsp now sha key url r))) + flag st_ocspOutage sha r \<le>
     flag st_ocspOutage sha (snd (snd (web_without_ocsp now sha key url r)))"
  by (cases "mget (rv_anchors r) sha";
      simp add: web_without_ocsp_def Let_def split_beta flag_def gomap_simps noteStale_rows noteOutage_rows del: length_0_conv)+

lemma flag_frames:
  "rv_anchors r' = rv_anchors r \<Longrightarrow> flag f sha r' = flag f sha r" "flag st_expiredAudited sha (endOCSPOutage sha r) = flag st_expiredAudited sha r"
  "flag f sha r \<le> 1"
  by (simp_all add: flag_def endOCSPOutage_def gomap_simps split: option.split)

lemma checkWeb_rows:
  assumes "checkWeb io sha n leaf r r = (x, ev, r')"
  shows "kind_rows KindCRLExpired ev + flag st_expiredAudited sha r \<le> flag st_expiredAudited sha r' \<and>
    kind_rows KindOCSPUnavailable ev + flag st_ocspOutage sha r \<le> flag st_ocspOutage sha r' + (if had_answer io sha n leaf r then 1 else 0)"
proof (cases "\<exists>st. mget (rv_anchors r) sha = Some st \<and> \<not> revokedLocked r sha (SerialKey n)")
  case False
  then have "ev = [] \<and> r' = r" using assms by (auto simp: checkWeb_def Let_def split: option.splits)
  then show ?thesis by simp
next
  case True
  then obtain st where st: "mget (rv_anchors r) sha = Some st" "\<not> revokedLocked r sha (SerialKey n)" by blast
  let ?url = "responderFor r (st_anchor st) leaf"
  obtain ans ev1 r1 where a: "ask_responder io (st_anchor st) n ?url r = (ans, ev1, r1)" by (metis prod_cases3)
  have f: "kind_rows KindCRLExpired ev1 = 0" "kind_rows KindOCSPUnavailable ev1 = 0" "flag f sha r1 = flag f sha r" for f
    using ask_responder_rows [of io "st_anchor st" n ?url r] flag_frames(1) [of r1 r f sha] ask_responder_frame(1) [of io "st_anchor st" n ?url r]
    by (simp_all add: a)
  show ?thesis
  proof (cases "?url \<noteq> [] \<and> (\<exists>res. ans = Inr res)")
    case True
    then have "ev = ev1" "r' = endOCSPOutage sha r1" "had_answer io sha n leaf r"
      using assms st a by (auto simp: checkWeb_def had_answer_def ocsp_answered_def Let_def)
    then show ?thesis using f flag_frames(2) [of sha r1] flag_frames(3) [of st_ocspOutage sha r] by simp
  next
    case False
    have "ev = (if ?url = [] then fst (snd (web_without_ocsp (io_end io) sha (SerialKey n) ?url r))
        else ev1 @ fst (snd (web_without_ocsp (io_end io) sha (SerialKey n) ?url r1)))"
      "r' = (if ?url = [] then snd (snd (web_without_ocsp (io_end io) sha (SerialKey n) ?url r))
        else snd (snd (web_without_ocsp (io_end io) sha (SerialKey n) ?url r1)))"
      using assms st a False by (auto simp: checkWeb_def Let_def split_beta split: sum.splits)
    then show ?thesis
      using web_without_ocsp_rows [where r = r and now = "io_end io" and sha = sha and key = "SerialKey n" and url = ?url]
        web_without_ocsp_rows [where r = r1 and now = "io_end io" and sha = sha and key = "SerialKey n" and url = ?url] f
      by (auto split: if_splits)
  qed
qed

text \<open>Checks of certificates under an operator CA cannot flood the audit log: over any run of them the expiry of
  its CRL is recorded at most once, and an OCSP outage at most once for the run and once more for every answer the
  responder gave in between.\<close>

theorem outage_audited_once:
  assumes "web_run sha calls r = (ev, answers, r')"
  shows "length (filter (\<lambda>e. ev_Kind e = KindCRLExpired) ev) \<le> 1 \<and> length (filter (\<lambda>e. ev_Kind e = KindOCSPUnavailable) ev) \<le> answers + 1"
proof -
  have "kind_rows KindCRLExpired ev + flag st_expiredAudited sha r \<le> flag st_expiredAudited sha r' \<and>
    kind_rows KindOCSPUnavailable ev + flag st_ocspOutage sha r \<le> flag st_ocspOutage sha r' + answers"
    using assms
  proof (induction calls arbitrary: r ev answers)
    case (Cons call calls)
    obtain io n leaf where c: "call = (io, n, leaf)" by (metis prod_cases3)
    obtain x ev1 r1 where w: "checkWeb io sha n leaf r r = (x, ev1, r1)" by (metis prod_cases3)
    obtain evs k r2 where rest: "web_run sha calls r1 = (evs, k, r2)" by (metis prod_cases3)
    have "ev = ev1 @ evs" "answers = (if had_answer io sha n leaf r then k + 1 else k)" "r' = r2"
      using Cons.prems by (simp_all add: c w rest)
    then show ?case using Cons.IH [OF rest [folded \<open>r' = r2\<close>]] checkWeb_rows [OF w] by auto
  qed simp
  then show ?thesis using flag_frames(3) [of st_expiredAudited sha r'] flag_frames(3) [of st_ocspOutage sha r'] by linarith
qed

subsection \<open>Examples\<close>

definition example_state :: anchorState where
  "example_state = (new_anchor_state (example_anchor\<lparr>an_OCSPMode := ''off''\<rparr>))\<lparr>st_crl := Some example_vcrl\<rparr>"

definition example_engine :: Revocations where
  "example_engine = (NewRevocations ''hard'' True)\<lparr>rv_anchors := [(''anchor'', example_state)], rv_polledAt := 190\<rparr>"

definition example_io :: "gotime \<Rightarrow> ocsp_io" where
  "example_io now = \<lparr>io_redact = id, io_now = now, io_answer = Inl (OCSPUnreachable []), io_later = now, io_end = now\<rparr>"

lemma example_engine_anchor: "mget (rv_anchors example_engine) ''anchor'' = Some example_state"
  by (simp add: example_engine_def)

lemma example_engine_simps:
  "HasCRL (st_anchor example_state)" "st_crl example_state = Some example_vcrl" "denied (rv_denylist example_engine) sha = []"
  "rv_polledAt example_engine = 190" "responderFor r (st_anchor example_state) leaf = []"
  "ocsp_answered io (st_anchor example_state) n leaf rd r = None" "rl_NextUpdate (v_List example_vcrl) = 900"
  by (simp_all add: example_state_def example_anchor_def new_anchor_state_def HasCRL_def CRLSourceNone_def example_engine_def NewRevocations_def
      denied_def responderFor_def ResponderURL_def OCSPModeURL_def OCSPModeAIA_def ocsp_answered_def example_vcrl_def example_list_def)

lemma example_not_listed: "\<not> crl_IsRevoked example_vcrl (SerialKey 77)"
  by (simp add: crl_IsRevoked_def example_vcrl_def SerialKey_def fmt_x_def hex_nat.simps hex_digit_def)

lemma checkWeb_decision_witness:
  "fst (checkWeb (example_io 200) ''anchor'' 77 None example_engine example_engine) = None \<and>
   fst (checkWeb (example_io 1000) ''anchor'' 77 None example_engine example_engine) \<noteq> None"
proof -
  have "rv_policy example_engine = PolicyHard" by (simp add: example_engine_def NewRevocations_def PolicyHard_def)
  then show ?thesis
    using checkWeb_decision [of "example_io 200" "''anchor''" 77 None example_engine example_engine]
      checkWeb_decision [of "example_io 1000" "''anchor''" 77 None example_engine example_engine] example_not_listed
    by (simp add: example_engine_anchor example_engine_simps Fresh_def) (simp add: example_io_def)
qed

lemma checkMCP_decision_witness:
  "fst (checkMCP (example_io 200) ''anchor'' 77 None example_engine example_engine) = None"
proof -
  have "io_now (example_io 200) = 200" by (simp add: example_io_def)
  then show ?thesis
    using checkMCP_decision [of "example_io 200" "''anchor''" 77 None example_engine example_engine] example_not_listed
    by (simp add: example_engine_anchor example_engine_simps Fresh_def Minute_def Second_def)
qed

lemma Deny_effective_witness:
  "\<exists>c s' r'. Deny (pg_trust None 70 (\<lambda>_. [])) 70 (example_denied\<lparr>deny_SerialHex := '' 00:1F''\<rparr>) migrated example_engine = ((None, c), s', r') \<and>
     fst (checkWeb (example_io 200) ''a'' 31 None r' r') \<noteq> None"
proof -
  let ?e = "example_denied\<lparr>deny_SerialHex := '' 00:1F''\<rparr>"
  obtain err c s' r' where d: "Deny (pg_trust None 70 (\<lambda>_. [])) 70 ?e migrated example_engine = ((err, c), s', r')" by (metis prod.collapse)
  have "err = None"
    using d by (auto simp: Deny_def Let_def pg_trust_def pg_AddOperatorDenylistEntry_def reloadDenylist_def read_result_def migrated_def split: prod.splits)
  moreover have "NormalizeSerial (deny_SerialHex ?e) = SerialKey 31" by code_simp
  ultimately show ?thesis
    using Deny_effective [of None 70 "\<lambda>_. []" 70 ?e migrated example_engine c s' r' 31 "example_io 200" None r' "New (\<lambda>_. []) []"] d
    by (auto simp: example_denied_def)
qed

lemma poll_misses_nothing_witness:
  "\<exists>s p r. (replica_step example_crl_lib (\<lambda>_. True))\<^sup>*\<^sup>* (migrated, NewPoller, NewRevocations ''soft'' True) (s, p, r) \<and>
     (po_first p \<or> tv_Epoch (po_last p) < pg_epoch s \<or> (Denylisted r ''a'' ''1f'' \<longleftrightarrow>
        (\<exists>e \<in> set (pg_denylist s). deny_IssuerSHA256 e = ''a'' \<and> NormalizeSerial (deny_SerialHex e) = NormalizeSerial ''1f'')))"
proof -
  have "(replica_step example_crl_lib (\<lambda>_. True))\<^sup>*\<^sup>* (migrated, NewPoller, NewRevocations ''soft'' True)
      (snd (pg_AddOperatorDenylistEntry None 75 example_denied migrated), NewPoller, NewRevocations ''soft'' True)"
    by (rule r_into_rtranclp, rule replica_step.database, rule pg_step.deny)
  with poll_misses_nothing [OF this] show ?thesis by blast
qed

lemma late_reload_loses_denial_witness:
  "\<not> Denylisted (install_denylist [] example_engine) ''a'' ''1f'' \<and>
   fst (PollOnce (pg_trust None 75 (\<lambda>_. [])) example_crl_lib 80 None (snd (pg_AddOperatorDenylistEntry None 75 example_denied migrated))
     (snd (pg_AddOperatorDenylistEntry None 75 example_denied migrated)) NewPoller example_engine) = None"
proof -
  let ?s2 = "snd (pg_AddOperatorDenylistEntry None 75 example_denied migrated)" and ?T = "pg_trust None 75 (\<lambda>_. [])"
  have add: "pg_AddOperatorDenylistEntry None 75 example_denied migrated = (Inr True, ?s2)"
    by (simp add: pg_AddOperatorDenylistEntry_def migrated_def)
  have none: "\<forall>e \<in> set (pg_denylist migrated). deny_IssuerSHA256 e = deny_IssuerSHA256 example_denied \<longrightarrow>
      NormalizeSerial (deny_SerialHex e) \<noteq> NormalizeSerial (deny_SerialHex example_denied)"
    by (simp add: migrated_def)
  obtain p2 r2 where poll: "PollOnce ?T example_crl_lib 80 None ?s2 ?s2 NewPoller example_engine = (None, p2, r2)"
    by (auto simp: PollOnce_def pg_trust_def read_result_def Reload_def reloadDenylist_def NewPoller_def)
  have "reloadDenylist (ts_OperatorDenylist ?T migrated) r2 = (None, install_denylist [] r2)"
    by (simp add: reloadDenylist_def pg_trust_def read_result_def pg_OperatorDenylist_def migrated_def)
  from late_reload_loses_denial [OF add none _ poll this, of 90]
  have "\<not> Denylisted (install_denylist [] r2) (deny_IssuerSHA256 example_denied) (deny_SerialHex example_denied)"
    by (simp add: NewPoller_def)
  moreover have "deny_IssuerSHA256 example_denied = ''a''" "deny_SerialHex example_denied = ''1f''" by (simp_all add: example_denied_def)
  ultimately show ?thesis by (simp add: poll Denylisted_def)
qed

lemma example_crl_enforced:
  obtains s p r where "(replica_step example_crl_lib (\<lambda>_. True))\<^sup>*\<^sup>* (migrated, NewPoller, NewRevocations ''soft'' True) (s, p, r)"
    "rv_CRL r ''anchor'' = Some example_vcrl"
proof -
  let ?r0 = "NewRevocations ''soft'' True" and ?T = "pg_trust None 200 (\<lambda>_. [])"
  let ?r1 = "SetAnchors [example_anchor] ?r0"
  let ?x = "StoreCRL ?T example_crl_lib 200 ''anchor'' ''crl'' ''url'' migrated ?r1"
  have st: "mget (rv_anchors ?r1) ''anchor'' = Some (new_anchor_state example_anchor)"
    by (simp add: SetAnchors_def set_anchor_def next_state_def moved_def NewRevocations_def example_anchor_def new_anchor_state_def denied_def)
  have put: "fst (pg_PutOperatorCRL None (crl_row ''anchor'' 200 ''url'' example_vcrl) (AcceptNewer example_vcrl) migrated) = Inr True"
    by (simp add: pg_PutOperatorCRL_eq pg_current_def migrated_def AcceptNewer_def)
  have "an_Cert (st_anchor (new_anchor_state example_anchor)) = example_ca" by (simp add: new_anchor_state_def example_anchor_def)
  then have crl: "rv_CRL (snd (snd ?x)) ''anchor'' = Some example_vcrl"
    using put st by (simp add: StoreCRL_def example_verifies pg_trust_def apfst_def map_prod_def split_beta rv_CRL_def use_crl_def gomap_simps)
  have "replica_step example_crl_lib (\<lambda>_. True) (migrated, NewPoller, ?r0) (migrated, NewPoller, ?r1)" by (rule replica_step.anchors) simp
  moreover have "replica_step example_crl_lib (\<lambda>_. True) (migrated, NewPoller, ?r1) (fst (snd ?x), NewPoller, snd (snd ?x))"
    by (rule replica_step.crl [of None 200 "\<lambda>_. []" _ 200 "''anchor''" "''crl''" "''url''" migrated ?r1 "fst ?x"]) simp
  ultimately have "(replica_step example_crl_lib (\<lambda>_. True))\<^sup>*\<^sup>* (migrated, NewPoller, ?r0) (fst (snd ?x), NewPoller, snd (snd ?x))" by simp
  from this crl show thesis by (rule that)
qed

lemma enforced_CRLs_verified_witness:
  "\<exists>(a :: Anchor) der t. an_SHA256 a = ''anchor'' \<and> VerifyCRL example_crl_lib der (an_Cert a) t = Inr example_vcrl"
  by (rule example_crl_enforced) (blast dest: enforced_CRLs_verified)

lemma outage_audited_once_witness:
  "length (filter (\<lambda>e. ev_Kind e = KindCRLExpired) (fst (web_run ''anchor'' (replicate 5 (example_io 1000, 77, None)) example_engine))) \<le> 1"
  using outage_audited_once [of "''anchor''" "replicate 5 (example_io 1000, 77, None)" example_engine] by (metis prod_cases3 fst_conv)

end
