(* ===== verification/Trust_Store.thy ===== *)
theory Trust_Store
  imports Revocation_Engine "HOL-Library.Word"
begin

text \<open>
  \<^verbatim>\<open>internal/operatorca/truststore.go\<close>: the operator CAs trusted now, in numbered generations, the
  cached verification of peer certificates against the current one, and the peer authorizer that adds
  the revocation decision. The x509 parser and verifier and SHA-256 are the fields of \<open>peer_lib\<close>; of
  the TLS configuration only the session ticket key is kept.
\<close>

datatype Kind = KindFile | KindRegistered | KindNone | KindDev

record peer_lib =
  pl_parse :: "bytes \<Rightarrow> string + certificate"
  pl_verify :: "certificate list \<Rightarrow> certificate list \<Rightarrow> gotime \<Rightarrow> certificate \<Rightarrow> string + certificate list list"
  pl_sha256 :: "bytes \<Rightarrow> bytes"
  pl_subject :: "certificate \<Rightarrow> string"

definition Fingerprint :: "(bytes \<Rightarrow> bytes) \<Rightarrow> certificate \<Rightarrow> string" where
  "Fingerprint sha cert = hex_encode (sha (cert_Raw cert))"

definition verifyCacheSize :: int where "verifyCacheSize = 1024"

record trustGen =
  g_n :: "64 word"
  g_pool :: "certificate list"
  g_anchors :: "(string, Anchor) gomap"
  g_settings :: string
  g_ticket :: bytes

record verifyResult =
  vr_anchor :: Anchor
  vr_notAfter :: gotime

type_synonym verifyKey = "bytes \<times> 64 word"

record TrustStore =
  tr_kind :: Kind
  tr_file :: "Anchor list"
  tr_gen :: trustGen
  tr_cache :: "(verifyKey, verifyResult) lru"
  tr_verifications :: int

subsection \<open>Generations\<close>

definition row_anchor :: "operator_ca \<Rightarrow> certificate \<Rightarrow> Anchor" where
  "row_anchor row cert = \<lparr>an_Cert = cert, an_SHA256 = ca_SHA256 row, an_State = ca_State row, an_CRLSource = ca_CRLSource row,
     an_CRLLocation = ca_CRLURL row, an_OCSPMode = ca_OCSPMode row, an_OCSPURL = ca_OCSPURL row, an_FromConfig = False\<rparr>"

fun load_rows :: "peer_lib \<Rightarrow> operator_ca list \<Rightarrow> Anchor list" where
  "load_rows lib [] = []"
| "load_rows lib (row # rows) =
     (if ca_State row \<noteq> OperatorCAActive \<and> ca_State row \<noteq> OperatorCARetiring then load_rows lib rows
      else case pl_parse lib (ca_CertDER row) of
        Inl _ \<Rightarrow> load_rows lib rows
      | Inr cert \<Rightarrow>
          if Fingerprint (pl_sha256 lib) cert \<noteq> ca_SHA256 row then load_rows lib rows
          else row_anchor row cert # load_rows lib rows)"

definition ts_load :: "peer_lib \<Rightarrow> Kind \<Rightarrow> Anchor list \<Rightarrow> trust_error + operator_ca list \<Rightarrow> trust_error + Anchor list" where
  "ts_load lib kind file rows =
     (case kind of
        KindFile \<Rightarrow> Inr file
      | KindRegistered \<Rightarrow> (case rows of Inl e \<Rightarrow> Inl e | Inr rows \<Rightarrow> Inr (load_rows lib rows))
      | _ \<Rightarrow> Inr [])"

fun str_join :: "string \<Rightarrow> string list \<Rightarrow> string" where
  "str_join sep [] = []"
| "str_join sep [s] = s"
| "str_join sep (s # ss) = s @ sep @ str_join sep ss"

definition settings_part :: "Anchor \<Rightarrow> string" where
  "settings_part a = str_join ''|'' [an_SHA256 a, an_State a, an_CRLSource a, an_CRLLocation a, an_OCSPMode a, an_OCSPURL a]"

definition settingsOf :: "Anchor list \<Rightarrow> string" where
  "settingsOf as = str_join [CHR 10] (sort (map settings_part as))"

definition by_fingerprint :: "Anchor list \<Rightarrow> (string, Anchor) gomap" where
  "by_fingerprint as = fold (\<lambda>a m. mput (an_SHA256 a) a m) as []"

text \<open>\<open>key\<close> is the random ticket key, \<open>None\<close> when the reader fails; then nothing is installed.\<close>

datatype ts_error = LoadFailed trust_error | TicketKey

definition install :: "bytes option \<Rightarrow> Anchor list \<Rightarrow> 64 word \<Rightarrow> TrustStore \<Rightarrow> Revocations \<Rightarrow> ts_error option \<times> TrustStore \<times> Revocations" where
  "install key as n t r =
     (case key of
        None \<Rightarrow> (Some TicketKey, t, r)
      | Some k \<Rightarrow> (None, t\<lparr>tr_gen := \<lparr>g_n = n, g_pool = map an_Cert as, g_anchors = by_fingerprint as, g_settings = settingsOf as,
          g_ticket = k\<rparr>\<rparr>, SetAnchors as r))"

definition NewTrustStore ::
  "peer_lib \<Rightarrow> bytes option \<Rightarrow> Kind \<Rightarrow> Anchor list \<Rightarrow> trust_error + operator_ca list \<Rightarrow> Revocations \<Rightarrow> (ts_error + TrustStore) \<times> Revocations" where
  "NewTrustStore lib key kind file rows r =
     (let t = \<lparr>tr_kind = kind, tr_file = file,
            tr_gen = \<lparr>g_n = 0, g_pool = [], g_anchors = [], g_settings = [], g_ticket = []\<rparr>,
            tr_cache = newLRU verifyCacheSize, tr_verifications = 0\<rparr>
      in case ts_load lib kind file rows of
           Inl e \<Rightarrow> (Inl (LoadFailed e), r)
         | Inr as \<Rightarrow>
             (case install key as 1 t r of
                (Some e, _, r) \<Rightarrow> (Inl e, r)
              | (None, t, r) \<Rightarrow> (Inr t, r)))"

definition Rebuild ::
  "peer_lib \<Rightarrow> bytes option \<Rightarrow> trust_error + operator_ca list \<Rightarrow> TrustStore \<Rightarrow> Revocations \<Rightarrow> ts_error option \<times> TrustStore \<times> Revocations" where
  "Rebuild lib key rows t r =
     (if tr_kind t \<noteq> KindRegistered then (None, t, r)
      else case ts_load lib (tr_kind t) (tr_file t) rows of
        Inl e \<Rightarrow> (Some (LoadFailed e), t, r)
      | Inr as \<Rightarrow>
          if settingsOf as = g_settings (tr_gen t) then (None, t, r)
          else install key as (g_n (tr_gen t) + 1) t r)"

definition Roots :: "TrustStore \<Rightarrow> certificate list" where
  "Roots t = g_pool (tr_gen t)"

definition ts_Anchors :: "TrustStore \<Rightarrow> Anchor list" where
  "ts_Anchors t = mvals (g_anchors (tr_gen t))"

subsection \<open>Peers\<close>

datatype peer_error = PeerRefused refusal | PeerPanic  \<comment> \<open>indexing an empty list of chains\<close>

definition VerifyPeer ::
  "peer_lib \<Rightarrow> gotime \<Rightarrow> certificate \<Rightarrow> certificate list \<Rightarrow> TrustStore \<Rightarrow> (peer_error + Anchor) \<times> TrustStore" where
  "VerifyPeer lib now leaf intermediates t =
     (let g = tr_gen t;
          key = (pl_sha256 lib (cert_Raw leaf), g_n g);
          (hit, cache) = lru_get key (tr_cache t);
          t = t\<lparr>tr_cache := cache\<rparr>;
          miss = (\<lambda>t. let t = t\<lparr>tr_verifications := tr_verifications t + 1\<rparr>
             in case pl_verify lib (g_pool g) intermediates now leaf of
                  Inl e \<Rightarrow> (Inl (PeerRefused (rejectCert NOT_CHAINED
                    (''the certificate no longer chains to a trusted operator CA: '' @ e))), t)
                | Inr chs \<Rightarrow>
                    if chs = [] \<or> hd chs = [] then (Inl PeerPanic, t)
                    else
                      (let root = last (hd chs)
                       in case mget (g_anchors g) (Fingerprint (pl_sha256 lib) root) of
                            None \<Rightarrow> (Inl (PeerRefused (rejectCert NOT_CHAINED
                              (''the certificate chains to '' @ pl_subject lib root @ '', which isn't trusted''))), t)
                          | Some a \<Rightarrow> (Inr a, t\<lparr>tr_cache := lru_put key \<lparr>vr_anchor = a, vr_notAfter = cert_NotAfter leaf\<rparr> (tr_cache t)\<rparr>)))
      in case hit of
           None \<Rightarrow> miss t
         | Some h \<Rightarrow> if now < vr_notAfter h then (Inr (vr_anchor h), t) else miss t)"

definition AuthorizePeer ::
  "peer_lib \<Rightarrow> gotime \<Rightarrow> ocsp_io \<Rightarrow> certificate \<Rightarrow> certificate list \<Rightarrow> TrustStore \<Rightarrow> Revocations \<Rightarrow>
   (peer_error + string) \<times> audit_event list \<times> TrustStore \<times> Revocations" where
  "AuthorizePeer lib now io leaf intermediates t r =
     (case VerifyPeer lib now leaf intermediates t of
        (Inl e, t) \<Rightarrow> (Inl e, [], t, r)
      | (Inr a, t) \<Rightarrow>
          (case CheckWebCert io (an_SHA256 a) leaf r r of
             (Some e, ev, r) \<Rightarrow> (Inl (PeerRefused e), ev, t, r)
           | (None, ev, r) \<Rightarrow> (Inr (an_SHA256 a), ev, t, r)))"

definition AdmitMCP ::
  "peer_lib \<Rightarrow> gotime \<Rightarrow> ocsp_io \<Rightarrow> bytes \<Rightarrow> TrustStore \<Rightarrow> Revocations \<Rightarrow> peer_error option \<times> audit_event list \<times> TrustStore \<times> Revocations" where
  "AdmitMCP lib now io der t r =
     (case pl_parse lib der of
        Inl e \<Rightarrow> (Some (PeerRefused (rejectCert NOT_CHAINED (''the certificate doesn't parse: '' @ e))), [], t, r)
      | Inr cert \<Rightarrow>
          (case VerifyPeer lib now cert [] t of
             (Inl e, t) \<Rightarrow> (Some e, [], t, r)
           | (Inr a, t) \<Rightarrow>
               (case rv_CheckMCPCert io (an_SHA256 a) cert r r of
                  (e, ev, r) \<Rightarrow> (map_option PeerRefused e, ev, t, r))))"

subsection \<open>What the settings tell apart\<close>

fun lines :: "string \<Rightarrow> string list" where
  "lines [] = [[]]"
| "lines (c # cs) = (if c = CHR 10 then [] # lines cs else (case lines cs of [] \<Rightarrow> [[c]] | l # ls \<Rightarrow> (c # l) # ls))"

lemma lines_nonempty: "lines s \<noteq> []"
  by (induction s) (auto split: list.split)

lemma lines_append: "CHR 10 \<notin> set p \<Longrightarrow> lines (p @ s) = (case lines s of [] \<Rightarrow> [p] | l # ls \<Rightarrow> (p @ l) # ls)"
  using lines_nonempty by (induction p) (auto split: list.split)

lemma lines_join: "ps \<noteq> [] \<Longrightarrow> \<forall>p \<in> set ps. CHR 10 \<notin> set p \<Longrightarrow> lines (str_join [CHR 10] ps) = ps"
proof (induction "[CHR 10 :: char]" ps rule: str_join.induct)
  case (2 s)
  then show ?case using lines_append [of s "[]"] by simp
next
  case (3 s s' ss)
  then show ?case using lines_append [of s "CHR 10 # str_join [CHR 10] (s' # ss)"] by simp
qed simp

definition plain :: "Anchor \<Rightarrow> bool" where
  "plain a \<longleftrightarrow> CHR 10 \<notin> set (settings_part a) \<and> CHR ''|'' \<notin> set (an_SHA256 a)"

lemma settings_part_sha: "CHR ''|'' \<notin> set (an_SHA256 a) \<Longrightarrow> takeWhile (\<lambda>c. c \<noteq> CHR ''|'') (settings_part a) = an_SHA256 a"
  by (simp add: settings_part_def) (subst takeWhile_append2, auto)

lemma settings_part_nonempty: "settings_part a \<noteq> []"
  by (simp add: settings_part_def)

lemma sort_Nil: "sort (xs :: string list) = [] \<longleftrightarrow> xs = []"
  by (metis set_empty set_sort)

lemma settingsOf_shas:
  assumes "settingsOf as = settingsOf bs" and "list_all plain as" and "list_all plain bs"
  shows "an_SHA256 ` set as = an_SHA256 ` set bs"
proof -
  have parts: "set (map settings_part as) = set (lines (settingsOf as))" if "as \<noteq> []" "list_all plain as" for as
  proof -
    have "sort (map settings_part as) \<noteq> []" using that(1) by (simp add: sort_Nil)
    then show ?thesis
      using lines_join [of "sort (map settings_part as)"] that(2) by (simp add: settingsOf_def list_all_iff plain_def)
  qed
  have empty: "settingsOf as = [] \<longleftrightarrow> as = []" for as
  proof (cases "sort (map settings_part as)")
    case (Cons p ps)
    then have "p \<in> settings_part ` set as" by (metis list.set_intros(1) set_map set_sort)
    then have "p \<noteq> []" using settings_part_nonempty by auto
    then have "str_join [CHR 10] (p # ps) \<noteq> []" by (cases ps) auto
    then show ?thesis using Cons by (auto simp: settingsOf_def)
  qed (simp add: settingsOf_def sort_Nil)
  have "settings_part ` set as = settings_part ` set bs"
    using parts [of as] parts [of bs] empty [of as] empty [of bs] assms by (cases "as = []") auto
  moreover have "an_SHA256 ` set cs = takeWhile (\<lambda>c. c \<noteq> CHR ''|'') ` settings_part ` set cs" if "list_all plain cs" for cs
    using that by (force simp: image_image list_all_iff plain_def settings_part_sha)
  ultimately show ?thesis using assms(2,3) by metis
qed

lemma by_fingerprint_snoc: "mget (by_fingerprint (as @ [a])) k = (if k = an_SHA256 a then Some a else mget (by_fingerprint as) k)"
  by (simp add: by_fingerprint_def gomap_simps)

lemma by_fingerprint_Some: "mget (by_fingerprint as) k = Some a \<Longrightarrow> a \<in> set as \<and> an_SHA256 a = k"
proof (induction as rule: rev_induct)
  case (snoc b as)
  then show ?case by (simp add: by_fingerprint_snoc split: if_splits)
qed (simp add: by_fingerprint_def)

lemma by_fingerprint_None: "mget (by_fingerprint as) k = None \<longleftrightarrow> k \<notin> an_SHA256 ` set as"
proof (induction as rule: rev_induct)
  case (snoc b as)
  then show ?case by (simp add: by_fingerprint_snoc)
qed (simp add: by_fingerprint_def)

subsection \<open>Reachable trust stores\<close>

definition newline_free :: "Anchor \<Rightarrow> bool" where
  "newline_free a \<longleftrightarrow> CHR 10 \<notin> set (an_State a @ an_CRLSource a @ an_CRLLocation a @ an_OCSPMode a @ an_OCSPURL a)"

definition named :: "peer_lib \<Rightarrow> Anchor \<Rightarrow> bool" where
  "named lib a \<longleftrightarrow> an_SHA256 a = Fingerprint (pl_sha256 lib) (an_Cert a) \<and> newline_free a"

definition plain_row :: "operator_ca \<Rightarrow> bool" where
  "plain_row row \<longleftrightarrow> CHR 10 \<notin> set (ca_State row @ ca_CRLSource row @ ca_CRLURL row @ ca_OCSPMode row @ ca_OCSPURL row)"

inductive ts_reach :: "peer_lib \<Rightarrow> TrustStore \<Rightarrow> bool" for lib where
  start: "NewTrustStore lib key kind file rows r = (Inr t, r') \<Longrightarrow> list_all (named lib) file \<Longrightarrow> pred_sum (\<lambda>_. True) (list_all plain_row) rows \<Longrightarrow>
    ts_reach lib t"
| rebuild: "ts_reach lib t \<Longrightarrow> Rebuild lib key rows t r = (err, t', r') \<Longrightarrow> pred_sum (\<lambda>_. True) (list_all plain_row) rows \<Longrightarrow>
    g_n (tr_gen t) \<noteq> - 1 \<Longrightarrow> ts_reach lib t'"
| verify: "ts_reach lib t \<Longrightarrow> VerifyPeer lib now leaf inters t = (res, t') \<Longrightarrow> ts_reach lib t'"

definition vouched :: "peer_lib \<Rightarrow> trustGen \<Rightarrow> bytes \<Rightarrow> verifyResult \<Rightarrow> bool" where
  "vouched lib g h vr \<longleftrightarrow> (\<exists>leaf inters at chs. pl_sha256 lib (cert_Raw leaf) = h \<and> pl_verify lib (g_pool g) inters at leaf = Inr chs \<and>
     chs \<noteq> [] \<and> hd chs \<noteq> [] \<and> mget (g_anchors g) (Fingerprint (pl_sha256 lib) (last (hd chs))) = Some (vr_anchor vr) \<and>
     vr_notAfter vr = cert_NotAfter leaf)"

definition cache_ok :: "peer_lib \<Rightarrow> trustGen \<Rightarrow> (verifyKey, verifyResult) lru \<Rightarrow> bool" where
  "cache_ok lib g c \<longleftrightarrow> lru_inv c \<and> (\<forall>((h, n), vr) \<in> set (bindings c). n \<le> g_n g \<and> (n = g_n g \<longrightarrow> vouched lib g h vr))"

definition gen_ok :: "peer_lib \<Rightarrow> trustGen \<Rightarrow> bool" where
  "gen_ok lib g \<longleftrightarrow> (\<exists>as. g_pool g = map an_Cert as \<and> g_anchors g = by_fingerprint as \<and> g_settings g = settingsOf as \<and> list_all plain as)"

lemma hex_encode_chars: "c \<in> set (hex_encode b) \<Longrightarrow> c \<noteq> CHR 10 \<and> c \<noteq> CHR ''|''"
  using hex_encode_digits [of b] by (auto simp: hexdigits_def)

lemma named_plain: "named lib a \<Longrightarrow> plain a"
  using hex_encode_chars [of _ "pl_sha256 lib (cert_Raw (an_Cert a))"]
  by (auto simp: named_def plain_def newline_free_def settings_part_def Fingerprint_def)

lemma load_rows_named: "list_all plain_row rows \<Longrightarrow> list_all (named lib) (load_rows lib rows)"
  by (induction rows) (auto simp: named_def newline_free_def plain_row_def row_anchor_def split: sum.split)

lemma load_rows_trusted:
  "a \<in> set (load_rows lib rows) \<Longrightarrow> \<exists>row \<in> set rows. ca_SHA256 row = an_SHA256 a \<and> trusted_state (ca_State row)"
  by (induction rows) (auto simp: row_anchor_def trusted_state_def split: sum.splits if_splits)

lemma ts_load_named:
  assumes "ts_load lib kind file rows = Inr as" and "list_all (named lib) file" and "pred_sum (\<lambda>_. True) (list_all plain_row) rows"
  shows "list_all plain as"
proof -
  have "list_all (named lib) as"
    using assms load_rows_named [of _ lib] by (auto simp: ts_load_def split: Kind.splits sum.splits)
  then show ?thesis by (auto simp: list_all_iff intro: named_plain)
qed

lemma installed_ok:
  assumes "list_all plain as" and "cache_ok lib g c" and "g_n g < n"
  shows "gen_ok lib \<lparr>g_n = n, g_pool = map an_Cert as, g_anchors = by_fingerprint as, g_settings = settingsOf as, g_ticket = k\<rparr>"
    and "cache_ok lib \<lparr>g_n = n, g_pool = map an_Cert as, g_anchors = by_fingerprint as, g_settings = settingsOf as, g_ticket = k\<rparr> c"
  using assms by (fastforce simp: gen_ok_def cache_ok_def)+

lemma VerifyPeer_cases:
  assumes "VerifyPeer lib now leaf inters t = (res, t')"
  obtains (hit) h where "fst (lru_get (pl_sha256 lib (cert_Raw leaf), g_n (tr_gen t)) (tr_cache t)) = Some h" "now < vr_notAfter h" "res = Inr (vr_anchor h)"
      "t' = t\<lparr>tr_cache := snd (lru_get (pl_sha256 lib (cert_Raw leaf), g_n (tr_gen t)) (tr_cache t))\<rparr>"
  | (refused) e where "res = Inl e" "tr_gen t' = tr_gen t" "tr_kind t' = tr_kind t" "tr_file t' = tr_file t"
      "tr_cache t' = snd (lru_get (pl_sha256 lib (cert_Raw leaf), g_n (tr_gen t)) (tr_cache t))"
  | (checked) a chs where "pl_verify lib (g_pool (tr_gen t)) inters now leaf = Inr chs" "chs \<noteq> []" "hd chs \<noteq> []"
      "mget (g_anchors (tr_gen t)) (Fingerprint (pl_sha256 lib) (last (hd chs))) = Some a" "res = Inr a" "tr_gen t' = tr_gen t" "tr_kind t' = tr_kind t"
      "tr_file t' = tr_file t"
      "tr_cache t' = lru_put (pl_sha256 lib (cert_Raw leaf), g_n (tr_gen t)) \<lparr>vr_anchor = a, vr_notAfter = cert_NotAfter leaf\<rparr>
         (snd (lru_get (pl_sha256 lib (cert_Raw leaf), g_n (tr_gen t)) (tr_cache t)))"
proof (cases "\<exists>h. fst (lru_get (pl_sha256 lib (cert_Raw leaf), g_n (tr_gen t)) (tr_cache t)) = Some h \<and> now < vr_notAfter h")
  case True
  then show thesis using assms hit by (auto simp: VerifyPeer_def Let_def split_beta)
next
  case False
  let ?t = "t\<lparr>tr_cache := snd (lru_get (pl_sha256 lib (cert_Raw leaf), g_n (tr_gen t)) (tr_cache t)), tr_verifications := tr_verifications t + 1\<rparr>"
  show thesis
  proof (cases "\<exists>chs a. pl_verify lib (g_pool (tr_gen t)) inters now leaf = Inr chs \<and> chs \<noteq> [] \<and> hd chs \<noteq> [] \<and>
      mget (g_anchors (tr_gen t)) (Fingerprint (pl_sha256 lib) (last (hd chs))) = Some a")
    case True
    then obtain chs a where c: "pl_verify lib (g_pool (tr_gen t)) inters now leaf = Inr chs" "chs \<noteq> []" "hd chs \<noteq> []"
      "mget (g_anchors (tr_gen t)) (Fingerprint (pl_sha256 lib) (last (hd chs))) = Some a" by blast
    then have "res = Inr a \<and> t' = ?t\<lparr>tr_cache := lru_put (pl_sha256 lib (cert_Raw leaf), g_n (tr_gen t))
        \<lparr>vr_anchor = a, vr_notAfter = cert_NotAfter leaf\<rparr> (tr_cache ?t)\<rparr>"
      using assms False by (auto simp: VerifyPeer_def Let_def split_beta split: option.splits)
    then show thesis by (intro checked [OF c]) simp_all
  next
    case none: False
    have "\<exists>e. res = Inl e \<and> t' = ?t"
      using assms False none by (auto simp: VerifyPeer_def Let_def split_beta split: option.splits sum.splits if_splits)
    then show thesis using refused by auto
  qed
qed

definition ts_ok :: "peer_lib \<Rightarrow> TrustStore \<Rightarrow> bool" where
  "ts_ok lib t \<longleftrightarrow> gen_ok lib (tr_gen t) \<and> cache_ok lib (tr_gen t) (tr_cache t) \<and> lru_max (tr_cache t) = verifyCacheSize \<and> list_all (named lib) (tr_file t)"

lemma cache_ok_touch: "cache_ok lib g c \<Longrightarrow> cache_ok lib g (snd (lru_get k c))"
  using lru_get_inv [of c k] lru_get_bindings_set [of c k] by (fastforce simp: cache_ok_def)

lemma cache_ok_put:
  assumes "cache_ok lib g c" and "vouched lib g h vr"
  shows "cache_ok lib g (lru_put (h, g_n g) vr c)"
proof -
  have inv: "lru_inv c" using assms(1) by (simp add: cache_ok_def)
  note p = lru_put_inv [OF inv, of "(h, g_n g)" vr]
  have "set (bindings (lru_put (h, g_n g) vr c)) \<subseteq> insert ((h, g_n g), vr) (set (bindings c))"
    using p set_take_subset by (fastforce simp: without_def)
  then show ?thesis using assms p unfolding cache_ok_def by fastforce
qed

lemma hit_vouched:
  assumes "cache_ok lib g c" and "fst (lru_get (h, g_n g) c) = Some vr"
  shows "vouched lib g h vr"
proof -
  have "lru_ok c" using assms(1) by (simp add: cache_ok_def lru_inv_def)
  then have "map_of (bindings c) (h, g_n g) = Some vr" using lru_get_refines [of c "(h, g_n g)"] assms(2) by simp
  then have "((h, g_n g), vr) \<in> set (bindings c)" by (rule map_of_SomeD)
  then show ?thesis using assms(1) by (auto simp: cache_ok_def)
qed

lemma touched:
  "ts_ok lib t \<Longrightarrow> cache_ok lib (tr_gen t) (snd (lru_get k (tr_cache t))) \<and> lru_inv (snd (lru_get k (tr_cache t))) \<and>
     lru_max (snd (lru_get k (tr_cache t))) = verifyCacheSize"
  unfolding ts_ok_def using cache_ok_touch [of lib "tr_gen t" "tr_cache t" k] lru_get_inv [of "tr_cache t" k] by (auto simp: cache_ok_def)

lemma VerifyPeer_ok:
  assumes "VerifyPeer lib now leaf inters t = (res, t')" and "ts_ok lib t"
  shows "ts_ok lib t' \<and> tr_gen t' = tr_gen t \<and> tr_kind t' = tr_kind t"
  using assms(1)
proof (cases rule: VerifyPeer_cases)
  case (hit h)
  then show ?thesis using assms(2) touched [OF assms(2)] by (simp add: ts_ok_def)
next
  case (refused e)
  then show ?thesis using assms(2) touched [OF assms(2)] by (simp add: ts_ok_def)
next
  case (checked a chs)
  let ?c = "snd (lru_get (pl_sha256 lib (cert_Raw leaf), g_n (tr_gen t)) (tr_cache t))"
  note c = touched [OF assms(2), of "(pl_sha256 lib (cert_Raw leaf), g_n (tr_gen t))"]
  have "vouched lib (tr_gen t) (pl_sha256 lib (cert_Raw leaf)) \<lparr>vr_anchor = a, vr_notAfter = cert_NotAfter leaf\<rparr>"
    using checked(1-4) by (auto simp: vouched_def)
  from cache_ok_put [OF conjunct1 [OF c] this] show ?thesis
    using checked(6-9) assms(2) c lru_put_inv [of ?c] by (simp add: ts_ok_def)
qed

lemma VerifyPeer_anchor:
  assumes "VerifyPeer lib now leaf inters t = (Inr a, t')" and "ts_ok lib t"
  shows "\<exists>k. mget (g_anchors (tr_gen t)) k = Some a"
  using assms(1)
proof (cases rule: VerifyPeer_cases)
  case (hit h)
  have "vouched lib (tr_gen t) (pl_sha256 lib (cert_Raw leaf)) h" using hit_vouched [OF _ hit(1)] assms(2) by (simp add: ts_ok_def)
  then show ?thesis using hit(3) by (auto simp: vouched_def)
qed auto

lemma next_generation:
  fixes n :: "64 word"
  assumes "n \<noteq> - 1"
  shows "n < n + 1"
proof -
  have "1 + n \<noteq> 0" using assms by (metis add_eq_0_iff2 add.commute eq_neg_iff_add_eq_0)
  then show ?thesis using unatSuc [of n] by (simp add: word_less_nat_alt add.commute)
qed

lemma Rebuild_ok:
  assumes "Rebuild lib key rows t r = (err, t', r')" and "ts_ok lib t" and "pred_sum (\<lambda>_. True) (list_all plain_row) rows" and "g_n (tr_gen t) \<noteq> - 1"
  shows "ts_ok lib t'"
proof (cases "t' = t")
  case False
  then obtain as k where as: "ts_load lib (tr_kind t) (tr_file t) rows = Inr as"
    "t' = t\<lparr>tr_gen := \<lparr>g_n = g_n (tr_gen t) + 1, g_pool = map an_Cert as, g_anchors = by_fingerprint as, g_settings = settingsOf as, g_ticket = k\<rparr>\<rparr>"
    using assms(1) by (auto simp: Rebuild_def install_def split: if_splits sum.splits option.splits)
  note next_generation [OF assms(4)]
  with as ts_load_named [OF as(1)] assms(2,3) installed_ok [of as lib "tr_gen t" "tr_cache t" "g_n (tr_gen t) + 1" k] show ?thesis
    by (simp add: ts_ok_def)
qed (use assms(2) in simp)

lemma ts_reach_ok: "ts_reach lib t \<Longrightarrow> ts_ok lib t"
proof (induction rule: ts_reach.induct)
  case (start key kind fl rows r t r')
  then obtain as k where as: "ts_load lib kind fl rows = Inr as"
    "t = \<lparr>tr_kind = kind, tr_file = fl, tr_gen = \<lparr>g_n = 1, g_pool = map an_Cert as, g_anchors = by_fingerprint as, g_settings = settingsOf as, g_ticket = k\<rparr>,
       tr_cache = newLRU verifyCacheSize, tr_verifications = 0\<rparr>"
    by (auto simp: NewTrustStore_def install_def Let_def split: sum.splits option.splits)
  have "lru_inv (newLRU verifyCacheSize)" by (rule newLRU_inv) (simp add: verifyCacheSize_def)
  moreover have "lru_max (newLRU verifyCacheSize) = verifyCacheSize" by (simp add: newLRU_def)
  ultimately show ?case
    using ts_load_named [OF as(1) start(2,3)] start(2) by (auto simp: as(2) ts_ok_def gen_ok_def cache_ok_def)
next
  case (rebuild t key rows r err t' r')
  show ?case by (rule Rebuild_ok [OF rebuild(2) rebuild.IH rebuild(3,4)])
next
  case (verify t now leaf inters res t')
  then show ?case using VerifyPeer_ok by blast
qed

lemma VerifyPeer_vouched:
  assumes "ts_reach lib t" and "VerifyPeer lib now leaf inters t = (Inr a, t')"
  shows "\<exists>leaf' inters' at chs. pl_sha256 lib (cert_Raw leaf') = pl_sha256 lib (cert_Raw leaf) \<and>
      pl_verify lib (Roots t) inters' at leaf' = Inr chs \<and> chs \<noteq> [] \<and> hd chs \<noteq> [] \<and>
      mget (g_anchors (tr_gen t)) (Fingerprint (pl_sha256 lib) (last (hd chs))) = Some a \<and>
      (leaf' = leaf \<and> inters' = inters \<and> at = now \<or> now < cert_NotAfter leaf')"
  using assms(2)
proof (cases rule: VerifyPeer_cases)
  case (hit h)
  have "vouched lib (tr_gen t) (pl_sha256 lib (cert_Raw leaf)) h"
    using hit_vouched [OF _ hit(1)] ts_reach_ok [OF assms(1)] by (simp add: ts_ok_def)
  then show ?thesis using hit(2,3) by (fastforce simp: vouched_def Roots_def)
next
  case (checked b chs)
  then show ?thesis by (auto simp: Roots_def)
qed simp

text \<open>A peer certificate is accepted only for an operator CA of the current generation, on the strength of a
  verification against the current pool: one made now, or a cached one of the same certificate in the same
  generation, within the certificate's own validity. Nothing verified under an earlier generation is reused.\<close>

theorem VerifyPeer_current:
  assumes "ts_reach lib t" and "VerifyPeer lib now leaf inters t = (Inr a, t')"
  shows "\<exists>leaf' inters' at chs. pl_sha256 lib (cert_Raw leaf') = pl_sha256 lib (cert_Raw leaf) \<and>
      pl_verify lib (Roots t) inters' at leaf' = Inr chs \<and> chs \<noteq> [] \<and> hd chs \<noteq> [] \<and>
      mget (g_anchors (tr_gen t)) (Fingerprint (pl_sha256 lib) (last (hd chs))) = Some a \<and>
      (leaf' = leaf \<and> inters' = inters \<and> at = now \<or> now < cert_NotAfter leaf')"
  by (rule VerifyPeer_vouched [OF assms])

lemma rebuild_trusts:
  assumes "ts_reach lib t" and "tr_kind t = KindRegistered" and "list_all plain_row rows" and "g_n (tr_gen t) \<noteq> - 1"
    and "Rebuild lib key (Inr rows) t r = (None, t', r')"
  shows "{sha. mget (g_anchors (tr_gen t')) sha \<noteq> None} = an_SHA256 ` set (load_rows lib rows) \<and>
    (\<forall>now leaf inters a t''. VerifyPeer lib now leaf inters t' = (Inr a, t'') \<longrightarrow>
       (\<exists>row \<in> set rows. ca_SHA256 row = an_SHA256 a \<and> (ca_State row = OperatorCAActive \<or> ca_State row = OperatorCARetiring)))"
proof -
  have t': "ts_ok lib t'" using Rebuild_ok [OF assms(5) ts_reach_ok [OF assms(1)]] assms(3,4) by simp
  obtain as where as: "g_anchors (tr_gen t') = by_fingerprint as" "an_SHA256 ` set as = an_SHA256 ` set (load_rows lib rows)"
  proof (cases "settingsOf (load_rows lib rows) = g_settings (tr_gen t)")
    case True
    obtain bs where bs: "g_anchors (tr_gen t) = by_fingerprint bs" "g_settings (tr_gen t) = settingsOf bs" "list_all plain bs"
      using ts_reach_ok [OF assms(1)] by (auto simp: ts_ok_def gen_ok_def)
    have "list_all plain (load_rows lib rows)"
      using load_rows_named [OF assms(3), of lib] by (auto simp: list_all_iff intro: named_plain)
    then have "an_SHA256 ` set bs = an_SHA256 ` set (load_rows lib rows)"
      using settingsOf_shas [of bs "load_rows lib rows"] bs True by simp
    moreover have "t' = t" using assms(2,5) True by (simp add: Rebuild_def ts_load_def)
    ultimately show thesis using that bs(1) by simp
  next
    case False
    then show thesis using that assms(2,5) by (auto simp: Rebuild_def ts_load_def install_def split: option.splits)
  qed
  have dom: "{sha. mget (g_anchors (tr_gen t')) sha \<noteq> None} = an_SHA256 ` set (load_rows lib rows)"
    using by_fingerprint_None [of as] as by auto
  have "\<exists>row \<in> set rows. ca_SHA256 row = an_SHA256 a \<and> trusted_state (ca_State row)" if v: "VerifyPeer lib now leaf inters t' = (Inr a, t'')" for now leaf inters a t''
  proof -
    obtain k where k: "mget (g_anchors (tr_gen t')) k = Some a" using VerifyPeer_anchor [OF v t'] by blast
    then have "an_SHA256 a = k" using by_fingerprint_Some [of as k a] as(1) by simp
    then have "an_SHA256 a \<in> an_SHA256 ` set (load_rows lib rows)" using k dom by auto
    then show ?thesis using load_rows_trusted [of _ lib rows] by fastforce
  qed
  then show ?thesis using dom by (auto simp: trusted_state_def)
qed

text \<open>C12: a rebuild makes the trusted set follow the stored rows. After one succeeds, exactly the active and retiring
  rows whose certificates parse and carry their fingerprint are trusted, so a retired operator CA is refused from
  the next request on.\<close>

theorem rebuild_follows_rows:
  assumes "ts_reach lib t" and "tr_kind t = KindRegistered" and "list_all plain_row rows" and "g_n (tr_gen t) \<noteq> - 1"
    and "Rebuild lib key (Inr rows) t r = (None, t', r')"
  shows "{sha. mget (g_anchors (tr_gen t')) sha \<noteq> None} = an_SHA256 ` set (load_rows lib rows) \<and>
    (\<forall>now leaf inters a t''. VerifyPeer lib now leaf inters t' = (Inr a, t'') \<longrightarrow>
       (\<exists>row \<in> set rows. ca_SHA256 row = an_SHA256 a \<and> (ca_State row = OperatorCAActive \<or> ca_State row = OperatorCARetiring)))"
  by (rule rebuild_trusts [OF assms])

text \<open>A verification is cached until the certificate itself expires, whatever becomes of its chain. Once a
  certificate has passed, every later request in the same generation accepts it without another look, also when the
  operator CA or an intermediate has expired meanwhile and the verification would fail.\<close>

theorem cached_chain_not_rechecked:
  assumes "ts_reach lib t" and "fst (lru_get (pl_sha256 lib (cert_Raw leaf), g_n (tr_gen t)) (tr_cache t)) = None"
    and "VerifyPeer lib now leaf inters t = (Inr a, t1)" and "now' < cert_NotAfter leaf" and "pl_sha256 lib' = pl_sha256 lib"
  shows "fst (VerifyPeer lib' now' leaf inters' t1) = Inr a"
  using assms(3)
proof (cases rule: VerifyPeer_cases)
  case (checked b chs)
  let ?k = "(pl_sha256 lib (cert_Raw leaf), g_n (tr_gen t))" and ?v = "\<lparr>vr_anchor = a, vr_notAfter = cert_NotAfter leaf\<rparr>"
  have c: "lru_inv (snd (lru_get ?k (tr_cache t)))" "lru_max (snd (lru_get ?k (tr_cache t))) = 1024"
    using touched [OF ts_reach_ok [OF assms(1)], of ?k] by (simp_all add: verifyCacheSize_def)
  have b: "bindings (tr_cache t1) = take 1024 ((?k, ?v) # without ?k (bindings (snd (lru_get ?k (tr_cache t)))))" "lru_inv (tr_cache t1)"
    using checked(5,9) c lru_put_inv [OF c(1), of ?k ?v] by simp_all
  have "fst (lru_get ?k (tr_cache t1)) = Some ?v"
    using lru_get_refines [of "tr_cache t1" ?k] b by (simp add: lru_inv_def)
  then show ?thesis
    using assms(4,5) checked(6) by (simp add: VerifyPeer_def Let_def split_beta)
qed (use assms(2) in simp_all)

subsection \<open>Examples\<close>

definition example_peer_lib :: peer_lib where
  "example_peer_lib = \<lparr>pl_parse = (\<lambda>_. Inr example_ca), pl_verify = (\<lambda>roots _ now leaf. if now < 500 then Inr [leaf # roots] else Inl ''expired''),
     pl_sha256 = id, pl_subject = (\<lambda>_. ''CN=CA'')\<rparr>"

definition example_rows :: "operator_ca list" where
  "example_rows = [(example_opca ''6361'')\<lparr>ca_State := ''active''\<rparr>]"

definition example_store :: TrustStore where
  "example_store = (case fst (NewTrustStore example_peer_lib (Some ''k'') KindRegistered [] (Inr example_rows) (NewRevocations ''soft'' False)) of Inr t \<Rightarrow> t)"

definition example_row_anchor :: Anchor where
  "example_row_anchor = row_anchor ((example_opca ''6361'')\<lparr>ca_State := ''active''\<rparr>) example_ca"

lemma example_fingerprint: "Fingerprint id example_ca = ''6361''"
  by (simp add: Fingerprint_def example_ca_def) code_simp

lemma example_load: "load_rows example_peer_lib example_rows = [example_row_anchor]"
  using example_fingerprint
  by (simp add: example_rows_def example_row_anchor_def example_peer_lib_def OperatorCAActive_def) (simp add: example_opca_def)

lemma example_store_eq:
  "example_store = \<lparr>tr_kind = KindRegistered, tr_file = [], tr_gen = \<lparr>g_n = 1, g_pool = [example_ca], g_anchors = [(''6361'', example_row_anchor)],
     g_settings = settingsOf [example_row_anchor], g_ticket = ''k''\<rparr>, tr_cache = newLRU verifyCacheSize, tr_verifications = 0\<rparr>"
proof -
  have "an_SHA256 example_row_anchor = ''6361''" "an_Cert example_row_anchor = example_ca"
    by (simp_all add: example_row_anchor_def row_anchor_def example_opca_def)
  then show ?thesis
    by (simp add: example_store_def NewTrustStore_def ts_load_def example_load install_def by_fingerprint_def)
qed

lemma example_rows_plain: "list_all plain_row example_rows"
  by (simp add: example_rows_def plain_row_def example_opca_def)

lemma example_store_reached: "ts_reach example_peer_lib example_store"
proof (rule ts_reach.start)
  let ?n = "NewTrustStore example_peer_lib (Some ''k'') KindRegistered [] (Inr example_rows) (NewRevocations ''soft'' False)"
  have "fst ?n = Inr example_store"
    by (simp add: example_store_def NewTrustStore_def ts_load_def install_def)
  then show "?n = (Inr example_store, snd ?n)" by (simp add: prod_eq_iff)
qed (use example_rows_plain in simp_all)

lemma example_peer: "fst (VerifyPeer example_peer_lib 400 (example_cert\<lparr>cert_NotAfter := 900\<rparr>) [] example_store) = Inr example_row_anchor"
  using example_fingerprint
  by (simp add: VerifyPeer_def example_store_eq Let_def lru_get_def newLRU_def example_peer_lib_def)

lemma VerifyPeer_current_witness:
  "\<exists>chs. chs \<noteq> [] \<and> mget (g_anchors (tr_gen example_store)) (Fingerprint (pl_sha256 example_peer_lib) (last (hd chs))) = Some example_row_anchor"
  using VerifyPeer_current [OF example_store_reached, of 400 "example_cert\<lparr>cert_NotAfter := 900\<rparr>" "[]" example_row_anchor] example_peer
  by (metis prod.collapse)

lemma rebuild_follows_rows_witness:
  "{sha. mget (g_anchors (tr_gen (fst (snd (Rebuild example_peer_lib (Some ''j'') (Inr []) example_store (NewRevocations ''soft'' False)))))) sha \<noteq> None} = {}"
proof -
  let ?b = "Rebuild example_peer_lib (Some ''j'') (Inr []) example_store (NewRevocations ''soft'' False)"
  have "fst ?b = None" by (simp add: Rebuild_def install_def ts_load_def example_store_eq)
  then have b: "?b = (None, fst (snd ?b), snd (snd ?b))" by (simp add: prod_eq_iff)
  have "tr_kind example_store = KindRegistered" "g_n (tr_gen example_store) \<noteq> - 1" by (simp_all add: example_store_eq)
  from rebuild_follows_rows [OF example_store_reached this(1) _ this(2) b] show ?thesis by simp
qed

lemma cached_chain_not_rechecked_witness:
  "fst (VerifyPeer example_peer_lib 600 (example_cert\<lparr>cert_NotAfter := 900\<rparr>) []
     (snd (VerifyPeer example_peer_lib 400 (example_cert\<lparr>cert_NotAfter := 900\<rparr>) [] example_store))) = Inr example_row_anchor \<and>
   (\<exists>e. pl_verify example_peer_lib (Roots example_store) [] 600 (example_cert\<lparr>cert_NotAfter := 900\<rparr>) = Inl e)"
proof -
  let ?leaf = "example_cert\<lparr>cert_NotAfter := 900\<rparr>"
  have "VerifyPeer example_peer_lib 400 ?leaf [] example_store = (Inr example_row_anchor, snd (VerifyPeer example_peer_lib 400 ?leaf [] example_store))"
    using example_peer by (simp add: prod_eq_iff)
  from cached_chain_not_rechecked [OF example_store_reached _ this, of 600 example_peer_lib "[]"] show ?thesis
    by (simp add: example_store_eq lru_get_def newLRU_def) (simp add: example_peer_lib_def)
qed

end
