(* ===== verification/Bootstrap_Service.thy ===== *)
theory Bootstrap_Service
  imports Bootstrap_Token Trust_Store Rate_Limit
begin

text \<open>
  First run as the manager serves it: the issuing of tokens (\<^verbatim>\<open>internal/bootstrap/token.go\<close>), the
  one-way latch (\<^verbatim>\<open>latch.go\<close>) and the gate, the failure limits, the session check and the session start
  (\<^verbatim>\<open>service.go\<close>). A call reads and writes the shared database several times. Each of these accesses is a
  \<open>site\<close>: \<open>be_others\<close> is what other processes did to the database before it, \<open>be_fault\<close> the error it fails
  with, if any, and \<open>be_now\<close> the clock read for it. Log lines are left out; the banner is what \<open>b_printed\<close> holds.
\<close>

subsection \<open>State\<close>

datatype site =
    AtClosed | AtLive | AtActive | AtLimit | AtFail | AtWindow | AtEnd | AtIssue | AtStart | AtSession | AtEndOne | AtTouch | AtToken
  | AtClose | AtFirstUse | AtRegister | AtRebuild | AtReload | AtConfirm | AtConfirmedBy | AtFirstAdmins | AtDeny nat | AtAdmin

record 'l boot_env =
  be_sha :: "bytes \<Rightarrow> bytes"
  be_rate :: "'l rate_lib"
  be_now :: "site \<Rightarrow> gotime"
  be_fault :: "site \<Rightarrow> string option"
  be_others :: "site \<Rightarrow> pg_db \<Rightarrow> pg_db"
  be_lock :: "string + bool"
  be_token :: "string + bytes"
  be_secret :: "string + bytes"
  be_audit :: entropy
  be_ip :: string
  be_ctx :: ctx

text \<open>\<^verbatim>\<open>Service\<close> with its \<^verbatim>\<open>tokens\<close> and its \<^verbatim>\<open>Latch\<close>: \<open>b_store\<close> says whether there is a Postgres store, \<open>b_kind\<close>
  is the source of the trust store, if there is one, \<open>b_once\<close> that \<^verbatim>\<open>closeOnce\<close> has run, and \<open>b_release\<close> that
  the token lock is held.\<close>

record 'l boot =
  b_store :: bool
  b_disabled :: bool
  b_kind :: "Kind option"
  b_server :: string
  b_db :: pg_db
  b_closed :: bool
  b_once :: bool
  b_release :: bool
  b_perClient :: "'l failures"
  b_global :: window
  b_audit :: "mem_store option"
  b_printed :: "string list"

datatype boot_error =
    UnavailableErr error_reason
  | FirstRunClosed
  | RateLimited
  | TokenInvalid
  | SessionInvalid
  | CARejected error_reason
  | CertRejected error_reason
  | Refused refusal
  | CrlErr crl_error
  | Internal string

definition perClientBurst :: int where "perClientBurst = 5"
definition perClientRefill :: duration where "perClientRefill = Minute"
definition globalFailures :: int where "globalFailures = 50"
definition globalWindow :: duration where "globalWindow = 60 * Minute"
definition SessionEndedExpired :: string where "SessionEndedExpired = ''expired''"
definition SessionEndedRateLimited :: string where "SessionEndedRateLimited = ''rate_limited''"
definition ActorBootstrapSession :: string where "ActorBootstrapSession = ''bootstrap_session''"
definition KindSessionStarted :: string where "KindSessionStarted = ''bootstrap-session-started''"
definition KindBootstrapClosed :: string where "KindBootstrapClosed = ''bootstrap-closed''"
definition KindTokenRotated :: string where "KindTokenRotated = ''bootstrap-token-rotated''"

text \<open>The access at a site: the other processes first, then a failure or the operation.\<close>

definition interfere :: "'l boot_env \<Rightarrow> site \<Rightarrow> 'l boot \<Rightarrow> 'l boot" where
  "interfere en st b = b\<lparr>b_db := be_others en st (b_db b)\<rparr>"

subsection \<open>Tokens\<close>

definition banner :: "string \<Rightarrow> string \<Rightarrow> string \<Rightarrow> gotime \<Rightarrow> string list" where
  "banner why server tok expires =
     [''manager: ================= FLEETOS FIRST RUN =================''] @
     (if why \<noteq> [] then [''manager: new bootstrap token: '' @ why] else []) @
     [''manager: bootstrap token: '' @ tok @ ''  (single use, expires '' @ rfc3339 expires @ '')'',
      ''manager: server certificate SHA-256: '' @ server @ ''  (check this in the browser first)'',
      ''manager: open https://<this-host>/ and enter this token to register your operator CA certificate'',
      ''manager: ======================================================'']"

text \<open>\<open>None\<close> of \<^verbatim>\<open>CanonicalToken\<close> is the empty string, as in the code, which ignores the flag here.\<close>

definition issue :: "'l boot_env \<Rightarrow> string \<Rightarrow> 'l boot \<Rightarrow> (string + pg_error) option \<times> 'l boot" where
  "issue en why b =
     (case NewToken (be_token en) of
        Inl e \<Rightarrow> (Some (Inl e), b)
      | Inr tok \<Rightarrow>
          (let canon = (case CanonicalToken tok of None \<Rightarrow> [] | Some c \<Rightarrow> c);
               now = be_now en AtIssue;
               expires = now + TokenTTL;
               b = interfere en AtIssue b
           in case pg_IssueBootstrapToken (be_fault en AtIssue)
                     \<lparr>tok_Hash = HashSecret (be_sha en) canon, tok_CreatedAt = now, tok_ExpiresAt = expires, tok_UsedAt = 0\<rparr> (b_db b) of
                (Inl e, db) \<Rightarrow> (Some (Inr e), b\<lparr>b_db := db\<rparr>)
              | (Inr _, db) \<Rightarrow> (None, b\<lparr>b_db := db, b_printed := b_printed b @ banner why (b_server b) tok expires\<rparr>)))"

definition holdLock :: "'l boot_env \<Rightarrow> 'l boot \<Rightarrow> bool \<times> 'l boot" where
  "holdLock en b =
     (if b_release b then (True, b)
      else case be_lock en of
        Inl _ \<Rightarrow> (False, b)
      | Inr ok \<Rightarrow> (ok, if ok then b\<lparr>b_release := True\<rparr> else b))"

definition stop :: "'l boot \<Rightarrow> 'l boot" where
  "stop b = b\<lparr>b_release := False\<rparr>"

definition ensure_issue :: "'l boot_env \<Rightarrow> string \<Rightarrow> 'l boot \<Rightarrow> 'l boot" where
  "ensure_issue en why b =
     (case issue en why b of
        (Some (Inr PgBootstrapClosed), b) \<Rightarrow> stop b
      | (_, b) \<Rightarrow> b)"

definition ensure :: "'l boot_env \<Rightarrow> bool \<Rightarrow> 'l boot \<Rightarrow> 'l boot" where
  "ensure en force b =
     (let (held, b) = holdLock en b
      in if \<not> held then b
         else if force then ensure_issue en [] b
         else let b = interfere en AtToken b
              in if be_fault en AtToken \<noteq> None then b
                 else if pg_LiveBootstrapToken (be_now en AtToken) (b_db b) \<noteq> None then b
                 else ensure_issue en ''the previous token expired'' b)"

subsection \<open>The latch flag\<close>

definition onClose :: "'l boot \<Rightarrow> 'l boot" where
  "onClose b = (if b_store b then stop b else b)"

definition markClosed :: "'l boot \<Rightarrow> 'l boot" where
  "markClosed b = (let b = b\<lparr>b_closed := True\<rparr> in if b_once b then b else onClose (b\<lparr>b_once := True\<rparr>))"

definition svc_closed :: "'l boot_env \<Rightarrow> 'l boot \<Rightarrow> (boot_error + bool) \<times> 'l boot" where
  "svc_closed en b =
     (if b_closed b then (Inr True, b)
      else let b = interfere en AtClosed b
           in case be_fault en AtClosed of
                Some e \<Rightarrow> (Inl (Internal (''bootstrap: read the first-run latch: '' @ e)), b)
              | None \<Rightarrow> let c = Closed (pg_BootstrapState (b_db b)) in (Inr c, if c then markClosed b else b))"

text \<open>\<^verbatim>\<open>NewLatch\<close> inside \<^verbatim>\<open>New\<close>: the limiters are new and the latch is read once.\<close>

definition New_service ::
  "'l boot_env \<Rightarrow> bool \<Rightarrow> bool \<Rightarrow> Kind option \<Rightarrow> string \<Rightarrow> mem_store option \<Rightarrow> pg_db \<Rightarrow> (boot_error + 'l boot)" where
  "New_service en has_store disabled kind server aud db =
     (let b = \<lparr>b_store = has_store, b_disabled = disabled, b_kind = kind, b_server = server, b_db = db, b_closed = False, b_once = False,
            b_release = False, b_perClient = NewFailures perClientBurst perClientRefill, b_global = NewWindow globalFailures globalWindow,
            b_audit = aud, b_printed = []\<rparr>
      in if \<not> has_store then Inr b
         else let b = interfere en AtClosed b
              in case be_fault en AtClosed of
                   Some e \<Rightarrow> Inl (Internal (''bootstrap: read the first-run latch: '' @ e))
                 | None \<Rightarrow> Inr (if Closed (pg_BootstrapState (b_db b)) then markClosed b else b))"

subsection \<open>The state of first run\<close>

definition firstRunApplies :: "'l boot \<Rightarrow> bool" where
  "firstRunApplies b \<longleftrightarrow> b_store b \<and> \<not> b_disabled b \<and> b_kind b = Some KindRegistered"

definition Start :: "'l boot_env \<Rightarrow> 'l boot \<Rightarrow> boot_error option \<times> 'l boot" where
  "Start en b =
     (if \<not> firstRunApplies b then (None, b)
      else case svc_closed en b of
        (Inl e, b) \<Rightarrow> (Some e, b)
      | (Inr True, b) \<Rightarrow> (None, b)
      | (Inr False, b) \<Rightarrow> (None, ensure en True b))"

definition TickTokens :: "'l boot_env \<Rightarrow> 'l boot \<Rightarrow> 'l boot" where
  "TickTokens en b =
     (if \<not> firstRunApplies b \<or> b_closed b then b
      else case svc_closed en b of
        (Inr False, b) \<Rightarrow> ensure en False b
      | (_, b) \<Rightarrow> b)"

datatype boot_state = NOT_APPLICABLE | UNAVAILABLE error_reason | CLOSED | OPEN_IN_PROGRESS | OPEN

definition activeCA :: "'l boot_env \<Rightarrow> 'l boot \<Rightarrow> operator_ca option \<times> 'l boot" where
  "activeCA en b =
     (let b = interfere en AtActive b
      in (if be_fault en AtActive \<noteq> None then None
          else find (\<lambda>r. ca_State r = OperatorCAActive) (pg_OperatorCAs (b_db b)), b))"

definition svc_state :: "'l boot_env \<Rightarrow> 'l boot \<Rightarrow> (boot_error + boot_state) \<times> 'l boot" where
  "svc_state en b =
     (if b_kind b = Some KindFile then (Inr NOT_APPLICABLE, b)
      else if \<not> b_store b then (Inr (UNAVAILABLE DATABASE_REQUIRED), b)
      else if b_disabled b then (Inr (UNAVAILABLE FIRST_RUN_DISABLED), b)
      else case svc_closed en b of
        (Inl e, b) \<Rightarrow> (Inl e, b)
      | (Inr True, b) \<Rightarrow> (Inr CLOSED, b)
      | (Inr False, b) \<Rightarrow>
          (let b = interfere en AtLive b
           in case be_fault en AtLive of
                Some e \<Rightarrow> (Inl (Internal (''bootstrap: look for a live session: '' @ e)), b)
              | None \<Rightarrow>
                  if pg_HasLiveBootstrapSession (be_now en AtLive) SessionIdle (b_db b) then (Inr OPEN_IN_PROGRESS, b)
                  else let (ca, b) = activeCA en b
                       in (Inr (if ca \<noteq> None then OPEN_IN_PROGRESS else OPEN), b)))"

definition gate :: "'l boot_env \<Rightarrow> 'l boot \<Rightarrow> boot_error option \<times> 'l boot" where
  "gate en b =
     (case svc_state en b of
        (Inl e, b) \<Rightarrow> (Some e, b)
      | (Inr OPEN, b) \<Rightarrow> (None, b)
      | (Inr OPEN_IN_PROGRESS, b) \<Rightarrow> (None, b)
      | (Inr (UNAVAILABLE r), b) \<Rightarrow> (Some (UnavailableErr r), b)
      | (Inr _, b) \<Rightarrow> (Some FirstRunClosed, b))"

definition admit :: "'l boot_env \<Rightarrow> 'l boot \<Rightarrow> boot_error option \<times> 'l boot" where
  "admit en b =
     (case gate en b of
        (Some e, b) \<Rightarrow> (Some e, b)
      | (None, b) \<Rightarrow> (if Blocked (be_rate en) (be_now en AtLimit) (be_ip en) (b_perClient b) then Some RateLimited else None, b))"

subsection \<open>Failures\<close>

definition boot_record :: "'l boot_env \<Rightarrow> audit_event \<Rightarrow> 'l boot \<Rightarrow> 'l boot" where
  "boot_record en e b =
     (case b_audit b of
        None \<Rightarrow> b
      | Some s \<Rightarrow>
          (let e = (if FromContext (be_ctx en) = None then e\<lparr>ev_ActorKind := ActorBootstrapSession, ev_Via := ViaWeb\<rparr> else e)
           in b\<lparr>b_audit := Some (snd (Record (be_audit en) (be_ctx en) e s))\<rparr>))"

definition rotateAfterFailures :: "'l boot_env \<Rightarrow> 'l boot \<Rightarrow> 'l boot" where
  "rotateAfterFailures en b =
     (let b = interfere en AtEnd b;
          b = (if be_fault en AtEnd \<noteq> None then b
               else b\<lparr>b_db := snd (pg_EndBootstrapSessions SessionEndedRateLimited (be_now en AtEnd) (b_db b))\<rparr>);
          b = snd (issue en ''50 failed first-run requests within an hour'' b)
      in boot_record en (zero_event\<lparr>ev_Kind := KindTokenRotated,
           ev_Summary := ''Rotated the bootstrap token and ended the live session after 50 failed first-run requests within an hour''\<rparr>) b)"

definition fail :: "'l boot_env \<Rightarrow> 'l boot \<Rightarrow> 'l boot" where
  "fail en b =
     (let b = b\<lparr>b_perClient := FailClient (be_rate en) (be_now en AtFail) (be_ip en) (b_perClient b)\<rparr>;
          (tripped, w) = FailWindow (be_now en AtWindow) (b_global b);
          b = b\<lparr>b_global := w\<rparr>
      in if tripped then rotateAfterFailures en b else b)"

subsection \<open>Sessions\<close>

definition svc_session :: "'l boot_env \<Rightarrow> string \<Rightarrow> 'l boot \<Rightarrow> (boot_error + string) \<times> 'l boot" where
  "svc_session en secret b =
     (if length secret \<le> length SessionPrefix \<or> take (length SessionPrefix) secret \<noteq> SessionPrefix
      then (Inl SessionInvalid, fail en b)
      else
        let hash = HashSecret (be_sha en) secret;
            b = interfere en AtSession b
        in case be_fault en AtSession of
             Some e \<Rightarrow> (Inl (Internal (''bootstrap: read the session: '' @ e)), b)
           | None \<Rightarrow>
               let now = be_now en AtSession
               in case pg_BootstrapSession hash (b_db b) of
                    None \<Rightarrow> (Inl SessionInvalid, fail en b)
                  | Some x \<Rightarrow>
                      if \<not> IsZero (ses_EndedAt x) then (Inl SessionInvalid, fail en b)
                      else if \<not> now < ses_ExpiresAt x \<or> now - ses_LastUsedAt x \<ge> SessionIdle then
                        let b = interfere en AtEndOne b;
                            b = (if be_fault en AtEndOne \<noteq> None then b
                                 else b\<lparr>b_db := pg_EndBootstrapSession hash SessionEndedExpired now (b_db b)\<rparr>)
                        in (Inl SessionInvalid, fail en b)
                      else
                        let b = interfere en AtTouch b
                        in case be_fault en AtTouch of
                             Some e \<Rightarrow> (Inl (Internal (''bootstrap: touch the session: '' @ e)), b)
                           | None \<Rightarrow> (Inr hash, b\<lparr>b_db := pg_TouchBootstrapSession hash now (b_db b)\<rparr>))"

text \<open>The state, and when the live token expires, empty when there is none or it cannot be read.\<close>

definition GetBootstrapState :: "'l boot_env \<Rightarrow> 'l boot \<Rightarrow> (boot_error + boot_state \<times> string) \<times> 'l boot" where
  "GetBootstrapState en b =
     (case svc_state en b of
        (Inl e, b) \<Rightarrow> (Inl e, b)
      | (Inr st, b) \<Rightarrow>
          if st = OPEN \<or> st = OPEN_IN_PROGRESS then
            let b = interfere en AtToken b
            in (Inr (st, if be_fault en AtToken \<noteq> None then []
                         else case pg_LiveBootstrapToken (be_now en AtToken) (b_db b) of
                                None \<Rightarrow> [] | Some t \<Rightarrow> rfc3339 (tok_ExpiresAt t)), b)
          else (Inr (st, []), b))"

fun pg_message :: "pg_error \<Rightarrow> string" where
  "pg_message (DbError e) = e"
| "pg_message _ = []"

definition StartBootstrapSession :: "'l boot_env \<Rightarrow> string \<Rightarrow> 'l boot \<Rightarrow> (boot_error + string \<times> string) \<times> 'l boot" where
  "StartBootstrapSession en typed b =
     (case admit en b of
        (Some e, b) \<Rightarrow> (Inl e, b)
      | (None, b) \<Rightarrow>
          (case CanonicalToken typed of
             None \<Rightarrow> (Inl TokenInvalid, fail en b)
           | Some canon \<Rightarrow>
               (case newSessionSecret (be_secret en) of
                  Inl e \<Rightarrow> (Inl (Internal e), b)
                | Inr secret \<Rightarrow>
                    (let now = be_now en AtStart;
                         sess = \<lparr>ses_Hash = HashSecret (be_sha en) secret, ses_CreatedAt = now, ses_LastUsedAt = now,
                           ses_ExpiresAt = now + SessionMax, ses_EndedAt = 0, ses_EndedReason = []\<rparr>;
                         b = interfere en AtStart b
                     in case pg_StartBootstrapSession (be_fault en AtStart) (HashSecret (be_sha en) canon) sess now (b_db b) of
                          (Inl e, db) \<Rightarrow> (Inl (Internal (''bootstrap: start the session: '' @ pg_message e)), b\<lparr>b_db := db\<rparr>)
                        | (Inr False, db) \<Rightarrow> (Inl TokenInvalid, fail en (b\<lparr>b_db := db\<rparr>))
                        | (Inr True, db) \<Rightarrow>
                            (let b = snd (issue en ''the previous token started a session'' (b\<lparr>b_db := db\<rparr>));
                                 b = boot_record en (zero_event\<lparr>ev_Kind := KindSessionStarted,
                                   ev_Summary := ''Started a first-run session from '' @ be_ip en @ ''; any earlier session was ended''\<rparr>) b
                             in (Inr (secret, rfc3339 (ses_ExpiresAt sess)), b))))))"

subsection \<open>Closing first run\<close>

text \<open>\<open>pk_sha\<close> hashes the leaf. The zero level token of an admin is \<^verbatim>\<open>admin\<close>.\<close>

definition first_use_row :: "(bytes \<Rightarrow> bytes) \<Rightarrow> identity \<Rightarrow> certificate \<Rightarrow> operator_credential" where
  "first_use_row sha i cert =
     (let email = map lower_char (cert_CommonName cert)
      in \<lparr>cred_CommonName = email, cred_SerialHex = SerialKey (cert_SerialNumber cert), cred_Level = Token (Level i),
          cred_NotAfter = rfc3339 (cert_NotAfter cert), cred_Revoked = False, cred_IssuerSHA256 = IssuerSHA256 i, cred_Kind = [],
          cred_Email = email, cred_FullName = [], cred_LeafSHA256 = Fingerprint sha cert, cred_RequestID = [], cred_FirstSeenAt = 0,
          cred_LastSeenAt = 0\<rparr>)"

definition Observe :: "'l boot_env \<Rightarrow> identity \<Rightarrow> certificate \<Rightarrow> 'l boot \<Rightarrow> 'l boot" where
  "Observe en i cert b =
     (if \<not> b_store b \<or> Level i \<noteq> LevelAdmin \<or> b_closed b then b
      else
        let now = be_now en AtClose;
            serial = SerialKey (cert_SerialNumber cert);
            b = interfere en AtClose b
        in case pg_CloseBootstrap (be_fault en AtClose)
                  \<lparr>bs_ClosedAt = now, bs_ClosedBySerial = serial, bs_ClosedByCN = CN i, bs_ClosedByIssuerSHA256 = IssuerSHA256 i\<rparr> (b_db b) of
             (Inl e, db) \<Rightarrow> b\<lparr>b_db := db\<rparr>
           | (Inr False, db) \<Rightarrow> markClosed (b\<lparr>b_db := db\<rparr>)
           | (Inr True, db) \<Rightarrow>
               let b = interfere en AtFirstUse (markClosed (b\<lparr>b_db := db\<rparr>));
                   b = b\<lparr>b_db := snd (pg_RecordFirstUse (be_fault en AtFirstUse) (first_use_row (be_sha en) i cert) now (b_db b))\<rparr>
               in (case b_audit b of
                     None \<Rightarrow> b
                   | Some s \<Rightarrow> b\<lparr>b_audit := Some (snd (Record (be_audit en) (be_ctx en) (zero_event\<lparr>ev_Kind := KindBootstrapClosed,
                        ev_Summary := ''First run closed by '' @ CN i @ '' (serial '' @ serial @ '', operator CA '' @ IssuerSHA256 i @
                          ''); bootstrap sessions ended and tokens deleted'',
                        ev_TargetKind := ''operator-credential'', ev_TargetPath := ''/operators/'' @ serial\<rparr>) s))\<rparr>))"

subsection \<open>What a call does to the database\<close>

text \<open>While a manager runs, no process reopens a closed latch: the reset refuses to run then.\<close>

definition live_step :: "pg_db \<Rightarrow> pg_db \<Rightarrow> bool" where
  "live_step s s' \<longleftrightarrow> pg_step s s' \<and> (Closed (pg_latch s) \<longrightarrow> Closed (pg_latch s'))"

definition env_ok :: "'l boot_env \<Rightarrow> bool" where
  "env_ok en \<longleftrightarrow> (\<forall>st. be_now en st \<noteq> 0) \<and> (\<forall>st db. live_step\<^sup>*\<^sup>* db (be_others en st db))"

lemma live_steps_ok: "live_step\<^sup>*\<^sup>* s s' \<Longrightarrow> pg_ok s \<Longrightarrow> pg_ok s'"
  by (induction rule: rtranclp_induct) (auto simp: live_step_def intro: pg_step_ok)

lemma live_steps_closed: "live_step\<^sup>*\<^sup>* s s' \<Longrightarrow> Closed (pg_latch s) \<Longrightarrow> Closed (pg_latch s')"
  by (induction rule: rtranclp_induct) (auto simp: live_step_def)

definition calls :: "'l boot \<Rightarrow> 'l boot \<Rightarrow> bool" where
  "calls b b' \<longleftrightarrow> live_step\<^sup>*\<^sup>* (b_db b) (b_db b')"

lemma calls_refl [simp]: "calls b b"
  by (simp add: calls_def)

lemma calls_trans: "calls a b \<Longrightarrow> calls b c \<Longrightarrow> calls a c"
  unfolding calls_def by (rule rtranclp_trans)

lemma calls_step: "calls a b \<Longrightarrow> live_step (b_db b) db \<Longrightarrow> b_db c = db \<Longrightarrow> calls a c"
  unfolding calls_def by (simp add: rtranclp.rtrancl_into_rtrancl)

lemma calls_same: "calls a b \<Longrightarrow> b_db c = b_db b \<Longrightarrow> calls a c"
  unfolding calls_def by simp

lemma calls_interfere: "env_ok en \<Longrightarrow> calls b (interfere en st b)"
  by (simp add: calls_def interfere_def env_ok_def)

lemma interfere_simps [simp]:
  "b_closed (interfere en st b) = b_closed b" "b_once (interfere en st b) = b_once b" "b_release (interfere en st b) = b_release b"
  "b_store (interfere en st b) = b_store b" "b_disabled (interfere en st b) = b_disabled b" "b_kind (interfere en st b) = b_kind b"
  "b_perClient (interfere en st b) = b_perClient b" "b_global (interfere en st b) = b_global b" "b_audit (interfere en st b) = b_audit b"
  "b_server (interfere en st b) = b_server b" "b_printed (interfere en st b) = b_printed b"
  by (simp_all add: interfere_def)

lemma live_step_issue: "tok_CreatedAt t \<noteq> 0 \<Longrightarrow> live_step db (snd (pg_IssueBootstrapToken f t db))"
  by (simp add: live_step_def pg_step.issue) (simp add: pg_IssueBootstrapToken_def split: option.split)

lemma live_step_end_all: "at \<noteq> 0 \<Longrightarrow> live_step db (snd (pg_EndBootstrapSessions r at db))"
  by (simp add: live_step_def pg_step.end_all) (simp add: pg_EndBootstrapSessions_def)

lemma live_step_end_one: "at \<noteq> 0 \<Longrightarrow> live_step db (pg_EndBootstrapSession h r at db)"
  by (simp add: live_step_def pg_step.end_one) (simp add: pg_EndBootstrapSession_def)

lemma live_step_touch: "live_step db (pg_TouchBootstrapSession h at db)"
  by (simp add: live_step_def pg_step.touch) (simp add: pg_TouchBootstrapSession_def)

lemma live_step_start: "now \<noteq> 0 \<Longrightarrow> live_step db (snd (pg_StartBootstrapSession f h x now db))"
  by (simp add: live_step_def pg_step.start) (simp add: pg_StartBootstrapSession_def split: option.split)

lemma live_step_close: "bs_ClosedAt x \<noteq> 0 \<Longrightarrow> live_step db (snd (pg_CloseBootstrap f x db))"
  by (simp add: live_step_def pg_step.close) (simp add: pg_CloseBootstrap_def split: option.split)

lemma live_step_first_use: "live_step db (snd (pg_RecordFirstUse f c at db))"
  by (simp add: live_step_def pg_step.first_use) (simp add: pg_RecordFirstUse_def split: option.split)

lemma db_simps [simp]:
  "b_db (stop b) = b_db b" "b_db (markClosed b) = b_db b" "b_db (boot_record en e b) = b_db b" "b_db (snd (holdLock en b)) = b_db b"
  by (simp_all add: stop_def markClosed_def onClose_def boot_record_def holdLock_def Let_def split: option.split sum.split)

lemma issue_calls: "env_ok en \<Longrightarrow> calls b (snd (issue en why b))"
proof (cases "NewToken (be_token en)")
  case (Inr tok)
  assume ok: "env_ok en"
  let ?b = "interfere en AtIssue b"
  let ?t = "\<lparr>tok_Hash = HashSecret (be_sha en) (case CanonicalToken tok of None \<Rightarrow> [] | Some c \<Rightarrow> c), tok_CreatedAt = be_now en AtIssue,
    tok_ExpiresAt = be_now en AtIssue + TokenTTL, tok_UsedAt = 0\<rparr>"
  have "live_step (b_db ?b) (snd (pg_IssueBootstrapToken (be_fault en AtIssue) ?t (b_db ?b)))"
    using ok by (intro live_step_issue) (simp add: env_ok_def)
  then show ?thesis
    by (rule calls_step [OF calls_interfere [OF ok]]) (simp add: issue_def Inr Let_def split_beta split: sum.split)
qed (simp add: issue_def)

lemma rotate_calls: "env_ok en \<Longrightarrow> calls b (rotateAfterFailures en b)"
proof -
  assume ok: "env_ok en"
  let ?b = "interfere en AtEnd b"
  let ?c = "?b\<lparr>b_db := snd (pg_EndBootstrapSessions SessionEndedRateLimited (be_now en AtEnd) (b_db ?b))\<rparr>"
  have c: "calls b ?c" using ok by (intro calls_step [OF calls_interfere [OF ok] live_step_end_all]) (simp_all add: env_ok_def)
  let ?d = "if be_fault en AtEnd \<noteq> None then ?b else ?c"
  have "calls b ?d" using c calls_interfere [OF ok] by simp
  then have "calls b (snd (issue en ''50 failed first-run requests within an hour'' ?d))" using issue_calls [OF ok] by (rule calls_trans)
  then show "calls b (rotateAfterFailures en b)" by (rule calls_same) (simp add: rotateAfterFailures_def Let_def)
qed

lemma fail_calls: "env_ok en \<Longrightarrow> calls b (fail en b)"
proof -
  assume ok: "env_ok en"
  let ?b = "b\<lparr>b_perClient := FailClient (be_rate en) (be_now en AtFail) (be_ip en) (b_perClient b),
    b_global := snd (FailWindow (be_now en AtWindow) (b_global b))\<rparr>"
  have "calls b ?b" by (simp add: calls_def)
  then have "calls b (rotateAfterFailures en ?b)" using rotate_calls [OF ok] by (rule calls_trans)
  then show "calls b (fail en b)" by (simp add: fail_def Let_def split_beta calls_def)
qed

lemma svc_closed_calls: "env_ok en \<Longrightarrow> calls b (snd (svc_closed en b))"
  using calls_interfere [of en b AtClosed] by (auto simp: svc_closed_def Let_def calls_def split: option.split)

lemma activeCA_calls: "env_ok en \<Longrightarrow> calls b (snd (activeCA en b))"
  using calls_interfere [of en b AtActive] by (simp add: activeCA_def Let_def)

lemma svc_state_calls: "env_ok en \<Longrightarrow> calls b (snd (svc_state en b))"
proof -
  assume ok: "env_ok en"
  let ?c = "snd (svc_closed en b)"
  have c: "calls b ?c" by (rule svc_closed_calls [OF ok])
  then have l: "calls b (interfere en AtLive ?c)" using calls_interfere [OF ok] by (rule calls_trans)
  then have "calls b (snd (activeCA en (interfere en AtLive ?c)))" using activeCA_calls [OF ok] by (rule calls_trans)
  then show "calls b (snd (svc_state en b))"
    using c l by (auto simp: svc_state_def Let_def split_beta split: sum.split bool.split option.split)
qed

lemma gate_calls: "env_ok en \<Longrightarrow> calls b (snd (gate en b))"
  using svc_state_calls [of en b] by (auto simp: gate_def split_beta split: sum.split boot_state.split)

lemma admit_calls: "env_ok en \<Longrightarrow> calls b (snd (admit en b))"
  using gate_calls [of en b] by (auto simp: admit_def split_beta split: option.split)

lemma ensure_calls: "env_ok en \<Longrightarrow> calls b (ensure en force b)"
proof -
  assume ok: "env_ok en"
  let ?h = "snd (holdLock en b)"
  have e: "calls x (ensure_issue en why x)" for x why
    using issue_calls [OF ok, of x why] by (auto simp: ensure_issue_def calls_def split: prod.splits option.splits sum.splits pg_error.splits)
  have h: "calls b ?h" by (simp add: calls_def)
  then have t: "calls b (interfere en AtToken ?h)" using calls_interfere [OF ok] by (rule calls_trans)
  show "calls b (ensure en force b)"
    using h t calls_trans [OF h e] calls_trans [OF t e] by (auto simp: ensure_def Let_def split_beta)
qed

lemma Start_calls: "env_ok en \<Longrightarrow> calls b (snd (Start en b))"
  using svc_closed_calls [of en b] calls_trans [OF svc_closed_calls [of en b] ensure_calls [of en _ True]]
  by (auto simp: Start_def split_beta split: sum.split bool.split)

lemma TickTokens_calls: "env_ok en \<Longrightarrow> calls b (TickTokens en b)"
  using svc_closed_calls [of en b] calls_trans [OF svc_closed_calls [of en b] ensure_calls [of en _ False]]
  by (auto simp: TickTokens_def split_beta split: sum.split bool.split)

lemma svc_session_calls: "env_ok en \<Longrightarrow> calls b (snd (svc_session en secret b))"
proof -
  assume ok: "env_ok en"
  have now: "be_now en AtSession \<noteq> 0" using ok by (simp add: env_ok_def)
  let ?b = "interfere en AtSession b" and ?h = "HashSecret (be_sha en) secret"
  let ?e = "interfere en AtEndOne ?b" and ?t = "interfere en AtTouch ?b"
  have b: "calls b ?b" by (rule calls_interfere [OF ok])
  have e: "calls b ?e" and t: "calls b ?t" using calls_trans [OF b calls_interfere [OF ok]] by blast+
  have f: "calls b x \<Longrightarrow> calls b (fail en x)" for x using fail_calls [OF ok] calls_trans by blast
  have e': "calls b (?e\<lparr>b_db := pg_EndBootstrapSession ?h SessionEndedExpired (be_now en AtSession) (b_db ?e)\<rparr>)"
    using now by (intro calls_step [OF e live_step_end_one]) simp_all
  have t': "calls b (?t\<lparr>b_db := pg_TouchBootstrapSession ?h (be_now en AtSession) (b_db ?t)\<rparr>)"
    by (intro calls_step [OF t live_step_touch]) simp_all
  show "calls b (snd (svc_session en secret b))"
    using b f [OF calls_refl] f [OF b] f [OF e] f [OF e'] t t'
    by (auto simp: svc_session_def Let_def split: option.split)
qed

lemma GetBootstrapState_calls: "env_ok en \<Longrightarrow> calls b (snd (GetBootstrapState en b))"
  using svc_state_calls [of en b] calls_trans [OF svc_state_calls [of en b] calls_interfere [of en _ AtToken]]
  by (auto simp: GetBootstrapState_def Let_def split_beta split: sum.split)

lemma StartBootstrapSession_calls: "env_ok en \<Longrightarrow> calls b (snd (StartBootstrapSession en typed b))"
proof -
  assume ok: "env_ok en"
  have now: "be_now en AtStart \<noteq> 0" using ok by (simp add: env_ok_def)
  let ?a = "snd (admit en b)"
  let ?b = "interfere en AtStart ?a"
  have a: "calls b ?a" by (rule admit_calls [OF ok])
  have f: "calls b x \<Longrightarrow> calls b (fail en x)" for x using fail_calls [OF ok] calls_trans by blast
  have s: "calls b (?b\<lparr>b_db := snd (pg_StartBootstrapSession fault h x (be_now en AtStart) (b_db ?b))\<rparr>)" for fault h x
    using now by (intro calls_step [OF calls_trans [OF a calls_interfere [OF ok]] live_step_start]) simp_all
  have r: "calls b x \<Longrightarrow> calls b (boot_record en e (snd (issue en why x)))" for x why e
    using calls_trans [OF _ issue_calls [OF ok]] by (simp add: calls_def)
  show "calls b (snd (StartBootstrapSession en typed b))"
    using a f [OF a] s f [OF s] r [OF s]
    by (auto simp: StartBootstrapSession_def Let_def split_beta split: option.split sum.split bool.split)
qed

lemma Observe_calls: "env_ok en \<Longrightarrow> calls b (Observe en i cert b)"
proof -
  assume ok: "env_ok en"
  have now: "be_now en AtClose \<noteq> 0" using ok by (simp add: env_ok_def)
  let ?b = "interfere en AtClose b"
  have c: "calls b x" if "b_db x = snd (pg_CloseBootstrap fault y (b_db ?b))" "bs_ClosedAt y = be_now en AtClose" for x y fault
    using now that by (intro calls_step [OF calls_interfere [OF ok] live_step_close]) simp_all
  have u: "calls b x \<Longrightarrow> b_db z = snd (pg_RecordFirstUse fault row at (b_db (interfere en AtFirstUse x))) \<Longrightarrow> calls b z" for x z fault row at
    using calls_step [OF calls_trans [OF _ calls_interfere [OF ok]] live_step_first_use] by blast
  let ?y = "\<lparr>bs_ClosedAt = be_now en AtClose, bs_ClosedBySerial = SerialKey (cert_SerialNumber cert), bs_ClosedByCN = CN i,
    bs_ClosedByIssuerSHA256 = IssuerSHA256 i\<rparr>"
  obtain res db where p: "pg_CloseBootstrap (be_fault en AtClose) ?y (b_db ?b) = (res, db)" by (meson surj_pair)
  let ?m = "?b\<lparr>b_db := db\<rparr>"
  have m: "calls b ?m" "calls b (markClosed ?m)" using p c [of ?m "be_fault en AtClose" ?y] c [of "markClosed ?m" "be_fault en AtClose" ?y] by simp_all
  show "calls b (Observe en i cert b)"
  proof (cases "\<not> b_store b \<or> Level i \<noteq> LevelAdmin \<or> b_closed b \<or> res \<noteq> Inr True")
    case True
    then show ?thesis using m p by (cases res; cases "\<not> b_store b \<or> Level i \<noteq> LevelAdmin \<or> b_closed b") (auto simp: Observe_def Let_def)
  next
    case False
    have "b_db (Observe en i cert b) = snd (pg_RecordFirstUse (be_fault en AtFirstUse) (first_use_row (be_sha en) i cert) (be_now en AtClose)
        (b_db (interfere en AtFirstUse (markClosed ?m))))"
      using False p by (simp add: Observe_def Let_def split: option.split)
    then show ?thesis by (rule u [OF m(2)])
  qed
qed

subsection \<open>The gate\<close>

definition has_first_run :: "'l boot \<Rightarrow> bool" where
  "has_first_run b \<longleftrightarrow> b_store b \<and> \<not> b_disabled b \<and> b_kind b \<noteq> Some KindFile"

lemma activeCA_db: "snd (activeCA en b) = interfere en AtActive b"
  by (simp add: activeCA_def Let_def)

lemma svc_closed_open:
  assumes "svc_closed en b = (Inr False, b')"
  shows "\<not> b_closed b" "\<not> Closed (pg_latch (be_others en AtClosed (b_db b)))" "b' = interfere en AtClosed b"
  using assms by (auto simp: svc_closed_def Let_def pg_BootstrapState_def interfere_def split: if_splits option.splits)

lemma svc_state_open:
  assumes "svc_state en b = (Inr st, b')" and "st = OPEN \<or> st = OPEN_IN_PROGRESS"
  shows "has_first_run b" "\<not> b_closed b" "\<not> Closed (pg_latch (be_others en AtClosed (b_db b)))" "\<exists>db. b' = b\<lparr>b_db := db\<rparr>"
proof -
  obtain c where c: "svc_closed en b = (Inr False, c)"
    using assms by (auto simp: svc_state_def split: if_splits prod.splits sum.splits bool.splits)
  then have b: "c = interfere en AtClosed b" and "\<not> b_closed b" "\<not> Closed (pg_latch (be_others en AtClosed (b_db b)))"
    by (blast dest: svc_closed_open)+
  then show "\<not> b_closed b" "\<not> Closed (pg_latch (be_others en AtClosed (b_db b)))" by blast+
  show "has_first_run b" using assms by (auto simp: svc_state_def has_first_run_def split: if_splits)
  show "\<exists>db. b' = b\<lparr>b_db := db\<rparr>"
    using assms c b by (auto simp: svc_state_def Let_def activeCA_db interfere_def split_beta split: if_splits option.splits)
qed

lemma admit_None:
  assumes "admit en b = (None, b')"
  shows "has_first_run b" "\<not> b_closed b" "\<not> Closed (pg_latch (be_others en AtClosed (b_db b)))"
    "\<not> Blocked (be_rate en) (be_now en AtLimit) (be_ip en) (b_perClient b)" "\<exists>db. b' = b\<lparr>b_db := db\<rparr>"
proof -
  obtain st where st: "svc_state en b = (Inr st, b')" "st = OPEN \<or> st = OPEN_IN_PROGRESS"
    using assms by (auto simp: admit_def gate_def split: if_splits prod.splits option.splits sum.splits boot_state.splits)
  note facts = svc_state_open [OF st]
  show "has_first_run b" "\<not> b_closed b" "\<not> Closed (pg_latch (be_others en AtClosed (b_db b)))" "\<exists>db. b' = b\<lparr>b_db := db\<rparr>"
    using facts by blast+
  have "\<not> Blocked (be_rate en) (be_now en AtLimit) (be_ip en) (b_perClient b')"
    using assms st by (auto simp: admit_def gate_def split: if_splits)
  then show "\<not> Blocked (be_rate en) (be_now en AtLimit) (be_ip en) (b_perClient b)" using facts(4) by auto
qed

text \<open>A closed first run is refused before the token, the session or the failure budget is looked at.\<close>

lemma gate_closed:
  assumes "env_ok en" and "has_first_run b" and "Closed (pg_latch (b_db b))" and "be_fault en AtClosed = None"
  shows "\<exists>b'. gate en b = (Some FirstRunClosed, b') \<and> b_closed b' \<and> b_perClient b' = b_perClient b \<and> b_global b' = b_global b \<and>
    b_audit b' = b_audit b \<and> b_printed b' = b_printed b"
proof -
  have "Closed (pg_latch (be_others en AtClosed (b_db b)))"
    using assms(1,3) live_steps_closed unfolding env_ok_def by blast
  then have "svc_closed en b = (Inr True, if b_closed b then b else markClosed (interfere en AtClosed b))"
    using assms(4) by (simp add: svc_closed_def Let_def pg_BootstrapState_def interfere_def)
  then show ?thesis
    using assms(2) by (simp add: gate_def svc_state_def has_first_run_def markClosed_def onClose_def stop_def Let_def)
qed

lemma admit_closed:
  assumes "env_ok en" and "has_first_run b" and "Closed (pg_latch (b_db b))" and "be_fault en AtClosed = None"
  shows "\<exists>b'. admit en b = (Some FirstRunClosed, b') \<and> b_closed b' \<and> b_perClient b' = b_perClient b \<and> b_global b' = b_global b \<and>
    b_audit b' = b_audit b \<and> b_printed b' = b_printed b"
  using gate_closed [OF assms] by (auto simp: admit_def)

lemma admit_quiet:
  assumes "has_first_run b" and "\<not> b_closed b" and "\<not> Closed (pg_latch (b_db b))"
    and "\<And>st db. be_others en st db = db" and "\<And>st. be_fault en st = None"
    and "\<not> Blocked (be_rate en) (be_now en AtLimit) (be_ip en) (b_perClient b)"
  shows "admit en b = (None, b)"
proof -
  have q: "interfere en st x = x" for st x by (simp add: interfere_def assms(4))
  have "svc_closed en b = (Inr False, b)" using assms by (simp add: svc_closed_def Let_def q pg_BootstrapState_def)
  then have "\<exists>st. svc_state en b = (Inr st, b) \<and> (st = OPEN \<or> st = OPEN_IN_PROGRESS)"
    using assms(1,5) by (auto simp: svc_state_def has_first_run_def activeCA_def q Let_def)
  then show ?thesis using assms(6) by (auto simp: admit_def gate_def)
qed

subsection \<open>Starting a session\<close>

lemma issue_frame: "\<exists>db ps. snd (issue en why b) = b\<lparr>b_db := db, b_printed := ps\<rparr>"
proof -
  have "\<exists>db ps. b = b\<lparr>b_db := db, b_printed := ps\<rparr>" by (rule exI [of _ "b_db b"], rule exI [of _ "b_printed b"]) simp
  then show ?thesis
    by (auto simp: issue_def Let_def interfere_def split_beta split: sum.split) (metis boot.surjective boot.update_convs(5,12))
qed

lemma StartBootstrapSession_Inr:
  assumes "StartBootstrapSession en typed b = (Inr (secret, expires), b')"
  obtains b1 canon db where "admit en b = (None, b1)" "CanonicalToken typed = Some canon" "newSessionSecret (be_secret en) = Inr secret"
    "pg_StartBootstrapSession (be_fault en AtStart) (HashSecret (be_sha en) canon)
       \<lparr>ses_Hash = HashSecret (be_sha en) secret, ses_CreatedAt = be_now en AtStart, ses_LastUsedAt = be_now en AtStart,
        ses_ExpiresAt = be_now en AtStart + SessionMax, ses_EndedAt = 0, ses_EndedReason = []\<rparr> (be_now en AtStart)
       (b_db (interfere en AtStart b1)) = (Inr True, db)"
    "b_db b' = b_db (snd (issue en ''the previous token started a session'' ((interfere en AtStart b1)\<lparr>b_db := db\<rparr>)))"
proof -
  obtain b1 where a: "admit en b = (None, b1)"
    using assms by (auto simp: StartBootstrapSession_def split: prod.splits option.splits)
  obtain canon where c: "CanonicalToken typed = Some canon"
    using assms a by (auto simp: StartBootstrapSession_def split: option.splits)
  obtain secret' where s: "newSessionSecret (be_secret en) = Inr secret'"
    using assms a c by (auto simp: StartBootstrapSession_def split: sum.splits)
  show thesis
    using assms a c s that by (auto simp: StartBootstrapSession_def Let_def split: prod.splits sum.splits bool.splits)
qed

lemma start_effect:
  assumes "pg_StartBootstrapSession fault h x now s = (Inr True, s')" and "pg_ok s" and "now \<noteq> 0"
  shows "\<not> Closed (pg_latch s)" "\<exists>t \<in> set (pg_tokens s). tok_Hash t = h \<and> token_live now t"
    "unended s' = [x\<lparr>ses_EndedAt := 0, ses_EndedReason := []\<rparr>]" "\<forall>t \<in> set (pg_tokens s'). tok_Hash t = h \<longrightarrow> \<not> IsZero (tok_UsedAt t)"
proof -
  have lck: "lockOpen s = None" and live: "\<exists>t \<in> set (pg_tokens s). tok_Hash t = h \<and> token_live now t"
    and s': "s' = s\<lparr>pg_tokens := map (\<lambda>t. if tok_Hash t = h \<and> token_live now t then t\<lparr>tok_UsedAt := now\<rparr> else t) (pg_tokens s),
      pg_sessions := end_sessions now SessionEndedSuperseded (pg_sessions s) @ [x\<lparr>ses_EndedAt := 0, ses_EndedReason := []\<rparr>]\<rparr>"
    using assms(1) by (auto simp: pg_StartBootstrapSession_def split: option.splits if_splits)
  show "\<not> Closed (pg_latch s)" using lck by (simp add: lockOpen_def split: if_splits)
  show "\<exists>t \<in> set (pg_tokens s). tok_Hash t = h \<and> token_live now t" by (rule live)
  show "unended s' = [x\<lparr>ses_EndedAt := 0, ses_EndedReason := []\<rparr>]"
    using end_sessions_unended [OF assms(3)] by (simp add: s' unended_def IsZero_def)
  have "inj_on tok_Hash (set (pg_tokens s))" using assms(2) by (simp add: pg_ok_def first_run_ok_def distinct_map)
  moreover obtain t0 where "t0 \<in> set (pg_tokens s)" "tok_Hash t0 = h" "token_live now t0" using live by blast
  ultimately have all: "token_live now t" if "t \<in> set (pg_tokens s)" "tok_Hash t = h" for t using that by (metis inj_onD)
  show "\<forall>t \<in> set (pg_tokens s'). tok_Hash t = h \<longrightarrow> \<not> IsZero (tok_UsedAt t)"
  proof (intro ballI impI)
    fix t assume "t \<in> set (pg_tokens s')" "tok_Hash t = h"
    moreover have "set (pg_tokens s') = (\<lambda>u. if tok_Hash u = h \<and> token_live now u then u\<lparr>tok_UsedAt := now\<rparr> else u) ` set (pg_tokens s)"
      unfolding s' by simp
    ultimately obtain u where u: "u \<in> set (pg_tokens s)" and t: "t = (if tok_Hash u = h \<and> token_live now u then u\<lparr>tok_UsedAt := now\<rparr> else u)"
      by blast
    have "tok_Hash u = h" using t \<open>tok_Hash t = h\<close> by (cases "tok_Hash u = h \<and> token_live now u") simp_all
    then have "tok_UsedAt t = now" using t all [OF u] by simp
    then show "\<not> IsZero (tok_UsedAt t)" using assms(3) by (simp add: IsZero_def)
  qed
qed

lemma issue_effect:
  assumes "issue en why b = (None, b')" and "be_now en AtIssue \<noteq> 0"
  shows "\<exists>tok canon. NewToken (be_token en) = Inr tok \<and> (case CanonicalToken tok of None \<Rightarrow> [] | Some c \<Rightarrow> c) = canon \<and>
    unused (b_db b') = [\<lparr>tok_Hash = HashSecret (be_sha en) canon, tok_CreatedAt = be_now en AtIssue,
      tok_ExpiresAt = be_now en AtIssue + TokenTTL, tok_UsedAt = 0\<rparr>] \<and>
    pg_sessions (b_db b') = pg_sessions (be_others en AtIssue (b_db b)) \<and> pg_latch (b_db b') = pg_latch (be_others en AtIssue (b_db b)) \<and>
    b_printed b' = b_printed b @ banner why (b_server b) tok (be_now en AtIssue + TokenTTL) \<and>
    b_global b' = b_global b"
proof (cases "NewToken (be_token en)")
  case (Inr tok)
  have "\<exists>canon. (case CanonicalToken tok of None \<Rightarrow> [] | Some c \<Rightarrow> c) = canon" by blast
  then obtain canon where canon: "(case CanonicalToken tok of None \<Rightarrow> [] | Some c \<Rightarrow> c) = canon" by blast
  let ?t = "\<lparr>tok_Hash = HashSecret (be_sha en) canon, tok_CreatedAt = be_now en AtIssue, tok_ExpiresAt = be_now en AtIssue + TokenTTL, tok_UsedAt = 0\<rparr>"
  let ?db = "be_others en AtIssue (b_db b)"
  obtain db where p: "pg_IssueBootstrapToken (be_fault en AtIssue) ?t ?db = (Inr (), db)"
    and b': "b' = b\<lparr>b_db := db, b_printed := b_printed b @ banner why (b_server b) tok (be_now en AtIssue + TokenTTL)\<rparr>"
    using assms(1) by (auto simp: issue_def Inr canon Let_def interfere_def split: prod.splits sum.splits)
  from p have "db = ?db\<lparr>pg_tokens := retire_tokens (be_now en AtIssue) (pg_tokens ?db) @ [?t]\<rparr>"
    by (auto simp: pg_IssueBootstrapToken_def split: option.splits if_splits)
  then show ?thesis
    using Inr canon b' retire_tokens_unused [OF assms(2)] by (simp add: unused_def IsZero_def)
qed (use assms in \<open>simp add: issue_def\<close>)

lemma issue_succeeds:
  assumes "NewToken (be_token en) = Inr tok" and "CanonicalToken tok = Some canon" and "be_fault en AtIssue = None"
    and "\<not> Closed (pg_latch (be_others en AtIssue (b_db b)))" and "HashSecret (be_sha en) canon \<notin> tok_Hash ` set (pg_tokens (be_others en AtIssue (b_db b)))"
  shows "fst (issue en why b) = None"
  using assms by (simp add: issue_def Let_def interfere_def pg_IssueBootstrapToken_def lockOpen_def)

definition quiet :: "'l boot_env \<Rightarrow> bool" where
  "quiet en \<longleftrightarrow> (\<forall>st. be_fault en st = None) \<and> (\<forall>st db. be_others en st db = db)"

lemma quiet_simps: "quiet en \<Longrightarrow> be_fault en st = None" "quiet en \<Longrightarrow> be_others en st db = db" "quiet en \<Longrightarrow> interfere en st b = b"
  by (simp_all add: quiet_def interfere_def)

lemma issue_quiet:
  assumes "quiet en"
  shows "pg_sessions (b_db (snd (issue en why b))) = pg_sessions (b_db b)"
  using assms by (auto simp: issue_def Let_def quiet_simps pg_IssueBootstrapToken_def split: sum.split option.split)

lemma find_fresh: "(\<And>x. x \<in> set xs \<Longrightarrow> \<not> P x) \<Longrightarrow> P y \<Longrightarrow> find P (xs @ [y]) = Some y"
  by (induction xs) auto

lemma session_accepted:
  assumes "quiet en" and "length r = secretBytes" and "secret = SessionPrefix @ crockford r" and "HashSecret (be_sha en) secret \<notin> ses_Hash ` set xs"
    and "pg_sessions (b_db b) = xs @ [x]" and "ses_Hash x = HashSecret (be_sha en) secret" and "IsZero (ses_EndedAt x)"
    and "be_now en AtSession < ses_ExpiresAt x" and "be_now en AtSession - ses_LastUsedAt x < SessionIdle"
  shows "fst (svc_session en secret b) = Inr (HashSecret (be_sha en) secret)"
proof -
  have "pg_BootstrapSession (HashSecret (be_sha en) secret) (b_db b) = Some x"
    unfolding pg_BootstrapSession_def assms(5) using assms(4,6) by (intro find_fresh) force+
  moreover have "length (crockford r) = 52" using crockford_text(2) [OF assms(2)] by (simp add: tokenBodyLength_def)
  ultimately show ?thesis
    using assms by (simp add: svc_session_def Let_def quiet_simps)
qed

lemma printed_token_works:
  assumes "quiet en1" and "quiet en2" and "quiet en3" and "be_sha en2 = be_sha en1" and "be_sha en3 = be_sha en1"
    and "be_token en1 = Inr r" and "length r = secretBytes" and "NewToken (Inr r) = Inr tok"
    and "has_first_run b" and "\<not> b_closed b" and "\<not> Closed (pg_latch (b_db b))"
    and "HashSecret (be_sha en1) (TokenPrefix @ crockford r) \<notin> tok_Hash ` set (pg_tokens (b_db b))"
    and "TrimSpace t = p @ q" and "EqualFold p TokenPrefix" and "letters q = letters (drop (length TokenPrefix) tok)"
    and "\<not> Blocked (be_rate en2) (be_now en2 AtLimit) (be_ip en2) (b_perClient b)"
    and "be_secret en2 = Inr r2" and "length r2 = secretBytes"
    and "HashSecret (be_sha en1) (SessionPrefix @ crockford r2) \<notin> ses_Hash ` set (pg_sessions (b_db b))"
    and "be_now en2 AtStart < be_now en1 AtIssue + 60 * Minute"
    and "be_now en3 AtSession < be_now en2 AtStart + 60 * Minute" and "be_now en3 AtSession - be_now en2 AtStart < 15 * Minute"
  shows "\<exists>b1 secret expires b2. issue en1 why b = (None, b1) \<and> b_printed b1 = b_printed b @ banner why (b_server b) tok (be_now en1 AtIssue + TokenTTL) \<and>
    StartBootstrapSession en2 t b1 = (Inr (secret, expires), b2) \<and> fst (svc_session en3 secret b2) = Inr (HashSecret (be_sha en1) secret)"
proof -
  have canon: "CanonicalToken tok = Some (TokenPrefix @ crockford r)" by (rule NewToken_canonical [OF assms(7,8)])
  have "letters q = crockford r"
    using assms(15) NewToken_typed(2) [OF assms(7,8)] assms(8) by (auto simp: NewToken_def)
  then have typed: "CanonicalToken t = Some (TokenPrefix @ crockford r)" by (rule canonical_typed [OF assms(13,14) _ assms(7)])
  define h where "h = HashSecret (be_sha en1) (TokenPrefix @ crockford r)"
  define tk where "tk = \<lparr>tok_Hash = h, tok_CreatedAt = be_now en1 AtIssue, tok_ExpiresAt = be_now en1 AtIssue + TokenTTL, tok_UsedAt = 0\<rparr>"
  define b1 where "b1 = b\<lparr>b_db := (b_db b)\<lparr>pg_tokens := retire_tokens (be_now en1 AtIssue) (pg_tokens (b_db b)) @ [tk]\<rparr>,
    b_printed := b_printed b @ banner why (b_server b) tok (be_now en1 AtIssue + TokenTTL)\<rparr>"
  have issued: "issue en1 why b = (None, b1)"
    using assms(1,6,8,11,12) canon
    by (simp add: issue_def Let_def quiet_simps pg_IssueBootstrapToken_def lockOpen_def b1_def tk_def h_def)
  have admitted: "admit en2 b1 = (None, b1)"
    using assms(2,9-11,16) by (intro admit_quiet) (simp_all add: b1_def has_first_run_def quiet_simps)
  define secret where "secret = SessionPrefix @ crockford r2"
  define x where "x = \<lparr>ses_Hash = HashSecret (be_sha en1) secret, ses_CreatedAt = be_now en2 AtStart, ses_LastUsedAt = be_now en2 AtStart,
    ses_ExpiresAt = be_now en2 AtStart + SessionMax, ses_EndedAt = 0, ses_EndedReason = []\<rparr>"
  have live: "\<exists>u \<in> set (pg_tokens (b_db b1)). tok_Hash u = h \<and> token_live (be_now en2 AtStart) u"
    using assms(20) by (auto simp: b1_def tk_def token_live_def IsZero_def TokenTTL_def)
  obtain db where db: "pg_StartBootstrapSession None h x (be_now en2 AtStart) (b_db b1) = (Inr True, db)"
    "pg_sessions db = end_sessions (be_now en2 AtStart) SessionEndedSuperseded (pg_sessions (b_db b)) @ [x]"
    using live assms(11,19) by (simp add: pg_StartBootstrapSession_def lockOpen_def b1_def x_def secret_def)
  let ?b2 = "snd (StartBootstrapSession en2 t b1)"
  have start: "fst (StartBootstrapSession en2 t b1) = Inr (secret, rfc3339 (ses_ExpiresAt x)) \<and> pg_sessions (b_db ?b2) = pg_sessions db"
    using assms(2,4,17) admitted typed db(1) issue_quiet [OF assms(2)]
    by (simp add: StartBootstrapSession_def newSessionSecret_def Let_def quiet_simps h_def x_def secret_def)
  have "fst (svc_session en3 secret ?b2) = Inr (HashSecret (be_sha en3) secret)"
  proof (rule session_accepted [OF assms(3,18) secret_def])
    show "pg_sessions (b_db ?b2) = end_sessions (be_now en2 AtStart) SessionEndedSuperseded (pg_sessions (b_db b)) @ [x]" using start db(2) by simp
    show "HashSecret (be_sha en3) secret \<notin> ses_Hash ` set (end_sessions (be_now en2 AtStart) SessionEndedSuperseded (pg_sessions (b_db b)))"
      using assms(5,19) end_sessions_hashes [of "be_now en2 AtStart" SessionEndedSuperseded "pg_sessions (b_db b)"]
      by (metis secret_def set_map)
  qed (use assms in \<open>simp_all add: x_def IsZero_def SessionMax_def SessionIdle_def\<close>)
  then show ?thesis
    using issued start assms(5) by (intro exI [of _ b1] exI [of _ secret] exI [of _ "rfc3339 (ses_ExpiresAt x)"] exI [of _ ?b2])
      (simp add: b1_def prod_eq_iff)
qed

subsection \<open>Claims\<close>

text \<open>C34: a first-run session starts only while first run is open, for a client with failures left, and for a text whose
  canonical form hashes to a token that is unused and unexpired at that moment. The token is spent by it, every other
  session is ended, and the new one is live for an hour.\<close>

theorem StartBootstrapSession_sound:
  assumes "env_ok en" and "pg_ok (b_db b)" and "StartBootstrapSession en typed b = (Inr (secret, expires), b')"
  shows "has_first_run b \<and> \<not> Blocked (be_rate en) (be_now en AtLimit) (be_ip en) (b_perClient b) \<and>
    (\<exists>canon s s'. CanonicalToken typed = Some canon \<and> live_step\<^sup>*\<^sup>* (b_db b) s \<and> live_step s s' \<and> live_step\<^sup>*\<^sup>* s' (b_db b') \<and>
       \<not> Closed (pg_latch s) \<and> (\<exists>t \<in> set (pg_tokens s). tok_Hash t = HashSecret (be_sha en) canon \<and> token_live (be_now en AtStart) t) \<and>
       (\<forall>t \<in> set (pg_tokens s'). tok_Hash t = HashSecret (be_sha en) canon \<longrightarrow> \<not> IsZero (tok_UsedAt t)) \<and>
       unended s' = [\<lparr>ses_Hash = HashSecret (be_sha en) secret, ses_CreatedAt = be_now en AtStart, ses_LastUsedAt = be_now en AtStart,
         ses_ExpiresAt = be_now en AtStart + 60 * Minute, ses_EndedAt = 0, ses_EndedReason = []\<rparr>])"
  using assms(3)
proof (rule StartBootstrapSession_Inr)
  let ?x = "\<lparr>ses_Hash = HashSecret (be_sha en) secret, ses_CreatedAt = be_now en AtStart, ses_LastUsedAt = be_now en AtStart,
    ses_ExpiresAt = be_now en AtStart + SessionMax, ses_EndedAt = 0, ses_EndedReason = []\<rparr>"
  fix b1 canon db
  assume a: "admit en b = (None, b1)" and c: "CanonicalToken typed = Some canon"
    and p: "pg_StartBootstrapSession (be_fault en AtStart) (HashSecret (be_sha en) canon) ?x (be_now en AtStart) (b_db (interfere en AtStart b1)) = (Inr True, db)"
    and i: "b_db b' = b_db (snd (issue en ''the previous token started a session'' ((interfere en AtStart b1)\<lparr>b_db := db\<rparr>)))"
  let ?s = "b_db (interfere en AtStart b1)"
  have now: "be_now en AtStart \<noteq> 0" using assms(1) by (simp add: env_ok_def)
  have s: "live_step\<^sup>*\<^sup>* (b_db b) ?s"
    using calls_trans [OF admit_calls [OF assms(1), of b] calls_interfere [OF assms(1), of _ AtStart]] a by (simp add: calls_def)
  then have ok: "pg_ok ?s" using assms(2) by (rule live_steps_ok)
  have "live_step ?s db" using live_step_start [OF now, of ?s] p by (metis snd_conv)
  moreover have "live_step\<^sup>*\<^sup>* db (b_db b')"
    using issue_calls [OF assms(1), of "(interfere en AtStart b1)\<lparr>b_db := db\<rparr>"] i by (simp add: calls_def)
  ultimately show ?thesis
    using s start_effect [OF p ok now] c admit_None(1,4) [OF a] by (auto simp: SessionMax_def)
qed

text \<open>C35: the first request with an unrevoked admin certificate closes first run for good. Afterwards there is no token
  and no open session, and on every replica that reads the database a session start is refused as closed, whatever
  text was typed, without spending the client's failures and without an audit row: a closed deployment says nothing about a
  token. Requests below admin close nothing.\<close>

theorem admin_request_closes_first_run:
  assumes "env_ok en" and "env_ok en'" and "pg_ok (b_db b)" and "b_store b" and "\<not> b_closed b" and "be_fault en AtClose = None"
    and "Level i = LevelAdmin" and "has_first_run c" and "live_step\<^sup>*\<^sup>* (b_db (Observe en i cert b)) (b_db c)" and "be_fault en' AtClosed = None"
  shows "Closed (pg_latch (b_db c)) \<and> pg_tokens (b_db c) = [] \<and> unended (b_db c) = [] \<and> b_closed (Observe en i cert b) \<and>
    (\<forall>typed. \<exists>c'. StartBootstrapSession en' typed c = (Inl FirstRunClosed, c') \<and> b_closed c' \<and> b_perClient c' = b_perClient c \<and>
       b_global c' = b_global c \<and> b_audit c' = b_audit c) \<and>
    (\<forall>j cert' d. Level j \<noteq> LevelAdmin \<longrightarrow> Observe en j cert' d = d)"
proof -
  let ?b = "interfere en AtClose b"
  have now: "be_now en AtClose \<noteq> 0" using assms(1) by (simp add: env_ok_def)
  obtain r db where p: "pg_CloseBootstrap None \<lparr>bs_ClosedAt = be_now en AtClose, bs_ClosedBySerial = SerialKey (cert_SerialNumber cert),
      bs_ClosedByCN = CN i, bs_ClosedByIssuerSHA256 = IssuerSHA256 i\<rparr> (b_db ?b) = (Inr r, db)"
    by (cases "Closed (pg_latch (b_db ?b))") (auto simp: pg_CloseBootstrap_def)
  have db: "Closed (pg_latch db)"
    using p now by (auto simp: pg_CloseBootstrap_def Closed_def IsZero_def split: if_splits)
  let ?o = "Observe en i cert b"
  have flag: "b_closed ?o" using assms(4-7) p by (cases r) (simp_all add: Observe_def Let_def markClosed_def onClose_def stop_def split: option.split)
  have "live_step\<^sup>*\<^sup>* db (b_db ?o)"
  proof (cases r)
    case True
    have "b_db ?o = snd (pg_RecordFirstUse (be_fault en AtFirstUse) (first_use_row (be_sha en) i cert) (be_now en AtClose)
        (be_others en AtFirstUse db))"
      using assms(4-7) p True by (simp add: Observe_def Let_def interfere_def split: option.split)
    then show ?thesis
      using assms(1) live_step_first_use by (metis env_ok_def rtranclp.rtrancl_into_rtrancl)
  qed (use assms(4-7) p in \<open>simp add: Observe_def Let_def\<close>)
  then have steps: "live_step\<^sup>*\<^sup>* db (b_db c)" using assms(9) by simp
  have closed: "Closed (pg_latch (b_db c))" by (rule live_steps_closed [OF steps db])
  have "live_step\<^sup>*\<^sup>* (b_db b) (b_db c)" using Observe_calls [OF assms(1), of b i cert] assms(9) unfolding calls_def by simp
  then have "pg_ok (b_db c)" using assms(3) by (rule live_steps_ok)
  then have "pg_tokens (b_db c) = [] \<and> unended (b_db c) = []" using closed by (simp add: pg_ok_def first_run_ok_def)
  then show ?thesis
    using closed flag admit_closed [OF assms(2,8) closed assms(10)] by (auto simp: StartBootstrapSession_def Observe_def)
qed

text \<open>When the failures of all clients reach the cap, the live session is ended and the token replaced: from then on the
  only unused token is the new one that was printed, and the count starts over.\<close>

theorem failure_cap_rotates:
  fixes en b
  defines "s1 \<equiv> snd (pg_EndBootstrapSessions SessionEndedRateLimited (be_now en AtEnd) (be_others en AtEnd (b_db b)))"
  assumes "env_ok en" and "FailWindow (be_now en AtWindow) (b_global b) = (True, w)" and "be_fault en AtEnd = None" and "be_fault en AtIssue = None"
    and "NewToken (be_token en) = Inr tok" and "CanonicalToken tok = Some canon" and "\<not> Closed (pg_latch (be_others en AtIssue s1))"
    and "HashSecret (be_sha en) canon \<notin> tok_Hash ` set (pg_tokens (be_others en AtIssue s1))"
  shows "unended s1 = [] \<and> live_step\<^sup>*\<^sup>* (b_db b) s1 \<and> pg_sessions (b_db (fail en b)) = pg_sessions (be_others en AtIssue s1) \<and>
    map tok_Hash (unused (b_db (fail en b))) = [HashSecret (be_sha en) canon] \<and> w_times (b_global (fail en b)) = [] \<and>
    b_printed (fail en b) = b_printed b @ banner ''50 failed first-run requests within an hour'' (b_server b) tok (be_now en AtIssue + TokenTTL)"
proof -
  have now: "be_now en AtEnd \<noteq> 0" "be_now en AtIssue \<noteq> 0" using assms(2) by (simp_all add: env_ok_def)
  let ?why = "''50 failed first-run requests within an hour''"
  let ?b = "b\<lparr>b_perClient := FailClient (be_rate en) (be_now en AtFail) (be_ip en) (b_perClient b), b_global := w, b_db := s1\<rparr>"
  have "fst (issue en ?why ?b) = None" using assms(4-9) by (intro issue_succeeds [of _ tok canon]) simp_all
  then obtain b2 where b2: "issue en ?why ?b = (None, b2)" by (metis prod.collapse)
  have rec: "b_printed (boot_record en e x) = b_printed x" "b_global (boot_record en e x) = b_global x" for e x
    by (simp_all add: boot_record_def Let_def split: option.split)
  have f: "fail en b = boot_record en (zero_event\<lparr>ev_Kind := KindTokenRotated,
      ev_Summary := ''Rotated the bootstrap token and ended the live session after 50 failed first-run requests within an hour''\<rparr>) b2"
    using assms(3,4) b2 by (simp add: fail_def rotateAfterFailures_def Let_def interfere_def s1_def)
  have "w_times w = []" using assms(3) by (auto simp: FailWindow_def Let_def split: if_splits)
  moreover have "unended s1 = []" using end_sessions_unended [OF now(1)] by (simp add: unended_def pg_EndBootstrapSessions_def s1_def)
  moreover have "live_step\<^sup>*\<^sup>* (b_db b) s1"
    using assms(2) live_step_end_all [OF now(1)] unfolding s1_def env_ok_def by (meson rtranclp.rtrancl_into_rtrancl)
  ultimately show ?thesis
    using issue_effect [OF b2 now(2)] assms(6,7) by (simp add: f rec)
qed


subsection \<open>Examples\<close>

definition example_boot_env :: "int boot_env" where
  "example_boot_env = \<lparr>be_sha = id, be_rate = example_rate, be_now = (\<lambda>_. 1000), be_fault = (\<lambda>_. None), be_others = (\<lambda>_ db. db),
     be_lock = Inr True, be_token = Inr example_secret, be_secret = Inr example_secret, be_audit = example_entropy, be_ip = ''192.0.2.1'',
     be_ctx = Background\<rparr>"

definition example_boot :: "int boot" where
  "example_boot = \<lparr>b_store = True, b_disabled = False, b_kind = Some KindRegistered, b_server = ''AB'', b_db = migrated, b_closed = False,
     b_once = False, b_release = False, b_perClient = NewFailures perClientBurst perClientRefill,
     b_global = \<lparr>w_limit = globalFailures, w_window = globalWindow, w_times = replicate 49 990\<rparr>, b_audit = None, b_printed = []\<rparr>"

lemma example_env_ok: "quiet example_boot_env" "env_ok example_boot_env"
  by (simp_all add: quiet_def env_ok_def example_boot_env_def)

lemma example_boot_facts:
  "has_first_run example_boot" "\<not> b_closed example_boot" "\<not> Closed (pg_latch (b_db example_boot))" "pg_tokens (b_db example_boot) = []"
  "pg_sessions (b_db example_boot) = []" "b_store example_boot" "pg_ok (b_db example_boot)"
  "\<not> Blocked rate now ip (b_perClient example_boot)"
  using pg_ok_migrated
  by (simp_all add: has_first_run_def example_boot_def migrated_def open_latch_def Closed_def IsZero_def Blocked_def NewFailures_def)

lemma example_typed_ok:
  "TrimSpace example_typed = ''FOS_boot_'' @ drop 10 example_typed" "EqualFold ''FOS_boot_'' TokenPrefix"
  "letters (drop 10 example_typed) = letters (drop (length TokenPrefix) example_printed)"
proof -
  show "TrimSpace example_typed = ''FOS_boot_'' @ drop 10 example_typed" by (simp add: TrimSpace_def is_space_def example_typed_def)
qed code_simp+

lemma example_started:
  "\<exists>b1 secret expires b2. issue example_boot_env [] example_boot = (None, b1) \<and>
     b_printed b1 = b_printed example_boot @ banner [] (b_server example_boot) example_printed (be_now example_boot_env AtIssue + TokenTTL) \<and>
     StartBootstrapSession example_boot_env example_typed b1 = (Inr (secret, expires), b2) \<and>
     fst (svc_session example_boot_env secret b2) = Inr (HashSecret (be_sha example_boot_env) secret)"
proof (rule printed_token_works [of _ _ _ example_secret example_printed _ example_typed "''FOS_boot_''" "drop 10 example_typed" example_secret])
qed (simp_all add: example_env_ok example_boot_facts example_typed_ok example_NewToken, simp_all add: example_boot_env_def Minute_def)


lemma StartBootstrapSession_sound_witness:
  "\<exists>b1 secret expires b2 canon s. issue example_boot_env [] example_boot = (None, b1) \<and>
     StartBootstrapSession example_boot_env example_typed b1 = (Inr (secret, expires), b2) \<and> CanonicalToken example_typed = Some canon \<and>
     live_step\<^sup>*\<^sup>* (b_db b1) s \<and> (\<exists>t \<in> set (pg_tokens s). tok_Hash t = HashSecret id canon \<and> token_live 1000 t)"
proof -
  obtain b1 secret expires b2 where b: "issue example_boot_env [] example_boot = (None, b1)"
    "StartBootstrapSession example_boot_env example_typed b1 = (Inr (secret, expires), b2)"
    using example_started by blast
  have "pg_ok (b_db b1)"
    using issue_calls [OF example_env_ok(2), of example_boot "[]"] live_steps_ok example_boot_facts(7) b(1) by (metis calls_def snd_conv)
  from StartBootstrapSession_sound [OF example_env_ok(2) this b(2)] b show ?thesis
    by (simp add: example_boot_env_def) blast
qed

lemma admin_request_closes_first_run_witness:
  "Closed (pg_latch (b_db (Observe example_boot_env (zero_identity\<lparr>Level := LevelAdmin\<rparr>) example_cert example_boot))) \<and>
   fst (StartBootstrapSession example_boot_env example_typed (Observe example_boot_env (zero_identity\<lparr>Level := LevelAdmin\<rparr>) example_cert example_boot)) = Inl FirstRunClosed"
proof -
  let ?c = "Observe example_boot_env (zero_identity\<lparr>Level := LevelAdmin\<rparr>) example_cert example_boot"
  have "has_first_run ?c"
    by (simp add: Observe_def example_boot_env_def example_boot_def has_first_run_def interfere_def pg_CloseBootstrap_def markClosed_def
        onClose_def stop_def Let_def migrated_def open_latch_def Closed_def IsZero_def)
  moreover have "be_fault example_boot_env st = None" for st by (simp add: example_boot_env_def)
  moreover have "Level (zero_identity\<lparr>Level := LevelAdmin\<rparr>) = LevelAdmin" by simp
  ultimately have "Closed (pg_latch (b_db ?c)) \<and> (\<forall>typed. \<exists>c'. StartBootstrapSession example_boot_env typed ?c = (Inl FirstRunClosed, c'))"
    using admin_request_closes_first_run [OF example_env_ok(2) example_env_ok(2) example_boot_facts(7,6,2), of _ ?c example_cert] by blast
  then show ?thesis by (metis fst_conv)
qed

lemma failure_cap_rotates_witness:
  "map tok_Hash (unused (b_db (fail example_boot_env example_boot))) = [HashSecret id (TokenPrefix @ crockford example_secret)]"
proof -
  have "FailWindow 1000 (b_global example_boot) = (True, \<lparr>w_limit = globalFailures, w_window = globalWindow, w_times = []\<rparr>)"
    by (simp add: FailWindow_def example_boot_def globalFailures_def globalWindow_def Let_def Minute_def Second_def filter_replicate)
  then show ?thesis
    using failure_cap_rotates [of example_boot_env example_boot _ example_printed "TokenPrefix @ crockford example_secret"]
      example_env_ok(2) example_boot_facts example_NewToken NewToken_canonical [OF example_NewToken]
    by (simp add: example_boot_env_def pg_EndBootstrapSessions_def)
qed

end
