(* ===== verification/Cert_Check.thy ===== *)
theory Cert_Check
  imports Trust_Store
begin

text \<open>
  What may be an operator CA and what may be an operator's certificate: \<^verbatim>\<open>anchor.go\<close>,
  \<^verbatim>\<open>certcheck.go\<close>, \<^verbatim>\<open>fullname.go\<close>, \<^verbatim>\<open>registration.go\<close>, \<^verbatim>\<open>nodecas.go\<close>, \<^verbatim>\<open>nodecawatch.go\<close> and
  \<^verbatim>\<open>resolve.go\<close> of \<^verbatim>\<open>internal/operatorca\<close>, with the URL check of \<^verbatim>\<open>fetch.go\<close>. The x509, PEM, ASN.1, mail
  and URL parsers are the fields of \<open>cert_lib\<close>; \<open>cl_view\<close> are the fields of a parsed certificate the record
  \<open>certificate\<close> does not have. The wording of refusals is left out.
\<close>

unbundle bit_operations_syntax

subsection \<open>Parsed certificates\<close>

datatype public_key = ECDSA string | RSA nat | OtherKey string

record x509_fields =
  x_BasicConstraintsValid :: bool
  x_IsCA :: bool
  x_KeyUsage :: int
  x_ExtKeyUsage :: "int list"
  x_UnknownExtKeyUsage :: "nat list list"
  x_PublicKey :: public_key
  x_RawSubjectPublicKeyInfo :: bytes
  x_critical :: "(nat list \<times> bool) list"

record csr =
  csr_RawSubject :: bytes
  csr_PublicKey :: public_key
  csr_RawSubjectPublicKeyInfo :: bytes

type_synonym rdns = "(nat list \<times> string option) list list"

record cert_lib =
  cl_peer :: peer_lib
  cl_view :: "certificate \<Rightarrow> x509_fields"
  cl_verify :: "certificate \<Rightarrow> gotime \<Rightarrow> certificate \<Rightarrow> string option"
  cl_asn1 :: "bytes \<Rightarrow> string + string"
  cl_rdns :: "bytes \<Rightarrow> string + rdns"
  cl_mail :: "string \<Rightarrow> string + (string \<times> string)"
  cl_pem :: "bytes \<Rightarrow> (string \<times> bytes \<times> bytes) option"
  cl_parse :: "bytes \<Rightarrow> string + certificate list"
  cl_signed :: "certificate \<Rightarrow> certificate \<Rightarrow> bool"
  cl_csr :: "bytes \<Rightarrow> string + csr"
  cl_csr_signed :: "csr \<Rightarrow> bool"
  cl_url :: "string \<Rightarrow> string + (string \<times> string)"
  cl_crl :: crl_lib

definition KeyUsageDigitalSignature :: int where "KeyUsageDigitalSignature = 1"
definition KeyUsageCertSign :: int where "KeyUsageCertSign = 32"
definition KeyUsageCRLSign :: int where "KeyUsageCRLSign = 64"
definition ExtKeyUsageClientAuth :: int where "ExtKeyUsageClientAuth = 2"
definition CodeOperatorCARejected :: nat where "CodeOperatorCARejected = 1605"
definition CodeCSRRejected :: nat where "CodeCSRRejected = 1606"
definition MaxCertSize :: nat where "MaxCertSize = 8192"
definition minAnchorValidity :: duration where "minAnchorValidity = 30 * 24 * 60 * Minute"
definition minRSABits :: nat where "minRSABits = 3072"
definition MaxCSRSize :: nat where "MaxCSRSize = 4096"
definition maxEmailLength :: nat where "maxEmailLength = 254"
definition minLeafValidity :: duration where "minLeafValidity = 24 * 60 * Minute"
definition warnLeafValidity :: duration where "warnLeafValidity = 400 * 24 * 60 * Minute"
definition maxURLLength :: nat where "maxURLLength = 2048"
definition maxFullNameLength :: nat where "maxFullNameLength = 128"
definition oidCommonName :: "nat list" where "oidCommonName = [2, 5, 4, 3]"
definition AckNoCRL :: string where "AckNoCRL = ''NO_CRL''"

definition has_usage :: "cert_lib \<Rightarrow> certificate \<Rightarrow> int \<Rightarrow> bool" where
  "has_usage lib cert u \<longleftrightarrow> x_KeyUsage (cl_view lib cert) AND u \<noteq> 0"

subsection \<open>anchor.go\<close>

definition rejectAnchor :: "error_reason \<Rightarrow> refusal" where
  "rejectAnchor reason = Reasoned CodeOperatorCARejected reason []"

definition parseSingleCert :: "cert_lib \<Rightarrow> bytes \<Rightarrow> certificate option" where
  "parseSingleCert lib b =
     (if b = [] \<or> length b > MaxCertSize then None
      else
        let der = (case cl_pem lib b of
                     None \<Rightarrow> Some b
                   | Some (typ, block, rest) \<Rightarrow>
                       if typ \<noteq> ''CERTIFICATE'' then None else if cl_pem lib rest \<noteq> None then None else Some block)
        in case der of
             None \<Rightarrow> None
           | Some der \<Rightarrow> (case cl_parse lib der of Inl _ \<Rightarrow> None | Inr [c] \<Rightarrow> Some c | Inr _ \<Rightarrow> None))"

definition ParseAnchorUpload :: "cert_lib \<Rightarrow> bytes \<Rightarrow> refusal + certificate" where
  "ParseAnchorUpload lib b =
     (case parseSingleCert lib b of None \<Rightarrow> Inl (rejectAnchor REASON_UNSPECIFIED) | Some c \<Rightarrow> Inr c)"

definition matchingNodeCA :: "cert_lib \<Rightarrow> certificate \<Rightarrow> certificate list \<Rightarrow> certificate option" where
  "matchingNodeCA lib cert nodeCAs =
     find (\<lambda>n. cert_Raw n = cert_Raw cert \<or>
       x_RawSubjectPublicKeyInfo (cl_view lib n) = x_RawSubjectPublicKeyInfo (cl_view lib cert)) nodeCAs"

definition anchorKeyAllowed :: "public_key \<Rightarrow> bool" where
  "anchorKeyAllowed k =
     (case k of ECDSA c \<Rightarrow> c = ''P-384'' \<or> c = ''P-256'' | RSA n \<Rightarrow> n \<ge> minRSABits | OtherKey _ \<Rightarrow> False)"

text \<open>The warnings name the issuing node CAs.\<close>

definition ValidateAnchor :: "cert_lib \<Rightarrow> gotime \<Rightarrow> certificate list \<Rightarrow> bool \<Rightarrow> certificate \<Rightarrow> refusal + string list" where
  "ValidateAnchor lib now nodeCAs crlSource cert =
     (let x = cl_view lib cert
      in if \<not> x_BasicConstraintsValid x \<or> \<not> x_IsCA x \<or> \<not> has_usage lib cert KeyUsageCertSign then Inl (rejectAnchor NOT_A_CA)
         else if cert_NotAfter cert - now < minAnchorValidity then Inl (rejectAnchor EXPIRING)
         else if \<not> anchorKeyAllowed (x_PublicKey x) then Inl (rejectAnchor KEY_TYPE)
         else if matchingNodeCA lib cert nodeCAs \<noteq> None then Inl (rejectAnchor IS_NODE_CA)
         else if crlSource \<and> \<not> has_usage lib cert KeyUsageCRLSign then Inl (rejectAnchor CRL_SIGN_MISSING)
         else Inr (map (\<lambda>n. ''the operator CA was issued by the CryptOS node CA '' @ pl_subject (cl_peer lib) n @
           '': relying parties that trust that CA for client authentication would also accept operator certificates'')
           (filter (cl_signed lib cert) nodeCAs)))"

fun CheckNotNodeCA :: "cert_lib \<Rightarrow> certificate list \<Rightarrow> certificate list \<Rightarrow> refusal option" where
  "CheckNotNodeCA lib [] nodeCAs = None"
| "CheckNotNodeCA lib (a # as) nodeCAs =
     (if matchingNodeCA lib a nodeCAs \<noteq> None then Some (rejectAnchor IS_NODE_CA) else CheckNotNodeCA lib as nodeCAs)"

subsection \<open>certcheck.go\<close>

record CertResult =
  cr_Level :: level
  cr_Email :: string
  cr_Serial :: string
  cr_Warnings :: "string list"

definition refuseCert :: "error_reason \<Rightarrow> refusal" where
  "refuseCert reason = Reasoned CodeCertRejected reason []"

definition rejectCSR :: "error_reason \<Rightarrow> refusal" where
  "rejectCSR reason = Reasoned CodeCSRRejected reason []"

definition findExtension :: "(nat list \<times> bool) list \<Rightarrow> nat list \<Rightarrow> (nat list \<times> bool) option" where
  "findExtension exts oid = find (\<lambda>e. fst e = oid) exts"

text \<open>\<^verbatim>\<open>strings.ToLower\<close> is modelled on ASCII addresses.\<close>

definition emailFromSubject :: "cert_lib \<Rightarrow> rdns \<Rightarrow> string option" where
  "emailFromSubject lib subject =
     (case subject of
        [[(oid, v)]] \<Rightarrow>
          if oid \<noteq> oidCommonName then None
          else (case v of
                  None \<Rightarrow> None
                | Some cn \<Rightarrow>
                    if length cn > maxEmailLength then None
                    else (case cl_mail lib cn of
                            Inl _ \<Rightarrow> None
                          | Inr (name, address) \<Rightarrow> if name \<noteq> [] \<or> address \<noteq> cn then None else Some (map lower_char cn)))
      | _ \<Rightarrow> None)"

definition leafKeyAllowed :: "public_key \<Rightarrow> bool" where
  "leafKeyAllowed k = (case k of ECDSA c \<Rightarrow> c = ''P-384'' | RSA n \<Rightarrow> n \<ge> minRSABits | OtherKey _ \<Rightarrow> False)"

record CertCheck =
  cc_Now :: gotime
  cc_WantLevel :: string
  cc_CSR :: "csr option"
  cc_Revoked :: "(string \<Rightarrow> string \<Rightarrow> bool) option"
  cc_CheckRevocation :: "(string \<Rightarrow> certificate \<Rightarrow> refusal option) option"

definition subject_email :: "cert_lib \<Rightarrow> bytes \<Rightarrow> string option" where
  "subject_email lib raw = (case cl_rdns lib raw of Inl _ \<Rightarrow> None | Inr subject \<Rightarrow> emailFromSubject lib subject)"

definition check_usages :: "cert_lib \<Rightarrow> certificate \<Rightarrow> error_reason option" where
  "check_usages lib cert =
     (let x = cl_view lib cert
      in if x_ExtKeyUsage x \<noteq> [ExtKeyUsageClientAuth] \<or> x_UnknownExtKeyUsage x \<noteq> [] then Some EKU
         else if \<not> has_usage lib cert KeyUsageDigitalSignature \<or> has_usage lib cert (KeyUsageCertSign OR KeyUsageCRLSign) then Some KEY_USAGE
         else if \<not> x_BasicConstraintsValid x \<or> x_IsCA x then Some BASIC_CONSTRAINTS
         else None)"

definition check_key :: "cert_lib \<Rightarrow> CertCheck \<Rightarrow> certificate \<Rightarrow> error_reason option" where
  "check_key lib c cert =
     (let x = cl_view lib cert
      in if \<not> leafKeyAllowed (x_PublicKey x) then Some KEY_TYPE
         else if (case cc_CSR c of None \<Rightarrow> False | Some r \<Rightarrow> csr_RawSubjectPublicKeyInfo r \<noteq> x_RawSubjectPublicKeyInfo x) then Some KEY_MISMATCH
         else if cert_NotAfter cert - cc_Now c < minLeafValidity then Some EXPIRING
         else None)"

definition check_revoked :: "cert_lib \<Rightarrow> CertCheck \<Rightarrow> certificate \<Rightarrow> certificate \<Rightarrow> refusal option" where
  "check_revoked lib c cert anchor =
     (let fp = Fingerprint (pl_sha256 (cl_peer lib)) anchor; serial = SerialKey (cert_SerialNumber cert)
      in if (case cc_Revoked c of None \<Rightarrow> False | Some f \<Rightarrow> f fp serial) then Some (refuseCert REVOKED)
         else case cc_CheckRevocation c of None \<Rightarrow> None | Some f \<Rightarrow> f fp cert)"

text \<open>\<^verbatim>\<open>int(d.Hours()/24)\<close> of a positive duration is its whole days.\<close>

definition leaf_warnings :: "certificate \<Rightarrow> string list" where
  "leaf_warnings cert =
     (let d = cert_NotAfter cert - cert_NotBefore cert
      in if d > warnLeafValidity
         then [''the certificate is valid for '' @ itoa (nat (d div (24 * 60 * Minute))) @ '' days, more than the recommended 400 days'']
         else [])"

definition CheckOperatorCert :: "cert_lib \<Rightarrow> CertCheck \<Rightarrow> certificate \<Rightarrow> certificate \<Rightarrow> refusal + CertResult" where
  "CheckOperatorCert lib c cert anchor =
     (let ext = findExtension (x_critical (cl_view lib cert)) accessLevelOID
      in if (case ext of None \<Rightarrow> False | Some e \<Rightarrow> snd e) then Inl (refuseCert LEVEL_EXT_CRITICAL)
         else if cl_verify lib anchor (cc_Now c) cert \<noteq> None then Inl (refuseCert NOT_CHAINED)
         else if ext = None then Inl (refuseCert WRONG_LEVEL)
         else case LevelFromCertificate (cl_asn1 lib) cert of
           Inl _ \<Rightarrow> Inl (refuseCert WRONG_LEVEL)
         | Inr level \<Rightarrow>
             if cc_WantLevel c \<noteq> [] \<and> Token level \<noteq> cc_WantLevel c then Inl (refuseCert WRONG_LEVEL)
             else case check_usages lib cert of
               Some r \<Rightarrow> Inl (refuseCert r)
             | None \<Rightarrow>
                 (case subject_email lib (cert_RawSubject cert) of
                    None \<Rightarrow> Inl (refuseCert SUBJECT_MISMATCH)
                  | Some email \<Rightarrow>
                      (case check_key lib c cert of
                         Some r \<Rightarrow> Inl (refuseCert r)
                       | None \<Rightarrow>
                           (case check_revoked lib c cert anchor of
                              Some e \<Rightarrow> Inl e
                            | None \<Rightarrow> Inr \<lparr>cr_Level = level, cr_Email = email, cr_Serial = SerialKey (cert_SerialNumber cert),
                                 cr_Warnings = leaf_warnings cert\<rparr>))))"

definition CheckCSR :: "cert_lib \<Rightarrow> bytes \<Rightarrow> refusal + csr \<times> string" where
  "CheckCSR lib der =
     (if length der > MaxCSRSize then Inl (rejectCSR SIZE)
      else case cl_csr lib der of
        Inl _ \<Rightarrow> Inl (rejectCSR SIGNATURE)
      | Inr r \<Rightarrow>
          if \<not> cl_csr_signed lib r then Inl (rejectCSR SIGNATURE)
          else case subject_email lib (csr_RawSubject r) of
            None \<Rightarrow> Inl (rejectCSR SUBJECT_MISMATCH)
          | Some email \<Rightarrow> if \<not> leafKeyAllowed (csr_PublicKey r) then Inl (rejectCSR KEY_TYPE) else Inr (r, email))"

subsection \<open>fullname.go\<close>

text \<open>\<^verbatim>\<open>unicode/utf8\<close>: the decoder refuses overlong forms, surrogates and code points above \<^verbatim>\<open>U+10FFFF\<close>.\<close>

definition cont :: "nat \<Rightarrow> bool" where
  "cont b \<longleftrightarrow> 128 \<le> b \<and> b < 192"

fun runes :: "nat list \<Rightarrow> nat list option" where
  "runes [] = Some []"
| "runes (a # bs) =
     (if a < 128 then map_option (Cons a) (runes bs)
      else case bs of
        [] \<Rightarrow> None
      | b # cs \<Rightarrow>
          if 194 \<le> a \<and> a < 224 \<and> cont b then map_option (Cons ((a - 192) * 64 + (b - 128))) (runes cs)
          else (case cs of
                  [] \<Rightarrow> None
                | c # ds \<Rightarrow>
                    if 224 \<le> a \<and> a < 240 \<and> cont b \<and> cont c \<and> (a = 224 \<longrightarrow> 160 \<le> b) \<and> (a = 237 \<longrightarrow> b < 160)
                    then map_option (Cons ((a - 224) * 4096 + (b - 128) * 64 + (c - 128))) (runes ds)
                    else (case ds of
                            [] \<Rightarrow> None
                          | d # es \<Rightarrow>
                              if 240 \<le> a \<and> a < 245 \<and> cont b \<and> cont c \<and> cont d \<and> (a = 240 \<longrightarrow> 144 \<le> b) \<and> (a = 244 \<longrightarrow> b < 144)
                              then map_option (Cons ((a - 240) * 262144 + (b - 128) * 4096 + (c - 128) * 64 + (d - 128))) (runes es)
                              else None)))"

definition IsControl :: "nat \<Rightarrow> bool" where
  "IsControl r \<longleftrightarrow> r < 32 \<or> 127 \<le> r \<and> r < 160"

datatype name_error = NotUTF8 | NameLength | NameControl

definition ValidateFullName :: "string \<Rightarrow> name_error option" where
  "ValidateFullName name =
     (case runes (map of_char name) of
        None \<Rightarrow> Some NotUTF8
      | Some rs \<Rightarrow>
          if length rs < 1 \<or> length rs > maxFullNameLength then Some NameLength
          else if list_ex IsControl rs then Some NameControl
          else None)"

subsection \<open>fetch.go and registration.go\<close>

datatype url_error = URLTooLong | URLUnparsable | URLScheme | URLNoHost

definition ValidateFetchURL :: "cert_lib \<Rightarrow> string \<Rightarrow> url_error option" where
  "ValidateFetchURL lib raw =
     (if length raw > maxURLLength then Some URLTooLong
      else case cl_url lib raw of
        Inl _ \<Rightarrow> Some URLUnparsable
      | Inr (scheme, host) \<Rightarrow>
          if scheme \<noteq> ''http'' \<and> scheme \<noteq> ''https'' then Some URLScheme else if host = [] then Some URLNoHost else None)"

record CRLChoice =
  ch_Source :: string
  ch_URL :: string
  ch_DER :: bytes
  ch_Acknowledgements :: "string list"

datatype choice_error = ChoiceRefused refusal | ChoiceCRL crl_error | UnknownSource string

text \<open>\<open>fetch\<close> is the HTTP fetch, absent in a process without one; a refusal of its own is passed on.\<close>

definition CheckCRLChoice ::
  "cert_lib \<Rightarrow> (string \<Rightarrow> refusal option + bytes) option \<Rightarrow> gotime \<Rightarrow> certificate \<Rightarrow> CRLChoice \<Rightarrow> choice_error + VerifiedCRL option" where
  "CheckCRLChoice lib fetch now anchor c =
     (if ch_Source c = ''none'' then
        (if AckNoCRL \<notin> set (ch_Acknowledgements c) then Inl (ChoiceRefused (rejectAnchor NO_CRL_NOT_ACKNOWLEDGED)) else Inr None)
      else if ch_Source c \<noteq> ''url'' \<and> ch_Source c \<noteq> ''upload'' then Inl (UnknownSource (ch_Source c))
      else if \<not> has_usage lib anchor KeyUsageCRLSign then Inl (ChoiceRefused (rejectAnchor CRL_SIGN_MISSING))
      else
        let der = (if ch_Source c = ''url'' then
                     (if ValidateFetchURL lib (ch_URL c) \<noteq> None then Inl (rejectAnchor CRL_UNREACHABLE)
                      else case fetch of
                        None \<Rightarrow> Inl (rejectAnchor CRL_UNREACHABLE)
                      | Some f \<Rightarrow> (case f (ch_URL c) of
                                     Inl (Some e) \<Rightarrow> Inl e | Inl None \<Rightarrow> Inl (rejectAnchor CRL_UNREACHABLE) | Inr b \<Rightarrow> Inr b))
                   else Inr (ch_DER c))
        in case der of
             Inl e \<Rightarrow> Inl (ChoiceRefused e)
           | Inr der \<Rightarrow>
               if der = [] then Inl (ChoiceRefused (rejectAnchor CRL_INVALID))
               else (case VerifyCRL (cl_crl lib) der anchor now of Inl e \<Rightarrow> Inl (ChoiceCRL e) | Inr v \<Rightarrow> Inr (Some v)))"

datatype ocsp_choice_error = OCSPURLMisplaced | OCSPRefused refusal | UnknownMode string

definition CheckOCSPChoice ::
  "cert_lib \<Rightarrow> (certificate \<Rightarrow> string \<Rightarrow> refusal + OCSPResult) option \<Rightarrow> certificate \<Rightarrow> string \<Rightarrow> string \<Rightarrow> ocsp_choice_error + OCSPResult option" where
  "CheckOCSPChoice lib probe anchor mode url =
     (if mode = ''off'' \<or> mode = ''aia'' then (if url \<noteq> [] then Inl OCSPURLMisplaced else Inr None)
      else if mode \<noteq> ''url'' then Inl (UnknownMode mode)
      else if url = [] then Inl OCSPURLMisplaced
      else if ValidateFetchURL lib url \<noteq> None then Inl (OCSPRefused (rejectAnchor OCSP_UNREACHABLE))
      else case probe of
        None \<Rightarrow> Inr None
      | Some p \<Rightarrow> (case p anchor url of Inl e \<Rightarrow> Inl (OCSPRefused e) | Inr res \<Rightarrow> Inr (Some res)))"

subsection \<open>nodecas.go and nodecawatch.go\<close>

text \<open>The loop over the PEM blocks of a file. \<^verbatim>\<open>pem.Decode\<close> returns the text after the block it found, which is
  shorter; a decoder that did not would make the loop of the code run on, and the model stop.\<close>

function pem_certs :: "cert_lib \<Rightarrow> bytes \<Rightarrow> (string + certificate) list" where
  "pem_certs lib b =
     (case cl_pem lib b of
        None \<Rightarrow> []
      | Some (typ, block, rest) \<Rightarrow>
          if length rest < length b
          then (if typ = ''CERTIFICATE'' then [pl_parse (cl_peer lib) block] else []) @ pem_certs lib rest
          else [])"
  by pat_completeness auto
termination by (relation "measure (length \<circ> snd)") auto

declare pem_certs.simps [simp del]

fun rights :: "('e + 'a) list \<Rightarrow> 'a list" where
  "rights [] = []"
| "rights (Inl e # xs) = rights xs"
| "rights (Inr x # xs) = x # rights xs"

definition NodeCAs :: "cert_lib \<Rightarrow> (string \<Rightarrow> string + bytes) \<Rightarrow> node list \<Rightarrow> certificate list" where
  "NodeCAs lib readFile ns =
     concat (map (\<lambda>n. if node_CACert n = [] then []
                      else case readFile (node_CACert n) of Inl _ \<Rightarrow> [] | Inr b \<Rightarrow> rights (pem_certs lib b)) ns)"

type_synonym NodeCAWatch = "(string, string) gomap"

definition watch_anchor :: "cert_lib \<Rightarrow> string \<Rightarrow> certificate list \<Rightarrow> Anchor \<Rightarrow> NodeCAWatch \<Rightarrow> NodeCAWatch" where
  "watch_anchor lib node chain a flags =
     (if matchingNodeCA lib (an_Cert a) chain = None \<or> mget flags (an_SHA256 a) \<noteq> None then flags
      else mput (an_SHA256 a) (''Operator CA '' @ cert_CommonName (an_Cert a) @ '' is the CA of CryptOS node '' @ node @
        ''. A CryptOS node can't be the operator CA: replace it with an external operator CA.'') flags)"

definition watch_Observe :: "cert_lib \<Rightarrow> Anchor list \<Rightarrow> string \<Rightarrow> bytes list \<Rightarrow> NodeCAWatch \<Rightarrow> NodeCAWatch" where
  "watch_Observe lib anchors node chainDER flags =
     (let chain = rights (map (pl_parse (cl_peer lib)) chainDER)
      in if chain = [] then flags else fold (watch_anchor lib node chain) anchors flags)"

subsection \<open>resolve.go\<close>

record CRLTarget =
  tg_Source :: string
  tg_Location :: string
  tg_AnchorSHA256 :: string

text \<open>The entries of the configuration the source depends on.\<close>

record trust_config =
  tc_AuthBypass :: bool
  tc_OperatorCAPath :: string
  tc_DatabaseURL :: string
  tc_FirstRun :: string
  tc_Policy :: string
  tc_OperatorCRL :: "(string \<times> string) list"  \<comment> \<open>URL and path of an entry\<close>
  tc_OCSPMode :: string
  tc_OCSPURL :: string

record Source =
  src_Kind :: Kind
  src_Path :: string
  src_File :: "Anchor list"
  src_CRLTargets :: "CRLTarget list"
  src_Policy :: string

datatype source_error = ReadFile string | ReadRows trust_error | ParseCA string | NoCertificates | NodeCA refusal | HardWithUpload string

definition crl_target :: "string \<times> string \<Rightarrow> CRLTarget" where
  "crl_target e = (if snd e \<noteq> [] then \<lparr>tg_Source = ''path'', tg_Location = snd e, tg_AnchorSHA256 = []\<rparr>
     else \<lparr>tg_Source = ''url'', tg_Location = fst e, tg_AnchorSHA256 = []\<rparr>)"

fun all_parsed :: "(string + certificate) list \<Rightarrow> source_error + certificate list" where
  "all_parsed [] = Inr []"
| "all_parsed (Inl e # xs) = Inl (ParseCA e)"
| "all_parsed (Inr c # xs) = (case all_parsed xs of Inl e \<Rightarrow> Inl e | Inr cs \<Rightarrow> Inr (c # cs))"

definition resolveFile ::
  "cert_lib \<Rightarrow> string + bytes \<Rightarrow> trust_error + operator_ca list \<Rightarrow> certificate list \<Rightarrow> string \<Rightarrow> trust_config \<Rightarrow> source_error + Source" where
  "resolveFile lib content rows nodeCAs policy cfg =
     (case content of
        Inl e \<Rightarrow> Inl (ReadFile e)
      | Inr b \<Rightarrow>
          (case all_parsed (pem_certs lib b) of
             Inl e \<Rightarrow> Inl e
           | Inr certs \<Rightarrow>
               if certs = [] then Inl NoCertificates
               else case CheckNotNodeCA lib certs nodeCAs of
                 Some e \<Rightarrow> Inl (NodeCA e)
               | None \<Rightarrow>
                   (let targets = map crl_target (tc_OperatorCRL cfg);
                        crlSource = (case targets of [] \<Rightarrow> CRLSourceNone | t # _ \<Rightarrow> tg_Source t);
                        anchors = map (\<lambda>c. \<lparr>an_Cert = c, an_SHA256 = Fingerprint (pl_sha256 (cl_peer lib)) c, an_State = OperatorCAActive,
                          an_CRLSource = crlSource, an_CRLLocation = [], an_OCSPMode = tc_OCSPMode cfg, an_OCSPURL = tc_OCSPURL cfg,
                          an_FromConfig = True\<rparr>) certs
                    in case rows of
                         Inl e \<Rightarrow> Inl (ReadRows e)
                       | Inr _ \<Rightarrow> Inr \<lparr>src_Kind = KindFile, src_Path = tc_OperatorCAPath cfg, src_File = anchors,
                           src_CRLTargets = targets, src_Policy = policy\<rparr>)))"

definition plain_source :: "Kind \<Rightarrow> string \<Rightarrow> Source" where
  "plain_source kind policy = \<lparr>src_Kind = kind, src_Path = [], src_File = [], src_CRLTargets = [], src_Policy = policy\<rparr>"

definition upload_row :: "operator_ca \<Rightarrow> bool" where
  "upload_row row \<longleftrightarrow> ca_State row \<noteq> OperatorCARetired \<and> ca_CRLSource row = CRLSourceUpload"

definition Resolve_source ::
  "cert_lib \<Rightarrow> string + bytes \<Rightarrow> trust_error + operator_ca list \<Rightarrow> certificate list \<Rightarrow> trust_config \<Rightarrow> source_error + Source" where
  "Resolve_source lib content rows nodeCAs cfg =
     (let policy = (if tc_Policy cfg = [] then PolicySoft else tc_Policy cfg)
      in if tc_AuthBypass cfg then Inr (plain_source KindDev policy)
         else if tc_OperatorCAPath cfg \<noteq> [] then resolveFile lib content rows nodeCAs policy cfg
         else if tc_DatabaseURL cfg = [] \<or> tc_FirstRun cfg = ''disabled'' then Inr (plain_source KindNone policy)
         else if policy = PolicyHard then
           (case rows of
              Inl e \<Rightarrow> Inl (ReadRows e)
            | Inr rows \<Rightarrow>
                (case find upload_row rows of
                   Some row \<Rightarrow> Inl (HardWithUpload (ca_SHA256 row))
                 | None \<Rightarrow> Inr (plain_source KindRegistered policy)))
         else Inr (plain_source KindRegistered policy))"

subsection \<open>The decoder and the encoding of Unicode\<close>

definition scalar :: "nat \<Rightarrow> bool" where
  "scalar r \<longleftrightarrow> r < 1114112 \<and> \<not> (55296 \<le> r \<and> r < 57344)"

definition encode_rune :: "nat \<Rightarrow> nat list" where
  "encode_rune r =
     (if r < 128 then [r]
      else if r < 2048 then [192 + r div 64, 128 + r mod 64]
      else if r < 65536 then [224 + r div 4096, 128 + r div 64 mod 64, 128 + r mod 64]
      else [240 + r div 262144, 128 + r div 4096 mod 64, 128 + r div 64 mod 64, 128 + r mod 64])"

lemma digit64: "z < 64 \<Longrightarrow> (n * 64 + z) div 64 = (n::nat)" "z < 64 \<Longrightarrow> (n * 64 + z) mod 64 = (z::nat)"
  by simp_all

lemma split64: obtains n z where "r = n * 64 + z" "z < (64::nat)"
  by (rule that [of "r div 64" "r mod 64"]) simp_all

lemma div_powers: "r div 4096 = r div 64 div (64::nat)" "r div 262144 = r div 64 div 64 div (64::nat)"
  by (simp_all flip: div_mult2_eq)

lemma encode_digits:
  "r < 128 \<Longrightarrow> encode_rune r = [r]"
  "z < 64 \<Longrightarrow> 2 \<le> y \<Longrightarrow> y < 32 \<Longrightarrow> encode_rune (y * 64 + z) = [192 + y, 128 + z]"
  "z < 64 \<Longrightarrow> y < 64 \<Longrightarrow> 2048 \<le> (x * 64 + y) * 64 + z \<Longrightarrow> x < 16 \<Longrightarrow> encode_rune ((x * 64 + y) * 64 + z) = [224 + x, 128 + y, 128 + z]"
  "z < 64 \<Longrightarrow> y < 64 \<Longrightarrow> x < 64 \<Longrightarrow> 65536 \<le> ((w * 64 + x) * 64 + y) * 64 + z \<Longrightarrow>
   encode_rune (((w * 64 + x) * 64 + y) * 64 + z) = [240 + w, 128 + x, 128 + y, 128 + z]"
  unfolding encode_rune_def div_powers by (simp_all only: digit64) auto

lemma scalar_cases:
  assumes "scalar r"
  obtains (one) "r < 128"
  | (two) y z where "r = y * 64 + z" "z < 64" "2 \<le> y" "y < 32"
  | (three) x y z where "r = (x * 64 + y) * 64 + z" "z < 64" "y < 64" "x < 16" "x = 0 \<longrightarrow> 32 \<le> y" "x = 13 \<longrightarrow> y < 32"
  | (four) w x y z where "r = ((w * 64 + x) * 64 + y) * 64 + z" "z < 64" "y < 64" "x < 64" "w < 5" "w = 0 \<longrightarrow> 16 \<le> x" "w = 4 \<longrightarrow> x < 16"
proof -
  obtain n z where n: "r = n * 64 + z" "z < 64" by (rule split64)
  obtain m y where m: "n = m * 64 + y" "y < 64" by (rule split64)
  obtain w x where w: "m = w * 64 + x" "x < 64" by (rule split64)
  have s: "r < 1114112" "55296 \<le> r \<longrightarrow> 57344 \<le> r" using assms by (auto simp: scalar_def)
  consider "r < 128" | "128 \<le> r" "r < 2048" | "2048 \<le> r" "r < 65536" | "65536 \<le> r" by linarith
  then show thesis
  proof cases
    case 1 then show ?thesis by (rule one)
  next
    case 2 then show ?thesis using n by (intro two [of n z]) simp_all
  next
    case 3
    have "m = 0 \<longrightarrow> 32 \<le> y" using 3(1) n m by auto
    moreover have "m = 13 \<longrightarrow> y < 32" using s(2) n m by auto
    ultimately show ?thesis using 3 n m by (intro three [of m y z]) auto
  next
    case 4
    have "w = 0 \<longrightarrow> 16 \<le> x" using 4 n m w by auto
    moreover have "w = 4 \<longrightarrow> x < 16" using s(1) n m w by auto
    ultimately show ?thesis using s n m w by (intro four [of w x y z]) auto
  qed
qed

lemma runes_encode_step: "scalar r \<Longrightarrow> runes (encode_rune r @ bs) = map_option (Cons r) (runes bs)"
proof (erule scalar_cases)
  assume "r < 128"
  then show ?thesis by (simp add: encode_digits)
next
  fix y z assume "r = y * 64 + z" "z < 64" "2 \<le> y" "y < 32"
  then show ?thesis by (simp add: encode_digits cont_def)
next
  fix x y z assume r: "r = (x * 64 + y) * 64 + z" and d: "z < 64" "y < 64" "x < 16" "x = 0 \<longrightarrow> 32 \<le> y" "x = 13 \<longrightarrow> y < 32"
  have "2048 \<le> (x * 64 + y) * 64 + z" using d by (cases "x = 0") auto
  then have "encode_rune r = [224 + x, 128 + y, 128 + z]" using d unfolding r by (intro encode_digits)
  then show ?thesis using d by (simp add: r cont_def mult.commute)
next
  fix w x y z assume r: "r = ((w * 64 + x) * 64 + y) * 64 + z"
    and d: "z < 64" "y < 64" "x < 64" "w < 5" "w = 0 \<longrightarrow> 16 \<le> x" "w = 4 \<longrightarrow> x < 16"
  have "65536 \<le> ((w * 64 + x) * 64 + y) * 64 + z" using d by (cases "w = 0") auto
  then have "encode_rune r = [240 + w, 128 + x, 128 + y, 128 + z]" using d unfolding r by (intro encode_digits)
  then show ?thesis using d by (simp add: r cont_def mult.commute)
qed

lemma runes_encode: "list_all scalar rs \<Longrightarrow> runes (concat (map encode_rune rs)) = Some rs"
  by (induction rs) (simp_all add: runes_encode_step)

lemma encode_two: "194 \<le> a \<Longrightarrow> a < 224 \<Longrightarrow> cont b \<Longrightarrow> encode_rune ((a - 192) * 64 + (b - 128)) = [a, b] \<and> scalar ((a - 192) * 64 + (b - 128))"
proof -
  assume a: "194 \<le> a" "a < 224" "cont b"
  define y z where "y = a - 192" and "z = b - 128"
  have d: "a = 192 + y" "b = 128 + z" "2 \<le> y" "y < 32" "z < 64" using a unfolding y_def z_def cont_def by auto
  then have "encode_rune (y * 64 + z) = [192 + y, 128 + z]" by (intro encode_digits)
  then show ?thesis using d by (simp add: scalar_def)
qed

lemma encode_three:
  assumes "224 \<le> a" "a < 240" "cont b" "cont c" "a = 224 \<longrightarrow> 160 \<le> b" "a = 237 \<longrightarrow> b < 160"
  shows "encode_rune ((a - 224) * 4096 + (b - 128) * 64 + (c - 128)) = [a, b, c] \<and> scalar ((a - 224) * 4096 + (b - 128) * 64 + (c - 128))"
proof -
  define x y z where "x = a - 224" and "y = b - 128" and "z = c - 128"
  have d: "a = 224 + x" "b = 128 + y" "c = 128 + z" "x < 16" "y < 64" "z < 64" "x = 0 \<longrightarrow> 32 \<le> y" "x = 13 \<longrightarrow> y < 32"
    using assms unfolding x_def y_def z_def cont_def by auto
  have "2048 \<le> (x * 64 + y) * 64 + z" using d by (cases "x = 0") auto
  then have "encode_rune ((x * 64 + y) * 64 + z) = [224 + x, 128 + y, 128 + z]" using d by (intro encode_digits)
  moreover have "scalar ((x * 64 + y) * 64 + z)"
    using d by (cases "x < 13"; cases "x = 13") (auto simp: scalar_def)
  moreover have "x * 4096 + y * 64 + z = (x * 64 + y) * 64 + z" by simp
  ultimately have "encode_rune (x * 4096 + y * 64 + z) = [224 + x, 128 + y, 128 + z] \<and> scalar (x * 4096 + y * 64 + z)" by metis
  then show ?thesis using d by simp
qed

lemma encode_four:
  assumes "240 \<le> a" "a < 245" "cont b" "cont c" "cont d" "a = 240 \<longrightarrow> 144 \<le> b" "a = 244 \<longrightarrow> b < 144"
  shows "encode_rune ((a - 240) * 262144 + (b - 128) * 4096 + (c - 128) * 64 + (d - 128)) = [a, b, c, d] \<and>
    scalar ((a - 240) * 262144 + (b - 128) * 4096 + (c - 128) * 64 + (d - 128))"
proof -
  define w x y z where "w = a - 240" and "x = b - 128" and "y = c - 128" and "z = d - 128"
  have e: "a = 240 + w" "b = 128 + x" "c = 128 + y" "d = 128 + z" "w < 5" "x < 64" "y < 64" "z < 64" "w = 0 \<longrightarrow> 16 \<le> x" "w = 4 \<longrightarrow> x < 16"
    using assms unfolding w_def x_def y_def z_def cont_def by auto
  have l: "65536 \<le> ((w * 64 + x) * 64 + y) * 64 + z" using e by (cases "w = 0") auto
  then have "encode_rune (((w * 64 + x) * 64 + y) * 64 + z) = [240 + w, 128 + x, 128 + y, 128 + z]" using e by (intro encode_digits)
  moreover have "scalar (((w * 64 + x) * 64 + y) * 64 + z)" using l e by (cases "w = 4") (auto simp: scalar_def)
  moreover have "w * 262144 + x * 4096 + y * 64 + z = ((w * 64 + x) * 64 + y) * 64 + z" by simp
  ultimately have "encode_rune (w * 262144 + x * 4096 + y * 64 + z) = [240 + w, 128 + x, 128 + y, 128 + z] \<and>
    scalar (w * 262144 + x * 4096 + y * 64 + z)" by metis
  then show ?thesis using e by simp
qed

text \<open>One step of the decoder: it takes the encoding of one scalar value off the front.\<close>

lemma runes_step:
  assumes "runes (a # bs) = Some rs"
  obtains r bs' rs' where "a # bs = encode_rune r @ bs'" "scalar r" "rs = r # rs'" "runes bs' = Some rs'"
proof (cases "a < 128")
  case True
  then show thesis using assms that [of a bs] by (auto simp: encode_digits scalar_def)
next
  case nonascii: False
  then obtain b cs where b: "bs = b # cs" using assms by (cases bs) auto
  show thesis
  proof (cases "194 \<le> a \<and> a < 224 \<and> cont b")
    case True
    then show thesis using assms nonascii b that [of "(a - 192) * 64 + (b - 128)" cs] encode_two [of a b] by auto
  next
    case not2: False
    then obtain c ds where c: "cs = c # ds" using assms nonascii b by (cases cs) auto
    show thesis
    proof (cases "224 \<le> a \<and> a < 240 \<and> cont b \<and> cont c \<and> (a = 224 \<longrightarrow> 160 \<le> b) \<and> (a = 237 \<longrightarrow> b < 160)")
      case True
      then obtain rs' where "runes ds = Some rs'" "rs = ((a - 224) * 4096 + (b - 128) * 64 + (c - 128)) # rs'"
        using assms nonascii b c not2 by (auto split: if_split_asm)
      then show thesis using True b c that [of "(a - 224) * 4096 + (b - 128) * 64 + (c - 128)" ds] encode_three [of a b c] by simp
    next
      case not3: False
      then obtain d es where d: "ds = d # es" using assms nonascii b c not2 by (cases ds) (auto split: if_split_asm)
      have four: "240 \<le> a \<and> a < 245 \<and> cont b \<and> cont c \<and> cont d \<and> (a = 240 \<longrightarrow> 144 \<le> b) \<and> (a = 244 \<longrightarrow> b < 144)"
        using assms nonascii not2 not3 unfolding b c d by (subst (asm) runes.simps) (simp split: if_split_asm)
      then obtain rs' where "runes es = Some rs'" "rs = ((a - 240) * 262144 + (b - 128) * 4096 + (c - 128) * 64 + (d - 128)) # rs'"
        using assms nonascii b c d not2 not3 by (auto split: if_split_asm)
      then show thesis
        using four b c d that [of "(a - 240) * 262144 + (b - 128) * 4096 + (c - 128) * 64 + (d - 128)" es] encode_four [of a b c d] by simp
    qed
  qed
qed

lemma encode_rune_length: "0 < length (encode_rune r)"
  by (simp add: encode_rune_def)

lemma runes_decode: "runes bs = Some rs \<Longrightarrow> bs = concat (map encode_rune rs) \<and> list_all scalar rs"
proof (induction bs arbitrary: rs rule: length_induct)
  case (1 bs)
  show ?case
  proof (cases bs)
    case (Cons a xs)
    from "1.prems" obtain r bs' rs' where r: "bs = encode_rune r @ bs'" "scalar r" "rs = r # rs'" "runes bs' = Some rs'"
      unfolding Cons by (rule runes_step)
    then have "length bs' < length bs" using encode_rune_length [of r] by simp
    then have "bs' = concat (map encode_rune rs') \<and> list_all scalar rs'" using "1.IH" r(4) by blast
    then show ?thesis using r by simp
  qed (use "1.prems" in simp)
qed

lemma runes_iff: "runes bs = Some rs \<longleftrightarrow> bs = concat (map encode_rune rs) \<and> list_all scalar rs"
  using runes_decode runes_encode by blast

subsection \<open>The profile of an operator certificate\<close>

lemma has_usage_or: "has_usage lib cert (u OR v) \<longleftrightarrow> has_usage lib cert u \<or> has_usage lib cert v"
  by (simp add: has_usage_def bit.conj_disj_distrib or_eq_0_iff)

lemma CheckOperatorCert_Inr:
  "CheckOperatorCert lib c cert anchor = Inr res \<longleftrightarrow>
     findExtension (x_critical (cl_view lib cert)) accessLevelOID \<noteq> None \<and>
     \<not> snd (the (findExtension (x_critical (cl_view lib cert)) accessLevelOID)) \<and>
     cl_verify lib anchor (cc_Now c) cert = None \<and> LevelFromCertificate (cl_asn1 lib) cert = Inr (cr_Level res) \<and>
     (cc_WantLevel c = [] \<or> Token (cr_Level res) = cc_WantLevel c) \<and> check_usages lib cert = None \<and>
     subject_email lib (cert_RawSubject cert) = Some (cr_Email res) \<and> check_key lib c cert = None \<and> check_revoked lib c cert anchor = None \<and>
     cr_Serial res = SerialKey (cert_SerialNumber cert) \<and> cr_Warnings res = leaf_warnings cert"
  by (cases res) (auto simp: CheckOperatorCert_def Let_def split: if_split_asm option.splits sum.splits)

lemma check_usages_None:
  "check_usages lib cert = None \<longleftrightarrow> x_ExtKeyUsage (cl_view lib cert) = [ExtKeyUsageClientAuth] \<and> x_UnknownExtKeyUsage (cl_view lib cert) = [] \<and>
     has_usage lib cert KeyUsageDigitalSignature \<and> \<not> has_usage lib cert KeyUsageCertSign \<and> \<not> has_usage lib cert KeyUsageCRLSign \<and>
     x_BasicConstraintsValid (cl_view lib cert) \<and> \<not> x_IsCA (cl_view lib cert)"
  by (auto simp: check_usages_def Let_def has_usage_or)

lemma check_key_None:
  "check_key lib c cert = None \<longleftrightarrow> leafKeyAllowed (x_PublicKey (cl_view lib cert)) \<and>
     (\<forall>r. cc_CSR c = Some r \<longrightarrow> csr_RawSubjectPublicKeyInfo r = x_RawSubjectPublicKeyInfo (cl_view lib cert)) \<and>
     cert_NotAfter cert - cc_Now c \<ge> minLeafValidity"
  by (auto simp: check_key_def Let_def split: option.splits)

lemma subject_email_Some:
  assumes "subject_email lib raw = Some email"
  shows "\<exists>cn. cl_rdns lib raw = Inr [[(oidCommonName, Some cn)]] \<and> cl_mail lib cn = Inr ([], cn) \<and> length cn \<le> 254 \<and> email = map lower_char cn"
  using assms
  by (auto simp: subject_email_def emailFromSubject_def maxEmailLength_def split: sum.splits list.splits prod.splits option.splits if_split_asm)


text \<open>An operator CA is accepted only if it is a CA that may sign certificates, has thirty days left and a strong key, is no
  node's CA by certificate or by key, and may sign CRLs when a CRL is to be checked against it. A CA issued by a node's
  CA is accepted with one warning for each such node CA.\<close>

theorem ValidateAnchor_exact:
  "(\<exists>ws. ValidateAnchor lib now nodeCAs crl cert = Inr ws) \<longleftrightarrow>
     x_BasicConstraintsValid (cl_view lib cert) \<and> x_IsCA (cl_view lib cert) \<and> has_usage lib cert KeyUsageCertSign \<and>
     cert_NotAfter cert \<ge> now + 30 * 24 * 60 * Minute \<and> anchorKeyAllowed (x_PublicKey (cl_view lib cert)) \<and>
     (\<forall>n \<in> set nodeCAs. cert_Raw n \<noteq> cert_Raw cert \<and> x_RawSubjectPublicKeyInfo (cl_view lib n) \<noteq> x_RawSubjectPublicKeyInfo (cl_view lib cert)) \<and>
     (crl \<longrightarrow> has_usage lib cert KeyUsageCRLSign)"
proof -
  have "matchingNodeCA lib cert nodeCAs = None \<longleftrightarrow>
    (\<forall>n \<in> set nodeCAs. cert_Raw n \<noteq> cert_Raw cert \<and> x_RawSubjectPublicKeyInfo (cl_view lib n) \<noteq> x_RawSubjectPublicKeyInfo (cl_view lib cert))"
    by (auto simp: matchingNodeCA_def find_None_iff)
  then show ?thesis by (auto simp: ValidateAnchor_def Let_def minAnchorValidity_def)
qed

text \<open>Full names are checked as Unicode: a name is accepted exactly if its bytes are the UTF-8 encoding of 1 to 128 characters,
  none of them a control character. The decoder is the inverse of the encoding, so overlong forms and surrogates are refused.\<close>

theorem ValidateFullName_exact:
  "ValidateFullName name = None \<longleftrightarrow>
     (\<exists>rs. map of_char name = concat (map encode_rune rs) \<and> list_all scalar rs \<and> 1 \<le> length rs \<and> length rs \<le> 128 \<and> \<not> list_ex IsControl rs)"
proof -
  have "ValidateFullName name = None \<longleftrightarrow>
    (\<exists>rs. runes (map of_char name) = Some rs \<and> 1 \<le> length rs \<and> length rs \<le> 128 \<and> \<not> list_ex IsControl rs)"
    by (auto simp: ValidateFullName_def maxFullNameLength_def Suc_le_eq split: option.splits)
  then show ?thesis unfolding runes_iff by blast
qed

subsection \<open>Examples\<close>

definition example_view :: x509_fields where
  "example_view = \<lparr>x_BasicConstraintsValid = True, x_IsCA = False, x_KeyUsage = 1, x_ExtKeyUsage = [2], x_UnknownExtKeyUsage = [],
     x_PublicKey = ECDSA ''P-384'', x_RawSubjectPublicKeyInfo = ''spki'', x_critical = [(accessLevelOID, False)]\<rparr>"

definition example_cert_lib :: cert_lib where
  "example_cert_lib = \<lparr>cl_peer = example_peer_lib, cl_view = (\<lambda>_. example_view), cl_verify = (\<lambda>_ _ _. None), cl_asn1 = (\<lambda>_. Inr ''admin''),
     cl_rdns = (\<lambda>_. Inr [[(oidCommonName, Some ''Ann@x.io'')]]), cl_mail = (\<lambda>s. Inr ([], s)), cl_pem = (\<lambda>_. None),
     cl_parse = (\<lambda>_. Inr [example_cert]), cl_signed = (\<lambda>_ _. False), cl_csr = (\<lambda>_. Inl []), cl_csr_signed = (\<lambda>_. False),
     cl_url = (\<lambda>_. Inl []), cl_crl = example_crl_lib\<rparr>"

definition example_admin_cert :: certificate where
  "example_admin_cert = example_cert\<lparr>cert_NotBefore := 1, cert_NotAfter := 1 + 48 * 60 * Minute\<rparr>"

definition example_check :: CertCheck where
  "example_check = \<lparr>cc_Now = 1, cc_WantLevel = ''admin'', cc_CSR = None, cc_Revoked = Some (\<lambda>_ _. False), cc_CheckRevocation = None\<rparr>"

lemma example_checked:
  "CheckOperatorCert example_cert_lib example_check example_admin_cert example_cert =
   Inr \<lparr>cr_Level = LevelAdmin, cr_Email = ''ann@x.io'', cr_Serial = SerialKey 4660, cr_Warnings = []\<rparr>"
proof -
  have "map lower_char ''Ann@x.io'' = ''ann@x.io''" by code_simp
  moreover have "LevelFromCertificate (cl_asn1 example_cert_lib) example_admin_cert = Inr LevelAdmin"
    by (simp add: LevelFromCertificate_def example_admin_cert_def example_cert_def example_cert_lib_def LevelFromToken_def)
  ultimately show ?thesis
    unfolding CheckOperatorCert_Inr check_usages_None check_key_None
    by (simp add: example_cert_lib_def example_view_def example_check_def findExtension_def has_usage_def KeyUsageDigitalSignature_def
        KeyUsageCertSign_def KeyUsageCRLSign_def ExtKeyUsageClientAuth_def subject_email_def emailFromSubject_def maxEmailLength_def
        leafKeyAllowed_def check_revoked_def example_admin_cert_def example_cert_def leaf_warnings_def warnLeafValidity_def
        minLeafValidity_def Token_def level_defs)
qed


end
