(* ===== verification/Bootstrap_Register.thy ===== *)
theory Bootstrap_Register
  imports Bootstrap_Service Cert_Check
begin

text \<open>
  The session procedures of first run: registering the operator CA (\<^verbatim>\<open>internal/bootstrap/register.go\<close>), submitting the
  first admin's certificate (\<^verbatim>\<open>firstadmin.go\<close>) and the offline reset (\<^verbatim>\<open>reset.go\<close>), over the service, the trust
  store and the revocation engine of one replica. The rendering of responses as protocol messages is left out.
\<close>

subsection \<open>Requests and state\<close>

datatype crl_source = NoSource | SourceUrl string | SourceDer bytes
datatype ocsp_mode = ModeOff | ModeUrl | ModeOther

record reg_request =
  rq_secret :: string
  rq_CaCertDer :: bytes
  rq_ConfirmSha256 :: string
  rq_Acks :: "string list"
  rq_CrlSource :: crl_source
  rq_OcspMode :: ocsp_mode
  rq_OcspUrl :: string

record admin_request =
  ar_secret :: string
  ar_FullName :: string
  ar_CertDer :: bytes
  ar_CsrDer :: bytes

record 'l reg_env =
  rg_env :: "'l boot_env"
  rg_lib :: cert_lib
  rg_nodeCAs :: "certificate list"
  rg_fetch :: "string \<Rightarrow> refusal option + bytes"
  rg_probe :: "(certificate \<Rightarrow> string \<Rightarrow> refusal + OCSPResult) option"
  rg_ticket :: "bytes option"
  rg_marshal :: "string \<Rightarrow> string + bytes"
  rg_audit :: "nat \<Rightarrow> entropy"
  rg_check :: gotime
  rg_io :: ocsp_io

record 'l mgr =
  mg_boot :: "'l boot"
  mg_trust :: TrustStore
  mg_rev :: Revocations
  mg_events :: "audit_event list"

record registration =
  re_cert :: certificate
  re_warnings :: "string list"
  re_acks :: "string list"
  re_crlSource :: string
  re_crlURL :: string
  re_crl :: "VerifiedCRL option"
  re_ocspMode :: string
  re_ocspURL :: string

definition registeredBy :: string where "registeredBy = ''first-run session''"
definition ackNoCRL :: string where "ackNoCRL = ''NO_CRL''"
definition KindOperatorCARegistered :: string where "KindOperatorCARegistered = ''operator-ca-registered''"
definition KindFirstAdminRecorded :: string where "KindFirstAdminRecorded = ''operator-first-admin-recorded''"
definition KindFirstAdminSuperseded :: string where "KindFirstAdminSuperseded = ''operator-first-admin-superseded''"
definition KindBootstrapReset :: string where "KindBootstrapReset = ''bootstrap-reset''"
definition reasonSuperseded :: int where "reasonSuperseded = 4"

definition normalizeFingerprint :: "string \<Rightarrow> string" where
  "normalizeFingerprint s = map lower_char (filter (\<lambda>c. c \<noteq> CHR '':'') (TrimSpace s))"

definition on_boot :: "('l boot \<Rightarrow> 'l boot) \<Rightarrow> 'l mgr \<Rightarrow> 'l mgr" where
  "on_boot f m = m\<lparr>mg_boot := f (mg_boot m)\<rparr>"

definition on_db :: "(pg_db \<Rightarrow> pg_db) \<Rightarrow> 'l mgr \<Rightarrow> 'l mgr" where
  "on_db f m = on_boot (\<lambda>b. b\<lparr>b_db := f (b_db b)\<rparr>) m"

abbreviation mg_db :: "'l mgr \<Rightarrow> pg_db" where
  "mg_db m \<equiv> b_db (mg_boot m)"

subsection \<open>extfile.go\<close>

definition opCommonLines :: string where
  "opCommonLines = ''basicConstraints       = critical, CA:FALSE'' @ [CHR 10] @ ''keyUsage               = critical, digitalSignature'' @ [CHR 10] @
     ''extendedKeyUsage       = clientAuth'' @ [CHR 10] @ ''subjectKeyIdentifier   = hash'' @ [CHR 10] @ ''authorityKeyIdentifier = keyid'' @ [CHR 10]"

definition ExtfileSection :: "(string \<Rightarrow> string + bytes) \<Rightarrow> string \<Rightarrow> (authz_error + string) + string" where
  "ExtfileSection marshal level =
     (case MarshalLevelExtension marshal level of
        Inl e \<Rightarrow> Inl e
      | Inr (oid, der) \<Rightarrow> Inr (''[ op_'' @ level @ '' ]'' @ [CHR 10] @ opCommonLines @ oid @ ''  = DER:'' @
          join '':'' (map (\<lambda>c. hex_upper (of_char c)) der) @ [CHR 10]))"

definition file_char :: "char \<Rightarrow> char" where
  "file_char c =
     (if list_ex (\<lambda>(lo, hi). lo \<le> c \<and> c \<le> hi) [(CHR ''a'', CHR ''z''), (CHR ''A'', CHR ''Z''), (CHR ''0'', CHR ''9'')] \<or> c \<in> set ''.-_@''
      then c else CHR ''_'')"

text \<open>\<^verbatim>\<open>strings.Map\<close> takes the characters one at a time; a byte that starts no valid encoding counts as one character.\<close>

definition rune_width :: "nat list \<Rightarrow> nat" where
  "rune_width bs =
     (case filter (\<lambda>n. case runes (take n bs) of Some [r] \<Rightarrow> True | _ \<Rightarrow> False) [1, 2, 3, 4] of [] \<Rightarrow> 1 | n # _ \<Rightarrow> n)"

lemma rune_width_pos: "0 < rune_width bs"
proof -
  have "set (filter P [1, 2, 3, 4 :: nat]) \<subseteq> {n. 0 < n}" for P by auto
  then show ?thesis by (force simp: rune_width_def split: list.split)
qed

function file_base :: "nat list \<Rightarrow> string" where
  "file_base [] = []"
| "file_base (b # bs) = (if b < 128 then file_char (char_of b) else CHR ''_'') # file_base (drop (rune_width (b # bs)) (b # bs))"
  by pat_completeness auto
termination
  by (relation "measure length") (use rune_width_pos in auto)

definition SignCommand :: "string \<Rightarrow> string \<Rightarrow> string" where
  "SignCommand level email =
     (let base = ''fleetos-'' @ level @ ''-'' @ file_base (map of_char email)
      in ''openssl ca -config operator-ca.cnf -extensions op_'' @ level @ '' -notext -in '' @ base @ ''.csr -out '' @ base @ ''.crt'')"

subsection \<open>The checks of a registration\<close>

text \<open>A chosen source always has bytes to verify: an empty upload arrives as an empty slice, not as no slice.\<close>

definition check_crl :: "'l reg_env \<Rightarrow> reg_request \<Rightarrow> certificate \<Rightarrow> string list \<Rightarrow> boot_error + VerifiedCRL option" where
  "check_crl en q cert acks =
     (case rq_CrlSource q of
        NoSource \<Rightarrow> (if ackNoCRL \<notin> set acks then Inl (CARejected NO_CRL_NOT_ACKNOWLEDGED) else Inr None)
      | SourceUrl u \<Rightarrow>
          (if ValidateFetchURL (rg_lib en) u \<noteq> None then Inl (CARejected CRL_UNREACHABLE)
           else case rg_fetch en u of
             Inl (Some e) \<Rightarrow> Inl (Refused e)
           | Inl None \<Rightarrow> Inl (CARejected CRL_UNREACHABLE)
           | Inr der \<Rightarrow> map_sum CrlErr Some (VerifyCRL (cl_crl (rg_lib en)) der cert (rg_check en)))
      | SourceDer der \<Rightarrow> map_sum CrlErr Some (VerifyCRL (cl_crl (rg_lib en)) der cert (rg_check en)))"

definition check_ocsp :: "'l reg_env \<Rightarrow> reg_request \<Rightarrow> certificate \<Rightarrow> boot_error + string \<times> string" where
  "check_ocsp en q cert =
     (case rq_OcspMode q of
        ModeOff \<Rightarrow> Inr (''off'', [])
      | ModeOther \<Rightarrow> Inr (''aia'', [])
      | ModeUrl \<Rightarrow>
          (if ValidateFetchURL (rg_lib en) (rq_OcspUrl q) \<noteq> None then Inl (CARejected OCSP_UNREACHABLE)
           else case rg_probe en of
             None \<Rightarrow> Inr (''url'', rq_OcspUrl q)
           | Some p \<Rightarrow> (case p cert (rq_OcspUrl q) of Inl e \<Rightarrow> Inl (Refused e) | Inr _ \<Rightarrow> Inr (''url'', rq_OcspUrl q))))"

definition source_name :: "crl_source \<Rightarrow> string" where
  "source_name s = (case s of NoSource \<Rightarrow> ''none'' | SourceUrl _ \<Rightarrow> ''url'' | SourceDer _ \<Rightarrow> ''upload'')"

definition check :: "'l reg_env \<Rightarrow> reg_request \<Rightarrow> boot_error + registration" where
  "check en q =
     (case ParseAnchorUpload (rg_lib en) (rq_CaCertDer q) of
        Inl e \<Rightarrow> Inl (Refused e)
      | Inr cert \<Rightarrow>
          (let acks = filter (\<lambda>a. a \<noteq> ''UNSPECIFIED'') (rq_Acks q)
           in case ValidateAnchor (rg_lib en) (rg_check en) (rg_nodeCAs en) (rq_CrlSource q \<noteq> NoSource) cert of
                Inl e \<Rightarrow> Inl (Refused e)
              | Inr warnings \<Rightarrow>
                  (case check_crl en q cert acks of
                     Inl e \<Rightarrow> Inl e
                   | Inr crl \<Rightarrow>
                       (case check_ocsp en q cert of
                          Inl e \<Rightarrow> Inl e
                        | Inr (mode, url) \<Rightarrow>
                            Inr \<lparr>re_cert = cert, re_warnings = warnings, re_acks = acks, re_crlSource = source_name (rq_CrlSource q),
                              re_crlURL = (case rq_CrlSource q of SourceUrl u \<Rightarrow> u | _ \<Rightarrow> []), re_crl = crl,
                              re_ocspMode = mode, re_ocspURL = url\<rparr>))))"

subsection \<open>Registering\<close>

definition reg_row :: "'l reg_env \<Rightarrow> registration \<Rightarrow> operator_ca" where
  "reg_row en reg =
     \<lparr>ca_SHA256 = Fingerprint (pl_sha256 (cl_peer (rg_lib en))) (re_cert reg), ca_CertDER = cert_Raw (re_cert reg), ca_State = OperatorCAActive,
      ca_CRLSource = re_crlSource reg, ca_CRLURL = re_crlURL reg, ca_OCSPMode = re_ocspMode reg, ca_OCSPURL = re_ocspURL reg,
      ca_Acknowledgements = re_acks reg, ca_Warnings = re_warnings reg, ca_RegisteredAt = be_now (rg_env en) AtRegister,
      ca_RegisteredBy = registeredBy, ca_RetiredAt = 0, ca_RetiredReason = [], ca_UpdatedAt = 0\<rparr>"

definition reg_crl :: "'l reg_env \<Rightarrow> registration \<Rightarrow> (operator_crl \<times> (operator_crl \<Rightarrow> bool \<Rightarrow> crl_error + bool)) option" where
  "reg_crl en reg =
     map_option (\<lambda>v. (crl_row (Fingerprint (pl_sha256 (cl_peer (rg_lib en))) (re_cert reg)) (be_now (rg_env en) AtRegister) (re_crlSource reg) v,
       AcceptNewer v)) (re_crl reg)"

text \<open>\<^verbatim>\<open>trust.Rebuild\<close> over the rows as they are now, and \<^verbatim>\<open>rev.Reload\<close>.\<close>

definition rebuild :: "'l reg_env \<Rightarrow> 'l mgr \<Rightarrow> ts_error option \<times> 'l mgr" where
  "rebuild en m =
     (let m = on_boot (interfere (rg_env en) AtRebuild) m;
          rows = read_result (be_fault (rg_env en) AtRebuild) (pg_OperatorCAs (mg_db m));
          (err, t, r) = Rebuild (cl_peer (rg_lib en)) (rg_ticket en) rows (mg_trust m) (mg_rev m)
      in (err, m\<lparr>mg_trust := t, mg_rev := r\<rparr>))"

definition reload :: "'l reg_env \<Rightarrow> 'l mgr \<Rightarrow> 'l mgr" where
  "reload en m =
     (let m = on_boot (interfere (rg_env en) AtReload) m;
          fault = be_fault (rg_env en) AtReload;
          (_, r) = Reload (cl_crl (rg_lib en)) (be_now (rg_env en) AtReload) (read_result fault (pg_OperatorDenylist (mg_db m)))
            (read_result fault (pg_OperatorCRLs (mg_db m))) (mg_rev m)
      in m\<lparr>mg_rev := r\<rparr>)"

definition suffix :: "string \<Rightarrow> string" where
  "suffix s = (if s = [] then [] else '' '' @ s)"

definition registered_event :: "'l reg_env \<Rightarrow> registration \<Rightarrow> audit_event" where
  "registered_event en reg =
     (let fp = Fingerprint (pl_sha256 (cl_peer (rg_lib en))) (re_cert reg)
      in zero_event\<lparr>ev_Kind := KindOperatorCARegistered,
           ev_Summary := ''Registered operator CA '' @ pl_subject (cl_peer (rg_lib en)) (re_cert reg) @ '' (SHA-256 '' @ fp @ '') from '' @
             be_ip (rg_env en) @ '': CRL source '' @ re_crlSource reg @ suffix (re_crlURL reg) @ '', OCSP mode '' @ re_ocspMode reg @
             suffix (re_ocspURL reg) @ '', acknowledgements ['' @ join '', '' (re_acks reg) @ ''], warnings ['' @ join ''; '' (re_warnings reg) @ '']'',
           ev_TargetKind := ''operator-ca'', ev_TargetPath := ''/operator-cas/'' @ fp\<rparr>)"

text \<open>A response: whether it confirmed, and the fingerprint shown, if any.\<close>

type_synonym reg_response = "bool \<times> string option"

definition reconfirm :: "'l reg_env \<Rightarrow> string \<Rightarrow> string \<Rightarrow> 'l mgr \<Rightarrow> (boot_error + reg_response) \<times> 'l mgr" where
  "reconfirm en sessionHash confirm m =
     (let (row, b) = activeCA (rg_env en) (mg_boot m); m = m\<lparr>mg_boot := b\<rparr>
      in case row of
           None \<Rightarrow>
             (if confirm = [] then (Inr (False, None), m) else (Inl (CARejected NOT_CONFIRMED), on_boot (fail (rg_env en)) m))
         | Some row \<Rightarrow>
             (case pl_parse (cl_peer (rg_lib en)) (ca_CertDER row) of
                Inl e \<Rightarrow> (Inl (Internal (''bootstrap: the registered operator CA '' @ ca_SHA256 row @ '' doesn't parse: '' @ e)), m)
              | Inr _ \<Rightarrow>
                  (case ExtfileSection (rg_marshal en) ''admin'' of
                     Inl _ \<Rightarrow> (Inl (Internal ''operatorca: extension section''), m)
                   | Inr _ \<Rightarrow>
                       if confirm = [] then (Inr (False, Some (ca_SHA256 row)), m)
                       else if normalizeFingerprint confirm \<noteq> ca_SHA256 row then (Inl (CARejected NOT_CONFIRMED), on_boot (fail (rg_env en)) m)
                       else
                         let m = on_boot (interfere (rg_env en) AtConfirm) m
                         in case be_fault (rg_env en) AtConfirm of
                              Some e \<Rightarrow> (Inl (Internal (''bootstrap: record the confirmation: '' @ e)), m)
                            | None \<Rightarrow>
                                (case pg_ConfirmOperatorCA (ca_SHA256 row) sessionHash (mg_db m) of
                                   (Inl e, db) \<Rightarrow> (Inl (Internal (''bootstrap: record the confirmation: '' @ pg_message e)), on_db (\<lambda>_. db) m)
                                 | (Inr _, db) \<Rightarrow> (Inr (True, Some (ca_SHA256 row)), on_db (\<lambda>_. db) m)))))"

definition store_registration :: "'l reg_env \<Rightarrow> string \<Rightarrow> registration \<Rightarrow> 'l mgr \<Rightarrow> (boot_error + reg_response) \<times> 'l mgr" where
  "store_registration en sessionHash reg m =
     (let m = on_boot (interfere (rg_env en) AtRegister) m; row = reg_row en reg
      in case pg_RegisterFirstRunOperatorCA (be_fault (rg_env en) AtRegister) (be_now (rg_env en) AtRegister) row sessionHash (reg_crl en reg) (mg_db m) of
           (Inl PgBootstrapClosed, db) \<Rightarrow> (Inl FirstRunClosed, on_db (\<lambda>_. db) m)
         | (Inl (PgDecide e), db) \<Rightarrow> (Inl (CrlErr e), on_boot (fail (rg_env en)) (on_db (\<lambda>_. db) m))
         | (Inl e, db) \<Rightarrow> (Inl (Internal (''bootstrap: store the operator CA: '' @ pg_message e)), on_db (\<lambda>_. db) m)
         | (Inr _, db) \<Rightarrow>
             (case rebuild en (on_db (\<lambda>_. db) m) of
                (Some _, m) \<Rightarrow> (Inl (Internal ''bootstrap: trust the new operator CA''), m)
              | (None, m) \<Rightarrow>
                  (Inr (True, Some (ca_SHA256 row)), on_boot (boot_record ((rg_env en)\<lparr>be_audit := rg_audit en 0\<rparr>) (registered_event en reg)) (reload en m))))"

definition RegisterOperatorCA :: "'l reg_env \<Rightarrow> reg_request \<Rightarrow> 'l mgr \<Rightarrow> (boot_error + reg_response) \<times> 'l mgr" where
  "RegisterOperatorCA en q m =
     (case admit (rg_env en) (mg_boot m) of
        (Some e, b) \<Rightarrow> (Inl e, m\<lparr>mg_boot := b\<rparr>)
      | (None, b) \<Rightarrow>
          (case svc_session (rg_env en) (rq_secret q) b of
             (Inl e, b) \<Rightarrow> (Inl e, m\<lparr>mg_boot := b\<rparr>)
           | (Inr sessionHash, b) \<Rightarrow>
               (let m = m\<lparr>mg_boot := b\<rparr>
                in if rq_CaCertDer q = [] then reconfirm en sessionHash (rq_ConfirmSha256 q) m
                   else case check en q of
                     Inl e \<Rightarrow> (Inl e, on_boot (fail (rg_env en)) m)
                   | Inr reg \<Rightarrow>
                       (case ExtfileSection (rg_marshal en) ''admin'' of
                          Inl _ \<Rightarrow> (Inl (Internal ''operatorca: extension section''), m)
                        | Inr _ \<Rightarrow>
                            (let fp = Fingerprint (pl_sha256 (cl_peer (rg_lib en))) (re_cert reg)
                             in if rq_ConfirmSha256 q = [] then (Inr (False, Some fp), m)
                                else if normalizeFingerprint (rq_ConfirmSha256 q) \<noteq> fp
                                then (Inl (CARejected NOT_CONFIRMED), on_boot (fail (rg_env en)) m)
                                else store_registration en sessionHash reg m)))))"

subsection \<open>The first admin\<close>

definition parseLeaf :: "cert_lib \<Rightarrow> bytes \<Rightarrow> boot_error + certificate" where
  "parseLeaf lib der =
     (if der = [] \<or> length der > MaxCertSize then Inl (CertRejected REASON_UNSPECIFIED)
      else case cl_parse lib der of Inr [c] \<Rightarrow> Inr c | _ \<Rightarrow> Inl (CertRejected REASON_UNSPECIFIED))"

text \<open>The live revocation decision is the last check: it changes the engine and reports audit rows only when it is reached.\<close>

definition checkFirstAdmin ::
  "'l reg_env \<Rightarrow> admin_request \<Rightarrow> certificate \<Rightarrow> 'l mgr \<Rightarrow> (boot_error + CertResult \<times> certificate) \<times> 'l mgr" where
  "checkFirstAdmin en q anchor m =
     (if ValidateFullName (ar_FullName q) \<noteq> None then (Inl (CertRejected FULL_NAME), m)
      else case parseLeaf (rg_lib en) (ar_CertDer q) of
        Inl e \<Rightarrow> (Inl e, m)
      | Inr cert \<Rightarrow>
          (case (if ar_CsrDer q = [] then Inr None else map_sum id Some (CheckCSR (rg_lib en) (ar_CsrDer q))) of
             Inl e \<Rightarrow> (Inl (Refused e), m)
           | Inr csr \<Rightarrow>
               (let r = mg_rev m;
                    c = \<lparr>cc_Now = rg_check en, cc_WantLevel = ''admin'', cc_CSR = map_option fst csr, cc_Revoked = Some (IsRevoked r),
                      cc_CheckRevocation = None\<rparr>;
                    live = (\<lambda>sha leaf. CheckWebCert (rg_io en) sha leaf r r);
                    (_, ev, r') = live (Fingerprint (pl_sha256 (cl_peer (rg_lib en))) anchor) cert;
                    m' = m\<lparr>mg_rev := r', mg_events := mg_events m @ ev\<rparr>
                in case CheckOperatorCert (rg_lib en) c cert anchor of
                     Inl e \<Rightarrow> (Inl (Refused e), m)
                   | Inr _ \<Rightarrow>
                       (case CheckOperatorCert (rg_lib en) (c\<lparr>cc_CheckRevocation := Some (\<lambda>sha leaf. fst (live sha leaf))\<rparr>) cert anchor of
                          Inl e \<Rightarrow> (Inl (Refused e), m')
                        | Inr res \<Rightarrow>
                            if (case csr of None \<Rightarrow> False | Some (_, email) \<Rightarrow> email \<noteq> cr_Email res) then (Inl (CertRejected SUBJECT_MISMATCH), m')
                            else (Inr (res, cert), m')))))"

definition superseded_event :: "operator_credential \<Rightarrow> string \<Rightarrow> audit_event" where
  "superseded_event c serial =
     zero_event\<lparr>ev_Kind := KindFirstAdminSuperseded,
       ev_Summary := ''Put the earlier first admin certificate CN='' @ cred_Email c @ '', serial '' @ cred_SerialHex c @ '' (operator CA '' @
         cred_IssuerSHA256 c @ '') on the denylist: superseded by serial '' @ serial,
       ev_TargetKind := ''operator-credential'', ev_TargetPath := ''/operators/'' @ cred_SerialHex c\<rparr>"

definition superseding :: "operator_credential \<Rightarrow> string \<Rightarrow> string \<Rightarrow> denylist_entry" where
  "superseding c serial email =
     \<lparr>deny_IssuerSHA256 = cred_IssuerSHA256 c, deny_SerialHex = cred_SerialHex c, deny_Reason = reasonSuperseded, deny_RevokedAt = 0,
      deny_RevokedByCN = registeredBy, deny_RevokedBySerial = [],
      deny_Note = ''superseded by first-admin certificate '' @ serial @ '' for '' @ email\<rparr>"

text \<open>A denial is two accesses, the write and the read of the list; both can fail.\<close>

definition split_trust :: "string option \<Rightarrow> string option \<Rightarrow> gotime \<Rightarrow> pg_db trust_store" where
  "split_trust writing reading clk =
     (pg_trust writing clk (\<lambda>_. []))\<lparr>ts_OperatorDenylist := ts_OperatorDenylist (pg_trust reading 0 (\<lambda>_. []))\<rparr>"

definition deny_trust :: "'l reg_env \<Rightarrow> nat \<Rightarrow> pg_db trust_store" where
  "deny_trust en k =
     split_trust (be_fault (rg_env en) (AtDeny (2 * k))) (be_fault (rg_env en) (AtDeny (2 * k + 1))) (be_now (rg_env en) (AtDeny (2 * k)))"

fun supersede_loop :: "'l reg_env \<Rightarrow> string \<Rightarrow> string \<Rightarrow> string \<Rightarrow> nat \<Rightarrow> operator_credential list \<Rightarrow> 'l mgr \<Rightarrow> boot_error option \<times> 'l mgr" where
  "supersede_loop en issuer serial email k [] m = (None, m)"
| "supersede_loop en issuer serial email k (c # cs) m =
     (if cred_IssuerSHA256 c = issuer \<and> NormalizeSerial (cred_SerialHex c) = NormalizeSerial serial
      then supersede_loop en issuer serial email k cs m
      else if Denylisted (mg_rev m) (cred_IssuerSHA256 c) (cred_SerialHex c) then supersede_loop en issuer serial email k cs m
      else
        let m = on_boot (interfere (rg_env en) (AtDeny (2 * k))) m;
            ((err, _), db, r) = Deny (deny_trust en k) (be_now (rg_env en) (AtDeny (2 * k))) (superseding c serial email) (mg_db m) (mg_rev m);
            m = (on_db (\<lambda>_. db) m)\<lparr>mg_rev := r\<rparr>
        in if err \<noteq> None \<and> err \<noteq> Some UnknownAnchor
           then (Some (Internal (''bootstrap: denylist the superseded first admin '' @ cred_SerialHex c)), m)
           else supersede_loop en issuer serial email (Suc k) cs
             (on_boot (boot_record ((rg_env en)\<lparr>be_audit := rg_audit en (Suc k)\<rparr>) (superseded_event c serial)) m))"

definition supersede :: "'l reg_env \<Rightarrow> string \<Rightarrow> string \<Rightarrow> string \<Rightarrow> 'l mgr \<Rightarrow> boot_error option \<times> 'l mgr" where
  "supersede en issuer serial email m =
     (let m = on_boot (interfere (rg_env en) AtFirstAdmins) m
      in case be_fault (rg_env en) AtFirstAdmins of
           Some e \<Rightarrow> (Some (Internal (''bootstrap: read earlier first-admin records: '' @ e)), m)
         | None \<Rightarrow> supersede_loop en issuer serial email 0 (pg_FirstAdminCredentials (mg_db m)) m)"

definition first_admin_row :: "(bytes \<Rightarrow> bytes) \<Rightarrow> string \<Rightarrow> string \<Rightarrow> CertResult \<Rightarrow> certificate \<Rightarrow> operator_credential" where
  "first_admin_row sha issuer fullName res cert =
     \<lparr>cred_CommonName = cr_Email res, cred_SerialHex = cr_Serial res, cred_Level = Token (cr_Level res),
      cred_NotAfter = rfc3339 (cert_NotAfter cert), cred_Revoked = False, cred_IssuerSHA256 = issuer, cred_Kind = [], cred_Email = cr_Email res,
      cred_FullName = fullName, cred_LeafSHA256 = Fingerprint sha cert, cred_RequestID = [], cred_FirstSeenAt = 0, cred_LastSeenAt = 0\<rparr>"

definition recorded_event :: "'l reg_env \<Rightarrow> operator_credential \<Rightarrow> audit_event" where
  "recorded_event en c =
     zero_event\<lparr>ev_Kind := KindFirstAdminRecorded,
       ev_Summary := ''Recorded the first admin certificate CN='' @ cred_Email c @ '', serial '' @ cred_SerialHex c @ '', expires '' @
         cred_NotAfter c @ '', issued by operator CA '' @ cred_IssuerSHA256 c @ '', from '' @ be_ip (rg_env en),
       ev_TargetKind := ''operator-credential'', ev_TargetPath := ''/operators/'' @ cred_SerialHex c\<rparr>"

definition record_first_admin ::
  "'l reg_env \<Rightarrow> string \<Rightarrow> string \<Rightarrow> CertResult \<Rightarrow> certificate \<Rightarrow> 'l mgr \<Rightarrow> (boot_error + operator_credential) \<times> 'l mgr" where
  "record_first_admin en issuer fullName res cert m =
     (case supersede en issuer (cr_Serial res) (cr_Email res) m of
        (Some e, m) \<Rightarrow> (Inl e, m)
      | (None, m) \<Rightarrow>
          (let cred = first_admin_row (pl_sha256 (cl_peer (rg_lib en))) issuer fullName res cert;
               m = on_boot (interfere (rg_env en) AtAdmin) m
           in case be_fault (rg_env en) AtAdmin of
                Some e \<Rightarrow> (Inl (Internal (''bootstrap: record the first admin: '' @ e)), m)
              | None \<Rightarrow>
                  (Inr cred, on_boot (boot_record ((rg_env en)\<lparr>be_audit := rg_audit en 0\<rparr>) (recorded_event en cred))
                     (on_db (pg_RecordFirstAdmin cred (be_now (rg_env en) AtAdmin)) m))))"

definition first_admin_checks ::
  "'l reg_env \<Rightarrow> admin_request \<Rightarrow> string \<Rightarrow> 'l mgr \<Rightarrow> (boot_error + string \<times> CertResult \<times> certificate) \<times> 'l mgr" where
  "first_admin_checks en q sessionHash m =
     (case rebuild en m of
        (Some _, m) \<Rightarrow> (Inl (Internal ''bootstrap: refresh the trusted operator CAs''), m)
      | (None, m) \<Rightarrow>
          (let (row, b) = activeCA (rg_env en) (mg_boot m); m = m\<lparr>mg_boot := b\<rparr>
           in case row of
                None \<Rightarrow> (Inl (CARejected NOT_CONFIRMED), on_boot (fail (rg_env en)) m)
              | Some row \<Rightarrow>
                  (let m = on_boot (interfere (rg_env en) AtConfirmedBy) m
                   in case (case be_fault (rg_env en) AtConfirmedBy of
                              Some e \<Rightarrow> Inl (DbError e) | None \<Rightarrow> pg_OperatorCAConfirmedBy (ca_SHA256 row) (mg_db m)) of
                        Inl e \<Rightarrow> (Inl (Internal (''bootstrap: read the operator CA confirmation: '' @ pg_message e)), m)
                      | Inr by \<Rightarrow>
                          if by \<noteq> sessionHash then (Inl (CARejected NOT_CONFIRMED), on_boot (fail (rg_env en)) m)
                          else
                            (case pl_parse (cl_peer (rg_lib en)) (ca_CertDER row) of
                               Inl e \<Rightarrow> (Inl (Internal (''bootstrap: the registered operator CA '' @ ca_SHA256 row @ '' doesn't parse: '' @ e)), m)
                             | Inr anchor \<Rightarrow>
                                 (case checkFirstAdmin en q anchor m of
                                    (Inr (res, cert), m) \<Rightarrow> (Inr (ca_SHA256 row, res, cert), m)
                                  | (Inl (Refused e), m) \<Rightarrow>
                                      (Inl (Refused e), if rf_Code e = CodeNoRevocationSource then m else on_boot (fail (rg_env en)) m)
                                  | (Inl e, m) \<Rightarrow> (Inl e, on_boot (fail (rg_env en)) m))))))"

definition SubmitFirstAdminCertificate :: "'l reg_env \<Rightarrow> admin_request \<Rightarrow> 'l mgr \<Rightarrow> (boot_error + operator_credential) \<times> 'l mgr" where
  "SubmitFirstAdminCertificate en q m =
     (case admit (rg_env en) (mg_boot m) of
        (Some e, b) \<Rightarrow> (Inl e, m\<lparr>mg_boot := b\<rparr>)
      | (None, b) \<Rightarrow>
          (case svc_session (rg_env en) (ar_secret q) b of
             (Inl e, b) \<Rightarrow> (Inl e, m\<lparr>mg_boot := b\<rparr>)
           | (Inr sessionHash, b) \<Rightarrow>
               (case first_admin_checks en q sessionHash (m\<lparr>mg_boot := b\<rparr>) of
                  (Inl e, m) \<Rightarrow> (Inl e, m)
                | (Inr (issuer, res, cert), m) \<Rightarrow> record_first_admin en issuer (ar_FullName q) res cert m)))"

subsection \<open>The offline reset\<close>

record reset_env =
  rs_lock :: "string + bool"
  rs_live :: bool
  rs_now :: gotime
  rs_clk :: gotime
  rs_fault :: "string option"
  rs_host :: string
  rs_audit :: entropy

datatype reset_error = LockFailed string | ManagerRunning | ResetFailed pg_error

definition reset_summary :: "FirstRunReset \<Rightarrow> string" where
  "reset_summary r =
     (let was = (if Closed (fr_Previous r) then ''first run was closed by '' @ bs_ClosedByCN (fr_Previous r) @ '' (serial '' @
            bs_ClosedBySerial (fr_Previous r) @ '', operator CA '' @ bs_ClosedByIssuerSHA256 (fr_Previous r) @ '') at '' @
            rfc3339 (bs_ClosedAt (fr_Previous r)) else ''first run was open'');
          done' = itoa (fr_Sessions r) @ '' bootstrap session(s) and '' @ itoa (fr_Tokens r) @ '' token(s) deleted, '' @ itoa (fr_RetiredCAs r) @
            '' operator CA(s) retired (rows kept)''
      in ''First run reopened by the break-glass reset: '' @ was @ ''; '' @ done' @ ''; the denylist and stored CRLs are kept'')"

definition Reset :: "reset_env \<Rightarrow> pg_db \<Rightarrow> mem_store \<Rightarrow> (reset_error option) \<times> pg_db \<times> mem_store" where
  "Reset en db aud =
     (case rs_lock en of
        Inl e \<Rightarrow> (Some (LockFailed e), db, aud)
      | Inr False \<Rightarrow> (Some ManagerRunning, db, aud)
      | Inr True \<Rightarrow>
          if rs_live en then (Some ManagerRunning, db, aud)
          else case pg_ResetFirstRun (rs_fault en) (rs_clk en) (rs_now en) db of
            (Inl e, db) \<Rightarrow> (Some (ResetFailed e), db, aud)
          | (Inr r, db) \<Rightarrow>
              (None, db, snd (Record (rs_audit en) Background (zero_event\<lparr>ev_At := rfc3339 (rs_now en), ev_Kind := KindBootstrapReset,
                 ev_Summary := reset_summary r, ev_TargetKind := ''bootstrap'', ev_ActorKind := ''host'', ev_ActorCN := rs_host en,
                 ev_Via := ''cli''\<rparr>) aud)))"

subsection \<open>The signing command\<close>

text \<open>Whatever the email holds, the file names in the command are words of letters, digits and four other characters, with a character
  for each character of the email: nothing a shell could read as syntax.\<close>

lemma file_char_idem: "file_char (file_char c) = file_char c"
  by (simp add: file_char_def)

theorem SignCommand_quotes:
  "\<exists>name. SignCommand level email = ''openssl ca -config operator-ca.cnf -extensions op_'' @ level @ '' -notext -in fleetos-'' @ level @ ''-'' @ name @
       ''.csr -out fleetos-'' @ level @ ''-'' @ name @ ''.crt'' \<and>
     (\<forall>c \<in> set name. file_char c = c) \<and> (list_all (\<lambda>c. file_char c = c) email \<longrightarrow> name = email)"
proof -
  have safe: "\<forall>c \<in> set (file_base bs). file_char c = c" for bs
    by (induction bs rule: file_base.induct) (auto simp: file_char_idem, simp_all add: file_char_def)
  have ascii: "of_char c < (128::nat)" if "file_char c = c" for c
    using that by (auto simp: file_char_def less_eq_char_def split: if_split_asm)
  have "file_base (map of_char e) = e" if "list_all (\<lambda>c. file_char c = c) e" for e
    using that
  proof (induction e)
    case (Cons c e)
    then have "of_char c < (128::nat)" "file_char c = c" using ascii by simp_all
    moreover from this have "rune_width (of_char c # map of_char e) = 1" by (simp add: rune_width_def)
    ultimately show ?case using Cons by simp
  qed simp
  then show ?thesis using safe by (intro exI [of _ "file_base (map of_char email)"]) (simp add: SignCommand_def Let_def)
qed

subsection \<open>Sessions and registrations\<close>

lemma map_sum_Inr: "map_sum f g x = Inr y \<longleftrightarrow> (\<exists>z. x = Inr z \<and> y = g z)"
  by (cases x) auto

lemma svc_session_Inr:
  assumes "svc_session en secret b = (Inr h, b')"
  shows "h = HashSecret (be_sha en) secret"
    "\<exists>x. pg_BootstrapSession h (be_others en AtSession (b_db b)) = Some x \<and> session_live (be_now en AtSession) SessionIdle x"
  using assms
  by (auto simp: svc_session_def Let_def interfere_def session_live_def split: if_split_asm option.splits)

lemma on_boot_simps [simp]:
  "mg_boot (on_boot f m) = f (mg_boot m)" "mg_trust (on_boot f m) = mg_trust m" "mg_rev (on_boot f m) = mg_rev m"
  "mg_boot (on_db g m) = (mg_boot m)\<lparr>b_db := g (mg_db m)\<rparr>" "mg_trust (on_db g m) = mg_trust m" "mg_rev (on_db g m) = mg_rev m"
  by (simp_all add: on_boot_def on_db_def)

lemma retire_others_trusted: "x \<in> set (retire_others sha clk at rows) \<Longrightarrow> trusted_state (ca_State x) \<Longrightarrow> ca_SHA256 x = sha"
  by (auto simp: retire_others_def trusted_state_def state_defs split: if_split_asm)

lemma upsert_trusted:
  assumes "\<And>x. x \<in> set rows \<Longrightarrow> trusted_state (ca_State x) \<Longrightarrow> ca_SHA256 x = ca_SHA256 r" and "trusted_state (ca_State r)"
  shows "{x \<in> set (upsert_ca False r rows). trusted_state (ca_State x)} = {r}"
  using assms by (auto simp: upsert_ca_def) (metis image_eqI)

lemma registered_rows:
  assumes "pg_RegisterFirstRunOperatorCA fault clk ca h crl s = (Inr (), s')"
  shows "\<not> Closed (pg_latch s)" "{x \<in> set (pg_cas s'). trusted_state (ca_State x)} = {activated clk (Some h) ca}"
proof -
  let ?rows = "retire_others (ca_SHA256 ca) clk (default_time clk (ca_RegisteredAt ca)) (pg_cas s)"
  have c: "change_cas fault (upsert_ca False (activated clk (Some h) ca) ?rows) crl s = (Inr (), s')" "fault = None \<longrightarrow> lockOpen s = None"
    using assms by (auto simp: pg_RegisterFirstRunOperatorCA_def split: option.splits if_split_asm)
  from c(1) have f: "fault = None" and cas: "pg_cas s' = upsert_ca False (activated clk (Some h) ca) ?rows"
    by (cases rule: change_cas_cases [of fault "upsert_ca False (activated clk (Some h) ca) ?rows" crl s], simp_all)+
  show "\<not> Closed (pg_latch s)" using c(2) f by (simp add: lockOpen_def split: if_split_asm)
  show "{x \<in> set (pg_cas s'). trusted_state (ca_State x)} = {activated clk (Some h) ca}"
    unfolding cas by (rule upsert_trusted) (use retire_others_trusted in \<open>auto simp: trusted_state_def\<close>)
qed

lemma live_step_register: "live_step db (snd (pg_RegisterFirstRunOperatorCA f clk ca h crl db))"
proof -
  have "pg_latch (snd (pg_RegisterFirstRunOperatorCA f clk ca h crl db)) = pg_latch db"
    using change_cas_frame by (simp add: pg_RegisterFirstRunOperatorCA_def split: option.split)
  then show ?thesis by (simp add: live_step_def pg_step.register)
qed

lemma rebuild_frame:
  "mg_boot (snd (rebuild en m)) = interfere (rg_env en) AtRebuild (mg_boot m)"
  "rv_denylist (mg_rev (snd (rebuild en m))) = rv_denylist (mg_rev m)"
proof -
  have "rv_denylist (snd (snd (Rebuild lib key rows t r))) = rv_denylist r" for lib key rows t r
    by (auto simp: Rebuild_def install_def SetAnchors_denylist split: sum.split option.split)
  then show "rv_denylist (mg_rev (snd (rebuild en m))) = rv_denylist (mg_rev m)" by (simp add: rebuild_def Let_def split_beta)
qed (simp add: rebuild_def Let_def split_beta)

lemma reload_boot: "mg_boot (reload en m) = interfere (rg_env en) AtReload (mg_boot m)"
  by (simp add: reload_def Let_def split_beta)

text \<open>How a call that confirmed an upload got there.\<close>

lemma RegisterOperatorCA_confirmed:
  assumes "RegisterOperatorCA en q m = (Inr (True, fp), m')" and "rq_CaCertDer q \<noteq> []"
  obtains b1 b2 h reg where "admit (rg_env en) (mg_boot m) = (None, b1)" "svc_session (rg_env en) (rq_secret q) b1 = (Inr h, b2)"
    "check en q = Inr reg" "normalizeFingerprint (rq_ConfirmSha256 q) = Fingerprint (pl_sha256 (cl_peer (rg_lib en))) (re_cert reg)"
    "store_registration en h reg (m\<lparr>mg_boot := b2\<rparr>) = (Inr (True, fp), m')"
  using assms
  by (auto simp: RegisterOperatorCA_def Let_def split: prod.splits option.splits sum.splits if_split_asm)

lemma store_registration_Inr:
  assumes "store_registration en h reg m = (Inr (True, fp), m')"
  obtains s' m1 where "pg_RegisterFirstRunOperatorCA (be_fault (rg_env en) AtRegister) (be_now (rg_env en) AtRegister) (reg_row en reg) h
      (reg_crl en reg) (b_db (interfere (rg_env en) AtRegister (mg_boot m))) = (Inr (), s')"
    "rebuild en (on_db (\<lambda>_. s') (on_boot (interfere (rg_env en) AtRegister) m)) = (None, m1)" "fp = Some (ca_SHA256 (reg_row en reg))"
    "mg_db m' = b_db (interfere (rg_env en) AtReload (mg_boot m1))"
  using assms
  by (auto simp: store_registration_def Let_def reload_boot split: prod.splits option.splits sum.splits pg_error.splits)

lemma session_admitted:
  assumes "env_ok en" and "admit en b = (None, b1)" and "svc_session en secret b1 = (Inr h, b2)"
  shows "has_first_run b" "h = HashSecret (be_sha en) secret" "calls b b2"
    "\<exists>s x. live_step\<^sup>*\<^sup>* (b_db b) s \<and> pg_BootstrapSession h s = Some x \<and> session_live (be_now en AtSession) SessionIdle x"
proof -
  show "has_first_run b" by (rule admit_None [OF assms(2)])
  show "h = HashSecret (be_sha en) secret" by (rule svc_session_Inr [OF assms(3)])
  have a: "calls b b1" using admit_calls [OF assms(1), of b] assms(2) by simp
  then show "calls b b2" using svc_session_calls [OF assms(1), of b1 secret] assms(3) calls_trans by (metis snd_conv)
  have "live_step\<^sup>*\<^sup>* (b_db b) (be_others en AtSession (b_db b1))" using calls_trans [OF a calls_interfere [OF assms(1)]] by (simp add: calls_def interfere_def)
  then show "\<exists>s x. live_step\<^sup>*\<^sup>* (b_db b) s \<and> pg_BootstrapSession h s = Some x \<and> session_live (be_now en AtSession) SessionIdle x"
    using svc_session_Inr(2) [OF assms(3)] by blast
qed


subsection \<open>Superseding earlier first admins\<close>

definition backed :: "Revocations \<Rightarrow> pg_db \<Rightarrow> bool" where
  "backed r s \<longleftrightarrow> (\<forall>sha x. x \<in> set (denied (rv_denylist r) sha) \<longrightarrow>
     (\<exists>e \<in> set (pg_denylist s). deny_IssuerSHA256 e = sha \<and> NormalizeSerial (deny_SerialHex e) = x))"

lemma enforces_backed: "enforces r s \<Longrightarrow> backed r s"
  unfolding enforces_def backed_def by blast

lemma live_steps_pg: "live_step\<^sup>*\<^sup>* s s' \<Longrightarrow> pg_step\<^sup>*\<^sup>* s s'"
  by (induction rule: rtranclp_induct) (auto simp: live_step_def intro: rtranclp.rtrancl_into_rtrancl)

lemma backed_steps: "backed r s \<Longrightarrow> live_step\<^sup>*\<^sup>* s s' \<Longrightarrow> backed r s'"
  using denylist_grows [OF live_steps_pg] unfolding backed_def by blast

lemma listed_in_store:
  assumes "backed r s" and "live_step\<^sup>*\<^sup>* s s'" and "rv_denylist r' = deny_set (pg_OperatorDenylist s')" and "Denylisted r sha x"
  shows "Denylisted r' sha x"
  using assms(3,4) backed_steps [OF assms(1,2)] by (auto simp: Denylisted_def denied_deny_set pg_OperatorDenylist_set backed_def)

lemma live_step_deny: "live_step db (snd (pg_AddOperatorDenylistEntry f clk e db))"
  by (simp add: live_step_def pg_step.deny) (simp add: pg_AddOperatorDenylistEntry_def bumpEpoch_def split: option.split)

lemma split_trust_write:
  "ts_AddOperatorDenylistEntry (split_trust fw fr clk) e db = apfst (map_sum pg_trust_error id) (pg_AddOperatorDenylistEntry fw clk e db)"
  by (simp add: split_trust_def pg_trust_def)

lemma split_trust_read: "ts_OperatorDenylist (split_trust fw fr clk) = (\<lambda>s. read_result fr (pg_OperatorDenylist s))"
  by (simp add: split_trust_def pg_trust_def)

lemma denied_row:
  assumes "pg_AddOperatorDenylistEntry fault clk e db = (Inr ok, db')"
  shows "\<exists>x \<in> set (pg_denylist db'). deny_IssuerSHA256 x = deny_IssuerSHA256 e \<and> deny_SerialHex x = deny_SerialHex e"
  using assms by (auto simp: pg_AddOperatorDenylistEntry_def bumpEpoch_def split: option.splits if_split_asm)

lemma Deny_stored:
  assumes "Deny (split_trust fw fr clk) now e db r = ((err, c), db', r')"
  shows "live_step db db'" "err \<noteq> Some UnknownAnchor"
    "err = None \<Longrightarrow> rv_denylist r' = deny_set (pg_OperatorDenylist db') \<and>
       (\<exists>x \<in> set (pg_denylist db'). deny_IssuerSHA256 x = deny_IssuerSHA256 e \<and> deny_SerialHex x = NormalizeSerial (deny_SerialHex e))"
proof -
  let ?e = "e\<lparr>deny_SerialHex := NormalizeSerial (deny_SerialHex e), deny_RevokedAt := default_time now (deny_RevokedAt e)\<rparr>"
  obtain res s where p: "pg_AddOperatorDenylistEntry fw clk ?e db = (res, s)"
    by (meson surj_pair)
  have t: "pg_trust_error x \<noteq> UnknownAnchor" for x by (cases x) simp_all
  have w: "ts_AddOperatorDenylistEntry (split_trust fw fr clk) ?e db = (map_sum pg_trust_error id res, s)"
    unfolding split_trust_write p by simp
  have s: "live_step db s" using live_step_deny p by (metis snd_conv)
  show "live_step db db'"
    using assms s by (cases res) (auto simp: Deny_def Let_def w split_beta)
  show "err \<noteq> Some UnknownAnchor"
    using assms t by (cases res) (auto simp: Deny_def Let_def w split_trust_read reloadDenylist_def read_result_def split: option.splits)
  assume none: "err = None"
  show "rv_denylist r' = deny_set (pg_OperatorDenylist db') \<and>
       (\<exists>x \<in> set (pg_denylist db'). deny_IssuerSHA256 x = deny_IssuerSHA256 e \<and> deny_SerialHex x = NormalizeSerial (deny_SerialHex e))"
  proof (cases res)
    case (Inl x) with assms none show ?thesis by (simp add: Deny_def Let_def w)
  next
    case (Inr ok)
    have "db' = s \<and> rv_denylist r' = deny_set (pg_OperatorDenylist s)"
      using assms none Inr by (auto simp: Deny_def Let_def w split_trust_read reloadDenylist_def read_result_def install_denylist_def split: option.splits)
    moreover have "\<exists>x \<in> set (pg_denylist s). deny_IssuerSHA256 x = deny_IssuerSHA256 e \<and> deny_SerialHex x = NormalizeSerial (deny_SerialHex e)"
      using denied_row [OF p [unfolded Inr]] by simp
    ultimately show ?thesis by blast
  qed
qed

lemma backed_deny_set: "rv_denylist r = deny_set (pg_OperatorDenylist s) \<Longrightarrow> backed r s"
  by (rule enforces_backed [OF enforces_deny_set])

definition replaced :: "string \<Rightarrow> string \<Rightarrow> operator_credential \<Rightarrow> bool" where
  "replaced issuer serial c \<longleftrightarrow> \<not> (cred_IssuerSHA256 c = issuer \<and> NormalizeSerial (cred_SerialHex c) = NormalizeSerial serial)"

lemma supersede_loop_denies:
  assumes "env_ok (rg_env en)" and "backed (mg_rev m) (mg_db m)" and "supersede_loop en issuer serial email k cs m = (None, m')"
  shows "live_step\<^sup>*\<^sup>* (mg_db m) (mg_db m') \<and> backed (mg_rev m') (mg_db m') \<and>
    (\<forall>sha x. Denylisted (mg_rev m) sha x \<longrightarrow> Denylisted (mg_rev m') sha x) \<and>
    (\<forall>c \<in> set cs. \<forall>n \<ge> 0. cred_SerialHex c = SerialKey n \<and> replaced issuer serial c \<longrightarrow>
       Denylisted (mg_rev m') (cred_IssuerSHA256 c) (cred_SerialHex c))"
  using assms(2,3)
proof (induction cs arbitrary: k m)
  case (Cons c cs)
  show ?case
  proof (cases "\<not> replaced issuer serial c \<or> Denylisted (mg_rev m) (cred_IssuerSHA256 c) (cred_SerialHex c)")
    case True
    then have "supersede_loop en issuer serial email k cs m = (None, m')" using Cons.prems(2) by (auto simp: replaced_def split: if_split_asm)
    from Cons.IH [OF Cons.prems(1) this] True show ?thesis by auto
  next
    case False
    let ?m = "on_boot (interfere (rg_env en) (AtDeny (2 * k))) m"
    obtain err cc db r where d: "Deny (deny_trust en k) (be_now (rg_env en) (AtDeny (2 * k))) (superseding c serial email) (mg_db ?m) (mg_rev ?m) = ((err, cc), db, r)"
      by (metis surj_pair)
    note deny = Deny_stored [OF d [unfolded deny_trust_def]]
    let ?n = "on_boot (boot_record ((rg_env en)\<lparr>be_audit := rg_audit en (Suc k)\<rparr>) (superseded_event c serial)) ((on_db (\<lambda>_. db) ?m)\<lparr>mg_rev := r\<rparr>)"
    have e: "err = None" and rest: "supersede_loop en issuer serial email (Suc k) cs ?n = (None, m')"
      using Cons.prems(2) False d deny(2) by (auto simp: replaced_def Let_def split: if_split_asm)
    have n: "mg_db ?n = db" "mg_rev ?n = r" by (simp_all add: on_db_def on_boot_def)
    have step: "live_step\<^sup>*\<^sup>* (mg_db m) db"
      using calls_interfere [OF assms(1), of "mg_boot m" "AtDeny (2 * k)"] deny(1) unfolding calls_def by (simp add: rtranclp.rtrancl_into_rtrancl)
    have list: "rv_denylist r = deny_set (pg_OperatorDenylist db)" using deny(3) [OF e] by blast
    have keep: "Denylisted (mg_rev m) sha x \<Longrightarrow> Denylisted r sha x" for sha x
      by (rule listed_in_store [OF Cons.prems(1) step list])
    have issuer: "deny_IssuerSHA256 (superseding c serial email) = cred_IssuerSHA256 c" "deny_SerialHex (superseding c serial email) = cred_SerialHex c"
      by (simp_all add: superseding_def)
    have new: "Denylisted r (cred_IssuerSHA256 c) (cred_SerialHex c)" if key: "cred_SerialHex c = SerialKey n" "0 \<le> n" for n
    proof -
      obtain x where x: "x \<in> set (pg_denylist db)" "deny_IssuerSHA256 x = cred_IssuerSHA256 c" "deny_SerialHex x = NormalizeSerial (cred_SerialHex c)"
        using deny(3) [OF e] unfolding issuer by blast
      have norm: "NormalizeSerial (deny_SerialHex x) = NormalizeSerial (cred_SerialHex c)"
        unfolding x(3) key(1) by (simp add: NormalizeSerial_SerialKey key(2))
      then show ?thesis
        using x(1,2) norm unfolding Denylisted_def list denied_deny_set pg_OperatorDenylist_set by (intro bexI [of _ x]) auto
    qed
    from Cons.IH [of ?n "Suc k"] rest backed_deny_set [OF list] n
    have "live_step\<^sup>*\<^sup>* db (mg_db m') \<and> backed (mg_rev m') (mg_db m') \<and> (\<forall>sha x. Denylisted r sha x \<longrightarrow> Denylisted (mg_rev m') sha x) \<and>
      (\<forall>c \<in> set cs. \<forall>n \<ge> 0. cred_SerialHex c = SerialKey n \<and> replaced issuer serial c \<longrightarrow>
        Denylisted (mg_rev m') (cred_IssuerSHA256 c) (cred_SerialHex c))"
      by simp
    then show ?thesis using step keep new by (auto intro: rtranclp_trans)
  qed
qed simp

subsection \<open>Submitting the first admin\<close>

lemma checkFirstAdmin_keeps:
  "mg_boot (snd (checkFirstAdmin en q anchor m)) = mg_boot m"
  "rv_denylist (mg_rev (snd (checkFirstAdmin en q anchor m))) = rv_denylist (mg_rev m)"
  by (simp_all add: checkFirstAdmin_def Let_def split_beta CheckWebCert_def checkWeb_denylist split: sum.split)

lemma Token_admin: "Token l = ''admin'' \<longleftrightarrow> l = LevelAdmin"
  by (simp add: Token_def level_defs)

lemma checkFirstAdmin_Inr:
  assumes "checkFirstAdmin en q anchor m = (Inr (res, cert), m')"
  shows "ValidateFullName (ar_FullName q) = None" "parseLeaf (rg_lib en) (ar_CertDer q) = Inr cert"
    "cl_verify (rg_lib en) anchor (rg_check en) cert = None" "LevelFromCertificate (cl_asn1 (rg_lib en)) cert = Inr LevelAdmin"
    "subject_email (rg_lib en) (cert_RawSubject cert) = Some (cr_Email res)" "cr_Serial res = SerialKey (cert_SerialNumber cert)"
    "cr_Level res = LevelAdmin"
    "fst (CheckWebCert (rg_io en) (Fingerprint (pl_sha256 (cl_peer (rg_lib en))) anchor) cert (mg_rev m) (mg_rev m)) = None"
proof -
  let ?fp = "Fingerprint (pl_sha256 (cl_peer (rg_lib en))) anchor"
  obtain csr where c: "CheckOperatorCert (rg_lib en)
      \<lparr>cc_Now = rg_check en, cc_WantLevel = ''admin'', cc_CSR = csr, cc_Revoked = Some (IsRevoked (mg_rev m)),
        cc_CheckRevocation = Some (\<lambda>sha leaf. fst (CheckWebCert (rg_io en) sha leaf (mg_rev m) (mg_rev m)))\<rparr> cert anchor = Inr res"
    and n: "ValidateFullName (ar_FullName q) = None" "parseLeaf (rg_lib en) (ar_CertDer q) = Inr cert"
    using assms by (auto simp: checkFirstAdmin_def Let_def split_beta split: sum.splits if_split_asm)
  show "ValidateFullName (ar_FullName q) = None" "parseLeaf (rg_lib en) (ar_CertDer q) = Inr cert" using n by simp_all
  note ok = c [unfolded CheckOperatorCert_Inr, simplified]
  show "cl_verify (rg_lib en) anchor (rg_check en) cert = None" using ok by simp
  show "cr_Level res = LevelAdmin" using ok by (simp add: Token_admin)
  then show "LevelFromCertificate (cl_asn1 (rg_lib en)) cert = Inr LevelAdmin" using ok by simp
  show "subject_email (rg_lib en) (cert_RawSubject cert) = Some (cr_Email res)" "cr_Serial res = SerialKey (cert_SerialNumber cert)"
    using ok by simp_all
  have "check_revoked (rg_lib en) \<lparr>cc_Now = rg_check en, cc_WantLevel = ''admin'', cc_CSR = csr, cc_Revoked = Some (IsRevoked (mg_rev m)),
        cc_CheckRevocation = Some (\<lambda>sha leaf. fst (CheckWebCert (rg_io en) sha leaf (mg_rev m) (mg_rev m)))\<rparr> cert anchor = None"
    using ok by simp
  then show "fst (CheckWebCert (rg_io en) ?fp cert (mg_rev m) (mg_rev m)) = None"
    by (simp add: check_revoked_def Let_def split: if_split_asm)
qed

lemma first_admin_checks_Inr:
  assumes ok: "env_ok (rg_env en)" and "first_admin_checks en q h m = (Inr (issuer, res, cert), m')"
  obtains row anchor mc s1 s2 where "live_step\<^sup>*\<^sup>* (mg_db m) s1" "live_step\<^sup>*\<^sup>* s1 s2" "mg_db mc = s2"
    "find (\<lambda>r. ca_State r = OperatorCAActive) (pg_OperatorCAs s1) = Some row" "issuer = ca_SHA256 row"
    "pg_OperatorCAConfirmedBy (ca_SHA256 row) s2 = Inr h" "pl_parse (cl_peer (rg_lib en)) (ca_CertDER row) = Inr anchor"
    "checkFirstAdmin en q anchor mc = (Inr (res, cert), m')" "rv_denylist (mg_rev mc) = rv_denylist (mg_rev m)"
proof -
  obtain m1 where r: "rebuild en m = (None, m1)"
    using assms(2) by (cases "rebuild en m"; cases "fst (rebuild en m)") (auto simp: first_admin_checks_def)
  obtain row b where a: "activeCA (rg_env en) (mg_boot m1) = (Some row, b)"
    using assms(2) r by (cases "activeCA (rg_env en) (mg_boot m1)"; cases "fst (activeCA (rg_env en) (mg_boot m1))")
      (auto simp: first_admin_checks_def)
  let ?mc = "on_boot (interfere (rg_env en) AtConfirmedBy) (m1\<lparr>mg_boot := b\<rparr>)"
  have "be_fault (rg_env en) AtConfirmedBy = None \<and> pg_OperatorCAConfirmedBy (ca_SHA256 row) (mg_db ?mc) = Inr h"
    using assms(2) r a by (auto simp: first_admin_checks_def Let_def split: option.splits sum.splits if_split_asm)
  then have by': "pg_OperatorCAConfirmedBy (ca_SHA256 row) (mg_db ?mc) = Inr h" and f: "be_fault (rg_env en) AtConfirmedBy = None" by simp_all
  obtain anchor where p: "pl_parse (cl_peer (rg_lib en)) (ca_CertDER row) = Inr anchor"
    using assms(2) r a by' f by (auto simp: first_admin_checks_def Let_def split: sum.splits)
  have c: "checkFirstAdmin en q anchor ?mc = (Inr (res, cert), m')" and i: "issuer = ca_SHA256 row"
    using assms(2) r a by' f p by (auto simp: first_admin_checks_def Let_def split: sum.splits prod.splits boot_error.splits if_split_asm)
  have b: "b = interfere (rg_env en) AtActive (mg_boot m1)" using activeCA_db [of "rg_env en" "mg_boot m1"] a by simp
  have m1: "mg_boot m1 = interfere (rg_env en) AtRebuild (mg_boot m)" "rv_denylist (mg_rev m1) = rv_denylist (mg_rev m)"
    using rebuild_frame [of en m] r by simp_all
  have s1: "calls (mg_boot m) b" unfolding b m1 by (intro calls_trans [OF calls_interfere [OF ok] calls_interfere [OF ok]])
  have s2: "calls b (mg_boot ?mc)" using calls_interfere [OF ok] by simp
  have "find (\<lambda>r. ca_State r = OperatorCAActive) (pg_OperatorCAs (b_db b)) = Some row"
    using a by (auto simp: activeCA_def Let_def split: if_split_asm)
  then show thesis
    using that [of "b_db b" "mg_db ?mc" ?mc row anchor] s1 s2 by' p c i m1(2) by (simp add: calls_def)
qed

lemma boot_record_db [simp]: "b_db (boot_record en e b) = b_db b"
  by (simp add: boot_record_def split: option.split)

lemma live_step_first_admin: "live_step db (pg_RecordFirstAdmin cred at db)"
  by (simp add: live_step_def pg_step.first_admin) (simp add: pg_RecordFirstAdmin_def)

lemma first_admin_recorded:
  "\<exists>c \<in> set (pg_FirstAdminCredentials (pg_RecordFirstAdmin cred at s)). same_credential cred c \<and> cred_FullName c = cred_FullName cred \<and>
     cred_Email c = cred_Email cred \<and> cred_Level c = cred_Level cred \<and> cred_LeafSHA256 c = cred_LeafSHA256 cred"
proof (cases "list_ex (same_credential cred) (pg_credentials s)")
  case True
  then obtain x where "x \<in> set (pg_credentials s)" "same_credential cred x" by (auto simp: list_ex_iff)
  then show ?thesis
    using True by (intro bexI [of _ "x\<lparr>cred_Kind := OperatorCredentialFirstAdmin, cred_FullName := cred_FullName cred,
          cred_Email := cred_Email cred, cred_CommonName := cred_CommonName cred, cred_Level := cred_Level cred,
          cred_NotAfter := cred_NotAfter cred, cred_LeafSHA256 := cred_LeafSHA256 cred\<rparr>"])
      (auto simp: pg_RecordFirstAdmin_def pg_FirstAdminCredentials_def same_credential_def image_iff intro!: bexI [of _ x])
qed (auto simp: pg_RecordFirstAdmin_def pg_FirstAdminCredentials_def same_credential_def)

lemma record_first_admin_Inr:
  assumes ok: "env_ok (rg_env en)" and "backed (mg_rev m) (mg_db m)"
    and "record_first_admin en issuer name res cert m = (Inr cred, m')"
  shows "cred = first_admin_row (pl_sha256 (cl_peer (rg_lib en))) issuer name res cert"
    "\<exists>c \<in> set (pg_FirstAdminCredentials (mg_db m')). same_credential cred c \<and> cred_FullName c = name \<and>
       cred_Email c = cr_Email res \<and> cred_Level c = Token (cr_Level res)"
    "\<exists>s. live_step\<^sup>*\<^sup>* (mg_db m) s \<and> live_step\<^sup>*\<^sup>* s (mg_db m') \<and>
       (\<forall>c \<in> set (pg_FirstAdminCredentials s). \<forall>n \<ge> 0. cred_SerialHex c = SerialKey n \<and> replaced issuer (cr_Serial res) c \<longrightarrow>
          Denylisted (mg_rev m') (cred_IssuerSHA256 c) (cred_SerialHex c))"
proof -
  let ?ma = "on_boot (interfere (rg_env en) AtFirstAdmins) m"
  obtain m1 where sup: "supersede en issuer (cr_Serial res) (cr_Email res) m = (None, m1)"
    using assms(3) by (auto simp: record_first_admin_def split: prod.splits option.splits)
  then have loop: "supersede_loop en issuer (cr_Serial res) (cr_Email res) 0 (pg_FirstAdminCredentials (mg_db ?ma)) ?ma = (None, m1)"
    by (auto simp: supersede_def Let_def split: option.splits)
  let ?cred = "first_admin_row (pl_sha256 (cl_peer (rg_lib en))) issuer name res cert"
  let ?mb = "on_boot (interfere (rg_env en) AtAdmin) m1"
  have m': "m' = on_boot (boot_record ((rg_env en)\<lparr>be_audit := rg_audit en 0\<rparr>) (recorded_event en ?cred))
      (on_db (pg_RecordFirstAdmin ?cred (be_now (rg_env en) AtAdmin)) ?mb)" and cred: "cred = ?cred"
    using assms(3) sup by (auto simp: record_first_admin_def Let_def split: option.splits)
  show "cred = ?cred" by (rule cred)
  have db: "mg_db m' = pg_RecordFirstAdmin ?cred (be_now (rg_env en) AtAdmin) (mg_db ?mb)" "mg_rev m' = mg_rev m1" by (simp_all add: m')
  show "\<exists>c \<in> set (pg_FirstAdminCredentials (mg_db m')). same_credential cred c \<and> cred_FullName c = name \<and>
       cred_Email c = cr_Email res \<and> cred_Level c = Token (cr_Level res)"
    unfolding db cred using first_admin_recorded [of ?cred "be_now (rg_env en) AtAdmin" "mg_db ?mb"] by (simp add: first_admin_row_def) blast
  have a: "live_step\<^sup>*\<^sup>* (mg_db m) (mg_db ?ma)" using calls_interfere [OF ok, of "mg_boot m" AtFirstAdmins] by (simp add: calls_def)
  then have "backed (mg_rev ?ma) (mg_db ?ma)" using backed_steps [OF assms(2)] by simp
  note den = supersede_loop_denies [OF ok this loop]
  have "live_step\<^sup>*\<^sup>* (mg_db m1) (mg_db m')"
    using calls_interfere [OF ok, of "mg_boot m1" AtAdmin] live_step_first_admin [of "mg_db ?mb" ?cred "be_now (rg_env en) AtAdmin"]
    unfolding db calls_def by (simp add: rtranclp.rtrancl_into_rtrancl)
  then show "\<exists>s. live_step\<^sup>*\<^sup>* (mg_db m) s \<and> live_step\<^sup>*\<^sup>* s (mg_db m') \<and>
       (\<forall>c \<in> set (pg_FirstAdminCredentials s). \<forall>n \<ge> 0. cred_SerialHex c = SerialKey n \<and> replaced issuer (cr_Serial res) c \<longrightarrow>
          Denylisted (mg_rev m') (cred_IssuerSHA256 c) (cred_SerialHex c))"
    using a den unfolding db(2) by (meson rtranclp_trans)
qed


subsection \<open>Two submissions at once\<close>

text \<open>The earlier first admins are read before the new one is stored, in another transaction: when two submissions overlap, neither
  sees the other's record, and both certificates stay off the denylist.\<close>

theorem first_admin_race:
  assumes "\<And>st. be_fault (rg_env en) st = None"
    and "\<And>st db. be_others (rg_env en) st db = (if st = AtAdmin then pg_RecordFirstAdmin other at db else db)"
    and "pg_credentials (mg_db m) = []" and "rv_denylist (mg_rev m) = []"
    and "cred_SerialHex other \<noteq> cr_Serial res"
  shows "\<exists>cred m'. record_first_admin en issuer name res cert m = (Inr cred, m') \<and>
    (\<exists>x y. pg_FirstAdminCredentials (mg_db m') = [x, y] \<and> same_credential other x \<and> same_credential cred y \<and>
      \<not> Denylisted (mg_rev m') (cred_IssuerSHA256 x) (cred_SerialHex x) \<and> \<not> Denylisted (mg_rev m') (cred_IssuerSHA256 y) (cred_SerialHex y)) \<and>
    pg_denylist (mg_db m') = pg_denylist (mg_db m)"
proof -
  have q: "on_boot (interfere (rg_env en) AtFirstAdmins) m = m" by (simp add: on_boot_def interfere_def assms(2))
  have "supersede en issuer (cr_Serial res) (cr_Email res) m = (None, m)"
    by (simp add: supersede_def Let_def q assms(1,3) pg_FirstAdminCredentials_def)
  then show ?thesis
    using assms(3-5)
    by (simp add: record_first_admin_def Let_def assms(1,2) interfere_def pg_FirstAdminCredentials_def pg_RecordFirstAdmin_def same_credential_def
        first_admin_row_def Denylisted_def denied_def)
qed

subsection \<open>The offline reset\<close>

text \<open>The reset refuses, and changes nothing, while a manager holds the token lock or answers. Otherwise first run is open again with
  no session and no token, no operator CA is trusted, and the denylist, the CRLs and the recorded credentials are kept.\<close>

theorem Reset_guarded:
  "(fst (Reset en db aud) \<noteq> None \<longrightarrow> snd (Reset en db aud) = (db, aud)) \<and>
   (fst (Reset en db aud) = None \<longleftrightarrow> rs_lock en = Inr True \<and> \<not> rs_live en \<and> rs_fault en = None) \<and>
   (fst (Reset en db aud) = None \<longrightarrow>
      (\<exists>db' aud'. Reset en db aud = (None, db', aud') \<and> \<not> Closed (pg_latch db') \<and> pg_sessions db' = [] \<and> pg_tokens db' = [] \<and>
         map ca_SHA256 (pg_cas db') = map ca_SHA256 (pg_cas db) \<and> (\<forall>r \<in> set (pg_cas db'). \<not> trusted_state (ca_State r)) \<and>
         pg_denylist db' = pg_denylist db \<and> pg_crls db' = pg_crls db \<and> pg_credentials db' = pg_credentials db))"
  by (auto simp: Reset_def pg_ResetFirstRun_def Closed_def open_latch_def IsZero_def trusted_state_def state_defs
      split: sum.splits bool.splits option.splits)

subsection \<open>Examples\<close>

definition example_bsession :: string where "example_bsession = ''fos_bsess_x''"

definition example_ca_view :: x509_fields where
  "example_ca_view = example_view\<lparr>x_IsCA := True, x_KeyUsage := 32\<rparr>"

definition example_reg_lib :: cert_lib where
  "example_reg_lib = example_cert_lib\<lparr>cl_view := (\<lambda>c. if cert_Raw c = ''ca'' then example_ca_view else example_view),
     cl_parse := (\<lambda>der. Inr [if der = ''ca'' then example_ca\<lparr>cert_NotAfter := 1 + 40 * 24 * 60 * Minute\<rparr> else example_admin_cert])\<rparr>"

definition example_reg_env :: "int reg_env" where
  "example_reg_env = \<lparr>rg_env = example_boot_env, rg_lib = example_reg_lib, rg_nodeCAs = [], rg_fetch = (\<lambda>_. Inl None), rg_probe = None,
     rg_ticket = Some ''k'', rg_marshal = (\<lambda>s. Inr s), rg_audit = (\<lambda>_. example_entropy), rg_check = 1,
     rg_io = \<lparr>io_redact = id, io_now = 1, io_answer = Inl (OCSPUnreachable []), io_later = 1, io_end = 1\<rparr>\<rparr>"

definition example_former_admin :: operator_credential where
  "example_former_admin = \<lparr>cred_CommonName = ''bob'', cred_SerialHex = SerialKey 17, cred_Level = ''admin'', cred_NotAfter = [], cred_Revoked = False,
     cred_IssuerSHA256 = ''6361'', cred_Kind = OperatorCredentialFirstAdmin, cred_Email = ''bob'', cred_FullName = ''Bob'', cred_LeafSHA256 = [],
     cred_RequestID = [], cred_FirstSeenAt = 5, cred_LastSeenAt = 0\<rparr>"

definition example_reg_db :: pg_db where
  "example_reg_db = migrated\<lparr>
     pg_sessions := [\<lparr>ses_Hash = HashSecret id example_bsession, ses_CreatedAt = 900, ses_LastUsedAt = 950, ses_ExpiresAt = 2000, ses_EndedAt = 0,
       ses_EndedReason = []\<rparr>],
     pg_cas := [activated 900 (Some (HashSecret id example_bsession)) (example_opca ''6361'')],
     pg_credentials := [example_former_admin]\<rparr>"

definition example_empty_store :: TrustStore where
  "example_empty_store = example_store\<lparr>tr_gen := \<lparr>g_n = 1, g_pool = [], g_anchors = [], g_settings = [], g_ticket = ''k''\<rparr>\<rparr>"

definition example_mgr :: "int mgr" where
  "example_mgr = \<lparr>mg_boot = example_boot\<lparr>b_db := example_reg_db\<rparr>, mg_trust = example_empty_store, mg_rev = NewRevocations ''soft'' False, mg_events = []\<rparr>"

lemma example_admitted:
  "admit example_boot_env (mg_boot example_mgr) = (None, mg_boot example_mgr)"
  "\<exists>b. svc_session example_boot_env example_bsession (mg_boot example_mgr) = (Inr (HashSecret id example_bsession), b) \<and>
     b = (mg_boot example_mgr)\<lparr>b_db := b_db b\<rparr> \<and> pg_cas (b_db b) = pg_cas example_reg_db \<and> pg_credentials (b_db b) = pg_credentials example_reg_db \<and>
     pg_latch (b_db b) = open_latch \<and> pg_denylist (b_db b) = []"
proof -
  show "admit example_boot_env (mg_boot example_mgr) = (None, mg_boot example_mgr)"
    using example_boot_facts by (intro admit_quiet)
      (simp_all add: example_mgr_def has_first_run_def example_boot_env_def example_reg_db_def migrated_def open_latch_def Closed_def IsZero_def)
  show "\<exists>b. svc_session example_boot_env example_bsession (mg_boot example_mgr) = (Inr (HashSecret id example_bsession), b) \<and>
     b = (mg_boot example_mgr)\<lparr>b_db := b_db b\<rparr> \<and> pg_cas (b_db b) = pg_cas example_reg_db \<and> pg_credentials (b_db b) = pg_credentials example_reg_db \<and>
     pg_latch (b_db b) = open_latch \<and> pg_denylist (b_db b) = []"
    by (simp add: svc_session_def Let_def quiet_simps [OF example_env_ok(1)] example_bsession_def SessionPrefix_def example_mgr_def example_reg_db_def
        pg_BootstrapSession_def IsZero_def SessionIdle_def pg_TouchBootstrapSession_def migrated_def)
      (simp add: example_boot_env_def Minute_def Second_def)
qed

definition example_request :: reg_request where
  "example_request = \<lparr>rq_secret = example_bsession, rq_CaCertDer = ''ca'', rq_ConfirmSha256 = ''63:61'', rq_Acks = [''NO_CRL''],
     rq_CrlSource = NoSource, rq_OcspMode = ModeOther, rq_OcspUrl = []\<rparr>"

lemma example_marshal: "\<exists>section'. ExtfileSection (rg_marshal example_reg_env) ''admin'' = Inr section'"
  by (simp add: ExtfileSection_def MarshalLevelExtension_def MarshalLevelValue_def example_reg_env_def LevelFromToken_def)

definition example_registration :: registration where
  "example_registration = \<lparr>re_cert = example_ca\<lparr>cert_NotAfter := 1 + 40 * 24 * 60 * Minute\<rparr>, re_warnings = [],
     re_acks = [''NO_CRL''], re_crlSource = ''none'', re_crlURL = [], re_crl = None, re_ocspMode = ''aia'', re_ocspURL = []\<rparr>"

lemma example_upload: "check example_reg_env example_request = Inr example_registration"
proof -
  have "anchorKeyAllowed (ECDSA ''P-384'')" by (simp add: anchorKeyAllowed_def)
  then show ?thesis
    by (simp add: check_def example_request_def ParseAnchorUpload_def parseSingleCert_def example_reg_env_def example_reg_lib_def example_cert_lib_def
        MaxCertSize_def ValidateAnchor_def Let_def example_ca_view_def example_view_def example_ca_def has_usage_def KeyUsageCertSign_def
        minAnchorValidity_def matchingNodeCA_def check_crl_def ackNoCRL_def check_ocsp_def source_name_def
        example_registration_def)
qed

lemma example_rebuild:
  assumes "tr_kind (mg_trust m) = KindRegistered"
  shows "fst (rebuild example_reg_env m) = None"
  using assms by (simp add: rebuild_def Let_def split_beta Rebuild_def ts_load_def install_def read_result_def)
    (simp add: install_def example_reg_env_def example_boot_env_def)

lemma example_registers:
  obtains m' where "RegisterOperatorCA example_reg_env example_request example_mgr = (Inr (True, Some ''6361''), m')"
proof -
  obtain b where b: "svc_session example_boot_env example_bsession (mg_boot example_mgr) = (Inr (HashSecret id example_bsession), b)"
    and l: "pg_latch (b_db b) = open_latch" and c: "pg_cas (b_db b) = pg_cas example_reg_db" using example_admitted(2) by blast
  let ?reg = example_registration
  have re: "re_crl ?reg = None" by (simp add: example_registration_def)
  let ?m = "example_mgr\<lparr>mg_boot := b\<rparr>" and ?h = "HashSecret id example_bsession"
  have fp: "Fingerprint (pl_sha256 (cl_peer (rg_lib example_reg_env))) (re_cert ?reg) = ''6361''"
    using example_fingerprint by (simp add: example_reg_env_def example_reg_lib_def example_cert_lib_def example_peer_lib_def Fingerprint_def example_registration_def)
  have nf: "normalizeFingerprint (rq_ConfirmSha256 example_request) = ''6361''" by (simp add: example_request_def normalizeFingerprint_def) code_simp
  have sha: "ca_SHA256 (reg_row example_reg_env ?reg) = ''6361''" using fp by (simp add: reg_row_def)
  then have one: "upsert_ca False (activated 1000 (Some ?h) (reg_row example_reg_env ?reg)) (retire_others ''6361'' 1000 at (pg_cas (b_db b))) =
    [activated 1000 (Some ?h) (reg_row example_reg_env ?reg)]" for at
    by (simp add: c example_reg_db_def upsert_ca_def retire_others_def) (simp add: example_opca_def)
  have "cas_ok [activated 1000 (Some ?h) (reg_row example_reg_env ?reg)]"
    by (simp add: cas_ok_def with_state_def ca_row_ok_def activated_def ca_insert_def reg_row_def operator_ca.defs ca_row.defs default_mode_def
        example_registration_def)
  then have "\<exists>db. pg_RegisterFirstRunOperatorCA None 1000 (reg_row example_reg_env ?reg) ?h None (b_db b) = (Inr (), db)"
    using l by (simp add: pg_RegisterFirstRunOperatorCA_def lockOpen_def open_latch_def Closed_def IsZero_def change_cas_def sha one write_cas_def
        with_crl_def)
  then obtain db where db: "pg_RegisterFirstRunOperatorCA None 1000 (reg_row example_reg_env ?reg) ?h None (b_db b) = (Inr (), db)" by blast
  have "tr_kind (mg_trust (on_db (\<lambda>_. db) ?m)) = KindRegistered" by (simp add: example_mgr_def example_empty_store_def example_store_eq)
  then obtain m1 where rb: "rebuild example_reg_env (on_db (\<lambda>_. db) ?m) = (None, m1)" using example_rebuild by (metis prod.collapse)
  have env: "rg_env example_reg_env = example_boot_env" by (simp add: example_reg_env_def)
  have fields: "be_fault example_boot_env st = None" "be_now example_boot_env st = 1000" for st by (simp_all add: example_boot_env_def)
  have "\<exists>m'. store_registration example_reg_env ?h ?reg ?m = (Inr (True, Some ''6361''), m')"
    using db rb by (simp add: store_registration_def Let_def on_boot_def quiet_simps(3) [OF example_env_ok(1)] env fields reg_crl_def re sha)
  then show thesis
    using that b example_admitted(1) example_upload example_marshal fp nf
    by (auto simp: RegisterOperatorCA_def env Let_def example_request_def)
qed


text \<open>When the database answers, superseding and recording succeed.\<close>

lemma Deny_quiet: "quiet (rg_env en) \<Longrightarrow> fst (fst (Deny (deny_trust en k) now e db r)) = None"
  by (simp add: deny_trust_def Deny_def Let_def split_trust_write split_trust_read pg_AddOperatorDenylistEntry_def quiet_simps reloadDenylist_def read_result_def)

lemma supersede_loop_quiet: "quiet (rg_env en) \<Longrightarrow> fst (supersede_loop en issuer serial email k cs m) = None"
proof (induction cs arbitrary: k m)
  case (Cons c cs)
  then show ?case using Deny_quiet [OF Cons.prems] by (simp add: Let_def split_beta)
qed simp

lemma record_quiet:
  assumes "quiet (rg_env en)"
  shows "fst (record_first_admin en issuer name res cert m) = Inr (first_admin_row (pl_sha256 (cl_peer (rg_lib en))) issuer name res cert)"
proof -
  have "fst (supersede en issuer (cr_Serial res) (cr_Email res) m) = None"
    using assms supersede_loop_quiet [OF assms] by (simp add: supersede_def Let_def quiet_simps)
  then show ?thesis using assms by (simp add: record_first_admin_def Let_def quiet_simps split_beta)
qed

definition example_result :: CertResult where
  "example_result = \<lparr>cr_Level = LevelAdmin, cr_Email = ''ann@x.io'', cr_Serial = SerialKey 4660, cr_Warnings = []\<rparr>"

lemma example_accepted:
  assumes "cc_Now c = 1" and "cc_WantLevel c = ''admin''" and "cc_CSR c = None" and "check_revoked example_reg_lib c example_admin_cert example_ca = None"
  shows "CheckOperatorCert example_reg_lib c example_admin_cert example_ca = Inr example_result"
proof -
  have same: "cl_view example_reg_lib example_admin_cert = cl_view example_cert_lib example_admin_cert" "cl_verify example_reg_lib = (\<lambda>_ _ _. None)"
    "cl_asn1 example_reg_lib = cl_asn1 example_cert_lib" "subject_email example_reg_lib = subject_email example_cert_lib"
    by (simp_all add: example_reg_lib_def example_cert_lib_def example_admin_cert_def example_cert_def subject_email_def emailFromSubject_def fun_eq_iff)
  have "check_usages example_reg_lib example_admin_cert = check_usages example_cert_lib example_admin_cert"
    "check_key example_reg_lib c example_admin_cert = check_key example_cert_lib example_check example_admin_cert"
    using assms(1,3) by (simp_all add: check_usages_def check_key_def same Let_def has_usage_def example_check_def)
  then show ?thesis
    using example_checked assms unfolding CheckOperatorCert_Inr same by (simp add: example_result_def example_check_def)
qed

definition example_admin_request :: admin_request where
  "example_admin_request = \<lparr>ar_secret = example_bsession, ar_FullName = ''Ann'', ar_CertDer = ''leaf'', ar_CsrDer = []\<rparr>"

lemma example_live:
  assumes "mget (rv_anchors r) ''6361'' = Some st" and "st_crl st = None" and "rv_denylist r = []" and "rv_ocsp r = None" and "rv_policy r = ''soft''"
  shows "fst (CheckWebCert io ''6361'' leaf r r) = None" "\<not> IsRevoked r ''6361'' serial"
  using assms by (simp_all add: CheckWebCert_def checkWeb_def Let_def revokedLocked_def IsRevoked_def denied_def responderFor_def web_without_ocsp_def
      PolicyHard_def split_beta)

lemma example_first_admin:
  assumes "mget (rv_anchors (mg_rev m)) ''6361'' = Some st" and "st_crl st = None" and "rv_denylist (mg_rev m) = []" and "rv_ocsp (mg_rev m) = None"
    and "rv_policy (mg_rev m) = ''soft''"
  shows "fst (checkFirstAdmin example_reg_env example_admin_request example_ca m) = Inr (example_result, example_admin_cert)"
proof -
  note live = example_live [OF assms]
  have fp: "Fingerprint (pl_sha256 (cl_peer example_reg_lib)) example_ca = ''6361''"
    using example_fingerprint by (simp add: example_reg_lib_def example_cert_lib_def example_peer_lib_def)
  have name: "ValidateFullName ''Ann'' = None" by (simp add: ValidateFullName_def maxFullNameLength_def IsControl_def)
  have leaf: "parseLeaf example_reg_lib ''leaf'' = Inr example_admin_cert"
    by (simp add: parseLeaf_def MaxCertSize_def example_reg_lib_def)
  have "CheckOperatorCert example_reg_lib \<lparr>cc_Now = 1, cc_WantLevel = ''admin'', cc_CSR = None, cc_Revoked = Some (IsRevoked (mg_rev m)),
      cc_CheckRevocation = f\<rparr> example_admin_cert example_ca = Inr example_result"
    if "f = None \<or> f = Some (\<lambda>sha leaf. fst (CheckWebCert io sha leaf (mg_rev m) (mg_rev m)))" for f io
    using that live by (intro example_accepted) (auto simp: check_revoked_def Let_def fp)
  then show ?thesis
    using name leaf by (simp add: checkFirstAdmin_def example_admin_request_def example_reg_env_def Let_def split_beta)
qed

lemma example_rebuilt:
  assumes "pg_cas (b_db b) = pg_cas example_reg_db"
  shows "\<exists>m1 st. rebuild example_reg_env (example_mgr\<lparr>mg_boot := b\<rparr>) = (None, m1) \<and> mg_boot m1 = b \<and>
    mget (rv_anchors (mg_rev m1)) ''6361'' = Some st \<and> st_crl st = None \<and> rv_denylist (mg_rev m1) = [] \<and> rv_ocsp (mg_rev m1) = None \<and>
    rv_policy (mg_rev m1) = ''soft''"
proof -
  let ?a = "row_anchor (operator_ca.truncate (activated 900 (Some (HashSecret id example_bsession)) (example_opca ''6361''))) example_ca"
  have sha: "an_SHA256 ?a = ''6361''" by (simp add: row_anchor_def operator_ca.defs example_opca_def activated_def ca_insert_def)
  have rows: "load_rows example_peer_lib (pg_OperatorCAs (b_db b)) = [?a]"
    using example_fingerprint
    by (simp add: assms example_reg_db_def pg_OperatorCAs_def example_peer_lib_def operator_ca.defs activated_def ca_insert_def)
      (simp add: example_opca_def)
  have set: "settingsOf [?a] \<noteq> []" by (simp add: settingsOf_def settings_part_def)
  have lib: "cl_peer (rg_lib example_reg_env) = example_peer_lib" "rg_env example_reg_env = example_boot_env" "rg_ticket example_reg_env = Some ''k''"
    by (simp_all add: example_reg_env_def example_reg_lib_def example_cert_lib_def)
  have mgr: "tr_kind (mg_trust example_mgr) = KindRegistered" "g_settings (tr_gen (mg_trust example_mgr)) = []" "mg_rev example_mgr = NewRevocations ''soft'' False"
    by (simp_all add: example_mgr_def example_empty_store_def example_store_eq)
  have "\<exists>t. rebuild example_reg_env (example_mgr\<lparr>mg_boot := b\<rparr>) =
      (None, example_mgr\<lparr>mg_boot := b, mg_trust := t, mg_rev := SetAnchors [?a] (NewRevocations ''soft'' False)\<rparr>)"
    using rows set
    by (simp add: rebuild_def Let_def on_boot_def Rebuild_def ts_load_def mgr lib quiet_simps [OF example_env_ok(1)] read_result_def install_def)
      blast
  moreover have "SetAnchors [?a] (NewRevocations ''soft'' False) = (NewRevocations ''soft'' False)\<lparr>rv_anchors := [(''6361'', next_state (NewRevocations ''soft'' False) ?a)]\<rparr>"
    by (simp add: SetAnchors_def set_anchor_def Let_def sha NewRevocations_def moved_def)
  moreover have "st_crl (next_state (NewRevocations ''soft'' False) ?a) = None"
    by (simp add: next_state_def NewRevocations_def new_anchor_state_def moved_def Let_def)
  ultimately show ?thesis by (auto simp: NewRevocations_def)
qed

lemma example_submitted:
  obtains m' cred where "SubmitFirstAdminCertificate example_reg_env example_admin_request example_mgr = (Inr cred, m')"
proof -
  obtain b where b: "svc_session example_boot_env example_bsession (mg_boot example_mgr) = (Inr (HashSecret id example_bsession), b)"
    and c: "pg_cas (b_db b) = pg_cas example_reg_db" using example_admitted(2) by blast
  obtain m1 st where r: "rebuild example_reg_env (example_mgr\<lparr>mg_boot := b\<rparr>) = (None, m1)" "mg_boot m1 = b"
    and st: "mget (rv_anchors (mg_rev m1)) ''6361'' = Some st" "st_crl st = None" "rv_denylist (mg_rev m1) = []" "rv_ocsp (mg_rev m1) = None"
      "rv_policy (mg_rev m1) = ''soft''"
    using example_rebuilt [OF c] by blast
  have env: "rg_env example_reg_env = example_boot_env" "rg_lib example_reg_env = example_reg_lib" by (simp_all add: example_reg_env_def)
  let ?row = "operator_ca.truncate (activated 900 (Some (HashSecret id example_bsession)) (example_opca ''6361''))"
  have sha: "ca_SHA256 ?row = ''6361''" by (simp add: operator_ca.defs example_opca_def activated_def ca_insert_def)
  have a: "activeCA example_boot_env b = (Some ?row, b)"
    using c by (simp add: activeCA_def Let_def quiet_simps [OF example_env_ok(1)] pg_OperatorCAs_def example_reg_db_def operator_ca.defs)
  have by': "pg_OperatorCAConfirmedBy ''6361'' (b_db b) = Inr (HashSecret id example_bsession)"
    using c by (simp add: pg_OperatorCAConfirmedBy_def example_reg_db_def example_opca_def activated_def ca_insert_def operator_ca.defs ca_row.defs)
  have p: "pl_parse (cl_peer example_reg_lib) der = Inr example_ca" for der by (simp add: example_reg_lib_def example_cert_lib_def example_peer_lib_def)
  have m1: "m1\<lparr>mg_boot := b\<rparr> = m1" using r(2) by simp
  obtain m2 where "checkFirstAdmin example_reg_env example_admin_request example_ca m1 = (Inr (example_result, example_admin_cert), m2)"
    using example_first_admin [OF st] by (metis prod.collapse)
  then have "first_admin_checks example_reg_env example_admin_request (HashSecret id example_bsession) (example_mgr\<lparr>mg_boot := b\<rparr>) =
      (Inr (''6361'', example_result, example_admin_cert), m2)"
    using r a by' p by (simp add: first_admin_checks_def Let_def on_boot_def quiet_simps [OF example_env_ok(1)] env sha m1)
  moreover obtain m' where "record_first_admin example_reg_env ''6361'' ''Ann'' example_result example_admin_cert m2 =
      (Inr (first_admin_row (pl_sha256 (cl_peer example_reg_lib)) ''6361'' ''Ann'' example_result example_admin_cert), m')"
    using record_quiet [of example_reg_env] example_env_ok(1) env by (metis prod.collapse)
  ultimately show thesis
    using that b example_admitted(1) by (simp add: SubmitFirstAdminCertificate_def env example_admin_request_def)
qed


end
