(* ===== verification/Fleet_Base.thy ===== *)
theory Fleet_Base
  imports Credential_Store Bootstrap_Register
begin

text \<open>
  What the handlers of \<^verbatim>\<open>internal/fleet\<close> share: the caller's level, the errors they return, the state they work on
  and the audit row they write. The texts of messages and log lines are left out. A handler that uses the database more
  than once does so at numbered sites: before each, other processes act on the database (\<open>fe_others\<close>), and each
  access may fail (\<open>fe_fault\<close>).
\<close>

subsection \<open>Errors\<close>

datatype rpc_code = Unauthenticated | PermissionDenied | InvalidArgument | FailedPrecondition | NotFoundCode | AlreadyExists | InternalCode

type_synonym rpc_error = "rpc_code \<times> refusal option"

definition CodeOperatorCAUnconfigured :: nat where "CodeOperatorCAUnconfigured = 1400"
definition CodeOperatorCAManagedByConfig :: nat where "CodeOperatorCAManagedByConfig = 1607"
definition CodeOperatorCAInUse :: nat where "CodeOperatorCAInUse = 1609"
definition CodeRequestInvalid :: nat where "CodeRequestInvalid = 1611"

definition Coded :: "nat \<Rightarrow> refusal" where
  "Coded code = \<lparr>rf_Code = code, rf_Reason = REASON_UNSPECIFIED, rf_Cause = []\<rparr>"

definition errOperatorCAUnconfigured :: rpc_error where
  "errOperatorCAUnconfigured = (FailedPrecondition, Some (Coded CodeOperatorCAUnconfigured))"

definition invalidArg :: rpc_error where
  "invalidArg = (InvalidArgument, None)"

subsection \<open>The caller\<close>

definition operatorLevel :: "ctx \<Rightarrow> rpc_error + identity" where
  "operatorLevel c = (case FromContext c of None \<Rightarrow> Inl (Unauthenticated, None) | Some i \<Rightarrow> Inr i)"

definition requireAdmin :: "ctx \<Rightarrow> rpc_error option" where
  "requireAdmin c =
     (case operatorLevel c of Inl e \<Rightarrow> Some e | Inr i \<Rightarrow> if Level i < LevelAdmin then Some (PermissionDenied, None) else None)"

text \<open>The two checks an admin handler starts with.\<close>

definition admin_caller :: "ctx \<Rightarrow> rpc_error + identity" where
  "admin_caller c = (case operatorLevel c of Inl e \<Rightarrow> Inl e | Inr i \<Rightarrow> (case requireAdmin c of Some e \<Rightarrow> Inl e | None \<Rightarrow> Inr i))"

subsection \<open>Environment and state\<close>

text \<open>
  \<open>fe_order\<close> is the order in which Go walks a map. \<open>fe_now\<close> numbers the readings of the clock. \<open>fe_issuer\<close> is
  \<^verbatim>\<open>RawIssuer\<close> of a certificate.
\<close>

record fleet_env =
  fe_ctx :: ctx
  fe_now :: "nat \<Rightarrow> gotime"
  fe_clk :: gotime
  fe_lib :: cert_lib
  fe_uuid :: uuid_lib
  fe_newid :: string
  fe_audit :: entropy
  fe_fault :: "nat \<Rightarrow> string option"
  fe_others :: "nat \<Rightarrow> cred_db \<Rightarrow> cred_db"
  fe_io :: ocsp_io
  fe_marshal :: "string \<Rightarrow> string + bytes"
  fe_issuer :: "certificate \<Rightarrow> bytes"
  fe_order :: "Anchor list \<Rightarrow> Anchor list"
  fe_ticket :: "bytes option"
  fe_nodeCAs :: "certificate list"
  fe_fetch :: "(string \<Rightarrow> refusal option + bytes) option"
  fe_probe :: "(certificate \<Rightarrow> string \<Rightarrow> refusal + OCSPResult) option"

text \<open>
  \<open>fl_configured\<close>: the trust store and the revocation engine were supplied. \<open>fl_pg\<close> is the Postgres store of
  operator trust and credentials, absent with the in-memory store; \<open>fl_mem\<close> holds the audit log and, without Postgres, the rest.
\<close>

record fleet =
  fl_configured :: bool
  fl_pg :: "cred_db option"
  fl_mem :: mem_store
  fl_trust :: TrustStore
  fl_rev :: Revocations
  fl_events :: "audit_event list"

definition site :: "fleet_env \<Rightarrow> nat \<Rightarrow> fleet \<Rightarrow> fleet" where
  "site en k f = f\<lparr>fl_pg := map_option (fe_others en k) (fl_pg f)\<rparr>"

definition hasOperatorCA :: "fleet \<Rightarrow> bool" where
  "hasOperatorCA f \<longleftrightarrow> fl_configured f \<and> (tr_kind (fl_trust f) = KindFile \<or> tr_kind (fl_trust f) = KindRegistered)"

definition fl_anchors :: "fleet_env \<Rightarrow> fleet \<Rightarrow> Anchor list" where
  "fl_anchors en f = fe_order en (ts_Anchors (fl_trust f))"

definition fl_credentials :: "fleet \<Rightarrow> operator_credential list" where
  "fl_credentials f = (case fl_pg f of None \<Rightarrow> OperatorCredentials (fl_mem f) | Some s \<Rightarrow> cq_credentials s)"

definition fl_record :: "fleet_env \<Rightarrow> gotime \<Rightarrow> string \<Rightarrow> string \<Rightarrow> string \<Rightarrow> string \<Rightarrow> fleet \<Rightarrow> fleet" where
  "fl_record en at kind summary tkind tpath f =
     f\<lparr>fl_mem := snd (Record (fe_audit en) (fe_ctx en) (zero_event\<lparr>ev_ID := NewID (rand16 (fe_audit en)), ev_At := rfc3339 at, ev_Kind := kind,
        ev_Summary := summary, ev_TargetKind := tkind, ev_TargetPath := tpath\<rparr>) (fl_mem f))\<rparr>"

text \<open>A call on the store of credentials. The in-memory store refuses each of them.\<close>

definition cred_call :: "'a \<Rightarrow> (cred_db \<Rightarrow> 'a \<times> cred_db) \<Rightarrow> fleet \<Rightarrow> 'a \<times> fleet" where
  "cred_call refused call f =
     (case fl_pg f of
        None \<Rightarrow> (refused, f)
      | Some s \<Rightarrow> (let (x, s) = call s in (x, f\<lparr>fl_pg := Some s\<rparr>)))"

text \<open>Other processes take steps on the database, a walk over a map visits its entries, and the canonical form of a UUID is itself one.\<close>

definition fleet_ok :: "fleet_env \<Rightarrow> bool" where
  "fleet_ok en \<longleftrightarrow> (\<forall>k s. (cred_step (fe_uuid en))\<^sup>*\<^sup>* s (fe_others en k s)) \<and> (\<forall>as. set (fe_order en as) = set as) \<and>
     (\<forall>i u. u_cast (fe_uuid en) i = Some u \<longrightarrow> u \<noteq> [] \<and> u_cast (fe_uuid en) u = Some u)"

subsection \<open>Lemmas\<close>

lemma admin_caller_Inr: "admin_caller c = Inr i \<longleftrightarrow> FromContext c = Some i \<and> Level i \<ge> LevelAdmin"
  by (auto simp: admin_caller_def requireAdmin_def operatorLevel_def not_less split: option.splits if_split_asm)

lemma admin_caller_below:
  "FromContext c = Some i \<Longrightarrow> Level i < LevelAdmin \<Longrightarrow> admin_caller c = Inl (PermissionDenied, None)"
  "FromContext c = None \<Longrightarrow> admin_caller c = Inl (Unauthenticated, None)"
  by (simp_all add: admin_caller_def requireAdmin_def operatorLevel_def)

lemma fl_record_simps [simp]:
  "fl_pg (fl_record en at k s t p f) = fl_pg f" "fl_rev (fl_record en at k s t p f) = fl_rev f" "fl_trust (fl_record en at k s t p f) = fl_trust f"
  "fl_configured (fl_record en at k s t p f) = fl_configured f"
  by (simp_all add: fl_record_def)

lemma site_simps [simp]:
  "fl_pg (site en k f) = map_option (fe_others en k) (fl_pg f)" "fl_rev (site en k f) = fl_rev f" "fl_trust (site en k f) = fl_trust f"
  "fl_configured (site en k f) = fl_configured f" "fl_mem (site en k f) = fl_mem f" "hasOperatorCA (site en k f) = hasOperatorCA f"
  by (simp_all add: site_def hasOperatorCA_def)

end
