(* ===== verification/Credential_Rpcs.thy ===== *)
theory Credential_Rpcs
  imports Fleet_Base
begin

text \<open>
  The handlers for operator credentials: requests for them and their recording (\<^verbatim>\<open>fleet/credreqs.go\<close>), and
  listing and revoking them (\<^verbatim>\<open>fleet/operators.go\<close>). Rendering as protocol messages is left out.
\<close>

subsection \<open>Requests\<close>

definition requestLifetime :: duration where "requestLifetime = 30 * 24 * 60 * Minute"
definition maxCertSize :: nat where "maxCertSize = 8192"

fun credStoreErr :: "cred_error \<Rightarrow> rpc_error" where
  "credStoreErr CredDatabaseRequired = (FailedPrecondition, Some (Reasoned CodeUnavailable DATABASE_REQUIRED []))"
| "credStoreErr RequestNotFound = (NotFoundCode, Some (Reasoned CodeRequestInvalid NOT_FOUND []))"
| "credStoreErr CredentialRecorded = (AlreadyExists, Some (Reasoned CodeCertRejected DUPLICATE []))"
| "credStoreErr _ = (InternalCode, None)"

definition requestStateErr :: "OperatorCredentialRequest \<Rightarrow> rpc_error" where
  "requestStateErr r = (FailedPrecondition, Some (Reasoned CodeRequestInvalid (if ocr_State r = RequestExpired then EXPIRED else NOT_PENDING) []))"

record create_request =
  cq_Level :: string
  cq_Email :: string
  cq_FullName :: string
  cq_CsrDer :: bytes

record create_response =
  cs_RequestId :: string
  cs_CsrDer :: bytes
  cs_ExtfileSection :: string
  cs_OpensslCommand :: string
  cs_ExpiresAt :: string

definition new_request :: "fleet_env \<Rightarrow> identity \<Rightarrow> create_request \<Rightarrow> string \<Rightarrow> OperatorCredentialRequest" where
  "new_request en i q email =
     \<lparr>ocr_ID = fe_newid en, ocr_Level = cq_Level q, ocr_Email = email, ocr_FullName = cq_FullName q, ocr_CSRDER = Some (cq_CsrDer q),
      ocr_State = RequestPending, ocr_CreatedByCN = CN i, ocr_CreatedAt = fe_now en 0, ocr_ExpiresAt = fe_now en 0 + requestLifetime,
      ocr_CompletedSerial = []\<rparr>"

definition CreateOperatorCredentialRequest :: "fleet_env \<Rightarrow> create_request \<Rightarrow> fleet \<Rightarrow> (rpc_error + create_response) \<times> fleet" where
  "CreateOperatorCredentialRequest en q f =
     (case admin_caller (fe_ctx en) of
        Inl e \<Rightarrow> (Inl e, f)
      | Inr i \<Rightarrow>
          (case LevelFromToken (cq_Level q) of
             Inl _ \<Rightarrow> (Inl invalidArg, f)
           | Inr _ \<Rightarrow>
               if ValidateFullName (cq_FullName q) \<noteq> None then (Inl invalidArg, f)
               else if \<not> hasOperatorCA f then (Inl errOperatorCAUnconfigured, f)
               else case CheckCSR (fe_lib en) (cq_CsrDer q) of
                 Inl e \<Rightarrow> (Inl (InvalidArgument, Some e), f)
               | Inr (_, csr_email) \<Rightarrow>
                   (let email = map lower_char (cq_Email q)
                    in if csr_email \<noteq> email then (Inl (InvalidArgument, Some (Reasoned CodeCSRRejected SUBJECT_MISMATCH [])), f)
                       else case ExtfileSection (fe_marshal en) (cq_Level q) of
                         Inl _ \<Rightarrow> (Inl (InternalCode, None), f)
                       | Inr sec \<Rightarrow>
                           (let r = new_request en i q email
                            in case cred_call (Inl CredDatabaseRequired) (pg_AddOperatorCredentialRequest (fe_uuid en) (fe_fault en 0) r) (site en 0 f) of
                                 (Inl e, f) \<Rightarrow> (Inl (credStoreErr e), f)
                               | (Inr _, f) \<Rightarrow>
                                   (Inr \<lparr>cs_RequestId = ocr_ID r, cs_CsrDer = cq_CsrDer q, cs_ExtfileSection = sec,
                                      cs_OpensslCommand = SignCommand (cq_Level q) email, cs_ExpiresAt = rfc3339 (ocr_ExpiresAt r)\<rparr>,
                                    fl_record en (fe_now en 0) ''operator-credential-requested''
                                      (''Requested a '' @ cq_Level q @ '' operator credential for '' @ email @ '' (request '' @ ocr_ID r @
                                       ''), to be signed by the operator CA'')
                                      ''operator-credential-request'' (''/operators/requests/'' @ ocr_ID r) f)))))"

definition ListOperatorCredentialRequests :: "fleet_env \<Rightarrow> string \<Rightarrow> fleet \<Rightarrow> (rpc_error + OperatorCredentialRequest list) \<times> fleet" where
  "ListOperatorCredentialRequests en state f =
     (case operatorLevel (fe_ctx en) of
        Inl e \<Rightarrow> (Inl e, f)
      | Inr i \<Rightarrow>
          if Level i < LevelOperator then (Inl (PermissionDenied, None), f)
          else if state \<notin> {[], RequestPending, RequestCompleted, RequestCancelled, RequestExpired} then (Inl invalidArg, f)
          else if \<not> hasOperatorCA f then (Inl errOperatorCAUnconfigured, f)
          else case cred_call (Inl CredDatabaseRequired) (pg_OperatorCredentialRequests (fe_fault en 0) state (fe_now en 0)) (site en 0 f) of
            (Inl e, f) \<Rightarrow> (Inl (credStoreErr e), f)
          | (Inr rs, f) \<Rightarrow> (Inr rs, f))"

definition fleet_CancelOperatorCredentialRequest :: "fleet_env \<Rightarrow> string \<Rightarrow> fleet \<Rightarrow> (rpc_error + OperatorCredentialRequest) \<times> fleet" where
  "fleet_CancelOperatorCredentialRequest en rid f =
     (case admin_caller (fe_ctx en) of
        Inl e \<Rightarrow> (Inl e, f)
      | Inr i \<Rightarrow>
          (case cred_call (Inl (CredDatabaseRequired, None))
                  (pg_CancelOperatorCredentialRequest (fe_uuid en) (fe_fault en 0) rid (fe_now en 0)) (site en 0 f) of
             (Inl (RequestNotPending, Some r), f) \<Rightarrow> (Inl (requestStateErr r), f)
           | (Inl (e, _), f) \<Rightarrow> (Inl (credStoreErr e), f)
           | (Inr r, f) \<Rightarrow>
               (Inr r, fl_record en (fe_now en 0) ''operator-credential-request-cancelled''
                  (''Cancelled the '' @ ocr_Level r @ '' operator credential request for '' @ ocr_Email r @ '' (request '' @ ocr_ID r @ '')'')
                  ''operator-credential-request'' (''/operators/requests/'' @ ocr_ID r) f)))"

subsection \<open>Recording\<close>

record record_request =
  rr_CertDer :: bytes
  rr_FullName :: string
  rr_RequestId :: string

text \<open>The pending request named by the call, with its CSR.\<close>

definition read_request ::
  "fleet_env \<Rightarrow> string \<Rightarrow> fleet \<Rightarrow> (rpc_error + (OperatorCredentialRequest \<times> csr) option) \<times> fleet" where
  "read_request en rid f =
     (if rid = [] then (Inr None, f)
      else case cred_call (Inl CredDatabaseRequired) (pg_OperatorCredentialRequest (fe_uuid en) (fe_fault en 0) rid (fe_now en 0)) (site en 0 f) of
        (Inl e, f) \<Rightarrow> (Inl (credStoreErr e), f)
      | (Inr r, f) \<Rightarrow>
          if ocr_State r \<noteq> RequestPending then (Inl (requestStateErr r), f)
          else (case cl_csr (fe_lib en) (case ocr_CSRDER r of None \<Rightarrow> [] | Some der \<Rightarrow> der) of
                  Inl _ \<Rightarrow> (Inl (InternalCode, None), f)
                | Inr csr \<Rightarrow> (Inr (Some (r, csr)), f)))"

definition signed_by :: "fleet_env \<Rightarrow> certificate \<Rightarrow> Anchor \<Rightarrow> bool" where
  "signed_by en cert a \<longleftrightarrow> fe_issuer en cert = cert_RawSubject (an_Cert a) \<and> cl_signed (fe_lib en) cert (an_Cert a)"

text \<open>The loop stops at the first CA that signed the certificate; \<open>active\<close> is the first active one passed over.\<close>

fun signing_loop :: "fleet_env \<Rightarrow> certificate \<Rightarrow> Anchor option \<Rightarrow> Anchor list \<Rightarrow> refusal + Anchor" where
  "signing_loop en cert active [] =
     (case active of None \<Rightarrow> Inl (Reasoned CodeCertRejected NOT_CHAINED []) | Some a \<Rightarrow> Inr a)"
| "signing_loop en cert active (a # as) =
     (if \<not> signed_by en cert a
      then signing_loop en cert (if active = None \<and> an_State a = OperatorCAActive then Some a else active) as
      else if an_State a \<noteq> OperatorCAActive then Inl (Reasoned CodeCertRejected NOT_ACTIVE_ANCHOR [])
      else Inr a)"

definition signingAnchor :: "fleet_env \<Rightarrow> certificate \<Rightarrow> fleet \<Rightarrow> refusal + Anchor" where
  "signingAnchor en cert f = signing_loop en cert None (fl_anchors en f)"

text \<open>The profile with the live revocation decision last: only when it is reached does the engine change.\<close>

definition check_live ::
  "fleet_env \<Rightarrow> CertCheck \<Rightarrow> certificate \<Rightarrow> certificate \<Rightarrow> fleet \<Rightarrow> (refusal + CertResult) \<times> fleet" where
  "check_live en c cert anchor f =
     (let r = fl_rev f;
          live = (\<lambda>sha leaf. CheckWebCert (fe_io en) sha leaf r r);
          (_, ev, r') = live (Fingerprint (pl_sha256 (cl_peer (fe_lib en))) anchor) cert
      in case CheckOperatorCert (fe_lib en) (c\<lparr>cc_Revoked := Some (IsRevoked r), cc_CheckRevocation := None\<rparr>) cert anchor of
           Inl e \<Rightarrow> (Inl e, f)
         | Inr _ \<Rightarrow>
             (CheckOperatorCert (fe_lib en)
                (c\<lparr>cc_Revoked := Some (IsRevoked r), cc_CheckRevocation := Some (\<lambda>sha leaf. fst (live sha leaf))\<rparr>) cert anchor,
              f\<lparr>fl_rev := r', fl_events := fl_events f @ ev\<rparr>))"

definition recorded_row :: "fleet_env \<Rightarrow> Anchor \<Rightarrow> OperatorCredentialRequest option \<Rightarrow> string \<Rightarrow> CertResult \<Rightarrow> certificate \<Rightarrow> operator_credential" where
  "recorded_row en a req name res cert =
     \<lparr>cred_CommonName = cr_Email res, cred_SerialHex = cr_Serial res, cred_Level = Token (cr_Level res),
      cred_NotAfter = rfc3339 (cert_NotAfter cert), cred_Revoked = False, cred_IssuerSHA256 = an_SHA256 a,
      cred_Kind = (if req = None then OperatorCredentialRecorded else OperatorCredentialRequested), cred_Email = cr_Email res, cred_FullName = name,
      cred_LeafSHA256 = Fingerprint (pl_sha256 (cl_peer (fe_lib en))) cert, cred_RequestID = (case req of None \<Rightarrow> [] | Some r \<Rightarrow> ocr_ID r),
      cred_FirstSeenAt = 0, cred_LastSeenAt = 0\<rparr>"

definition zero_request :: OperatorCredentialRequest where
  "zero_request = \<lparr>ocr_ID = [], ocr_Level = [], ocr_Email = [], ocr_FullName = [], ocr_CSRDER = None, ocr_State = [], ocr_CreatedByCN = [],
     ocr_CreatedAt = 0, ocr_ExpiresAt = 0, ocr_CompletedSerial = []\<rparr>"

definition store_credential ::
  "fleet_env \<Rightarrow> operator_credential \<Rightarrow> string \<Rightarrow> fleet \<Rightarrow> (rpc_error + unit) \<times> fleet" where
  "store_credential en cred rid f =
     (case cred_call (Inl CredDatabaseRequired) (pg_RecordOperatorCredential (fe_uuid en) (fe_fault en 1) cred rid (fe_now en 0)) (site en 1 f) of
        (Inl RequestNotPending, f) \<Rightarrow>
          (case cred_call (Inl CredDatabaseRequired) (pg_OperatorCredentialRequest (fe_uuid en) (fe_fault en 2) rid (fe_now en 0)) (site en 2 f) of
             (Inl _, f) \<Rightarrow> (Inl (requestStateErr zero_request), f)
           | (Inr r, f) \<Rightarrow> (Inl (requestStateErr r), f))
      | (Inl e, f) \<Rightarrow> (Inl (credStoreErr e), f)
      | (Inr _, f) \<Rightarrow> (Inr (), f))"

definition record_checked ::
  "fleet_env \<Rightarrow> certificate \<Rightarrow> string \<Rightarrow> (OperatorCredentialRequest \<times> csr) option \<Rightarrow> fleet \<Rightarrow> (rpc_error + operator_credential) \<times> fleet" where
  "record_checked en cert name req f =
     (case signingAnchor en cert f of
        Inl e \<Rightarrow> (Inl (InvalidArgument, Some e), f)
      | Inr a \<Rightarrow>
          if (case req of None \<Rightarrow> False | Some (r, _) \<Rightarrow> map lower_char (cert_CommonName cert) \<noteq> ocr_Email r)
          then (Inl (InvalidArgument, Some (Reasoned CodeCertRejected SUBJECT_MISMATCH [])), f)
          else case check_live en \<lparr>cc_Now = fe_now en 0, cc_WantLevel = (case req of None \<Rightarrow> [] | Some (r, _) \<Rightarrow> ocr_Level r),
                 cc_CSR = map_option snd req, cc_Revoked = None, cc_CheckRevocation = None\<rparr> cert (an_Cert a) f of
            (Inl e, f) \<Rightarrow> (Inl (if rf_Code e = CodeNoRevocationSource then FailedPrecondition else InvalidArgument, Some e), f)
          | (Inr res, f) \<Rightarrow>
              (let cred = recorded_row en a (map_option fst req) name res cert
               in case store_credential en cred (cred_RequestID cred) f of
                    (Inl e, f) \<Rightarrow> (Inl e, f)
                  | (Inr _, f) \<Rightarrow>
                      (Inr cred, fl_record en (fe_now en 0) ''operator-credential-recorded''
                         (''Recorded '' @ cred_Level cred @ '' operator credential '' @ cred_SerialHex cred @ '' for '' @ cred_Email cred @
                          '', signed by operator CA '' @ cred_IssuerSHA256 cred @ '', expiring '' @ cred_NotAfter cred @
                          (case req of None \<Rightarrow> [] | Some (r, _) \<Rightarrow> '', completing request '' @ ocr_ID r))
                         ''operator-credential'' (''/operators/'' @ cred_SerialHex cred) f)))"

definition RecordOperatorCredential :: "fleet_env \<Rightarrow> record_request \<Rightarrow> fleet \<Rightarrow> (rpc_error + operator_credential) \<times> fleet" where
  "RecordOperatorCredential en q f =
     (case admin_caller (fe_ctx en) of
        Inl e \<Rightarrow> (Inl e, f)
      | Inr i \<Rightarrow>
          if rr_CertDer q = [] \<or> length (rr_CertDer q) > maxCertSize then (Inl invalidArg, f)
          else case pl_parse (cl_peer (fe_lib en)) (rr_CertDer q) of
            Inl _ \<Rightarrow> (Inl invalidArg, f)
          | Inr cert \<Rightarrow>
              if rr_FullName q \<noteq> [] \<and> ValidateFullName (rr_FullName q) \<noteq> None
              then (Inl (InvalidArgument, Some (Reasoned CodeCertRejected FULL_NAME [])), f)
              else if \<not> hasOperatorCA f then (Inl errOperatorCAUnconfigured, f)
              else case read_request en (rr_RequestId q) f of
                (Inl e, f) \<Rightarrow> (Inl e, f)
              | (Inr req, f) \<Rightarrow>
                  record_checked en cert (if rr_FullName q = [] then (case req of None \<Rightarrow> [] | Some (r, _) \<Rightarrow> ocr_FullName r) else rr_FullName q) req f)"

subsection \<open>Revoking and listing\<close>

definition maxSerialHex :: nat where "maxSerialHex = 80"

definition hex_lower :: "char \<Rightarrow> bool" where
  "hex_lower c \<longleftrightarrow> c \<in> set ''0123456789abcdef''"

definition isHex :: "string \<Rightarrow> nat \<Rightarrow> nat \<Rightarrow> bool" where
  "isHex s lo hi \<longleftrightarrow> lo \<le> length s \<and> length s \<le> hi \<and> list_all hex_lower s"

definition validReasonCode :: "int \<Rightarrow> bool" where
  "validReasonCode c \<longleftrightarrow> 0 \<le> c \<and> c \<le> 10 \<and> c \<noteq> 7"

definition recordedIssuer :: "string \<Rightarrow> fleet \<Rightarrow> string" where
  "recordedIssuer serial f =
     (case find (\<lambda>c. cred_IssuerSHA256 c \<noteq> [] \<and> NormalizeSerial (cred_SerialHex c) = serial) (fl_credentials f) of
        None \<Rightarrow> [] | Some c \<Rightarrow> cred_IssuerSHA256 c)"

definition activeOperatorCA :: "fleet_env \<Rightarrow> fleet \<Rightarrow> string" where
  "activeOperatorCA en f = (case find (\<lambda>a. an_State a = OperatorCAActive) (fl_anchors en f) of None \<Rightarrow> [] | Some a \<Rightarrow> an_SHA256 a)"

record revoke_request =
  vq_SerialHex :: string
  vq_ReasonCode :: int
  vq_IssuerSha256 :: string
  vq_Note :: string

definition fl_deny :: "fleet_env \<Rightarrow> denylist_entry \<Rightarrow> fleet \<Rightarrow> (trust_error option \<times> nat option) \<times> fleet" where
  "fl_deny en e f =
     (case fl_pg f of
        None \<Rightarrow> (let (err, m, r) = Deny mem_trust (fe_now en 0) e (fl_mem f) (fl_rev f) in (err, f\<lparr>fl_mem := m, fl_rev := r\<rparr>))
      | Some s \<Rightarrow>
          (let (err, db, r) = Deny (split_trust (fe_fault en 1) (fe_fault en 2) (fe_clk en)) (fe_now en 0) e (cq_db s) (fl_rev f)
           in (err, f\<lparr>fl_pg := Some (s\<lparr>cq_db := db\<rparr>), fl_rev := r\<rparr>)))"

definition RevokeOperatorCredential :: "fleet_env \<Rightarrow> revoke_request \<Rightarrow> fleet \<Rightarrow> (rpc_error + string \<times> string) \<times> fleet" where
  "RevokeOperatorCredential en q f =
     (case admin_caller (fe_ctx en) of
        Inl e \<Rightarrow> (Inl e, f)
      | Inr i \<Rightarrow>
          (let serial = NormalizeSerial (vq_SerialHex q); issuer = map lower_char (vq_IssuerSha256 q)
           in if vq_SerialHex q = [] \<or> \<not> isHex serial 1 maxSerialHex then (Inl invalidArg, f)
              else if \<not> validReasonCode (vq_ReasonCode q) then (Inl invalidArg, f)
              else if issuer \<noteq> [] \<and> \<not> isHex issuer 64 64 then (Inl invalidArg, f)
              else if \<not> hasOperatorCA f then (Inl errOperatorCAUnconfigured, f)
              else
                let f = site en 0 f;
                    issuer = (if issuer = [] then recordedIssuer serial f else issuer);
                    issuer = (if issuer = [] then activeOperatorCA en f else issuer)
                in if issuer = [] then (Inl errOperatorCAUnconfigured, f)
                   else case fl_deny en \<lparr>deny_IssuerSHA256 = issuer, deny_SerialHex = serial, deny_Reason = vq_ReasonCode q, deny_RevokedAt = fe_now en 0,
                          deny_RevokedByCN = CN i, deny_RevokedBySerial = Serial i, deny_Note = vq_Note q\<rparr> (site en 1 f) of
                     ((Some e, Some code), f) \<Rightarrow> (Inl (FailedPrecondition, Some (Reasoned code DATABASE_REQUIRED [])), f)
                   | ((Some e, None), f) \<Rightarrow> (Inl (InternalCode, None), f)
                   | ((None, _), f) \<Rightarrow>
                       (Inr (serial, issuer), fl_record en (fe_now en 0) ''operator-revoked''
                          (''Denied operator credential '' @ serial @ '' under operator CA '' @ issuer @ '' on the Fleet Manager denylist (reason '' @
                           itoa (nat (vq_ReasonCode q)) @ ''); it is not revoked at the operator CA'')
                          ''operator-credential'' (''/operators/'' @ serial) f)))"

text \<open>A credential as it is listed: whether the denylist and the CRL of this replica name it.\<close>

definition credential_state :: "fleet \<Rightarrow> operator_credential \<Rightarrow> bool \<times> bool \<times> bool" where
  "credential_state f c =
     (let serial = NormalizeSerial (cred_SerialHex c);
          denied = (cred_IssuerSHA256 c \<noteq> [] \<and> Denylisted (fl_rev f) (cred_IssuerSHA256 c) serial);
          crl = (cred_IssuerSHA256 c \<noteq> [] \<and> CRLRevoked (fl_rev f) (cred_IssuerSHA256 c) serial)
      in (cred_Revoked c \<or> denied \<or> crl, denied, crl))"

definition ListOperatorCredentials :: "fleet_env \<Rightarrow> fleet \<Rightarrow> rpc_error + (operator_credential \<times> bool \<times> bool \<times> bool) list" where
  "ListOperatorCredentials en f =
     (case operatorLevel (fe_ctx en) of
        Inl e \<Rightarrow> Inl e
      | Inr i \<Rightarrow>
          if Level i < LevelOperator then Inl (PermissionDenied, None)
          else if \<not> hasOperatorCA f then Inl errOperatorCAUnconfigured
          else Inr (map (\<lambda>c. (c, credential_state f c)) (fl_credentials (site en 0 f))))"

subsection \<open>Only admins change anything\<close>

text \<open>A caller below admin level, or none, gets no further than that with any handler that changes requests, credentials or the denylist: the
  state stays as it is.\<close>

lemma credential_rpcs_admin_only:
  assumes "\<And>i. FromContext (fe_ctx en) = Some i \<Longrightarrow> Level i < LevelAdmin"
  shows "\<exists>e \<in> {(PermissionDenied, None), (Unauthenticated, None)}. \<forall>f.
    (\<forall>q. CreateOperatorCredentialRequest en q f = (Inl e, f)) \<and> (\<forall>rid. fleet_CancelOperatorCredentialRequest en rid f = (Inl e, f)) \<and>
    (\<forall>q. RecordOperatorCredential en q f = (Inl e, f)) \<and> (\<forall>q. RevokeOperatorCredential en q f = (Inl e, f))"
proof (cases "FromContext (fe_ctx en)")
  case None
  then show ?thesis
    using admin_caller_below(2) by (simp add: CreateOperatorCredentialRequest_def fleet_CancelOperatorCredentialRequest_def
        RecordOperatorCredential_def RevokeOperatorCredential_def)
next
  case (Some i)
  then show ?thesis
    using admin_caller_below(1) [OF Some assms] by (simp add: CreateOperatorCredentialRequest_def fleet_CancelOperatorCredentialRequest_def
        RecordOperatorCredential_def RevokeOperatorCredential_def)
qed

subsection \<open>What recording stores\<close>

lemma upsert_contains:
  assumes "upsert_credential c rid cs = Some cs'"
  shows "\<exists>x \<in> set cs'. same_credential c x \<and> cred_Level x = cred_Level c \<and> cred_Email x = cred_Email c \<and> cred_FullName x = cred_FullName c \<and>
    cred_Kind x = cred_Kind c \<and> cred_LeafSHA256 x = cred_LeafSHA256 c \<and> cred_RequestID x = rid"
proof (cases "find (same_credential c) cs")
  case None
  then show ?thesis using assms by (auto simp: upsert_credential_def same_credential_def)
next
  case (Some old)
  then have old: "old \<in> set cs" "same_credential c old" by (auto simp: find_Some_iff)
  let ?u = "\<lambda>x. if same_credential c x then x\<lparr>cred_CommonName := cred_CommonName c, cred_Level := cred_Level c,
            cred_NotAfter := cred_NotAfter c, cred_Kind := cred_Kind c, cred_Email := cred_Email c, cred_FullName := cred_FullName c,
            cred_LeafSHA256 := cred_LeafSHA256 c, cred_RequestID := rid\<rparr> else x"
  have "cs' = map ?u cs" using assms Some by (simp add: upsert_credential_def split: if_split_asm)
  then have "?u old \<in> set cs'" using old(1) by simp
  then show ?thesis by (rule rev_bexI) (use old(2) in \<open>simp add: same_credential_def\<close>)
qed

lemma record_Inr:
  assumes "pg_RecordOperatorCredential lib fault c rid now s = (Inr x, s')"
  obtains q cs where "pending_request lib rid (expireRequests now (cq_requests s)) = Inr q"
    "upsert_credential c (case q of None \<Rightarrow> [] | Some r \<Rightarrow> ocr_ID r) (cq_credentials s) = Some cs" "cq_credentials s' = cs"
    "cq_requests s' = (case q of None \<Rightarrow> expireRequests now (cq_requests s)
       | Some r \<Rightarrow> update_request (ocr_ID r) (\<lambda>r. r\<lparr>ocr_State := RequestCompleted, ocr_CSRDER := None, ocr_CompletedSerial := cred_SerialHex c\<rparr>)
           (expireRequests now (cq_requests s)))"
  using assms by (auto simp: pg_RecordOperatorCredential_def Let_def split: option.splits sum.splits)

lemma signing_loop_Inr:
  "signing_loop en cert act as = Inr a \<Longrightarrow> (\<forall>b. act = Some b \<longrightarrow> b \<in> S \<and> an_State b = OperatorCAActive) \<Longrightarrow> set as \<subseteq> S \<Longrightarrow>
   a \<in> S \<and> an_State a = OperatorCAActive"
proof (induction as arbitrary: act)
  case Nil
  then show ?case by (cases act) simp_all
next
  case (Cons b as)
  show ?case
  proof (cases "signed_by en cert b")
    case True
    then show ?thesis using Cons.prems by (cases "an_State b = OperatorCAActive") simp_all
  next
    case False
    let ?act = "if act = None \<and> an_State b = OperatorCAActive then Some b else act"
    have "signing_loop en cert ?act as = Inr a" using Cons.prems(1) False by simp
    moreover have "\<forall>x. ?act = Some x \<longrightarrow> x \<in> S \<and> an_State x = OperatorCAActive" using Cons.prems(2,3) by (cases act) simp_all
    moreover have "set as \<subseteq> S" using Cons.prems(3) by simp
    ultimately show ?thesis by (rule Cons.IH)
  qed
qed

lemma signingAnchor_Inr:
  assumes "signingAnchor en cert f = Inr a" and "fleet_ok en"
  shows "a \<in> set (ts_Anchors (fl_trust f))" "an_State a = OperatorCAActive"
  using signing_loop_Inr [OF assms(1) [unfolded signingAnchor_def], of "set (fl_anchors en f)"] assms(2)
  by (simp_all add: fl_anchors_def fleet_ok_def)

lemma check_live_Inr:
  assumes "check_live en c cert anchor f = (Inr res, f')"
  shows "cl_verify (fe_lib en) anchor (cc_Now c) cert = None" "LevelFromCertificate (cl_asn1 (fe_lib en)) cert = Inr (cr_Level res)"
    "cc_WantLevel c = [] \<or> Token (cr_Level res) = cc_WantLevel c" "subject_email (fe_lib en) (cert_RawSubject cert) = Some (cr_Email res)"
    "cr_Serial res = SerialKey (cert_SerialNumber cert)"
    "\<forall>r. cc_CSR c = Some r \<longrightarrow> csr_RawSubjectPublicKeyInfo r = x_RawSubjectPublicKeyInfo (cl_view (fe_lib en) cert)"
    "fst (CheckWebCert (fe_io en) (Fingerprint (pl_sha256 (cl_peer (fe_lib en))) anchor) cert (fl_rev f) (fl_rev f)) = None"
    "fl_pg f' = fl_pg f" "fl_trust f' = fl_trust f"
proof -
  let ?c = "c\<lparr>cc_Revoked := Some (IsRevoked (fl_rev f)),
    cc_CheckRevocation := Some (\<lambda>sha leaf. fst (CheckWebCert (fe_io en) sha leaf (fl_rev f) (fl_rev f)))\<rparr>"
  have full: "CheckOperatorCert (fe_lib en) ?c cert anchor = Inr res" and frame: "fl_pg f' = fl_pg f" "fl_trust f' = fl_trust f"
    using assms by (auto simp: check_live_def Let_def split_beta split: sum.splits)
  note ok = full [unfolded CheckOperatorCert_Inr check_key_None]
  show "cl_verify (fe_lib en) anchor (cc_Now c) cert = None" "LevelFromCertificate (cl_asn1 (fe_lib en)) cert = Inr (cr_Level res)"
    "cc_WantLevel c = [] \<or> Token (cr_Level res) = cc_WantLevel c" "subject_email (fe_lib en) (cert_RawSubject cert) = Some (cr_Email res)"
    "cr_Serial res = SerialKey (cert_SerialNumber cert)"
    "\<forall>r. cc_CSR c = Some r \<longrightarrow> csr_RawSubjectPublicKeyInfo r = x_RawSubjectPublicKeyInfo (cl_view (fe_lib en) cert)"
    using ok by simp_all
  have "check_revoked (fe_lib en) ?c cert anchor = None" using ok by blast
  then show "fst (CheckWebCert (fe_io en) (Fingerprint (pl_sha256 (cl_peer (fe_lib en))) anchor) cert (fl_rev f) (fl_rev f)) = None"
    by (simp add: check_revoked_def Let_def split: if_split_asm)
  show "fl_pg f' = fl_pg f" "fl_trust f' = fl_trust f" by (rule frame)+
qed

lemma read_request_Inr:
  assumes "read_request en rid f = (Inr req, f')" and "fl_pg f = Some s"
  shows "(rid = [] \<and> req = None \<and> f' = f) \<or>
    (\<exists>r csr s1. req = Some (r, csr) \<and> s1 = expireRequests (fe_now en 0) (cq_requests (fe_others en 0 s)) \<and> r \<in> set s1 \<and> ocr_State r = RequestPending \<and>
       u_cast (fe_uuid en) rid = Some (ocr_ID r) \<and> cl_csr (fe_lib en) (case ocr_CSRDER r of None \<Rightarrow> [] | Some der \<Rightarrow> der) = Inr csr \<and>
       f' = f\<lparr>fl_pg := Some ((fe_others en 0 s)\<lparr>cq_requests := s1\<rparr>)\<rparr>)"
proof (cases "rid = []")
  case False
  obtain r f1 where c: "cred_call (Inl CredDatabaseRequired) (pg_OperatorCredentialRequest (fe_uuid en) (fe_fault en 0) rid (fe_now en 0)) (site en 0 f) = (Inr r, f1)"
    using assms(1) False by (auto simp: read_request_def split: prod.splits sum.splits)
  have rest: "ocr_State r = RequestPending" "\<exists>csr. cl_csr (fe_lib en) (case ocr_CSRDER r of None \<Rightarrow> [] | Some der \<Rightarrow> der) = Inr csr \<and> req = Some (r, csr)" "f' = f1"
    using assms(1) False c by (auto simp: read_request_def split: sum.splits if_split_asm)
  have "requestByID (fe_uuid en) rid (expireRequests (fe_now en 0) (cq_requests (fe_others en 0 s))) = Inr r"
    "f1 = f\<lparr>fl_pg := Some ((fe_others en 0 s)\<lparr>cq_requests := expireRequests (fe_now en 0) (cq_requests (fe_others en 0 s))\<rparr>)\<rparr>"
    using c assms(2) by (auto simp: cred_call_def site_def pg_OperatorCredentialRequest_def Let_def split: option.splits sum.splits)
  then show ?thesis using rest requestByID_Inr by fastforce
qed (use assms in \<open>simp add: read_request_def\<close>)

lemma expire_live: "r \<in> set (expireRequests now rs) \<Longrightarrow> ocr_State r = RequestPending \<Longrightarrow> r \<in> set rs \<and> now < ocr_ExpiresAt r"
  by (auto simp: expireRequests_def expire_def request_states split: if_split_asm)

lemma settled_pending: "settled r r' \<Longrightarrow> ocr_State r' = RequestPending \<Longrightarrow> r' = r"
  by (auto simp: settled_def request_states)

text \<open>A request that was pending at an earlier reading is recorded as it was read then, or not at all.\<close>

lemma recorded_completes:
  assumes "pg_RecordOperatorCredential lib fault c (ocr_ID r) now s1 = (Inr x, s')" and "(cred_step lib)\<^sup>*\<^sup>* s s1" and "cred_ok s"
    and lib: "\<And>i u. u_cast lib i = Some u \<Longrightarrow> u \<noteq> [] \<and> u_cast lib u = Some u"
    and "r \<in> set (cq_requests s)" and "u_cast lib rid = Some (ocr_ID r)"
  shows "r\<lparr>ocr_State := RequestCompleted, ocr_CSRDER := None, ocr_CompletedSerial := cred_SerialHex c\<rparr> \<in> set (cq_requests s')"
    "\<exists>cs. upsert_credential c (ocr_ID r) (cq_credentials s1) = Some cs \<and> cq_credentials s' = cs"
proof -
  let ?rs = "expireRequests now (cq_requests s1)"
  have cast: "ocr_ID r \<noteq> []" "u_cast lib (ocr_ID r) = Some (ocr_ID r)" using lib [OF assms(6)] by simp_all
  obtain q cs where q: "pending_request lib (ocr_ID r) ?rs = Inr q"
    and cs: "upsert_credential c (case q of None \<Rightarrow> [] | Some r \<Rightarrow> ocr_ID r) (cq_credentials s1) = Some cs" "cq_credentials s' = cs"
    and rs: "cq_requests s' = (case q of None \<Rightarrow> ?rs
       | Some r \<Rightarrow> update_request (ocr_ID r) (\<lambda>r. r\<lparr>ocr_State := RequestCompleted, ocr_CSRDER := None, ocr_CompletedSerial := cred_SerialHex c\<rparr>) ?rs)"
    by (rule record_Inr [OF assms(1)])
  obtain r2 where r2: "q = Some r2" using q cast(1) by (auto simp: pending_request_def split: sum.splits if_split_asm)
  then have two: "r2 \<in> set ?rs" "ocr_State r2 = RequestPending" and same: "ocr_ID r2 = ocr_ID r"
    using pending_request_Inr [OF q] cast(2) by simp_all
  have nonempty: "u_cast lib i \<noteq> Some []" for i using lib by blast
  note steps = cred_steps_settle [OF assms(2,3) nonempty]
  have ok: "distinct (map ocr_ID ?rs)" using steps(1) by (simp add: cred_ok_def)
  have settle: "requests_settle (cq_requests s) ?rs" by (rule requests_settle_trans [OF steps(2) requests_settle_expire])
  obtain r1 where r1: "r1 \<in> set ?rs" "settled r r1" using settle assms(5) unfolding requests_settle_def by blast
  have "ocr_ID r1 = ocr_ID r" using r1(2) by (auto simp: settled_def)
  then have "r1 = r2" using unique_request [OF ok two(1) r1(1)] same by simp
  then have "r2 = r" using settled_pending [OF r1(2)] two(2) by simp
  then show "r\<lparr>ocr_State := RequestCompleted, ocr_CSRDER := None, ocr_CompletedSerial := cred_SerialHex c\<rparr> \<in> set (cq_requests s')"
    "\<exists>cs. upsert_credential c (ocr_ID r) (cq_credentials s1) = Some cs \<and> cq_credentials s' = cs"
    using rs cs two(1) r2 by (auto simp: update_request_def image_iff intro!: bexI [of _ r])
qed

lemma store_credential_Inr:
  assumes "store_credential en cred rid f = (Inr x, f')" and "fl_pg f = Some s"
  obtains y s' where "pg_RecordOperatorCredential (fe_uuid en) (fe_fault en 1) cred rid (fe_now en 0) (fe_others en 1 s) = (Inr y, s')" "fl_pg f' = Some s'"
    "fl_trust f' = fl_trust f"
proof (cases "fst (pg_RecordOperatorCredential (fe_uuid en) (fe_fault en 1) cred rid (fe_now en 0) (fe_others en 1 s))")
  case (Inl e)
  then show ?thesis
    using assms by (cases e) (auto simp: store_credential_def cred_call_def split_beta Let_def split: sum.splits prod.splits)
next
  case (Inr y)
  then show ?thesis
    using assms that by (cases "pg_RecordOperatorCredential (fe_uuid en) (fe_fault en 1) cred rid (fe_now en 0) (fe_others en 1 s)")
      (auto simp: store_credential_def cred_call_def)
qed

lemma record_checked_Inr:
  assumes "record_checked en cert name req f = (Inr cred, f')"
  obtains a res g g' where "signingAnchor en cert f = Inr a" "\<forall>r csr. req = Some (r, csr) \<longrightarrow> map lower_char (cert_CommonName cert) = ocr_Email r"
    "check_live en \<lparr>cc_Now = fe_now en 0, cc_WantLevel = (case req of None \<Rightarrow> [] | Some (r, _) \<Rightarrow> ocr_Level r),
       cc_CSR = map_option snd req, cc_Revoked = None, cc_CheckRevocation = None\<rparr> cert (an_Cert a) f = (Inr res, g)"
    "cred = recorded_row en a (map_option fst req) name res cert" "store_credential en cred (cred_RequestID cred) g = (Inr (), g')"
    "fl_pg f' = fl_pg g'"
proof -
  obtain a where a: "signingAnchor en cert f = Inr a" using assms by (auto simp: record_checked_def split: sum.splits)
  have m: "\<forall>r csr. req = Some (r, csr) \<longrightarrow> map lower_char (cert_CommonName cert) = ocr_Email r"
    using assms a by (auto simp: record_checked_def split: if_split_asm)
  let ?c = "\<lparr>cc_Now = fe_now en 0, cc_WantLevel = (case req of None \<Rightarrow> [] | Some (r, _) \<Rightarrow> ocr_Level r),
       cc_CSR = map_option snd req, cc_Revoked = None, cc_CheckRevocation = None\<rparr>"
  have n: "(case req of None \<Rightarrow> False | Some (r, _) \<Rightarrow> map lower_char (cert_CommonName cert) \<noteq> ocr_Email r) \<longleftrightarrow> False"
    using m by (auto split: option.splits prod.splits)
  obtain res g where c: "check_live en ?c cert (an_Cert a) f = (Inr res, g)"
    using assms a n by (cases "check_live en ?c cert (an_Cert a) f"; cases "fst (check_live en ?c cert (an_Cert a) f)") (auto simp: record_checked_def)
  let ?cred = "recorded_row en a (map_option fst req) name res cert"
  obtain g' where g: "store_credential en ?cred (cred_RequestID ?cred) g = (Inr (), g')" "cred = ?cred" "fl_pg f' = fl_pg g'"
    using assms a n c by (auto simp: record_checked_def Let_def split: prod.splits sum.splits)
  show thesis by (rule that [OF a m c g(2) g(1) [folded g(2)] g(3)])
qed

text \<open>What the database holds once a certificate read for a request, or for none, has been recorded.\<close>

lemma recorded_in_db:
  assumes "pg_RecordOperatorCredential (fe_uuid en) fault cred (cred_RequestID cred) (fe_now en 0) (fe_others en 1 s0) = (Inr y, s')"
    and "read_request en rid f = (Inr req, g)" and "fl_pg f = Some s" and "fl_pg g = Some s0" and "cred_ok s" and "fleet_ok en"
    and "cred_RequestID cred = (case req of None \<Rightarrow> [] | Some (r, _) \<Rightarrow> ocr_ID r)"
  shows "upsert_credential cred (cred_RequestID cred) (cq_credentials (fe_others en 1 s0)) = Some (cq_credentials s')"
    "req = Some (r, csr) \<Longrightarrow> r \<in> set (cq_requests (fe_others en 0 s)) \<and> ocr_State r = RequestPending \<and> fe_now en 0 < ocr_ExpiresAt r \<and>
       u_cast (fe_uuid en) rid = Some (ocr_ID r) \<and> cl_csr (fe_lib en) (case ocr_CSRDER r of None \<Rightarrow> [] | Some der \<Rightarrow> der) = Inr csr \<and>
       r\<lparr>ocr_State := RequestCompleted, ocr_CSRDER := None, ocr_CompletedSerial := cred_SerialHex cred\<rparr> \<in> set (cq_requests s')"
proof -
  have steps: "(cred_step (fe_uuid en))\<^sup>*\<^sup>* x (fe_others en k x)" for k x using assms(6) by (simp add: fleet_ok_def)
  have lib: "u_cast (fe_uuid en) i = Some u \<Longrightarrow> u \<noteq> [] \<and> u_cast (fe_uuid en) u = Some u" for i u using assms(6) by (simp add: fleet_ok_def)
  then have nonempty: "u_cast (fe_uuid en) i \<noteq> Some []" for i by blast
  note rd = read_request_Inr [OF assms(2,3)]
  have both: "upsert_credential cred (cred_RequestID cred) (cq_credentials (fe_others en 1 s0)) = Some (cq_credentials s') \<and>
    (\<forall>r csr. req = Some (r, csr) \<longrightarrow> r \<in> set (cq_requests (fe_others en 0 s)) \<and> ocr_State r = RequestPending \<and> fe_now en 0 < ocr_ExpiresAt r \<and>
       u_cast (fe_uuid en) rid = Some (ocr_ID r) \<and> cl_csr (fe_lib en) (case ocr_CSRDER r of None \<Rightarrow> [] | Some der \<Rightarrow> der) = Inr csr \<and>
       r\<lparr>ocr_State := RequestCompleted, ocr_CSRDER := None, ocr_CompletedSerial := cred_SerialHex cred\<rparr> \<in> set (cq_requests s'))"
  proof (cases req)
    case None
    then show ?thesis using assms(1,7) by (auto elim!: record_Inr simp: pending_request_def)
  next
    case (Some p)
    obtain r csr where p: "p = (r, csr)" by fastforce
    let ?s = "(fe_others en 0 s)\<lparr>cq_requests := expireRequests (fe_now en 0) (cq_requests (fe_others en 0 s))\<rparr>"
    have r: "r \<in> set (cq_requests ?s)" "ocr_State r = RequestPending" "u_cast (fe_uuid en) rid = Some (ocr_ID r)" "s0 = ?s"
      "cl_csr (fe_lib en) (case ocr_CSRDER r of None \<Rightarrow> [] | Some der \<Rightarrow> der) = Inr csr"
      using rd assms(4) Some p by auto
    have ok: "cred_ok ?s" by (rule cred_ok_expire [OF cred_steps_settle(1) [OF steps assms(5) nonempty]])
    have w: "pg_RecordOperatorCredential (fe_uuid en) fault cred (ocr_ID r) (fe_now en 0) (fe_others en 1 ?s) = (Inr y, s')"
      using assms(1,7) Some p r(4) by simp
    note completes = recorded_completes [OF w steps ok lib r(1,3)]
    show ?thesis using completes r expire_live [of r "fe_now en 0" "cq_requests (fe_others en 0 s)"] Some p assms(7) by auto
  qed
  show "upsert_credential cred (cred_RequestID cred) (cq_credentials (fe_others en 1 s0)) = Some (cq_credentials s')" using both by blast
  show "req = Some (r, csr) \<Longrightarrow> r \<in> set (cq_requests (fe_others en 0 s)) \<and> ocr_State r = RequestPending \<and> fe_now en 0 < ocr_ExpiresAt r \<and>
       u_cast (fe_uuid en) rid = Some (ocr_ID r) \<and> cl_csr (fe_lib en) (case ocr_CSRDER r of None \<Rightarrow> [] | Some der \<Rightarrow> der) = Inr csr \<and>
       r\<lparr>ocr_State := RequestCompleted, ocr_CSRDER := None, ocr_CompletedSerial := cred_SerialHex cred\<rparr> \<in> set (cq_requests s')" using both by blast
qed

text \<open>C26: a credential is recorded only for an admin, from a certificate that chains to an active operator CA this replica trusts, carries the
  recorded level, and passes the live revocation check. It is in the database afterwards. With a request, the request was pending and not
  past its expiry when it was read, the certificate has its level, its email and the key of its CSR, and, whatever other processes did
  meanwhile, it is that same request that is completed, with this serial.\<close>

theorem RecordOperatorCredential_sound:
  assumes "RecordOperatorCredential en q f = (Inr cred, f')" and "fl_pg f = Some s" and "cred_ok s" and "fleet_ok en"
  shows "\<exists>i cert a l s'. FromContext (fe_ctx en) = Some i \<and> Level i \<ge> LevelAdmin \<and> pl_parse (cl_peer (fe_lib en)) (rr_CertDer q) = Inr cert \<and>
    a \<in> set (ts_Anchors (fl_trust f)) \<and> an_State a = OperatorCAActive \<and> cred_IssuerSHA256 cred = an_SHA256 a \<and>
    cl_verify (fe_lib en) (an_Cert a) (fe_now en 0) cert = None \<and>
    LevelFromCertificate (cl_asn1 (fe_lib en)) cert = Inr l \<and> cred_Level cred = Token l \<and> cred_SerialHex cred = SerialKey (cert_SerialNumber cert) \<and>
    fst (CheckWebCert (fe_io en) (Fingerprint (pl_sha256 (cl_peer (fe_lib en))) (an_Cert a)) cert (fl_rev f) (fl_rev f)) = None \<and>
    fl_pg f' = Some s' \<and>
    (\<exists>x \<in> set (cq_credentials s'). cred_key x = cred_key cred \<and> cred_Level x = cred_Level cred \<and> cred_Email x = cred_Email cred \<and>
       cred_RequestID x = cred_RequestID cred) \<and>
    (rr_RequestId q \<noteq> [] \<longrightarrow> (\<exists>r \<in> set (cq_requests (fe_others en 0 s)). \<exists>csr. u_cast (fe_uuid en) (rr_RequestId q) = Some (ocr_ID r) \<and>
       ocr_State r = RequestPending \<and> fe_now en 0 < ocr_ExpiresAt r \<and> (ocr_Level r \<noteq> [] \<longrightarrow> cred_Level cred = ocr_Level r) \<and>
       map lower_char (cert_CommonName cert) = ocr_Email r \<and>
       cl_csr (fe_lib en) (case ocr_CSRDER r of None \<Rightarrow> [] | Some der \<Rightarrow> der) = Inr csr \<and>
       csr_RawSubjectPublicKeyInfo csr = x_RawSubjectPublicKeyInfo (cl_view (fe_lib en) cert) \<and> cred_RequestID cred = ocr_ID r \<and>
       r\<lparr>ocr_State := RequestCompleted, ocr_CSRDER := None, ocr_CompletedSerial := cred_SerialHex cred\<rparr> \<in> set (cq_requests s')))"
proof -
  obtain i where i: "admin_caller (fe_ctx en) = Inr i" using assms(1) by (auto simp: RecordOperatorCredential_def split: sum.splits)
  obtain cert where cert: "pl_parse (cl_peer (fe_lib en)) (rr_CertDer q) = Inr cert"
    using assms(1) i by (auto simp: RecordOperatorCredential_def split: sum.splits if_split_asm)
  obtain req g name where g: "read_request en (rr_RequestId q) f = (Inr req, g)" "record_checked en cert name req g = (Inr cred, f')"
    using assms(1) i cert by (auto simp: RecordOperatorCredential_def split: sum.splits if_split_asm prod.splits)
  note rd = read_request_Inr [OF g(1) assms(2)]
  have frame: "fl_trust g = fl_trust f" "fl_rev g = fl_rev f" using rd by auto
  obtain a res h h' where a: "signingAnchor en cert g = Inr a" "\<forall>r csr. req = Some (r, csr) \<longrightarrow> map lower_char (cert_CommonName cert) = ocr_Email r"
    and c: "check_live en \<lparr>cc_Now = fe_now en 0, cc_WantLevel = (case req of None \<Rightarrow> [] | Some (r, _) \<Rightarrow> ocr_Level r),
       cc_CSR = map_option snd req, cc_Revoked = None, cc_CheckRevocation = None\<rparr> cert (an_Cert a) g = (Inr res, h)"
    and cred: "cred = recorded_row en a (map_option fst req) name res cert" and st: "store_credential en cred (cred_RequestID cred) h = (Inr (), h')"
    and pg: "fl_pg f' = fl_pg h'"
    by (rule record_checked_Inr [OF g(2)])
  note live = check_live_Inr [OF c]
  obtain s0 where s0: "fl_pg g = Some s0" using rd assms(2) by auto
  obtain y s' where w: "pg_RecordOperatorCredential (fe_uuid en) (fe_fault en 1) cred (cred_RequestID cred) (fe_now en 0) (fe_others en 1 s0) = (Inr y, s')"
    and s': "fl_pg h' = Some s'"
    by (rule store_credential_Inr [OF st, of s0]) (use live(8) s0 in simp_all)
  have fields: "cred_IssuerSHA256 cred = an_SHA256 a" "cred_Level cred = Token (cr_Level res)" "cred_SerialHex cred = SerialKey (cert_SerialNumber cert)"
    "cred_RequestID cred = (case req of None \<Rightarrow> [] | Some (r, _) \<Rightarrow> ocr_ID r)"
    using live(5) by (simp_all add: cred recorded_row_def split_beta split: option.split)
  note db = recorded_in_db [OF w g(1) assms(2) s0 assms(3,4) fields(4)]
  obtain x where x: "x \<in> set (cq_credentials s')" "same_credential cred x" "cred_Level x = cred_Level cred" "cred_Email x = cred_Email cred"
    "cred_RequestID x = cred_RequestID cred"
    using upsert_contains [OF db(1)] by blast
  have stored: "\<exists>x \<in> set (cq_credentials s'). cred_key x = cred_key cred \<and> cred_Level x = cred_Level cred \<and> cred_Email x = cred_Email cred \<and>
       cred_RequestID x = cred_RequestID cred"
    using x by (intro bexI [of _ x]) (simp_all add: same_credential_key)
  have anchor: "a \<in> set (ts_Anchors (fl_trust f))" "an_State a = OperatorCAActive" using signingAnchor_Inr [OF a(1) assms(4)] frame by simp_all
  have completed: "rr_RequestId q \<noteq> [] \<longrightarrow> (\<exists>r \<in> set (cq_requests (fe_others en 0 s)). \<exists>csr. u_cast (fe_uuid en) (rr_RequestId q) = Some (ocr_ID r) \<and>
       ocr_State r = RequestPending \<and> fe_now en 0 < ocr_ExpiresAt r \<and> (ocr_Level r \<noteq> [] \<longrightarrow> cred_Level cred = ocr_Level r) \<and>
       map lower_char (cert_CommonName cert) = ocr_Email r \<and>
       cl_csr (fe_lib en) (case ocr_CSRDER r of None \<Rightarrow> [] | Some der \<Rightarrow> der) = Inr csr \<and>
       csr_RawSubjectPublicKeyInfo csr = x_RawSubjectPublicKeyInfo (cl_view (fe_lib en) cert) \<and> cred_RequestID cred = ocr_ID r \<and>
       r\<lparr>ocr_State := RequestCompleted, ocr_CSRDER := None, ocr_CompletedSerial := cred_SerialHex cred\<rparr> \<in> set (cq_requests s'))"
  proof
    assume "rr_RequestId q \<noteq> []"
    then obtain r csr where r: "req = Some (r, csr)" using rd by blast
    show "\<exists>r \<in> set (cq_requests (fe_others en 0 s)). \<exists>csr. u_cast (fe_uuid en) (rr_RequestId q) = Some (ocr_ID r) \<and>
       ocr_State r = RequestPending \<and> fe_now en 0 < ocr_ExpiresAt r \<and> (ocr_Level r \<noteq> [] \<longrightarrow> cred_Level cred = ocr_Level r) \<and>
       map lower_char (cert_CommonName cert) = ocr_Email r \<and>
       cl_csr (fe_lib en) (case ocr_CSRDER r of None \<Rightarrow> [] | Some der \<Rightarrow> der) = Inr csr \<and>
       csr_RawSubjectPublicKeyInfo csr = x_RawSubjectPublicKeyInfo (cl_view (fe_lib en) cert) \<and> cred_RequestID cred = ocr_ID r \<and>
       r\<lparr>ocr_State := RequestCompleted, ocr_CSRDER := None, ocr_CompletedSerial := cred_SerialHex cred\<rparr> \<in> set (cq_requests s')"
      using db(2) [OF r] a(2) live(3,6) fields r by (intro bexI [of _ r] exI [of _ csr]) auto
  qed
  show ?thesis
    using i [unfolded admin_caller_Inr] cert anchor fields live(1,2,7) frame pg s' stored completed
    by (intro exI [of _ i] exI [of _ cert] exI [of _ a] exI [of _ "cr_Level res"] exI [of _ s']) simp
qed

subsection \<open>What revoking does\<close>

lemma hex_lower_plain: "hex_lower c \<Longrightarrow> c \<noteq> CHR '':'' \<and> lower_char c = c \<and> \<not> is_space c"
proof -
  have "\<forall>c \<in> set ''0123456789abcdef''. c \<noteq> CHR '':'' \<and> lower_char c = c \<and> \<not> is_space c" by code_simp
  then show "hex_lower c \<Longrightarrow> ?thesis" unfolding hex_lower_def by blast
qed

lemma NormalizeSerial_idem:
  assumes "isHex (NormalizeSerial x) lo hi"
  shows "NormalizeSerial (NormalizeSerial x) = NormalizeSerial x"
proof -
  let ?s = "NormalizeSerial x"
  have c: "\<forall>c \<in> set ?s. c \<noteq> CHR '':'' \<and> lower_char c = c \<and> \<not> is_space c" using assms hex_lower_plain by (auto simp: isHex_def list_all_iff)
  then have same: "TrimSpace ?s = ?s" "map lower_char ?s = ?s" "filter (\<lambda>c. c \<noteq> CHR '':'') ?s = ?s"
    by (auto intro: TrimSpace_id map_idI)
  then have n: "NormalizeSerial ?s = (let s = dropWhile (\<lambda>c. c = CHR ''0'') ?s in if s = [] then ''0'' else s)"
    unfolding NormalizeSerial_def [of ?s] same by (simp only: Let_def same)
  define z where "z = filter (\<lambda>c. c \<noteq> CHR '':'') (map lower_char (TrimSpace x))"
  have s: "?s = (let s = dropWhile (\<lambda>c. c = CHR ''0'') z in if s = [] then ''0'' else s)"
    by (simp add: NormalizeSerial_def z_def Let_def)
  show ?thesis
  proof (cases "dropWhile (\<lambda>c. c = CHR ''0'') z")
    case Nil
    then have "?s = ''0''" unfolding s Let_def by (simp only: simp_thms if_True)
    then show ?thesis using n by simp
  next
    case (Cons c cs)
    then have "?s = c # cs" unfolding s Let_def by (simp only: list.distinct if_False)
    moreover have "c \<noteq> CHR ''0''" using hd_dropWhile [of "\<lambda>c. c = CHR ''0''" z] unfolding Cons by simp
    ultimately show ?thesis using n by simp
  qed
qed

lemma fl_deny_stored:
  assumes "fl_deny en e f = ((None, c), f')" and "isHex (NormalizeSerial (deny_SerialHex e)) lo hi"
  shows "\<exists>s'. fl_pg f' = Some s' \<and>
      (\<exists>x \<in> set (pg_denylist (cq_db s')). deny_IssuerSHA256 x = deny_IssuerSHA256 e \<and> deny_SerialHex x = NormalizeSerial (deny_SerialHex e)) \<and>
      NormalizeSerial (deny_SerialHex e) \<in> set (denied (rv_denylist (fl_rev f')) (deny_IssuerSHA256 e))"
proof (cases "fl_pg f")
  case None
  then show ?thesis using assms by (simp add: fl_deny_def Deny_def mem_trust_def mem_AddOperatorDenylistEntry_def Let_def)
next
  case (Some s)
  obtain db r where d: "Deny (split_trust (fe_fault en 1) (fe_fault en 2) (fe_clk en)) (fe_now en 0) e (cq_db s) (fl_rev f) = ((None, c), db, r)"
    and f': "f' = f\<lparr>fl_pg := Some (s\<lparr>cq_db := db\<rparr>), fl_rev := r\<rparr>"
    using assms(1) Some by (auto simp: fl_deny_def split_beta Let_def prod_eq_iff)
  note stored = Deny_stored(3) [OF d refl]
  then obtain x where x: "x \<in> set (pg_denylist db)" "deny_IssuerSHA256 x = deny_IssuerSHA256 e" "deny_SerialHex x = NormalizeSerial (deny_SerialHex e)" by blast
  then have "NormalizeSerial (deny_SerialHex e) \<in> set (denied (deny_set (pg_OperatorDenylist db)) (deny_IssuerSHA256 e))"
    using NormalizeSerial_idem [OF assms(2)] unfolding denied_deny_set pg_OperatorDenylist_set by (intro bexI [of _ x]) simp_all
  with x stored show ?thesis unfolding f' by (intro exI [of _ "s\<lparr>cq_db := db\<rparr>"]) auto
qed

text \<open>C27: when a revocation reports success it is in force at once. It was made by an admin; the entry is in the database, with the issuer asked
  for when one was; and on this replica the credential is refused under every spelling of its serial, and every certificate of that
  issuer with this serial is refused by the live check, whatever an OCSP responder answers.\<close>

theorem RevokeOperatorCredential_effective:
  assumes "RevokeOperatorCredential en q f = (Inr (serial, issuer), f')"
  shows "\<exists>i s'. FromContext (fe_ctx en) = Some i \<and> Level i \<ge> LevelAdmin \<and> fl_pg f' = Some s' \<and>
    serial = NormalizeSerial (vq_SerialHex q) \<and> (vq_IssuerSha256 q \<noteq> [] \<longrightarrow> issuer = map lower_char (vq_IssuerSha256 q)) \<and>
    (\<exists>x \<in> set (pg_denylist (cq_db s')). deny_IssuerSHA256 x = issuer \<and> deny_SerialHex x = serial) \<and>
    (\<forall>spelling. NormalizeSerial spelling = serial \<longrightarrow> Denylisted (fl_rev f') issuer spelling \<and> IsRevoked (fl_rev f') issuer spelling) \<and>
    (\<forall>io leaf r. SerialKey (cert_SerialNumber leaf) = serial \<longrightarrow> fst (CheckWebCert io issuer leaf (fl_rev f') r) \<noteq> None)"
proof -
  obtain i where i: "admin_caller (fe_ctx en) = Inr i" using assms by (auto simp: RevokeOperatorCredential_def split: sum.splits)
  let ?s = "NormalizeSerial (vq_SerialHex q)" and ?l = "map lower_char (vq_IssuerSha256 q)"
  let ?e = "\<lambda>issuer. \<lparr>deny_IssuerSHA256 = issuer, deny_SerialHex = ?s, deny_Reason = vq_ReasonCode q, deny_RevokedAt = fe_now en 0,
     deny_RevokedByCN = CN i, deny_RevokedBySerial = Serial i, deny_Note = vq_Note q\<rparr>"
  have hex: "isHex ?s 1 maxSerialHex" and serial: "serial = ?s" and iss: "?l \<noteq> [] \<Longrightarrow> issuer = ?l"
    and deny: "\<exists>c f2. fl_deny en (?e issuer) (site en 1 (site en 0 f)) = ((None, c), f2) \<and> fl_pg f' = fl_pg f2 \<and> fl_rev f' = fl_rev f2"
    using assms i by (auto simp: RevokeOperatorCredential_def Let_def split: if_split_asm prod.splits option.splits)
  then obtain c f2 where f2: "fl_deny en (?e issuer) (site en 1 (site en 0 f)) = ((None, c), f2)" "fl_pg f' = fl_pg f2" "fl_rev f' = fl_rev f2" by blast
  have idem: "NormalizeSerial ?s = ?s" by (rule NormalizeSerial_idem [OF hex])
  then have "isHex (NormalizeSerial (deny_SerialHex (?e issuer))) 1 maxSerialHex" using hex by simp
  from fl_deny_stored [OF f2(1) this] obtain s' where s': "fl_pg f' = Some s'"
    "\<exists>x \<in> set (pg_denylist (cq_db s')). deny_IssuerSHA256 x = issuer \<and> deny_SerialHex x = serial"
    and d: "serial \<in> set (denied (rv_denylist (fl_rev f')) issuer)"
    using f2 idem serial by auto
  show ?thesis
    using i [unfolded admin_caller_Inr] s' serial iss d
    by (intro exI [of _ i] exI [of _ s']) (auto simp: Denylisted_def IsRevoked_def revokedLocked_def CheckWebCert_def checkWeb_iff)
qed

subsection \<open>Examples\<close>

definition example_fleet_lib :: cert_lib where
  "example_fleet_lib = example_cert_lib\<lparr>cl_peer := example_peer_lib\<lparr>pl_parse := (\<lambda>_. Inr example_admin_cert)\<rparr>,
     cl_csr := (\<lambda>_. Inr \<lparr>csr_RawSubject = ''op'', csr_PublicKey = ECDSA ''P-384'', csr_RawSubjectPublicKeyInfo = ''spki''\<rparr>)\<rparr>"

definition example_admin :: identity where
  "example_admin = zero_identity\<lparr>CN := ''root'', Level := LevelAdmin\<rparr>"

definition example_fleet_env :: fleet_env where
  "example_fleet_env = \<lparr>fe_ctx = NewContext Background example_admin, fe_now = (\<lambda>_. 1), fe_clk = 1, fe_lib = example_fleet_lib, fe_uuid = example_uuids,
     fe_newid = ''r2'', fe_audit = example_entropy, fe_fault = (\<lambda>_. None), fe_others = (\<lambda>_ s. s), fe_io = example_io 1, fe_marshal = (\<lambda>s. Inr s),
     fe_issuer = cert_RawSubject, fe_order = id, fe_ticket = Some ''k'', fe_nodeCAs = [], fe_fetch = None, fe_probe = None\<rparr>"

definition example_pending :: OperatorCredentialRequest where
  "example_pending = example_filing\<lparr>ocr_Level := ''admin'', ocr_Email := ''op''\<rparr>"

definition example_fleet_db :: cred_db where
  "example_fleet_db = cred_empty\<lparr>cq_requests := [example_pending]\<rparr>"

definition example_fleet :: fleet where
  "example_fleet = \<lparr>fl_configured = True, fl_pg = Some example_fleet_db, fl_mem = New (\<lambda>_. []) [], fl_trust = example_store,
     fl_rev = (NewRevocations ''soft'' False)\<lparr>rv_anchors := [(''6361'', new_anchor_state example_row_anchor)]\<rparr>, fl_events = []\<rparr>"

lemma example_fleet_ok: "fleet_ok example_fleet_env"
  by (simp add: fleet_ok_def example_fleet_env_def example_uuids_def)

lemma example_fleet_db_ok: "cred_ok example_fleet_db"
  by (simp add: example_fleet_db_def cred_ok_def credentials_ok_def cred_empty_def migrated_def request_ok_def made_for_def example_pending_def example_filing_def
      request_states)

lemma example_fleet_anchors: "ts_Anchors (fl_trust example_fleet) = [example_row_anchor]" "hasOperatorCA example_fleet" "tr_kind (fl_trust example_fleet) = KindRegistered"
  "an_SHA256 example_row_anchor = ''6361''" "an_Cert example_row_anchor = example_ca" "an_State example_row_anchor = OperatorCAActive"
  by (simp_all add: example_fleet_def example_store_eq ts_Anchors_def hasOperatorCA_def example_row_anchor_def row_anchor_def example_opca_def OperatorCAActive_def)

lemma example_admin_caller: "admin_caller (fe_ctx example_fleet_env) = Inr example_admin"
  by (simp add: admin_caller_Inr example_fleet_env_def NewContext_def FromContext_def example_admin_def)

lemma credential_rpcs_admin_only_witness:
  "\<exists>e \<in> {(PermissionDenied, None), (Unauthenticated, None)}.
     fst (RecordOperatorCredential (example_fleet_env\<lparr>fe_ctx := NewContext Background (example_admin\<lparr>Level := LevelOperator\<rparr>)\<rparr>)
       \<lparr>rr_CertDer = ''leaf'', rr_FullName = [], rr_RequestId = ''r1''\<rparr> example_fleet) = Inl e"
  using credential_rpcs_admin_only [of "example_fleet_env\<lparr>fe_ctx := NewContext Background (example_admin\<lparr>Level := LevelOperator\<rparr>)\<rparr>"]
  by (auto simp: NewContext_def FromContext_def level_defs)

lemma example_live_check:
  assumes "cc_Now c = 1" and "cc_WantLevel c = ''admin''" and "map_option csr_RawSubjectPublicKeyInfo (cc_CSR c) = Some ''spki''"
    and "check_revoked example_fleet_lib c example_admin_cert example_ca = None"
  shows "CheckOperatorCert example_fleet_lib c example_admin_cert example_ca = Inr example_result"
proof -
  have same: "cl_view example_fleet_lib example_admin_cert = cl_view example_cert_lib example_admin_cert" "cl_verify example_fleet_lib = (\<lambda>_ _ _. None)"
    "cl_asn1 example_fleet_lib = cl_asn1 example_cert_lib" "subject_email example_fleet_lib = subject_email example_cert_lib"
    "x_RawSubjectPublicKeyInfo (cl_view example_cert_lib example_admin_cert) = ''spki''"
    by (simp_all add: example_fleet_lib_def example_cert_lib_def example_view_def subject_email_def emailFromSubject_def fun_eq_iff)
  have "check_usages example_fleet_lib example_admin_cert = check_usages example_cert_lib example_admin_cert"
    "check_key example_fleet_lib c example_admin_cert = check_key example_cert_lib example_check example_admin_cert"
    using assms(1,3) by (auto simp: check_usages_def check_key_def same Let_def has_usage_def example_check_def)
  then show ?thesis
    using example_checked assms unfolding CheckOperatorCert_Inr same by (simp add: example_result_def example_check_def)
qed

lemma example_recorded:
  "\<exists>cred f'. RecordOperatorCredential example_fleet_env \<lparr>rr_CertDer = ''leaf'', rr_FullName = [], rr_RequestId = ''r1''\<rparr> example_fleet = (Inr cred, f')"
proof -
  let ?en = example_fleet_env and ?csr = "\<lparr>csr_RawSubject = ''op'', csr_PublicKey = ECDSA ''P-384'', csr_RawSubjectPublicKeyInfo = ''spki''\<rparr>"
  have env: "fe_lib ?en = example_fleet_lib" "fe_now ?en k = 1" "fe_fault ?en k = None" "fe_uuid ?en = example_uuids" "fe_others ?en k s = s"
    "pl_parse (cl_peer example_fleet_lib) der = Inr example_admin_cert" "cl_csr example_fleet_lib der = Inr ?csr" for k s der
    by (simp_all add: example_fleet_env_def example_fleet_lib_def)
  have site: "site ?en k f = f" for k f by (cases f) (simp add: site_def env map_option_case split: option.split)
  have rs: "expireRequests 1 [example_pending] = [example_pending]" by (simp add: expireRequests_def expire_def example_pending_def example_filing_def)
  have pend: "ocr_ID example_pending = ''r1''" "ocr_State example_pending = RequestPending" "ocr_Level example_pending = ''admin''" "ocr_Email example_pending = ''op''"
    by (simp_all add: example_pending_def example_filing_def)
  have get: "requestByID example_uuids ''r1'' [example_pending] = Inr example_pending" by (simp add: requestByID_def example_uuids_def pend)
  have db: "cq_requests example_fleet_db = [example_pending]" "cq_credentials example_fleet_db = []"
    by (simp_all add: example_fleet_db_def cred_empty_def migrated_def)
  have pg: "fl_pg example_fleet = Some example_fleet_db" by (simp add: example_fleet_def)
  have read: "read_request ?en ''r1'' example_fleet = (Inr (Some (example_pending, ?csr)), example_fleet)"
    by (simp add: read_request_def site cred_call_def pg pg_OperatorCredentialRequest_def env db rs get pend Let_def)
  have anchor: "signingAnchor ?en example_admin_cert example_fleet = Inr example_row_anchor"
    by (simp add: signingAnchor_def fl_anchors_def example_fleet_anchors(1,6) signed_by_def env)
      (simp add: example_fleet_env_def example_fleet_lib_def example_cert_lib_def example_fleet_anchors)
  let ?c = "\<lparr>cc_Now = 1, cc_WantLevel = ''admin'', cc_CSR = Some ?csr, cc_Revoked = None, cc_CheckRevocation = None\<rparr>"
  have fp: "Fingerprint (pl_sha256 (cl_peer example_fleet_lib)) example_ca = ''6361''"
    using example_fingerprint by (simp add: example_fleet_lib_def example_peer_lib_def)
  have live: "fst (CheckWebCert io ''6361'' leaf (fl_rev example_fleet) (fl_rev example_fleet)) = None" "\<not> IsRevoked (fl_rev example_fleet) ''6361'' serial" for io leaf serial
    using example_live [of "fl_rev example_fleet" "new_anchor_state example_row_anchor"]
    by (simp_all add: example_fleet_def NewRevocations_def new_anchor_state_def)
  have "\<exists>g. check_live ?en ?c example_admin_cert example_ca example_fleet = (Inr example_result, g) \<and> fl_pg g = Some example_fleet_db"
    using live by (simp add: check_live_def Let_def split_beta env fp example_live_check check_revoked_def pg)
  then obtain g where g: "check_live ?en ?c example_admin_cert example_ca example_fleet = (Inr example_result, g)" "fl_pg g = Some example_fleet_db" by blast
  have cn: "map lower_char (cert_CommonName example_admin_cert) = ''op''"
    by (simp add: example_admin_cert_def example_cert_def) code_simp
  show ?thesis
    by (simp add: RecordOperatorCredential_def example_admin_caller maxCertSize_def env example_fleet_anchors read record_checked_def anchor cn pend g
        Let_def store_credential_def cred_call_def site pg_RecordOperatorCredential_def db rs pending_request_def get recorded_row_def upsert_credential_def)
qed

theorem RecordOperatorCredential_sound_witness:
  "\<exists>f' s'. fl_pg f' = Some s' \<and>
     (\<exists>cred. RecordOperatorCredential example_fleet_env \<lparr>rr_CertDer = ''leaf'', rr_FullName = [], rr_RequestId = ''r1''\<rparr> example_fleet = (Inr cred, f') \<and>
        example_pending\<lparr>ocr_State := RequestCompleted, ocr_CSRDER := None, ocr_CompletedSerial := cred_SerialHex cred\<rparr> \<in> set (cq_requests s'))"
proof -
  obtain cred f' where r: "RecordOperatorCredential example_fleet_env \<lparr>rr_CertDer = ''leaf'', rr_FullName = [], rr_RequestId = ''r1''\<rparr> example_fleet = (Inr cred, f')"
    using example_recorded by blast
  have pg: "fl_pg example_fleet = Some example_fleet_db" by (simp add: example_fleet_def)
  have only: "x = example_pending" if "x \<in> set (cq_requests (fe_others example_fleet_env 0 example_fleet_db))" for x
    using that by (simp add: example_fleet_env_def example_fleet_db_def)
  obtain s' x where "fl_pg f' = Some s'" "x \<in> set (cq_requests (fe_others example_fleet_env 0 example_fleet_db))"
    "x\<lparr>ocr_State := RequestCompleted, ocr_CSRDER := None, ocr_CompletedSerial := cred_SerialHex cred\<rparr> \<in> set (cq_requests s')"
    using RecordOperatorCredential_sound [OF r pg example_fleet_db_ok example_fleet_ok] by fastforce
  with only r show ?thesis by blast
qed

lemma example_revoked:
  "\<exists>f'. RevokeOperatorCredential example_fleet_env \<lparr>vq_SerialHex = ''00:0A'', vq_ReasonCode = 1, vq_IssuerSha256 = [], vq_Note = []\<rparr> example_fleet = (Inr (''a'', ''6361''), f')"
proof -
  have n: "NormalizeSerial ''00:0A'' = ''a''" "NormalizeSerial ''a'' = ''a''" by code_simp+
  have hex: "isHex ''a'' (Suc 0) maxSerialHex" by (simp add: isHex_def maxSerialHex_def hex_lower_def)
  have site: "site example_fleet_env k f = f" for k f by (cases f) (simp add: site_def example_fleet_env_def map_option_case split: option.split)
  have none: "recordedIssuer ''a'' example_fleet = []"
    by (simp add: recordedIssuer_def fl_credentials_def example_fleet_def example_fleet_db_def cred_empty_def migrated_def)
  have act: "activeOperatorCA example_fleet_env example_fleet = ''6361''"
    using example_fleet_anchors by (simp add: activeOperatorCA_def fl_anchors_def example_fleet_env_def)
  have "\<exists>f'. fl_deny example_fleet_env e example_fleet = ((None, None), f')" for e
    by (simp add: fl_deny_def example_fleet_def example_fleet_db_def example_fleet_env_def Deny_def split_trust_write split_trust_read
        pg_AddOperatorDenylistEntry_def cred_empty_def migrated_def reloadDenylist_def read_result_def Let_def)
  then obtain f' where "fl_deny example_fleet_env \<lparr>deny_IssuerSHA256 = ''6361'', deny_SerialHex = ''a'', deny_Reason = 1, deny_RevokedAt = fe_now example_fleet_env 0,
     deny_RevokedByCN = CN example_admin, deny_RevokedBySerial = Serial example_admin, deny_Note = []\<rparr> example_fleet = ((None, None), f')" by blast
  then show ?thesis
    by (simp add: RevokeOperatorCredential_def example_admin_caller n hex validReasonCode_def example_fleet_anchors site none act Let_def)
qed

theorem RevokeOperatorCredential_effective_witness:
  "\<exists>f'. RevokeOperatorCredential example_fleet_env \<lparr>vq_SerialHex = ''00:0A'', vq_ReasonCode = 1, vq_IssuerSha256 = [], vq_Note = []\<rparr> example_fleet =
     (Inr (''a'', ''6361''), f') \<and> IsRevoked (fl_rev f') ''6361'' ''0A''"
proof -
  obtain f' where r: "RevokeOperatorCredential example_fleet_env \<lparr>vq_SerialHex = ''00:0A'', vq_ReasonCode = 1, vq_IssuerSha256 = [], vq_Note = []\<rparr> example_fleet =
     (Inr (''a'', ''6361''), f')"
    using example_revoked by blast
  have "NormalizeSerial ''0A'' = ''a''" by code_simp
  then have "IsRevoked (fl_rev f') ''6361'' ''0A''" using RevokeOperatorCredential_effective [OF r] by blast
  with r show ?thesis by blast
qed

end
