(* ===== verification/Operator_CA_Rpcs.thy ===== *)
theory Operator_CA_Rpcs
  imports Credential_Rpcs
begin

text \<open>
  The admin handlers for operator CAs (\<^verbatim>\<open>fleet/operatorca_rpcs.go\<close>): registering one, which starts a rotation,
  retiring one, and changing a CA's CRL source, CRL or OCSP mode. Log lines and the fields a response copies from a certificate
  are left out. Texts that name a fingerprint are ASCII.
\<close>

subsection \<open>Errors and gates\<close>

definition crl_refusal :: "crl_error \<Rightarrow> refusal" where
  "crl_refusal e = rejectAnchor (if e = CRLRollback then CRL_ROLLBACK else CRL_INVALID)"

definition caErr :: "refusal option \<Rightarrow> rpc_error" where
  "caErr e =
     (case e of
        None \<Rightarrow> (InternalCode, None)
      | Some r \<Rightarrow> if rf_Code r = CodeOperatorCARejected then (InvalidArgument, Some r) else (FailedPrecondition, Some r))"

definition caReject :: "rpc_code \<Rightarrow> error_reason \<Rightarrow> rpc_error" where
  "caReject code reason = (code, Some (rejectAnchor reason))"

definition failedPrecondition :: rpc_error where
  "failedPrecondition = (FailedPrecondition, None)"

fun choice_caErr :: "choice_error \<Rightarrow> rpc_error" where
  "choice_caErr (ChoiceRefused e) = caErr (Some e)"
| "choice_caErr (ChoiceCRL e) = caErr (Some (crl_refusal e))"
| "choice_caErr (UnknownSource _) = caErr None"

fun ocsp_caErr :: "ocsp_choice_error \<Rightarrow> rpc_error" where
  "ocsp_caErr OCSPURLMisplaced = (InvalidArgument, None)"
| "ocsp_caErr (OCSPRefused e) = caErr (Some e)"
| "ocsp_caErr (UnknownMode _) = caErr None"

fun trust_caErr :: "trust_error \<Rightarrow> rpc_error" where
  "trust_caErr (CrlRefused e) = caErr (Some (crl_refusal e))"
| "trust_caErr _ = caErr None"

definition operatorCAWrite :: "fleet_env \<Rightarrow> fleet \<Rightarrow> rpc_error + identity" where
  "operatorCAWrite en f =
     (case admin_caller (fe_ctx en) of
        Inl e \<Rightarrow> Inl e
      | Inr i \<Rightarrow>
          if \<not> hasOperatorCA f then Inl errOperatorCAUnconfigured
          else if tr_kind (fl_trust f) = KindFile then Inl (FailedPrecondition, Some (Coded CodeOperatorCAManagedByConfig))
          else Inr i)"

definition fleet_normalizeFingerprint :: "string \<Rightarrow> string" where
  "fleet_normalizeFingerprint s = map lower_char (filter (\<lambda>c. c \<noteq> CHR '':'' \<and> \<not> is_space c) s)"

subsection \<open>Access to the store\<close>

text \<open>Both stores implement the interface; the in-memory one has no operator CAs and refuses to write them.\<close>

definition fl_OperatorCAs :: "fleet_env \<Rightarrow> nat \<Rightarrow> fleet \<Rightarrow> trust_error + operator_ca list" where
  "fl_OperatorCAs en k f = (case fl_pg f of None \<Rightarrow> Inr [] | Some s \<Rightarrow> read_result (fe_fault en k) (pg_OperatorCAs (cq_db s)))"

definition fl_OperatorCRLs :: "fleet_env \<Rightarrow> nat \<Rightarrow> fleet \<Rightarrow> trust_error + operator_crl list" where
  "fl_OperatorCRLs en k f = (case fl_pg f of None \<Rightarrow> Inr (OperatorCRLs (fl_mem f)) | Some s \<Rightarrow> read_result (fe_fault en k) (pg_OperatorCRLs (cq_db s)))"

definition fl_OperatorDenylist :: "fleet_env \<Rightarrow> nat \<Rightarrow> fleet \<Rightarrow> trust_error + denylist_entry list" where
  "fl_OperatorDenylist en k f = (case fl_pg f of None \<Rightarrow> mem_OperatorDenylist (fl_mem f) | Some s \<Rightarrow> read_result (fe_fault en k) (pg_OperatorDenylist (cq_db s)))"

definition ca_write :: "trust_error \<Rightarrow> (pg_db \<Rightarrow> (pg_error + unit) \<times> pg_db) \<Rightarrow> fleet \<Rightarrow> (trust_error + unit) \<times> fleet" where
  "ca_write refused call f =
     (case fl_pg f of
        None \<Rightarrow> (Inl refused, f)
      | Some s \<Rightarrow> (let (x, db) = call (cq_db s) in (map_sum pg_trust_error id x, f\<lparr>fl_pg := Some (s\<lparr>cq_db := db\<rparr>)\<rparr>)))"

definition findRow :: "fleet_env \<Rightarrow> nat \<Rightarrow> string \<Rightarrow> fleet \<Rightarrow> rpc_error + operator_ca" where
  "findRow en k sha f =
     (case fl_OperatorCAs en k f of
        Inl _ \<Rightarrow> Inl (InternalCode, None)
      | Inr rows \<Rightarrow>
          (case find (\<lambda>r. ca_SHA256 r = fleet_normalizeFingerprint sha) rows of None \<Rightarrow> Inl (NotFoundCode, None) | Some r \<Rightarrow> Inr r))"

definition trustedRow :: "fleet_env \<Rightarrow> nat \<Rightarrow> string \<Rightarrow> fleet \<Rightarrow> rpc_error + operator_ca \<times> certificate" where
  "trustedRow en k sha f =
     (case findRow en k sha f of
        Inl e \<Rightarrow> Inl e
      | Inr row \<Rightarrow>
          if ca_State row = OperatorCARetired then Inl failedPrecondition
          else (case pl_parse (cl_peer (fe_lib en)) (ca_CertDER row) of Inl _ \<Rightarrow> Inl (InternalCode, None) | Inr cert \<Rightarrow> Inr (row, cert)))"

text \<open>The rebuild reads the rows at site \<open>k\<close>, the reload the denylist and the CRLs at the next two. An error of the reload is only logged.\<close>

definition applyTrustChange :: "fleet_env \<Rightarrow> nat \<Rightarrow> fleet \<Rightarrow> rpc_error option \<times> fleet" where
  "applyTrustChange en k f =
     (let f = site en k f;
          (err, t, r) = Rebuild (cl_peer (fe_lib en)) (fe_ticket en) (fl_OperatorCAs en k f) (fl_trust f) (fl_rev f);
          f = f\<lparr>fl_trust := t, fl_rev := r\<rparr>
      in case err of
           Some _ \<Rightarrow> (Some (InternalCode, None), f)
         | None \<Rightarrow>
             (let f = site en (k + 1) f; dl = fl_OperatorDenylist en (k + 1) f; f = site en (k + 2) f;
                  (_, r) = Reload (cl_crl (fe_lib en)) (fe_now en k) dl (fl_OperatorCRLs en (k + 2) f) (fl_rev f)
              in (None, f\<lparr>fl_rev := r\<rparr>)))"

definition fl_audit :: "fleet_env \<Rightarrow> nat \<Rightarrow> string \<Rightarrow> string \<Rightarrow> string \<Rightarrow> fleet \<Rightarrow> fleet" where
  "fl_audit en k kind sha summary f = fl_record en (fe_now en k) kind summary ''operator-ca'' (''/operator-cas/'' @ sha) f"

definition acksOf :: "string list \<Rightarrow> string list" where
  "acksOf acks = filter (\<lambda>a. a \<noteq> ''UNSPECIFIED'') acks"

fun ocspModeOf :: "ocsp_mode \<Rightarrow> string" where
  "ocspModeOf ModeOff = ''off''"
| "ocspModeOf ModeUrl = ''url''"
| "ocspModeOf ModeOther = ''aia''"

definition uploadUnderHard :: "string \<Rightarrow> fleet \<Rightarrow> bool" where
  "uploadUnderHard source f \<longleftrightarrow> source = CRLSourceUpload \<and> rv_policy (fl_rev f) = PolicyHard"

definition drop_answers :: "string \<Rightarrow> fleet \<Rightarrow> fleet" where
  "drop_answers sha f = f\<lparr>fl_rev := (fl_rev f)\<lparr>rv_ocsp := map_option (ClearAnchor sha) (rv_ocsp (fl_rev f))\<rparr>\<rparr>"

subsection \<open>What is shown of a CA\<close>

text \<open>The CRL shown is the one enforced here, or else the stored one if it verifies.\<close>

record ca_status =
  cs_row :: operator_ca
  cs_crl :: "(VerifiedCRL \<times> gotime) option"
  cs_lastError :: string
  cs_ocspLastError :: string

definition storedCRLs :: "fleet_env \<Rightarrow> nat \<Rightarrow> fleet \<Rightarrow> operator_crl list" where
  "storedCRLs en k f = (case fl_OperatorCRLs en k f of Inl _ \<Rightarrow> [] | Inr cs \<Rightarrow> cs)"

definition addRuntimeState :: "fleet_env \<Rightarrow> nat \<Rightarrow> operator_ca \<Rightarrow> certificate \<Rightarrow> operator_crl option \<Rightarrow> fleet \<Rightarrow> ca_status" where
  "addRuntimeState en k row cert stored f =
     (let sha = Fingerprint (pl_sha256 (cl_peer (fe_lib en))) cert;
          v = (case rv_CRL (fl_rev f) sha of
                 Some v \<Rightarrow> Some v
               | None \<Rightarrow> (case Option.bind stored crl_DER of
                            None \<Rightarrow> None
                          | Some der \<Rightarrow> (case VerifyCRL (cl_crl (fe_lib en)) der cert (fe_now en k) of Inl _ \<Rightarrow> None | Inr v \<Rightarrow> Some v)));
          err = (case mget (rv_anchors (fl_rev f)) sha of None \<Rightarrow> [] | Some st \<Rightarrow> st_lastError st)
      in \<lparr>cs_row = row, cs_crl = map_option (\<lambda>v. (v, case stored of None \<Rightarrow> 0 | Some c \<Rightarrow> crl_FetchedAt c)) v,
          cs_lastError = (if err = [] then (case stored of None \<Rightarrow> [] | Some c \<Rightarrow> crl_LastError c) else err),
          cs_ocspLastError = (case rv_ocsp (fl_rev f) of None \<Rightarrow> [] | Some c \<Rightarrow> LastError c sha)\<rparr>)"

definition rowToProto :: "fleet_env \<Rightarrow> nat \<Rightarrow> operator_crl list \<Rightarrow> operator_ca \<Rightarrow> fleet \<Rightarrow> ca_status option" where
  "rowToProto en k crls row f =
     (case pl_parse (cl_peer (fe_lib en)) (ca_CertDER row) of
        Inl _ \<Rightarrow> None
      | Inr cert \<Rightarrow> Some (addRuntimeState en k row cert (by_issuer crls (ca_SHA256 row)) f))"

text \<open>The row is read at site \<open>k\<close>, the CRLs at the next.\<close>

definition rowProto :: "fleet_env \<Rightarrow> nat \<Rightarrow> string \<Rightarrow> fleet \<Rightarrow> (rpc_error + ca_status) \<times> fleet" where
  "rowProto en k sha f =
     (let f = site en k f
      in case findRow en k sha f of
           Inl e \<Rightarrow> (Inl e, f)
         | Inr row \<Rightarrow>
             (let f = site en (k + 1) f
              in case rowToProto en k (storedCRLs en (k + 1) f) row f of
                   None \<Rightarrow> (Inl (InternalCode, None), f)
                 | Some c \<Rightarrow> (Inr c, f)))"

definition state_rank :: "string \<Rightarrow> nat" where
  "state_rank st = (if st = OperatorCARetiring then 1 else if st = OperatorCARetired then 2 else 0)"

text \<open>A stable sort by state, then the latest retirement first.\<close>

definition ca_order :: "operator_ca list \<Rightarrow> operator_ca list" where
  "ca_order rows = sort_key (\<lambda>r. state_rank (ca_State r)) (sort_key (\<lambda>r. - ca_RetiredAt r) rows)"

text \<open>A CA of the configuration file is shown with the CRL locations of the whole file.\<close>

definition file_row :: "string list \<Rightarrow> Anchor \<Rightarrow> operator_ca" where
  "file_row locations a = \<lparr>ca_SHA256 = an_SHA256 a, ca_CertDER = cert_Raw (an_Cert a), ca_State = OperatorCAActive, ca_CRLSource = an_CRLSource a,
     ca_CRLURL = str_join '', '' locations, ca_OCSPMode = an_OCSPMode a, ca_OCSPURL = an_OCSPURL a, ca_Acknowledgements = [], ca_Warnings = [],
     ca_RegisteredAt = 0, ca_RegisteredBy = [], ca_RetiredAt = 0, ca_RetiredReason = [], ca_UpdatedAt = 0\<rparr>"

definition fileCAs :: "fleet_env \<Rightarrow> string list \<Rightarrow> fleet \<Rightarrow> ca_status list" where
  "fileCAs en locations f = map (\<lambda>a. addRuntimeState en 0 (file_row locations a) (an_Cert a) None f) (sort_key an_SHA256 (fl_anchors en f))"

definition ListOperatorCAs :: "fleet_env \<Rightarrow> string list \<Rightarrow> fleet \<Rightarrow> (rpc_error + ca_status list) \<times> fleet" where
  "ListOperatorCAs en locations f =
     (case operatorLevel (fe_ctx en) of
        Inl e \<Rightarrow> (Inl e, f)
      | Inr i \<Rightarrow>
          if Level i < LevelOperator then (Inl (PermissionDenied, None), f)
          else if \<not> hasOperatorCA f then (Inl errOperatorCAUnconfigured, f)
          else if tr_kind (fl_trust f) = KindFile then (Inr (fileCAs en locations f), f)
          else
            let f = site en 0 f
            in case fl_OperatorCAs en 0 f of
                 Inl _ \<Rightarrow> (Inl (InternalCode, None), f)
               | Inr rows \<Rightarrow>
                   (let f = site en 1 f; crls = storedCRLs en 1 f
                    in (Inr (List.map_filter (\<lambda>r. rowToProto en 1 crls r f) (ca_order rows)), f)))"

subsection \<open>Registering and retiring\<close>

record fleet_register =
  fr_CaCertDer :: bytes
  fr_ConfirmSha256 :: string
  fr_Acks :: "string list"
  fr_CrlSource :: crl_source
  fr_OcspMode :: ocsp_mode
  fr_OcspUrl :: string

definition CRLSourceURL :: string where "CRLSourceURL = ''url''"

fun choice_of :: "string list \<Rightarrow> crl_source \<Rightarrow> CRLChoice" where
  "choice_of acks NoSource = \<lparr>ch_Source = CRLSourceNone, ch_URL = [], ch_DER = [], ch_Acknowledgements = acks\<rparr>"
| "choice_of acks (SourceUrl u) = \<lparr>ch_Source = CRLSourceURL, ch_URL = u, ch_DER = [], ch_Acknowledgements = acks\<rparr>"
| "choice_of acks (SourceDer der) = \<lparr>ch_Source = CRLSourceUpload, ch_URL = [], ch_DER = der, ch_Acknowledgements = acks\<rparr>"

definition crlWrite :: "string \<Rightarrow> string \<Rightarrow> VerifiedCRL option \<Rightarrow> gotime \<Rightarrow> (operator_crl \<times> (operator_crl \<Rightarrow> bool \<Rightarrow> crl_error + bool)) option" where
  "crlWrite sha source v at = map_option (\<lambda>v. (crl_row sha at source v, AcceptNewer v)) v"

text \<open>What the checks of a registration find: the certificate, its warnings, the choice of CRL with the CRL itself, and the OCSP mode.\<close>

record fleet_checked =
  fk_cert :: certificate
  fk_warnings :: "string list"
  fk_choice :: CRLChoice
  fk_crl :: "VerifiedCRL option"

definition register_checks :: "fleet_env \<Rightarrow> fleet_register \<Rightarrow> certificate \<Rightarrow> fleet \<Rightarrow> rpc_error + fleet_checked" where
  "register_checks en q cert f =
     (let choice = choice_of (acksOf (fr_Acks q)) (fr_CrlSource q)
      in if uploadUnderHard (ch_Source choice) f then Inl failedPrecondition
         else case ValidateAnchor (fe_lib en) (fe_now en 0) (fe_nodeCAs en) (ch_Source choice \<noteq> CRLSourceNone) cert of
           Inl e \<Rightarrow> Inl (caErr (Some e))
         | Inr warnings \<Rightarrow>
             (case CheckCRLChoice (fe_lib en) (fe_fetch en) (fe_now en 0) cert choice of
                Inl e \<Rightarrow> Inl (choice_caErr e)
              | Inr crl \<Rightarrow>
                  (case CheckOCSPChoice (fe_lib en) (fe_probe en) cert (ocspModeOf (fr_OcspMode q)) (fr_OcspUrl q) of
                     Inl e \<Rightarrow> Inl (ocsp_caErr e)
                   | Inr _ \<Rightarrow>
                       (case ExtfileSection (fe_marshal en) ''admin'' of
                          Inl _ \<Rightarrow> Inl (InternalCode, None)
                        | Inr _ \<Rightarrow> Inr \<lparr>fk_cert = cert, fk_warnings = warnings, fk_choice = choice, fk_crl = crl\<rparr>))))"

definition rotation_row :: "fleet_env \<Rightarrow> identity \<Rightarrow> fleet_register \<Rightarrow> fleet_checked \<Rightarrow> operator_ca" where
  "rotation_row en i q k =
     \<lparr>ca_SHA256 = Fingerprint (pl_sha256 (cl_peer (fe_lib en))) (fk_cert k), ca_CertDER = cert_Raw (fk_cert k), ca_State = OperatorCAActive,
      ca_CRLSource = ch_Source (fk_choice k), ca_CRLURL = ch_URL (fk_choice k), ca_OCSPMode = ocspModeOf (fr_OcspMode q), ca_OCSPURL = fr_OcspUrl q,
      ca_Acknowledgements = ch_Acknowledgements (fk_choice k), ca_Warnings = fk_warnings k, ca_RegisteredAt = fe_now en 0, ca_RegisteredBy = CN i,
      ca_RetiredAt = 0, ca_RetiredReason = [], ca_UpdatedAt = 0\<rparr>"

fun rotationErr :: "trust_error \<Rightarrow> rpc_error" where
  "rotationErr (StoreFailure PgRotationInProgress) = caReject FailedPrecondition ROTATION_IN_PROGRESS"
| "rotationErr (StoreFailure PgOperatorCATrusted) = failedPrecondition"
| "rotationErr e = trust_caErr e"

definition previous_active :: "operator_ca list \<Rightarrow> string" where
  "previous_active rows = foldl (\<lambda>p r. if ca_State r = OperatorCAActive then ca_SHA256 r else p) ''none'' rows"

definition rotate_and_apply :: "fleet_env \<Rightarrow> identity \<Rightarrow> fleet_register \<Rightarrow> fleet_checked \<Rightarrow> operator_ca list \<Rightarrow> fleet \<Rightarrow> (rpc_error + bool \<times> string) \<times> fleet" where
  "rotate_and_apply en i q k rows f =
     (let row = rotation_row en i q k; fp = ca_SHA256 row;
          crl = crlWrite fp (ca_CRLSource row) (fk_crl k) (fe_now en 0)
      in case ca_write DatabaseRequired (pg_RotateOperatorCA (fe_fault en 1) (fe_clk en) row crl) (site en 1 f) of
           (Inl e, f) \<Rightarrow> (Inl (rotationErr e), f)
         | (Inr _, f) \<Rightarrow>
             (case applyTrustChange en 2 f of
                (Some e, f) \<Rightarrow> (Inl e, f)
              | (None, f) \<Rightarrow>
                  (Inr (True, fp),
                   fl_audit en 1 ''operator-ca-registered'' fp
                     (''Registered operator CA '' @ pl_subject (cl_peer (fe_lib en)) (fk_cert k) @ '' (SHA-256 '' @ fp @
                      '') as active; previous active CA '' @ previous_active rows @ '' is now retiring. CRL source '' @ ca_CRLSource row @
                      suffix (ca_CRLURL row) @ '', OCSP mode '' @ ca_OCSPMode row @ suffix (ca_OCSPURL row) @ '', acknowledgements ['' @
                      join '', '' (ca_Acknowledgements row) @ ''], warnings ['' @ join ''; '' (ca_Warnings row) @ '']'') f)))"

text \<open>Without a confirmed fingerprint this only previews.\<close>

definition fleet_RegisterOperatorCA :: "fleet_env \<Rightarrow> fleet_register \<Rightarrow> fleet \<Rightarrow> (rpc_error + bool \<times> string) \<times> fleet" where
  "fleet_RegisterOperatorCA en q f =
     (case operatorCAWrite en f of
        Inl e \<Rightarrow> (Inl e, f)
      | Inr i \<Rightarrow>
          (case ParseAnchorUpload (fe_lib en) (fr_CaCertDer q) of
             Inl e \<Rightarrow> (Inl (caErr (Some e)), f)
           | Inr cert \<Rightarrow>
               (let f = site en 0 f
                in case fl_OperatorCAs en 0 f of
                     Inl _ \<Rightarrow> (Inl (InternalCode, None), f)
                   | Inr rows \<Rightarrow>
                       if \<exists>r \<in> set rows. ca_State r = OperatorCARetiring then (Inl (caReject FailedPrecondition ROTATION_IN_PROGRESS), f)
                       else case register_checks en q cert f of
                         Inl e \<Rightarrow> (Inl e, f)
                       | Inr k \<Rightarrow>
                           (let fp = Fingerprint (pl_sha256 (cl_peer (fe_lib en))) cert
                            in if fr_ConfirmSha256 q = [] then (Inr (False, fp), f)
                               else if fleet_normalizeFingerprint (fr_ConfirmSha256 q) \<noteq> fp then (Inl (caReject InvalidArgument NOT_CONFIRMED), f)
                               else rotate_and_apply en i q k rows f))))"

definition retiredByAdmin :: string where "retiredByAdmin = ''retired''"

record retire_request =
  tq_Sha256 :: string
  tq_IUnderstandSelfLockout :: bool

definition RetireOperatorCA :: "fleet_env \<Rightarrow> retire_request \<Rightarrow> fleet \<Rightarrow> (rpc_error + ca_status) \<times> fleet" where
  "RetireOperatorCA en q f =
     (case operatorCAWrite en f of
        Inl e \<Rightarrow> (Inl e, f)
      | Inr i \<Rightarrow>
          (let f = site en 0 f
           in case findRow en 0 (tq_Sha256 q) f of
                Inl e \<Rightarrow> (Inl e, f)
              | Inr row \<Rightarrow>
                  (let sha = ca_SHA256 row; selfLockout = (IssuerSHA256 i \<noteq> [] \<and> IssuerSHA256 i = sha)
                   in if ca_State row = OperatorCARetired then (Inl failedPrecondition, f)
                      else if ca_State row = OperatorCAActive then (Inl (FailedPrecondition, Some (Coded CodeOperatorCAInUse)), f)
                      else if selfLockout \<and> \<not> tq_IUnderstandSelfLockout q then (Inl failedPrecondition, f)
                      else case ca_write (StoreFailure PgOperatorCANotFound)
                             (pg_SetOperatorCAState (fe_fault en 1) (fe_clk en) sha OperatorCARetired retiredByAdmin (fe_now en 1)) (site en 1 f) of
                        (Inl (StoreFailure PgOperatorCANotFound), f) \<Rightarrow> (Inl (NotFoundCode, None), f)
                      | (Inl _, f) \<Rightarrow> (Inl (InternalCode, None), f)
                      | (Inr _, f) \<Rightarrow>
                          (case applyTrustChange en 2 (drop_answers sha f) of
                             (Some e, f) \<Rightarrow> (Inl e, f)
                           | (None, f) \<Rightarrow>
                               rowProto en 5 sha (fl_audit en 1 ''operator-ca-retired'' sha
                                 (''Retired operator CA '' @ sha @ ''; certificates under it are no longer trusted'' @
                                  (if selfLockout then '' (the caller's own CA, retired with i_understand_self_lockout)'' else [])) f)))))"

subsection \<open>Changing a CA\<close>

text \<open>\<open>None\<close> is a request that names no source. A choice of \<open>none\<close> is \<open>Some NoSource\<close>.\<close>

record source_request =
  sq_Sha256 :: string
  sq_Acks :: "string list"
  sq_CrlSource :: "crl_source option"

fun sourceErr :: "trust_error \<Rightarrow> rpc_error" where
  "sourceErr (StoreFailure PgOperatorCANotFound) = (NotFoundCode, None)"
| "sourceErr e = trust_caErr e"

definition fleet_SetOperatorCACRLSource :: "fleet_env \<Rightarrow> source_request \<Rightarrow> fleet \<Rightarrow> (rpc_error + ca_status) \<times> fleet" where
  "fleet_SetOperatorCACRLSource en q f =
     (case operatorCAWrite en f of
        Inl e \<Rightarrow> (Inl e, f)
      | Inr i \<Rightarrow>
          (case sq_CrlSource q of
             None \<Rightarrow> (Inl invalidArg, f)
           | Some src \<Rightarrow>
               (let choice = choice_of (acksOf (sq_Acks q)) src; f = site en 0 f
                in case trustedRow en 0 (sq_Sha256 q) f of
                     Inl e \<Rightarrow> (Inl e, f)
                   | Inr (row, cert) \<Rightarrow>
                       (let sha = ca_SHA256 row
                        in if uploadUnderHard (ch_Source choice) f then (Inl failedPrecondition, f)
                           else case CheckCRLChoice (fe_lib en) (fe_fetch en) (fe_now en 0) cert choice of
                             Inl e \<Rightarrow> (Inl (choice_caErr e), f)
                           | Inr crl \<Rightarrow>
                               (case ca_write DatabaseRequired (pg_SetOperatorCACRLSource (fe_fault en 1) (fe_clk en) sha (ch_Source choice) (ch_URL choice)
                                       (ch_Acknowledgements choice) (crlWrite sha (ch_Source choice) crl (fe_now en 0))) (site en 1 f) of
                                  (Inl e, f) \<Rightarrow> (Inl (sourceErr e), f)
                                | (Inr _, f) \<Rightarrow>
                                    (case applyTrustChange en 2 f of
                                       (Some e, f) \<Rightarrow> (Inl e, f)
                                     | (None, f) \<Rightarrow>
                                         rowProto en 5 sha (fl_audit en 1 ''operator-ca-crl-source-changed'' sha
                                           (''Changed the CRL source of operator CA '' @ sha @ '' from '' @ ca_CRLSource row @ suffix (ca_CRLURL row) @
                                            '' to '' @ ch_Source choice @ suffix (ch_URL choice) @ '', acknowledgements ['' @
                                            join '', '' (ch_Acknowledgements choice) @ '']'') f)))))))"

text \<open>\<open>StoreCRL\<close> on whichever store there is.\<close>

definition fl_StoreCRL :: "fleet_env \<Rightarrow> string \<Rightarrow> bytes \<Rightarrow> string \<Rightarrow> fleet \<Rightarrow> (trust_error + bool) \<times> fleet" where
  "fl_StoreCRL en sha der source f =
     (case fl_pg f of
        None \<Rightarrow> (let (x, m, r) = StoreCRL mem_trust (cl_crl (fe_lib en)) (fe_now en 0) sha der source (fl_mem f) (fl_rev f)
                 in (x, f\<lparr>fl_mem := m, fl_rev := r\<rparr>))
      | Some s \<Rightarrow> (let (x, db, r) = StoreCRL (pg_trust (fe_fault en 1) (fe_clk en) (\<lambda>_. [])) (cl_crl (fe_lib en)) (fe_now en 0) sha der source (cq_db s) (fl_rev f)
                   in (x, f\<lparr>fl_pg := Some (s\<lparr>cq_db := db\<rparr>), fl_rev := r\<rparr>)))"

definition number_text :: "int option \<Rightarrow> string" where
  "number_text n = (case n of None \<Rightarrow> ''<nil>'' | Some i \<Rightarrow> (if i < 0 then ''-'' else []) @ itoa (nat \<bar>i\<bar>))"

record upload_request =
  uq_Sha256 :: string
  uq_CrlDer :: bytes

definition UploadOperatorCRL :: "fleet_env \<Rightarrow> upload_request \<Rightarrow> fleet \<Rightarrow> (rpc_error + ca_status) \<times> fleet" where
  "UploadOperatorCRL en q f =
     (case operatorCAWrite en f of
        Inl e \<Rightarrow> (Inl e, f)
      | Inr i \<Rightarrow>
          (let f = site en 0 f
           in case trustedRow en 0 (uq_Sha256 q) f of
                Inl e \<Rightarrow> (Inl e, f)
              | Inr (row, _) \<Rightarrow>
                  (let sha = ca_SHA256 row
                   in if ca_CRLSource row \<noteq> CRLSourceUpload then (Inl failedPrecondition, f)
                      else case fl_StoreCRL en sha (uq_CrlDer q) CRLSourceUpload (site en 1 f) of
                        (Inl UnknownAnchor, f) \<Rightarrow> (Inl failedPrecondition, f)
                      | (Inl e, f) \<Rightarrow> (Inl (trust_caErr e), f)
                      | (Inr stored, f) \<Rightarrow>
                          rowProto en 2 sha
                            (if stored then fl_audit en 1 ''operator-crl-uploaded'' sha
                               (''Uploaded a CRL for operator CA '' @ sha @
                                (case rv_CRL (fl_rev f) sha of
                                   None \<Rightarrow> []
                                 | Some v \<Rightarrow> '': number '' @ number_text (v_Number v) @ '', '' @ itoa (length (v_Revoked v)) @ '' revoked, next update '' @ rfc3339 (rl_NextUpdate (v_List v)))) f
                             else f))))"

record ocsp_request =
  oq_Sha256 :: string
  oq_OcspMode :: ocsp_mode
  oq_OcspUrl :: string

definition fleet_SetOperatorCAOCSP :: "fleet_env \<Rightarrow> ocsp_request \<Rightarrow> fleet \<Rightarrow> (rpc_error + ca_status) \<times> fleet" where
  "fleet_SetOperatorCAOCSP en q f =
     (case operatorCAWrite en f of
        Inl e \<Rightarrow> (Inl e, f)
      | Inr i \<Rightarrow>
          (let mode = ocspModeOf (oq_OcspMode q)
           in if mode = ''url'' \<and> oq_OcspUrl q = [] then (Inl invalidArg, f)
              else
                let f = site en 0 f
                in case trustedRow en 0 (oq_Sha256 q) f of
                     Inl e \<Rightarrow> (Inl e, f)
                   | Inr (row, cert) \<Rightarrow>
                       (let sha = ca_SHA256 row
                        in case CheckOCSPChoice (fe_lib en) (fe_probe en) cert mode (oq_OcspUrl q) of
                             Inl e \<Rightarrow> (Inl (ocsp_caErr e), f)
                           | Inr _ \<Rightarrow>
                               (case ca_write DatabaseRequired (pg_SetOperatorCAOCSP (fe_fault en 1) (fe_clk en) sha mode (oq_OcspUrl q)) (site en 1 f) of
                                  (Inl (StoreFailure PgOperatorCANotFound), f) \<Rightarrow> (Inl (NotFoundCode, None), f)
                                | (Inl _, f) \<Rightarrow> (Inl (InternalCode, None), f)
                                | (Inr _, f) \<Rightarrow>
                                    (case applyTrustChange en 2 (drop_answers sha f) of
                                       (Some e, f) \<Rightarrow> (Inl e, f)
                                     | (None, f) \<Rightarrow>
                                         rowProto en 5 sha (fl_audit en 1 ''operator-ca-ocsp-changed'' sha
                                           (''Changed the OCSP mode of operator CA '' @ sha @ '' from '' @ ca_OCSPMode row @ suffix (ca_OCSPURL row) @
                                            '' to '' @ mode @ suffix (oq_OcspUrl q)) f))))))"

subsection \<open>Every handler is a sequence of database steps\<close>

definition fl_steps :: "uuid_lib \<Rightarrow> fleet \<Rightarrow> fleet \<Rightarrow> bool" where
  "fl_steps lib f f' \<longleftrightarrow>
     (case fl_pg f of None \<Rightarrow> fl_pg f' = None | Some s \<Rightarrow> (\<exists>s'. fl_pg f' = Some s' \<and> (cred_step lib)\<^sup>*\<^sup>* s s'))"

lemma fl_steps_same: "fl_pg f' = fl_pg f \<Longrightarrow> fl_steps lib f f'"
  by (simp add: fl_steps_def split: option.split)

lemma fl_steps_trans: "fl_steps lib f g \<Longrightarrow> fl_steps lib g h \<Longrightarrow> fl_steps lib f h"
  by (auto simp: fl_steps_def split: option.splits intro: rtranclp_trans)

lemma fl_steps_site: "fleet_ok en \<Longrightarrow> fl_steps (fe_uuid en) f (site en k f)"
  by (simp add: fl_steps_def fleet_ok_def split: option.split)

lemma fl_steps_then:
  assumes "fleet_ok en" and "fl_steps (fe_uuid en) (site en k f) g"
  shows "fl_steps (fe_uuid en) f g"
  using fl_steps_trans [OF fl_steps_site [OF assms(1)] assms(2)] .

lemma ca_write_steps:
  assumes "ca_write refused call f = (x, g)" and "\<And>db. pg_step db (snd (call db))"
  shows "fl_steps lib f g"
proof (cases "fl_pg f")
  case None
  then show ?thesis using assms(1) by (simp add: ca_write_def fl_steps_def)
next
  case (Some s)
  have "cred_step lib s (s\<lparr>cq_db := snd (call (cq_db s))\<rparr>)" by (rule cred_step.other [OF assms(2)])
  then show ?thesis using assms(1) Some by (auto simp: ca_write_def fl_steps_def split_beta Let_def)
qed

lemma cred_call_steps:
  assumes "cred_call refused call f = (x, g)" and "\<And>s. cred_step lib s (snd (call s))"
  shows "fl_steps lib f g"
proof (cases "fl_pg f")
  case None
  then show ?thesis using assms(1) by (simp add: cred_call_def fl_steps_def)
next
  case (Some s)
  then show ?thesis using assms(1) assms(2) [of s] by (auto simp: cred_call_def fl_steps_def split_beta Let_def)
qed

lemma applyTrustChange_steps:
  assumes "applyTrustChange en k f = (e, g)" and "fleet_ok en"
  shows "fl_steps (fe_uuid en) f g"
proof -
  have s: "fl_steps (fe_uuid en) f (site en k f)" by (rule fl_steps_site [OF assms(2)])
  have t: "fl_steps (fe_uuid en) (site en k f) (site en (Suc (Suc k)) (site en (Suc k) (f'\<lparr>fl_trust := t, fl_rev := r\<rparr>)))"
    if "fl_pg f' = fl_pg (site en k f)" for f' t r
  proof -
    have "fl_steps (fe_uuid en) (site en k f) (f'\<lparr>fl_trust := t, fl_rev := r\<rparr>)" using that by (intro fl_steps_same) simp
    then show ?thesis using fl_steps_site [OF assms(2)] fl_steps_trans by blast
  qed
  have "fl_pg g = fl_pg (site en k f) \<or> (\<exists>t r. fl_pg g = fl_pg (site en (Suc (Suc k)) (site en (Suc k) ((site en k f)\<lparr>fl_trust := t, fl_rev := r\<rparr>))))"
    using assms(1) by (auto simp: applyTrustChange_def Let_def split_beta split: option.splits)
  then show ?thesis using s t [of "site en k f"] fl_steps_trans fl_steps_same by metis
qed

lemma rowProto_steps:
  assumes "fleet_ok en"
  shows "fl_steps (fe_uuid en) f (snd (rowProto en k sha f))"
proof -
  have "fl_pg (snd (rowProto en k sha f)) = fl_pg (site en k f) \<or> fl_pg (snd (rowProto en k sha f)) = fl_pg (site en (k + 1) (site en k f))"
    by (simp add: rowProto_def Let_def split: sum.split option.split)
  then show ?thesis using fl_steps_site [OF assms] fl_steps_trans fl_steps_same by metis
qed

lemma fl_audit_steps: "fl_steps lib f g \<Longrightarrow> fl_steps lib f (fl_audit en k kind sha summary g)"
  using fl_steps_trans fl_steps_same [of "fl_audit en k kind sha summary g" g] by (auto simp: fl_audit_def)

lemma drop_answers_steps: "fl_steps lib f g \<Longrightarrow> fl_steps lib f (drop_answers sha g)"
  using fl_steps_trans fl_steps_same [of "drop_answers sha g" g] by (auto simp: drop_answers_def)

text \<open>A write, the change of trust and the reply, as three of the handlers end.\<close>

lemma write_apply_reply:
  assumes "fleet_ok en" and "ca_write refused call (site en 1 f) = (x, g)" and "\<And>db. pg_step db (snd (call db))"
    and "applyTrustChange en 2 (if b then drop_answers sha g else g) = (e, h)"
  shows "fl_steps (fe_uuid en) f g" "fl_steps (fe_uuid en) f h"
    "fl_steps (fe_uuid en) f (snd (rowProto en 5 sha (fl_audit en 1 kind sha summary h)))"
proof -
  show g: "fl_steps (fe_uuid en) f g" by (rule fl_steps_then [OF assms(1) ca_write_steps [OF assms(2,3)]])
  then have "fl_steps (fe_uuid en) f (if b then drop_answers sha g else g)" using drop_answers_steps by simp
  then show h: "fl_steps (fe_uuid en) f h" using applyTrustChange_steps [OF assms(4,1)] fl_steps_trans by blast
  show "fl_steps (fe_uuid en) f (snd (rowProto en 5 sha (fl_audit en 1 kind sha summary h)))"
    by (rule fl_steps_trans [OF fl_audit_steps [OF h] rowProto_steps [OF assms(1)]])
qed

lemma RetireOperatorCA_steps:
  assumes "fleet_ok en"
  shows "fl_steps (fe_uuid en) f (snd (RetireOperatorCA en q f))"
proof (cases "operatorCAWrite en f")
  case (Inr i)
  let ?f = "site en 0 f"
  have f: "fl_steps (fe_uuid en) f ?f" by (rule fl_steps_site [OF assms])
  show ?thesis
  proof (cases "findRow en 0 (tq_Sha256 q) ?f")
    case row: (Inr row)
    obtain x g where w: "ca_write (StoreFailure PgOperatorCANotFound)
        (pg_SetOperatorCAState (fe_fault en 1) (fe_clk en) (ca_SHA256 row) OperatorCARetired retiredByAdmin (fe_now en 1)) (site en 1 ?f) = (x, g)" by fastforce
    obtain e h where h: "applyTrustChange en 2 (drop_answers (ca_SHA256 row) g) = (e, h)" by fastforce
    note steps = write_apply_reply [OF assms w pg_step.set_state, of True, simplified, OF h]
    then show ?thesis
      using f Inr row w h fl_steps_trans [OF f]
      by (simp add: RetireOperatorCA_def Let_def split: sum.split trust_error.split pg_error.split option.split)
  qed (use f Inr in \<open>simp add: RetireOperatorCA_def Let_def\<close>)
qed (simp add: RetireOperatorCA_def fl_steps_same)

lemma fleet_SetOperatorCACRLSource_steps:
  assumes "fleet_ok en"
  shows "fl_steps (fe_uuid en) f (snd (fleet_SetOperatorCACRLSource en q f))"
proof (cases "\<exists>i src. operatorCAWrite en f = Inr i \<and> sq_CrlSource q = Some src")
  case True
  then obtain i src where i: "operatorCAWrite en f = Inr i" "sq_CrlSource q = Some src" by blast
  let ?f = "site en 0 f" and ?c = "choice_of (acksOf (sq_Acks q)) src"
  have f: "fl_steps (fe_uuid en) f ?f" by (rule fl_steps_site [OF assms])
  show ?thesis
  proof (cases "\<exists>row cert crl. trustedRow en 0 (sq_Sha256 q) ?f = Inr (row, cert) \<and>
      CheckCRLChoice (fe_lib en) (fe_fetch en) (fe_now en 0) cert ?c = Inr crl")
    case True
    then obtain row cert crl where r: "trustedRow en 0 (sq_Sha256 q) ?f = Inr (row, cert)"
      "CheckCRLChoice (fe_lib en) (fe_fetch en) (fe_now en 0) cert ?c = Inr crl" by blast
    obtain x g where w: "ca_write DatabaseRequired (pg_SetOperatorCACRLSource (fe_fault en 1) (fe_clk en) (ca_SHA256 row) (ch_Source ?c) (ch_URL ?c)
        (ch_Acknowledgements ?c) (crlWrite (ca_SHA256 row) (ch_Source ?c) crl (fe_now en 0))) (site en 1 ?f) = (x, g)" by fastforce
    obtain e h where h: "applyTrustChange en 2 g = (e, h)" by fastforce
    note steps = write_apply_reply [OF assms w pg_step.crl_source, of False, simplified, OF h]
    then show ?thesis
      using f i r w h fl_steps_trans [OF f]
      by (simp add: fleet_SetOperatorCACRLSource_def Let_def split: sum.split option.split)
  qed (use f i in \<open>auto simp: fleet_SetOperatorCACRLSource_def Let_def split: sum.split\<close>)
qed (auto simp: fleet_SetOperatorCACRLSource_def fl_steps_same split: sum.split option.split)

lemma fleet_SetOperatorCAOCSP_steps:
  assumes "fleet_ok en"
  shows "fl_steps (fe_uuid en) f (snd (fleet_SetOperatorCAOCSP en q f))"
proof (cases "operatorCAWrite en f")
  case (Inr i)
  let ?f = "site en 0 f"
  have f: "fl_steps (fe_uuid en) f ?f" by (rule fl_steps_site [OF assms])
  show ?thesis
  proof (cases "trustedRow en 0 (oq_Sha256 q) ?f")
    case row: (Inr rc)
    obtain row cert where rc: "rc = (row, cert)" by fastforce
    obtain x g where w: "ca_write DatabaseRequired (pg_SetOperatorCAOCSP (fe_fault en 1) (fe_clk en) (ca_SHA256 row) (ocspModeOf (oq_OcspMode q)) (oq_OcspUrl q))
        (site en 1 ?f) = (x, g)" by fastforce
    obtain e h where h: "applyTrustChange en 2 (drop_answers (ca_SHA256 row) g) = (e, h)" by fastforce
    note steps = write_apply_reply [OF assms w pg_step.ocsp, of True, simplified, OF h]
    then show ?thesis
      using f Inr row rc w h fl_steps_trans [OF f]
      by (simp add: fleet_SetOperatorCAOCSP_def Let_def fl_steps_same split: sum.split trust_error.split pg_error.split option.split)
  qed (use f Inr in \<open>simp add: fleet_SetOperatorCAOCSP_def Let_def fl_steps_same\<close>)
qed (simp add: fleet_SetOperatorCAOCSP_def fl_steps_same)

lemma StoreCRL_pg:
  assumes "StoreCRL (pg_trust fault clk render) lib now sha der source db r = (x, db', r')"
  shows "db' = db \<or> (\<exists>c decide. db' = snd (pg_PutOperatorCRL fault c decide db))"
  using assms by (auto simp: StoreCRL_def pg_trust_def split_beta split: option.splits sum.splits prod.splits bool.splits)

lemma fl_StoreCRL_steps:
  assumes "fl_StoreCRL en sha der source f = (x, g)"
  shows "fl_steps lib f g"
proof (cases "fl_pg f")
  case None
  then show ?thesis using assms by (auto simp: fl_StoreCRL_def fl_steps_def split_beta Let_def)
next
  case (Some s)
  obtain y db r where d: "StoreCRL (pg_trust (fe_fault en 1) (fe_clk en) (\<lambda>_. [])) (cl_crl (fe_lib en)) (fe_now en 0) sha der source (cq_db s) (fl_rev f) = (y, db, r)"
    by (rule prod_cases3)
  have "cred_step lib s (s\<lparr>cq_db := db\<rparr>) \<or> db = cq_db s"
    using StoreCRL_pg [OF d] cred_step.other [OF pg_step.put_crl] by blast
  then have "(cred_step lib)\<^sup>*\<^sup>* s (s\<lparr>cq_db := db\<rparr>)" by auto
  then show ?thesis using assms Some d by (auto simp: fl_StoreCRL_def fl_steps_def)
qed

lemma UploadOperatorCRL_steps:
  assumes "fleet_ok en"
  shows "fl_steps (fe_uuid en) f (snd (UploadOperatorCRL en q f))"
proof (cases "operatorCAWrite en f")
  case (Inr i)
  let ?f = "site en 0 f"
  have f: "fl_steps (fe_uuid en) f ?f" by (rule fl_steps_site [OF assms])
  show ?thesis
  proof (cases "trustedRow en 0 (uq_Sha256 q) ?f")
    case row: (Inr rc)
    obtain row cert where rc: "rc = (row, cert)" by fastforce
    obtain x g where w: "fl_StoreCRL en (ca_SHA256 row) (uq_CrlDer q) CRLSourceUpload (site en 1 ?f) = (x, g)" by fastforce
    have g: "fl_steps (fe_uuid en) ?f g" by (rule fl_steps_then [OF assms fl_StoreCRL_steps [OF w]])
    have "fl_steps (fe_uuid en) ?f (snd (rowProto en 2 (ca_SHA256 row) (if b then fl_audit en 1 kind sha msg g else g)))" for b kind sha msg
      using fl_steps_trans [OF _ rowProto_steps [OF assms]] fl_audit_steps [OF g] g by simp
    then show ?thesis
      using f g Inr row rc w fl_steps_trans [OF f]
      by (simp add: UploadOperatorCRL_def Let_def split: sum.split trust_error.split)
  qed (use f Inr in \<open>simp add: UploadOperatorCRL_def Let_def\<close>)
qed (simp add: UploadOperatorCRL_def fl_steps_same)

lemma fleet_RegisterOperatorCA_steps:
  assumes "fleet_ok en"
  shows "fl_steps (fe_uuid en) f (snd (fleet_RegisterOperatorCA en q f))"
proof -
  let ?f = "site en 0 f"
  have f: "fl_steps (fe_uuid en) f ?f" by (rule fl_steps_site [OF assms])
  have "fl_steps (fe_uuid en) ?f (snd (rotate_and_apply en i q k rows ?f))" for i k rows
  proof -
    let ?row = "rotation_row en i q k"
    obtain x g where w: "ca_write DatabaseRequired (pg_RotateOperatorCA (fe_fault en 1) (fe_clk en) ?row
        (crlWrite (ca_SHA256 ?row) (ca_CRLSource ?row) (fk_crl k) (fe_now en 0))) (site en 1 ?f) = (x, g)" by fastforce
    obtain e h where h: "applyTrustChange en 2 g = (e, h)" by fastforce
    note steps = write_apply_reply [OF assms w pg_step.rotate, of False, simplified, OF h]
    then show ?thesis
      using w h fl_audit_steps [OF steps(2)] by (simp add: rotate_and_apply_def Let_def split: sum.split option.split)
  qed
  then show ?thesis
    using f fl_steps_trans [OF f] by (simp add: fleet_RegisterOperatorCA_def Let_def fl_steps_same split: sum.split)
qed

subsection \<open>The invariants of the database under all handlers\<close>

lemma CreateOperatorCredentialRequest_steps:
  assumes "fleet_ok en"
  shows "fl_steps (fe_uuid en) f (snd (CreateOperatorCredentialRequest en q f))"
proof -
  have w: "fl_steps (fe_uuid en) f g"
    if "cred_call (Inl CredDatabaseRequired) (pg_AddOperatorCredentialRequest (fe_uuid en) (fe_fault en 0) (new_request en i q email)) (site en 0 f) = (x, g)"
    for i email x g
    by (rule fl_steps_then [OF assms cred_call_steps [OF that cred_step.add]]) (simp add: new_request_def)
  then have r: "fl_steps (fe_uuid en) f (fl_record en at k s t p g)"
    if "cred_call (Inl CredDatabaseRequired) (pg_AddOperatorCredentialRequest (fe_uuid en) (fe_fault en 0) (new_request en i q email)) (site en 0 f) = (x, g)"
    for i email x g at k s t p
    using fl_steps_trans [OF w [OF that] fl_steps_same [of "fl_record en at k s t p g" g]] by simp
  show ?thesis
    by (simp add: CreateOperatorCredentialRequest_def Let_def fl_steps_same w r split: sum.split prod.split)
qed

lemma ListOperatorCredentialRequests_steps:
  assumes "fleet_ok en"
  shows "fl_steps (fe_uuid en) f (snd (ListOperatorCredentialRequests en state f))"
proof -
  have "fl_steps (fe_uuid en) f g"
    if "cred_call (Inl CredDatabaseRequired) (pg_OperatorCredentialRequests (fe_fault en 0) state (fe_now en 0)) (site en 0 f) = (x, g)" for x g
    by (rule fl_steps_then [OF assms cred_call_steps [OF that cred_step.list]])
  then show ?thesis by (simp add: ListOperatorCredentialRequests_def fl_steps_same split: sum.split prod.split)
qed

lemma fleet_CancelOperatorCredentialRequest_steps:
  assumes "fleet_ok en"
  shows "fl_steps (fe_uuid en) f (snd (fleet_CancelOperatorCredentialRequest en rid f))"
proof -
  obtain x g where g: "cred_call (Inl (CredDatabaseRequired, None))
      (pg_CancelOperatorCredentialRequest (fe_uuid en) (fe_fault en 0) rid (fe_now en 0)) (site en 0 f) = (x, g)" by fastforce
  have w: "fl_steps (fe_uuid en) f g"
    by (rule fl_steps_then [OF assms cred_call_steps [OF g cred_step.cancel]])
  have "fl_steps (fe_uuid en) f (fl_record en at k s t p g)" for at k s t p
    using fl_steps_trans [OF w fl_steps_same [of "fl_record en at k s t p g" g]] by simp
  then show ?thesis
    using w by (simp add: fleet_CancelOperatorCredentialRequest_def g fl_steps_same split: sum.split prod.split option.split cred_error.split)
qed

lemma store_credential_steps:
  assumes "store_credential en cred rid f = (x, g)" and "fleet_ok en" and "cred_Kind cred \<noteq> OperatorCredentialObserved"
  shows "fl_steps (fe_uuid en) f g"
proof -
  obtain y h where h: "cred_call (Inl CredDatabaseRequired) (pg_RecordOperatorCredential (fe_uuid en) (fe_fault en 1) cred rid (fe_now en 0)) (site en 1 f) = (y, h)"
    by fastforce
  obtain z h' where h': "cred_call (Inl CredDatabaseRequired) (pg_OperatorCredentialRequest (fe_uuid en) (fe_fault en 2) rid (fe_now en 0)) (site en 2 h) = (z, h')"
    by fastforce
  have 1: "fl_steps (fe_uuid en) f h"
    by (rule fl_steps_then [OF assms(2) cred_call_steps [OF h cred_step.record_credential [OF assms(3)]]])
  have 2: "fl_steps (fe_uuid en) h h'" by (rule fl_steps_then [OF assms(2) cred_call_steps [OF h' cred_step.get]])
  have "g = h \<or> g = h'" using assms(1) h h' by (auto simp: store_credential_def split: sum.splits cred_error.splits)
  then show ?thesis using 1 2 fl_steps_trans by blast
qed

lemma read_request_steps:
  assumes "read_request en rid f = (x, g)" and "fleet_ok en"
  shows "fl_steps (fe_uuid en) f g" "fl_trust g = fl_trust f" "fl_rev g = fl_rev f"
proof -
  obtain y h where h: "cred_call (Inl CredDatabaseRequired) (pg_OperatorCredentialRequest (fe_uuid en) (fe_fault en 0) rid (fe_now en 0)) (site en 0 f) = (y, h)"
    by fastforce
  have 1: "fl_steps (fe_uuid en) f h" by (rule fl_steps_then [OF assms(2) cred_call_steps [OF h cred_step.get]])
  have 2: "fl_trust h = fl_trust f" "fl_rev h = fl_rev f" using h by (auto simp: cred_call_def split_beta Let_def split: option.splits)
  have "g = f \<or> g = h" using assms(1) h by (auto simp: read_request_def split: sum.splits if_split_asm)
  then show "fl_steps (fe_uuid en) f g" "fl_trust g = fl_trust f" "fl_rev g = fl_rev f" using 1 2 fl_steps_same [of f f] by auto
qed

lemma check_live_pg: "fl_pg (snd (check_live en c cert anchor f)) = fl_pg f"
  by (simp add: check_live_def Let_def split_beta split: sum.split)

lemma record_checked_steps:
  assumes "fleet_ok en"
  shows "fl_steps (fe_uuid en) f (snd (record_checked en cert name req f))"
proof (cases "signingAnchor en cert f")
  case (Inr a)
  let ?c = "\<lparr>cc_Now = fe_now en 0, cc_WantLevel = (case req of None \<Rightarrow> [] | Some (r, _) \<Rightarrow> ocr_Level r),
       cc_CSR = map_option snd req, cc_Revoked = None, cc_CheckRevocation = None\<rparr>"
  obtain y g where g: "check_live en ?c cert (an_Cert a) f = (y, g)" by fastforce
  have fg: "fl_steps (fe_uuid en) f g" using check_live_pg [of en ?c cert "an_Cert a" f] g by (intro fl_steps_same) simp
  have "fl_steps (fe_uuid en) f (snd (case store_credential en cred rid g of (Inl e, f) \<Rightarrow> (Inl e, f) | (Inr _, f) \<Rightarrow> (Inr cred, fl_record en at k s t p f)))"
    if "cred = recorded_row en a r name res cert" for cred rid at k s t p r res
  proof -
    obtain z h where h: "store_credential en cred rid g = (z, h)" by fastforce
    have "cred_Kind cred \<noteq> OperatorCredentialObserved"
      by (simp add: that recorded_row_def OperatorCredentialObserved_def OperatorCredentialRecorded_def OperatorCredentialRequested_def)
    then have "fl_steps (fe_uuid en) f h" using store_credential_steps [OF h assms] fl_steps_trans [OF fg] by blast
    then show ?thesis
      using h fl_steps_trans [OF _ fl_steps_same [of "fl_record en at k s t p h" h]] by (simp split: sum.split)
  qed
  then show ?thesis
    using Inr fg by (simp add: record_checked_def g Let_def fl_steps_same split: sum.split)
qed (simp add: record_checked_def fl_steps_same)

lemma RecordOperatorCredential_steps:
  assumes "fleet_ok en"
  shows "fl_steps (fe_uuid en) f (snd (RecordOperatorCredential en q f))"
proof -
  obtain x g where g: "read_request en (rr_RequestId q) f = (x, g)" by fastforce
  have "fl_steps (fe_uuid en) f g" by (rule read_request_steps(1) [OF g assms])
  moreover from this have "fl_steps (fe_uuid en) f (snd (record_checked en cert name req g))" for cert name req
    using record_checked_steps [OF assms] fl_steps_trans by blast
  ultimately show ?thesis by (simp add: RecordOperatorCredential_def g fl_steps_same split: sum.split)
qed

lemma fl_deny_steps:
  assumes "fl_deny en e f = (x, g)"
  shows "fl_steps lib f g"
proof (cases "fl_pg f")
  case None
  then show ?thesis using assms by (auto simp: fl_deny_def fl_steps_def split_beta Let_def)
next
  case (Some s)
  let ?T = "split_trust (fe_fault en 1) (fe_fault en 2) (fe_clk en)"
  obtain y db r where d: "Deny ?T (fe_now en 0) e (cq_db s) (fl_rev f) = (y, db, r)" by (rule prod_cases3)
  have "\<exists>e'. db = snd (pg_AddOperatorDenylistEntry (fe_fault en 1) (fe_clk en) e' (cq_db s))"
    using d by (auto simp: Deny_def Let_def split_trust_write split_beta split: sum.splits prod.splits)
  then have "cred_step lib s (s\<lparr>cq_db := db\<rparr>)" using cred_step.other [OF pg_step.deny] by blast
  then show ?thesis using assms Some d by (auto simp: fl_deny_def fl_steps_def)
qed

lemma RevokeOperatorCredential_steps:
  assumes "fleet_ok en"
  shows "fl_steps (fe_uuid en) f (snd (RevokeOperatorCredential en q f))"
proof (cases "admin_caller (fe_ctx en)")
  case (Inr i)
  define f0 where "f0 = site en 0 f"
  define serial where "serial = NormalizeSerial (vq_SerialHex q)"
  define asked where "asked = (if map lower_char (vq_IssuerSha256 q) = [] then recordedIssuer serial f0 else map lower_char (vq_IssuerSha256 q))"
  define issuer where "issuer = (if asked = [] then activeOperatorCA en f0 else asked)"
  have f: "fl_steps (fe_uuid en) f f0" unfolding f0_def by (rule fl_steps_site [OF assms])
  obtain err c g where g: "fl_deny en \<lparr>deny_IssuerSHA256 = issuer, deny_SerialHex = serial, deny_Reason = vq_ReasonCode q, deny_RevokedAt = fe_now en 0,
      deny_RevokedByCN = CN i, deny_RevokedBySerial = Serial i, deny_Note = vq_Note q\<rparr> (site en 1 f0) = ((err, c), g)" by (metis surj_pair)
  have w: "fl_steps (fe_uuid en) f g" by (rule fl_steps_trans [OF f fl_steps_then [OF assms fl_deny_steps [OF g]]])
  have "fl_pg (snd (RevokeOperatorCredential en q f)) \<in> {fl_pg f, fl_pg f0, fl_pg g}"
    unfolding RevokeOperatorCredential_def Inr Let_def sum.case serial_def [symmetric] f0_def [symmetric] asked_def [symmetric]
      issuer_def [symmetric] g prod.case
    by (auto split: option.split)
  then show ?thesis using f w fl_steps_trans fl_steps_same by (metis empty_iff insert_iff)
qed (simp add: RevokeOperatorCredential_def fl_steps_same)

text \<open>A replica's handlers, in any order, each with its own environment: other replicas and processes act on the database between the
  accesses of a handler, and any access may fail.\<close>

inductive fleet_step :: "uuid_lib \<Rightarrow> fleet \<Rightarrow> fleet \<Rightarrow> bool" for lib where
  register: "fleet_ok en \<Longrightarrow> fe_uuid en = lib \<Longrightarrow> fleet_step lib f (snd (fleet_RegisterOperatorCA en q1 f))"
| retire: "fleet_ok en \<Longrightarrow> fe_uuid en = lib \<Longrightarrow> fleet_step lib f (snd (RetireOperatorCA en q2 f))"
| crl_source: "fleet_ok en \<Longrightarrow> fe_uuid en = lib \<Longrightarrow> fleet_step lib f (snd (fleet_SetOperatorCACRLSource en q3 f))"
| upload_crl: "fleet_ok en \<Longrightarrow> fe_uuid en = lib \<Longrightarrow> fleet_step lib f (snd (UploadOperatorCRL en q4 f))"
| set_ocsp: "fleet_ok en \<Longrightarrow> fe_uuid en = lib \<Longrightarrow> fleet_step lib f (snd (fleet_SetOperatorCAOCSP en q5 f))"
| create_request: "fleet_ok en \<Longrightarrow> fe_uuid en = lib \<Longrightarrow> fleet_step lib f (snd (CreateOperatorCredentialRequest en q6 f))"
| list_requests: "fleet_ok en \<Longrightarrow> fe_uuid en = lib \<Longrightarrow> fleet_step lib f (snd (ListOperatorCredentialRequests en st f))"
| cancel_request: "fleet_ok en \<Longrightarrow> fe_uuid en = lib \<Longrightarrow> fleet_step lib f (snd (fleet_CancelOperatorCredentialRequest en rid f))"
| record_credential: "fleet_ok en \<Longrightarrow> fe_uuid en = lib \<Longrightarrow> fleet_step lib f (snd (RecordOperatorCredential en q7 f))"
| revoke_credential: "fleet_ok en \<Longrightarrow> fe_uuid en = lib \<Longrightarrow> fleet_step lib f (snd (RevokeOperatorCredential en q8 f))"

lemmas handler_steps = fleet_RegisterOperatorCA_steps RetireOperatorCA_steps fleet_SetOperatorCACRLSource_steps UploadOperatorCRL_steps
  fleet_SetOperatorCAOCSP_steps CreateOperatorCredentialRequest_steps ListOperatorCredentialRequests_steps
  fleet_CancelOperatorCredentialRequest_steps RecordOperatorCredential_steps RevokeOperatorCredential_steps

lemma fleet_step_steps: "fleet_step lib f f' \<Longrightarrow> fl_steps lib f f'"
  by (induction rule: fleet_step.induct) (auto intro: handler_steps)

lemma fleet_steps: "(fleet_step lib)\<^sup>*\<^sup>* f f' \<Longrightarrow> fl_steps lib f f'"
proof (induction rule: rtranclp_induct)
  case base
  then show ?case by (simp add: fl_steps_same)
next
  case (step y z)
  then show ?case using fleet_step_steps fl_steps_trans by blast
qed

lemma cred_step_pg_ok:
  assumes "cred_step lib s s'" and "pg_ok (cq_db s)"
  shows "pg_ok (cq_db s')"
proof -
  have frame: "pg_ok (db\<lparr>pg_credentials := cs\<rparr>) \<longleftrightarrow> pg_ok db" for db cs
    by (simp add: pg_ok_def first_run_ok_def unused_def unended_def)
  show ?thesis
    using assms(1)
  proof cases
    case (other db)
    then show ?thesis using pg_step_ok assms(2) by simp
  qed (use assms(2) frame in \<open>simp_all add: pg_AddOperatorCredentialRequest_def pg_OperatorCredentialRequests_def pg_OperatorCredentialRequest_def
      pg_CancelOperatorCredentialRequest_def pg_RecordOperatorCredential_def pg_ObserveOperatorCredential_def Let_def split: option.split sum.split\<close>)
qed

lemma cred_steps_pg_ok: "(cred_step lib)\<^sup>*\<^sup>* s s' \<Longrightarrow> pg_ok (cq_db s) \<Longrightarrow> pg_ok (cq_db s')"
  by (induction rule: rtranclp_induct) (use cred_step_pg_ok in blast)+

text \<open>C23: whatever admins ask of a replica, in any order, with other replicas at work on the same database between any two accesses and with any
  access failing, the database stays consistent: at most one operator CA is active and one retiring, the requests and credentials keep
  their invariant, and first run keeps its own.\<close>

theorem fleet_keeps_database_consistent:
  assumes "(fleet_step lib)\<^sup>*\<^sup>* f f'" and "fl_pg f = Some s" and "(cred_step lib)\<^sup>*\<^sup>* cred_empty s" and "\<And>i. u_cast lib i \<noteq> Some []"
  shows "\<exists>s'. fl_pg f' = Some s' \<and> cas_ok (pg_cas (cq_db s')) \<and> first_run_ok (cq_db s') \<and> cred_ok s' \<and>
    length (with_state OperatorCAActive (pg_cas (cq_db s'))) \<le> 1 \<and> length (with_state OperatorCARetiring (pg_cas (cq_db s'))) \<le> 1"
proof -
  obtain s' where s': "fl_pg f' = Some s'" "(cred_step lib)\<^sup>*\<^sup>* s s'" using fleet_steps [OF assms(1)] assms(2) by (auto simp: fl_steps_def)
  then have steps: "(cred_step lib)\<^sup>*\<^sup>* cred_empty s'" using assms(3) by simp
  have "cred_ok cred_empty" by (simp add: cred_empty_def cred_ok_def credentials_ok_def migrated_def)
  then have "cred_ok s'" using cred_steps_settle(1) [OF steps] assms(4) by blast
  moreover have "pg_ok (cq_db s')" using cred_steps_pg_ok [OF steps] pg_ok_migrated by (simp add: cred_empty_def)
  ultimately show ?thesis using s'(1) by (simp add: pg_ok_def cas_ok_def)
qed

subsection \<open>Rotating and retiring\<close>

lemma operatorCAWrite_Inr:
  "operatorCAWrite en f = Inr i \<longleftrightarrow> FromContext (fe_ctx en) = Some i \<and> Level i \<ge> LevelAdmin \<and> fl_configured f \<and> tr_kind (fl_trust f) = KindRegistered"
  using admin_caller_Inr [of "fe_ctx en" i] by (auto simp: operatorCAWrite_def hasOperatorCA_def split: sum.splits if_split_asm)

lemma findRow_Inr:
  assumes "findRow en k sha f = Inr row" and "fl_pg f = Some s"
  shows "row \<in> set (pg_OperatorCAs (cq_db s)) \<and> ca_SHA256 row = fleet_normalizeFingerprint sha"
  using assms by (auto simp: findRow_def fl_OperatorCAs_def read_result_def find_Some_iff split: sum.splits option.splits)

text \<open>After a change of trust a peer is accepted only under a CA that the database trusted when the rows were read.\<close>

lemma applyTrustChange_trusts:
  assumes "applyTrustChange en k f = (None, g)" and "fl_pg f = Some s" and "tr_kind (fl_trust f) = KindRegistered"
    and "ts_reach (cl_peer (fe_lib en)) (fl_trust f)" and "g_n (tr_gen (fl_trust f)) \<noteq> - 1"
    and rows: "rows = pg_OperatorCAs (cq_db (fe_others en k s))" "list_all plain_row rows"
  shows "{sha. mget (g_anchors (tr_gen (fl_trust g))) sha \<noteq> None} = an_SHA256 ` set (load_rows (cl_peer (fe_lib en)) rows)"
    "VerifyPeer (cl_peer (fe_lib en)) now leaf inters (fl_trust g) = (Inr a, t) \<Longrightarrow>
       \<exists>row \<in> set rows. ca_SHA256 row = an_SHA256 a \<and> (ca_State row = OperatorCAActive \<or> ca_State row = OperatorCARetiring)"
proof -
  let ?f = "site en k f"
  obtain err t r where b: "Rebuild (cl_peer (fe_lib en)) (fe_ticket en) (fl_OperatorCAs en k ?f) (fl_trust ?f) (fl_rev ?f) = (err, t, r)" by (rule prod_cases3)
  have "err = None" "fl_trust g = t" using assms(1) b by (auto simp: applyTrustChange_def Let_def split_beta split: option.splits)
  moreover from this(1) have "fl_OperatorCAs en k ?f = Inr rows"
    using b assms(2,3) rows(1) by (cases "fe_fault en k") (auto simp: fl_OperatorCAs_def read_result_def Rebuild_def ts_load_def)
  ultimately have "Rebuild (cl_peer (fe_lib en)) (fe_ticket en) (Inr rows) (fl_trust f) (fl_rev f) = (None, fl_trust g, r)" using b by simp
  note trusts = rebuild_trusts [OF assms(4,3) rows(2) assms(5) this]
  show "{sha. mget (g_anchors (tr_gen (fl_trust g))) sha \<noteq> None} = an_SHA256 ` set (load_rows (cl_peer (fe_lib en)) rows)" using trusts by blast
  show "VerifyPeer (cl_peer (fe_lib en)) now leaf inters (fl_trust g) = (Inr a, t) \<Longrightarrow>
       \<exists>row \<in> set rows. ca_SHA256 row = an_SHA256 a \<and> (ca_State row = OperatorCAActive \<or> ca_State row = OperatorCARetiring)" for t
    using trusts by blast
qed

lemma ca_write_Inr:
  assumes "ca_write refused call f = (Inr x, g)" and "fl_pg f = Some s"
  shows "\<exists>db. call (cq_db s) = (Inr (), db) \<and> g = f\<lparr>fl_pg := Some (s\<lparr>cq_db := db\<rparr>)\<rparr>"
  using assms by (cases "call (cq_db s)"; cases "fst (call (cq_db s))") (auto simp: ca_write_def)

lemma rowProto_frame [simp]: "fl_trust (snd (rowProto en k sha f)) = fl_trust f" "fl_trust (fl_audit en k kind sha msg f) = fl_trust f"
  "fl_trust (drop_answers sha f) = fl_trust f" "fl_pg (drop_answers sha f) = fl_pg f"
  by (simp_all add: rowProto_def Let_def fl_audit_def drop_answers_def split: sum.split option.split)

lemma set_state_retired:
  assumes "pg_SetOperatorCAState fault clk sha OperatorCARetired reason at db = (Inr (), db')"
  shows "(\<exists>r \<in> set (pg_cas db'). ca_SHA256 r = sha) \<and> (\<forall>r \<in> set (pg_cas db'). ca_SHA256 r = sha \<longrightarrow> ca_State r = OperatorCARetired)"
proof -
  let ?u = "\<lambda>r. if ca_SHA256 r = sha then r\<lparr>ca_State := OperatorCARetired, ca_RetiredAt := at, ca_RetiredReason := reason, ca_UpdatedAt := clk\<rparr> else r"
  have mem: "sha \<in> ca_SHA256 ` set (pg_cas db)" and rows: "pg_cas db' = map ?u (pg_cas db)"
    using assms by (auto simp: pg_SetOperatorCAState_def write_cas_def split: if_split_asm option.splits)
  from mem obtain r where r: "r \<in> set (pg_cas db)" "ca_SHA256 r = sha" by blast
  have "?u r \<in> set (pg_cas db')" unfolding rows set_map using r(1) by (rule imageI)
  moreover have "ca_SHA256 (?u r) = sha" using r(2) by simp
  moreover have "ca_SHA256 (?u x) = sha \<longrightarrow> ca_State (?u x) = OperatorCARetired" for x :: ca_row by simp
  then have "\<forall>r \<in> set (pg_cas db'). ca_SHA256 r = sha \<longrightarrow> ca_State r = OperatorCARetired"
    unfolding rows set_map by (intro ballI) (erule imageE, simp only:)
  ultimately show ?thesis by blast
qed



subsection \<open>A retirement overtaken by another admin\<close>

lemma applyTrustChange_quiet:
  assumes "tr_kind (fl_trust f) = KindRegistered" and "\<And>k. fe_fault en k = None" and "fe_ticket en = Some t" and "\<And>k s. k \<ge> 2 \<Longrightarrow> fe_others en k s = s" and "fl_pg f = Some s"
  shows "\<exists>h. applyTrustChange en 2 f = (None, h) \<and> fl_pg h = Some s"
proof -
  have "fl_OperatorCAs en 2 (site en 2 f) = Inr (pg_OperatorCAs (cq_db s))" using assms by (simp add: fl_OperatorCAs_def read_result_def)
  then have "fst (Rebuild (cl_peer (fe_lib en)) (fe_ticket en) (fl_OperatorCAs en 2 (site en 2 f)) (fl_trust (site en 2 f)) (fl_rev (site en 2 f))) = None"
    using assms by (simp add: Rebuild_def ts_load_def install_def)
  then show ?thesis using assms by (simp add: applyTrustChange_def Let_def split_beta)
qed

lemma rowProto_quiet:
  assumes "\<And>k. fe_fault en k = None" and "\<And>k s. k \<ge> 2 \<Longrightarrow> fe_others en k s = s" and "fl_pg f = Some s" and "k \<ge> 2"
    and "sha \<in> ca_SHA256 ` set (pg_cas (cq_db s))" and "fleet_normalizeFingerprint sha = sha" and "\<And>der. pl_parse (cl_peer (fe_lib en)) der = Inr cert"
  shows "\<exists>c h. rowProto en k sha f = (Inr c, h) \<and> fl_pg h = Some s"
proof -
  have "\<exists>r. find (\<lambda>r. ca_SHA256 r = sha) (pg_OperatorCAs (cq_db s)) = Some r"
    using assms(5) by (cases "find (\<lambda>r. ca_SHA256 r = sha) (pg_OperatorCAs (cq_db s))") (auto simp: find_None_iff pg_OperatorCAs_def operator_ca.defs)
  then obtain r where "findRow en k sha (site en k f) = Inr r" using assms by (auto simp: findRow_def fl_OperatorCAs_def read_result_def)
  then show ?thesis using assms by (simp add: rowProto_def Let_def rowToProto_def)
qed

lemma RetireOperatorCA_goes_through:
  assumes "operatorCAWrite en f = Inr i" and "findRow en 0 (tq_Sha256 q) (site en 0 f) = Inr row" and "ca_State row = OperatorCARetiring"
    and "IssuerSHA256 i \<noteq> ca_SHA256 row" and "fl_pg f = Some s" and "\<And>k. fe_fault en k = None" and "fe_ticket en = Some t"
    and "\<And>k s. k \<ge> 2 \<Longrightarrow> fe_others en k s = s" and "\<And>der. pl_parse (cl_peer (fe_lib en)) der = Inr cert"
    and "fleet_normalizeFingerprint (ca_SHA256 row) = ca_SHA256 row"
    and w: "pg_SetOperatorCAState None (fe_clk en) (ca_SHA256 row) OperatorCARetired retiredByAdmin (fe_now en 1) (cq_db (fe_others en 1 (fe_others en 0 s))) = (Inr (), db)"
  shows "\<exists>c f'. RetireOperatorCA en q f = (Inr c, f') \<and> fl_pg f' = Some ((fe_others en 1 (fe_others en 0 s))\<lparr>cq_db := db\<rparr>)"
proof -
  let ?s = "(fe_others en 1 (fe_others en 0 s))\<lparr>cq_db := db\<rparr>" and ?sha = "ca_SHA256 row"
  let ?g = "(site en 1 (site en 0 f))\<lparr>fl_pg := Some ?s\<rparr>"
  have cw: "ca_write (StoreFailure PgOperatorCANotFound) (pg_SetOperatorCAState (fe_fault en 1) (fe_clk en) ?sha OperatorCARetired retiredByAdmin (fe_now en 1))
      (site en 1 (site en 0 f)) = (Inr (), ?g)"
    using assms(5,6) w by (simp add: ca_write_def)
  have kind: "tr_kind (fl_trust f) = KindRegistered" using assms(1) by (simp add: operatorCAWrite_Inr)
  obtain h where h: "applyTrustChange en 2 (drop_answers ?sha ?g) = (None, h)" "fl_pg h = Some ?s"
    using applyTrustChange_quiet [of "drop_answers ?sha ?g" en t ?s] assms kind by auto
  have mem: "?sha \<in> ca_SHA256 ` set (pg_cas (cq_db ?s))" using set_state_retired [OF w] by (force simp: image_iff)
  define told where "told = fl_audit en 1 ''operator-ca-retired'' ?sha (''Retired operator CA '' @ ?sha @ ''; certificates under it are no longer trusted'') h"
  have "fl_pg told = Some ?s" using h(2) by (simp add: told_def fl_audit_def)
  from rowProto_quiet [OF assms(6,8) this _ mem assms(10,9), of 5] obtain c f' where r: "rowProto en 5 ?sha told = (Inr c, f')" "fl_pg f' = Some ?s" by auto
  have "RetireOperatorCA en q f = (Inr c, f')"
    using assms(1-4) cw h(1) r(1) unfolding told_def by (simp add: RetireOperatorCA_def Let_def) (simp add: state_defs)
  then show ?thesis using r(2) by blast
qed

definition example_ca_env :: fleet_env where
  "example_ca_env = example_fleet_env\<lparr>fe_lib := example_reg_lib\<rparr>"

definition example_rotating :: pg_db where
  "example_rotating = migrated\<lparr>pg_cas := [activated 1 None (example_opca ''6361''), (activated 1 None (example_opca ''b''))\<lparr>ca_State := OperatorCARetiring\<rparr>]\<rparr>"

definition example_ca_fleet :: "pg_db \<Rightarrow> fleet" where
  "example_ca_fleet db = example_fleet\<lparr>fl_pg := Some (cred_empty\<lparr>cq_db := db\<rparr>)\<rparr>"

text \<open>Another admin finishes the retirement of the CA and registers it again.\<close>

definition retire_and_register :: "cred_db \<Rightarrow> cred_db" where
  "retire_and_register s = s\<lparr>cq_db := snd (pg_RotateOperatorCA None 5 (example_opca ''b'') None
     (snd (pg_SetOperatorCAState None 4 ''b'' OperatorCARetired retiredByAdmin 4 (cq_db s))))\<rparr>"

definition racing_env :: fleet_env where
  "racing_env = example_ca_env\<lparr>fe_others := (\<lambda>k. if k = 1 then retire_and_register else id)\<rparr>"

lemma racing_env_ok: "fleet_ok racing_env"
proof -
  have "(cred_step example_uuids)\<^sup>*\<^sup>* s (retire_and_register s)" for s
  proof -
    let ?db = "snd (pg_SetOperatorCAState None 4 ''b'' OperatorCARetired retiredByAdmin 4 (cq_db s))"
    have 1: "cred_step example_uuids s (s\<lparr>cq_db := ?db\<rparr>)" by (rule cred_step.other [OF pg_step.set_state])
    have "cred_step example_uuids (s\<lparr>cq_db := ?db\<rparr>) ((s\<lparr>cq_db := ?db\<rparr>)\<lparr>cq_db := snd (pg_RotateOperatorCA None 5 (example_opca ''b'') None (cq_db (s\<lparr>cq_db := ?db\<rparr>)))\<rparr>)"
      by (rule cred_step.other [OF pg_step.rotate])
    with 1 show ?thesis by (simp add: retire_and_register_def)
  qed
  then show ?thesis by (simp add: fleet_ok_def racing_env_def example_ca_env_def example_fleet_env_def example_uuids_def)
qed

lemma racing_rows:
  "map (\<lambda>r. (ca_SHA256 r, ca_State r)) (pg_cas (cq_db (retire_and_register (cred_empty\<lparr>cq_db := example_rotating\<rparr>)))) = [(''6361'', ''retiring''), (''b'', ''active'')]"
  "\<exists>db. pg_SetOperatorCAState None 1 ''b'' OperatorCARetired retiredByAdmin 1 (cq_db (retire_and_register (cred_empty\<lparr>cq_db := example_rotating\<rparr>))) = (Inr (), db) \<and>
     map (\<lambda>r. (ca_SHA256 r, ca_State r)) (pg_cas db) = [(''6361'', ''retiring''), (''b'', ''retired'')]"
  by (simp_all add: retire_and_register_def example_rotating_def pg_SetOperatorCAState_def pg_RotateOperatorCA_def change_cas_def write_cas_def with_crl_def
      cas_ok_def ca_row_ok_def with_state_def activated_def ca_insert_def operator_ca.defs ca_row.defs example_opca_def default_mode_def default_time_def IsZero_def
      upsert_ca_def retire_active_def trusted_state_def state_defs migrated_def bumpEpoch_def)

text \<open>The handler checks the state of a CA when it reads the row, and retires whatever row has that fingerprint when it writes. A CA that was
  retiring when it was read, and that another admin has meanwhile retired and registered again, is the active CA by then: the
  handler retires it all the same and leaves no active CA.\<close>

lemma stale_retirement_retires_active_ca:
  "\<exists>c f' s'. RetireOperatorCA racing_env \<lparr>tq_Sha256 = ''b'', tq_IUnderstandSelfLockout = False\<rparr> (example_ca_fleet example_rotating) = (Inr c, f') \<and>
     fl_pg f' = Some s' \<and> map ca_SHA256 (with_state OperatorCAActive (pg_cas (cq_db (fe_others racing_env 1 (cred_empty\<lparr>cq_db := example_rotating\<rparr>))))) = [''b''] \<and>
     with_state OperatorCAActive (pg_cas (cq_db s')) = []"
proof -
  let ?f = "example_ca_fleet example_rotating" and ?s = "cred_empty\<lparr>cq_db := example_rotating\<rparr>" and ?q = "\<lparr>tq_Sha256 = ''b'', tq_IUnderstandSelfLockout = False\<rparr>"
  have env: "fe_others racing_env 0 s = s" "fe_others racing_env 1 = retire_and_register" "k \<ge> 2 \<Longrightarrow> fe_others racing_env k s = s" "fe_fault racing_env k = None"
    "fe_ticket racing_env = Some ''k''" "pl_parse (cl_peer (fe_lib racing_env)) der = Inr example_ca" "fe_clk racing_env = 1" "fe_now racing_env k = 1" for k s der
    by (simp_all add: racing_env_def example_ca_env_def example_fleet_env_def example_reg_lib_def example_cert_lib_def example_peer_lib_def)
  have pg: "fl_pg ?f = Some ?s" by (simp add: example_ca_fleet_def)
  have i: "operatorCAWrite racing_env ?f = Inr example_admin"
    using example_fleet_anchors by (simp add: operatorCAWrite_Inr racing_env_def example_ca_env_def example_fleet_env_def NewContext_def FromContext_def example_admin_def
        example_ca_fleet_def) (simp add: example_fleet_def)
  have norm: "fleet_normalizeFingerprint ''b'' = ''b''" by code_simp
  let ?row = "operator_ca.truncate ((activated 1 None (example_opca ''b''))\<lparr>ca_State := OperatorCARetiring\<rparr>)"
  have st: "ca_State ?row = OperatorCARetiring" "ca_SHA256 ?row = ''b''" "ca_SHA256 (operator_ca.truncate (activated 1 None (example_opca ''6361''))) = ''6361''"
    by (simp_all add: operator_ca.defs activated_def ca_insert_def example_opca_def)
  have rows: "pg_OperatorCAs example_rotating = [operator_ca.truncate (activated 1 None (example_opca ''6361'')), ?row]"
    by (simp add: pg_OperatorCAs_def example_rotating_def)
  have row: "findRow racing_env 0 ''b'' (site racing_env 0 ?f) = Inr ?row"
    by (simp add: findRow_def fl_OperatorCAs_def pg env read_result_def rows norm st)
  obtain db where db: "pg_SetOperatorCAState None 1 ''b'' OperatorCARetired retiredByAdmin 1 (cq_db (retire_and_register ?s)) = (Inr (), db)"
    "map (\<lambda>r. (ca_SHA256 r, ca_State r)) (pg_cas db) = [(''6361'', ''retiring''), (''b'', ''retired'')]"
    by (rule exE [OF racing_rows(2)]) (erule conjE)
  have "\<exists>c f'. RetireOperatorCA racing_env ?q ?f = (Inr c, f') \<and> fl_pg f' = Some ((fe_others racing_env 1 (fe_others racing_env 0 ?s))\<lparr>cq_db := db\<rparr>)"
    by (rule RetireOperatorCA_goes_through [where cert = example_ca and t = "''k''" and i = example_admin and row = ?row])
      (use i row st pg env norm db(1) in \<open>simp_all add: example_admin_def zero_identity_def\<close>)
  moreover have "with_state OperatorCAActive (pg_cas db) = []" using db(2) by (auto simp: with_state_def OperatorCAActive_def)
  moreover have "map ca_SHA256 (with_state OperatorCAActive (pg_cas (cq_db (retire_and_register ?s)))) = [''b'']"
    using racing_rows(1) by (auto simp: with_state_def OperatorCAActive_def)
  moreover have "cq_db ((retire_and_register ?s)\<lparr>cq_db := db\<rparr>) = db" by simp
  ultimately show ?thesis unfolding env(1,2) by metis
qed

lemma example_ca_env_simps:
  "fe_others example_ca_env k s = s" "fe_fault example_ca_env k = None" "fe_ticket example_ca_env = Some ''k''" "fe_lib example_ca_env = example_reg_lib"
  "pl_parse example_peer_lib der = Inr example_ca" "fe_clk example_ca_env = 1" "fe_now example_ca_env k = 1" "cl_peer example_reg_lib = example_peer_lib"
  "fleet_ok example_ca_env" "fe_nodeCAs example_ca_env = []" "fe_probe example_ca_env = None" "fe_marshal example_ca_env = (\<lambda>s. Inr s)" "fe_fetch example_ca_env = None"
  by (simp_all add: example_ca_env_def example_fleet_env_def example_reg_lib_def example_cert_lib_def example_peer_lib_def fleet_ok_def example_uuids_def)

lemma example_ca_write: "operatorCAWrite example_ca_env (example_ca_fleet db) = Inr example_admin"
  using example_fleet_anchors by (simp add: operatorCAWrite_Inr example_ca_env_def example_fleet_env_def NewContext_def FromContext_def example_admin_def
      example_ca_fleet_def) (simp add: example_fleet_def)

lemma example_ca_trust: "fl_pg (example_ca_fleet db) = Some (cred_empty\<lparr>cq_db := db\<rparr>)" "fl_trust (example_ca_fleet db) = example_store"
  "ts_reach (cl_peer (fe_lib example_ca_env)) (fl_trust (example_ca_fleet db))" "g_n (tr_gen (fl_trust (example_ca_fleet db))) \<noteq> - 1"
proof -
  show "g_n (tr_gen (fl_trust (example_ca_fleet db))) \<noteq> - 1" by (simp add: example_ca_fleet_def example_fleet_def example_store_eq)
qed (use example_store_reached in \<open>simp_all add: example_ca_fleet_def example_fleet_def example_ca_env_simps\<close>)

lemma example_retired:
  "\<exists>c f'. RetireOperatorCA example_ca_env \<lparr>tq_Sha256 = ''b'', tq_IUnderstandSelfLockout = False\<rparr> (example_ca_fleet example_rotating) = (Inr c, f')"
proof -
  let ?row = "operator_ca.truncate ((activated 1 None (example_opca ''b''))\<lparr>ca_State := OperatorCARetiring\<rparr>)"
  have norm: "fleet_normalizeFingerprint ''b'' = ''b''" by code_simp
  have st: "ca_State ?row = OperatorCARetiring" "ca_SHA256 ?row = ''b''" "ca_SHA256 (operator_ca.truncate (activated 1 None (example_opca ''6361''))) = ''6361''"
    by (simp_all add: operator_ca.defs activated_def ca_insert_def example_opca_def)
  have rows: "pg_OperatorCAs example_rotating = [operator_ca.truncate (activated 1 None (example_opca ''6361'')), ?row]"
    by (simp add: pg_OperatorCAs_def example_rotating_def)
  have row: "findRow example_ca_env 0 ''b'' (site example_ca_env 0 (example_ca_fleet example_rotating)) = Inr ?row"
    by (simp add: findRow_def fl_OperatorCAs_def example_ca_trust example_ca_env_simps read_result_def rows norm st)
  have "\<exists>db. pg_SetOperatorCAState None 1 ''b'' OperatorCARetired retiredByAdmin 1 example_rotating = (Inr (), db)"
    by (simp add: example_rotating_def pg_SetOperatorCAState_def write_cas_def cas_ok_def ca_row_ok_def with_state_def activated_def ca_insert_def operator_ca.defs
        ca_row.defs example_opca_def default_mode_def state_defs migrated_def)
  then obtain db where db: "pg_SetOperatorCAState None 1 ''b'' OperatorCARetired retiredByAdmin 1 example_rotating = (Inr (), db)" by (rule exE)
  have "\<exists>c f'. RetireOperatorCA example_ca_env \<lparr>tq_Sha256 = ''b'', tq_IUnderstandSelfLockout = False\<rparr> (example_ca_fleet example_rotating) = (Inr c, f') \<and>
      fl_pg f' = Some ((fe_others example_ca_env 1 (fe_others example_ca_env 0 (cred_empty\<lparr>cq_db := example_rotating\<rparr>)))\<lparr>cq_db := db\<rparr>)"
    by (rule RetireOperatorCA_goes_through [where cert = example_ca and t = "''k''" and i = example_admin and row = ?row])
      (use example_ca_write row st example_ca_trust(1) example_ca_env_simps norm db in \<open>simp_all add: example_admin_def zero_identity_def\<close>)
  then show ?thesis by (elim exE conjE) (intro exI)
qed


definition example_fleet_register :: fleet_register where
  "example_fleet_register = \<lparr>fr_CaCertDer = ''ca'', fr_ConfirmSha256 = ''63:61'', fr_Acks = [''NO_CRL''], fr_CrlSource = NoSource, fr_OcspMode = ModeOther,
     fr_OcspUrl = []\<rparr>"

lemma example_rotated:
  "\<exists>f'. fleet_RegisterOperatorCA example_ca_env example_fleet_register (example_ca_fleet example_registered) = (Inr (True, ''6361''), f')"
proof -
  let ?cert = "example_ca\<lparr>cert_NotAfter := 1 + 40 * 24 * 60 * Minute\<rparr>" and ?f = "example_ca_fleet example_registered" and ?s = "cred_empty\<lparr>cq_db := example_registered\<rparr>"
  let ?k = "\<lparr>fk_cert = ?cert, fk_warnings = [], fk_choice = choice_of [''NO_CRL''] NoSource, fk_crl = None\<rparr>"
  have site: "site example_ca_env k f = f" for k f by (cases f) (simp add: site_def example_ca_env_simps map_option_case split: option.split)
  have cert: "ParseAnchorUpload (fe_lib example_ca_env) ''ca'' = Inr ?cert"
    by (simp add: ParseAnchorUpload_def parseSingleCert_def example_ca_env_simps example_reg_lib_def example_cert_lib_def MaxCertSize_def)
  have "ValidateAnchor example_reg_lib 1 [] False ?cert = Inr []"
    by (simp add: ValidateAnchor_def Let_def example_reg_lib_def example_cert_lib_def example_ca_view_def example_view_def example_ca_def has_usage_def
        KeyUsageCertSign_def minAnchorValidity_def matchingNodeCA_def anchorKeyAllowed_def)
  then have k: "register_checks example_ca_env example_fleet_register ?cert ?f = Inr ?k"
    by (simp add: register_checks_def Let_def example_fleet_register_def example_ca_env_simps acksOf_def uploadUnderHard_def CRLSourceNone_def CRLSourceUpload_def
        CheckCRLChoice_def AckNoCRL_def CheckOCSPChoice_def ExtfileSection_def MarshalLevelExtension_def MarshalLevelValue_def LevelFromToken_def)
  have fp: "Fingerprint (pl_sha256 (cl_peer (fe_lib example_ca_env))) ?cert = ''6361''"
    using example_fingerprint by (simp add: example_ca_env_simps example_peer_lib_def Fingerprint_def)
  have norm: "fleet_normalizeFingerprint ''63:61'' = ''6361''" by code_simp
  let ?row = "rotation_row example_ca_env example_admin example_fleet_register ?k"
  have row: "ca_SHA256 ?row = ''6361''" "ca_row_ok (activated 1 None ?row)"
    using fp by (simp_all add: rotation_row_def ca_row_ok_def activated_def ca_insert_def operator_ca.defs ca_row.defs default_mode_def example_fleet_register_def
        state_defs CRLSourceNone_def)
  have "can_rotate ''6361'' (pg_cas example_registered)" by (simp add: can_rotate_def example_registered_def example_opca_def state_defs)
  then have "fst (pg_RotateOperatorCA None 1 ?row None example_registered) = Inr ()"
    using rotation_effect [OF example_registered_ok, of None 1 ?row None] row by simp
  then obtain db where db: "pg_RotateOperatorCA None 1 ?row None example_registered = (Inr (), db)" by (metis prod.collapse)
  let ?g = "?f\<lparr>fl_pg := Some (?s\<lparr>cq_db := db\<rparr>)\<rparr>"
  have w: "ca_write DatabaseRequired (pg_RotateOperatorCA None 1 ?row None) ?f = (Inr (), ?g)"
    using db by (simp add: ca_write_def example_ca_trust)
  have "tr_kind (fl_trust ?g) = KindRegistered" by (simp add: example_ca_trust example_store_eq)
  then obtain h where h: "applyTrustChange example_ca_env 2 ?g = (None, h)"
    using applyTrustChange_quiet [of ?g example_ca_env "''k''" "?s\<lparr>cq_db := db\<rparr>"] by (auto simp: example_ca_env_simps)
  have rows: "fl_OperatorCAs example_ca_env 0 ?f = Inr (pg_OperatorCAs example_registered)"
    by (simp add: fl_OperatorCAs_def example_ca_trust example_ca_env_simps read_result_def)
  have idle: "\<not> (\<exists>r \<in> set (pg_OperatorCAs example_registered). ca_State r = OperatorCARetiring)"
    by (simp add: pg_OperatorCAs_def example_registered_def activated_def operator_ca.defs ca_insert_def state_defs)
  have q: "fr_CaCertDer example_fleet_register = ''ca''" "fr_ConfirmSha256 example_fleet_register = ''63:61''" by (simp_all add: example_fleet_register_def)
  have "\<exists>f'. rotate_and_apply example_ca_env example_admin example_fleet_register ?k (pg_OperatorCAs example_registered) ?f = (Inr (True, ''6361''), f')"
    using w h row(1) by (simp add: rotate_and_apply_def Let_def site example_ca_env_simps crlWrite_def)
  then show ?thesis
    using idle k fp by (simp add: fleet_RegisterOperatorCA_def example_ca_write q cert Let_def site rows norm)
qed


theorem fleet_keeps_database_consistent_witness:
  "\<exists>s'. fl_pg (snd (RecordOperatorCredential example_fleet_env \<lparr>rr_CertDer = ''leaf'', rr_FullName = [], rr_RequestId = ''r1''\<rparr> example_fleet)) = Some s' \<and>
     cas_ok (pg_cas (cq_db s')) \<and> cred_ok s'"
proof -
  let ?f' = "snd (RecordOperatorCredential example_fleet_env \<lparr>rr_CertDer = ''leaf'', rr_FullName = [], rr_RequestId = ''r1''\<rparr> example_fleet)"
  have step: "(fleet_step example_uuids)\<^sup>*\<^sup>* example_fleet ?f'"
    by (rule r_into_rtranclp) (rule fleet_step.record_credential [OF example_fleet_ok], simp add: example_fleet_env_def)
  have "cred_step example_uuids cred_empty (snd (pg_AddOperatorCredentialRequest example_uuids None example_pending cred_empty))"
    by (rule cred_step.add) (simp add: example_pending_def example_filing_def)
  moreover have "snd (pg_AddOperatorCredentialRequest example_uuids None example_pending cred_empty) = example_fleet_db"
    by (simp add: pg_AddOperatorCredentialRequest_def example_uuids_def example_pending_def example_filing_def cred_empty_def example_fleet_db_def)
  ultimately have reached: "(cred_step example_uuids)\<^sup>*\<^sup>* cred_empty example_fleet_db" by auto
  have pg: "fl_pg example_fleet = Some example_fleet_db" by (simp add: example_fleet_def)
  from fleet_keeps_database_consistent [OF step pg reached example_cast] show ?thesis by (elim exE conjE) (intro exI conjI)
qed

end
