(* ===== verification/Observed_Recorder.thy ===== *)
theory Observed_Recorder
  imports Credential_Store Cert_Check
begin

text \<open>
  The recorder of certificates seen in use (\<^verbatim>\<open>operatorca/observed.go\<close>): a cache that lets a sighting through once an
  hour, a bounded queue, and the worker that writes the sightings. Sending to the queue and noting the certificate in the cache are two
  steps of the code, and two definitions here; log lines are left out.
\<close>

subsection \<open>Recorder\<close>

definition DefaultObservedQueueSize :: int where "DefaultObservedQueueSize = 256"
definition DefaultObservedCacheSize :: int where "DefaultObservedCacheSize = 4096"
definition observedRefresh :: duration where "observedRefresh = 60 * Minute"
definition dropLogInterval :: duration where "dropLogInterval = Minute"

record observation =
  ob_cred :: operator_credential
  ob_sum :: bytes
  ob_at :: gotime

record ObservedRecorder =
  or_cap :: nat
  or_queue :: "observation list"
  or_seen :: "(bytes, gotime) lru"
  or_dropped :: int
  or_lastDropLog :: int

definition NewObservedRecorder :: "int \<Rightarrow> int \<Rightarrow> ObservedRecorder" where
  "NewObservedRecorder queue cache =
     \<lparr>or_cap = nat (if queue \<le> 0 then DefaultObservedQueueSize else queue), or_queue = [],
      or_seen = newLRU (if cache \<le> 0 then DefaultObservedCacheSize else cache), or_dropped = 0, or_lastDropLog = 0\<rparr>"

text \<open>\<open>addr\<close> is \<^verbatim>\<open>mail.ParseAddress\<close>: the name and the address.\<close>

definition observedCredential ::
  "(bytes \<Rightarrow> string + string) \<Rightarrow> (string \<Rightarrow> string + string \<times> string) \<Rightarrow> certificate \<Rightarrow> string \<Rightarrow> bytes \<Rightarrow> operator_credential" where
  "observedCredential asn1 addr leaf issuer digest =
     (let cn = cert_CommonName leaf
      in \<lparr>cred_CommonName = cn, cred_SerialHex = SerialKey (cert_SerialNumber leaf),
          cred_Level = (case LevelFromCertificate asn1 leaf of Inl _ \<Rightarrow> [] | Inr l \<Rightarrow> Token l),
          cred_NotAfter = rfc3339 (cert_NotAfter leaf), cred_Revoked = False, cred_IssuerSHA256 = issuer, cred_Kind = OperatorCredentialObserved,
          cred_Email = (case addr cn of Inl _ \<Rightarrow> [] | Inr (name, a) \<Rightarrow> if name = [] \<and> a = cn then map lower_char cn else []),
          cred_FullName = [], cred_LeafSHA256 = hex_encode digest, cred_RequestID = [], cred_FirstSeenAt = 0, cred_LastSeenAt = 0\<rparr>)"

text \<open>Whether a sighting is due, that is, the certificate was not noted within the hour.\<close>

definition observe_due :: "gotime \<Rightarrow> bytes \<Rightarrow> ObservedRecorder \<Rightarrow> bool \<times> ObservedRecorder" where
  "observe_due now digest r =
     (case lru_get digest (or_seen r) of (noted, seen) \<Rightarrow>
        (case noted of None \<Rightarrow> True | Some t \<Rightarrow> \<not> now - t < observedRefresh, r\<lparr>or_seen := seen\<rparr>))"

definition UnixNano :: "gotime \<Rightarrow> int" where
  "UnixNano t = t - 62135596800 * Second"

text \<open>The send succeeds only when the queue has room; otherwise the sighting is dropped and counted.\<close>

definition observe_send :: "observation \<Rightarrow> ObservedRecorder \<Rightarrow> bool \<times> ObservedRecorder" where
  "observe_send ob r =
     (if length (or_queue r) < or_cap r then (True, r\<lparr>or_queue := or_queue r @ [ob]\<rparr>)
      else (False, r\<lparr>or_dropped := or_dropped r + 1,
        or_lastDropLog := (if UnixNano (ob_at ob) - or_lastDropLog r \<ge> dropLogInterval then UnixNano (ob_at ob) else or_lastDropLog r)\<rparr>))"

definition observe_note :: "bytes \<Rightarrow> gotime \<Rightarrow> ObservedRecorder \<Rightarrow> ObservedRecorder" where
  "observe_note digest now r = r\<lparr>or_seen := lru_put digest now (or_seen r)\<rparr>"

definition rec_Observe :: "gotime \<Rightarrow> observation \<Rightarrow> ObservedRecorder \<Rightarrow> ObservedRecorder" where
  "rec_Observe now ob r =
     (case observe_due now (ob_sum ob) r of
        (False, r) \<Rightarrow> r
      | (True, r) \<Rightarrow> (case observe_send ob r of (False, r) \<Rightarrow> r | (True, r) \<Rightarrow> observe_note (ob_sum ob) now r))"

text \<open>One turn of the worker's loop, which waits for a sighting. \<open>fault\<close> is what the write fails with.\<close>

definition Run_turn :: "string option \<Rightarrow> ObservedRecorder \<times> cred_db \<Rightarrow> ObservedRecorder \<times> cred_db" where
  "Run_turn fault rs =
     (case rs of (r, s) \<Rightarrow>
        case or_queue r of
          [] \<Rightarrow> (r, s)
        | ob # obs \<Rightarrow>
            (let r = r\<lparr>or_queue := obs\<rparr>
             in case pg_ObserveOperatorCredential fault (ob_cred ob) (ob_at ob) s of
                  (Inl _, s) \<Rightarrow> (r\<lparr>or_seen := lru_remove (\<lambda>k. k = ob_sum ob) (or_seen r)\<rparr>, s)
                | (Inr _, s) \<Rightarrow> (r, s)))"

definition sighting :: "cert_lib \<Rightarrow> gotime \<Rightarrow> certificate \<Rightarrow> string \<Rightarrow> observation" where
  "sighting lib now leaf issuer =
     (let digest = pl_sha256 (cl_peer lib) (cert_Raw leaf)
      in \<lparr>ob_cred = observedCredential (cl_asn1 lib) (cl_mail lib) leaf issuer digest, ob_sum = digest, ob_at = now\<rparr>)"

text \<open>The authorizer that wraps the trust store's.\<close>

definition observing_AuthorizePeer ::
  "cert_lib \<Rightarrow> gotime \<Rightarrow> gotime \<Rightarrow> ocsp_io \<Rightarrow> certificate \<Rightarrow> certificate list \<Rightarrow> TrustStore \<Rightarrow> Revocations \<Rightarrow> ObservedRecorder \<Rightarrow>
   (peer_error + string) \<times> audit_event list \<times> TrustStore \<times> Revocations \<times> ObservedRecorder" where
  "observing_AuthorizePeer lib now seen_at io leaf intermediates t r rec =
     (case AuthorizePeer (cl_peer lib) now io leaf intermediates t r of
        (Inl e, ev, t, r) \<Rightarrow> (Inl e, ev, t, r, rec)
      | (Inr issuer, ev, t, r) \<Rightarrow> (Inr issuer, ev, t, r, rec_Observe seen_at (sighting lib seen_at leaf issuer) rec))"

subsection \<open>Every noted certificate is listed or waits in the queue\<close>

text \<open>The recorder and the database, as the requests, the worker and everything else on the database change them; a sighting is one step here.\<close>

inductive observed_step :: "uuid_lib \<Rightarrow> cert_lib \<Rightarrow> ObservedRecorder \<times> cred_db \<Rightarrow> ObservedRecorder \<times> cred_db \<Rightarrow> bool" for lib cl where
  observe: "observed_step lib cl (r, s) (rec_Observe now (sighting cl now leaf issuer) r, s)"
| worker: "observed_step lib cl rs (Run_turn fault rs)"
| other: "cred_step lib s s' \<Longrightarrow> observed_step lib cl (r, s) (r, s')"

definition listed :: "operator_credential \<Rightarrow> operator_credential list \<Rightarrow> bool" where
  "listed c cs \<longleftrightarrow> cred_key c \<in> cred_key ` set cs"

definition genuine :: "cert_lib \<Rightarrow> observation \<Rightarrow> bool" where
  "genuine cl ob \<longleftrightarrow> (\<exists>now leaf issuer. ob = sighting cl now leaf issuer)"

definition recorder_ok :: "cert_lib \<Rightarrow> ObservedRecorder \<times> cred_db \<Rightarrow> bool" where
  "recorder_ok cl rs \<longleftrightarrow>
     lru_inv (or_seen (fst rs)) \<and> length (or_queue (fst rs)) \<le> or_cap (fst rs) \<and> (\<forall>ob \<in> set (or_queue (fst rs)). genuine cl ob) \<and>
     (\<forall>k \<in> fst ` set (bindings (or_seen (fst rs))).
        \<exists>ob. ob_sum ob = k \<and> genuine cl ob \<and> (ob \<in> set (or_queue (fst rs)) \<or> listed (ob_cred ob) (cq_credentials (snd rs))))"

lemma evolves_listed: "evolves cs cs' \<Longrightarrow> listed c cs \<Longrightarrow> listed c cs'"
  by (auto simp: evolves_def listed_def image_iff)

lemma upsert_listed:
  assumes "upsert_credential c' rid cs = Some cs'" and "listed c cs"
  shows "listed c cs'"
proof (cases "find (same_credential c') cs")
  case None
  then show ?thesis using assms by (auto simp: upsert_credential_def listed_def)
next
  case (Some old)
  let ?u = "\<lambda>x. if same_credential c' x then x\<lparr>cred_CommonName := cred_CommonName c', cred_Level := cred_Level c',
            cred_NotAfter := cred_NotAfter c', cred_Kind := cred_Kind c', cred_Email := cred_Email c', cred_FullName := cred_FullName c',
            cred_LeafSHA256 := cred_LeafSHA256 c', cred_RequestID := rid\<rparr> else x"
  have "cs' = map ?u cs" using assms(1) Some by (simp add: upsert_credential_def split: if_split_asm)
  moreover have "cred_key \<circ> ?u = cred_key" by (auto simp: cred_key_def)
  ultimately have "map cred_key cs' = map cred_key cs" by (simp only: map_map)
  then have "cred_key ` set cs' = cred_key ` set cs" by (metis set_map)
  then show ?thesis using assms(2) by (simp add: listed_def)
qed

lemma cred_step_listed:
  assumes "cred_step lib s s'" and "listed c (cq_credentials s)"
  shows "listed c (cq_credentials s')"
  using assms(1)
proof cases
  case (record_credential c' fault rid now)
  then show ?thesis using assms(2) upsert_listed by (auto simp: pg_RecordOperatorCredential_def Let_def split: option.split sum.split)
next
  case (observe fault c' at)
  then show ?thesis using evolves_listed [OF observe_evolves] assms(2) by simp
next
  case (other db)
  then show ?thesis using evolves_listed [OF pg_step_evolves] assms(2) by simp
qed (use assms(2) in \<open>simp_all add: pg_AddOperatorCredentialRequest_def pg_OperatorCredentialRequests_def pg_OperatorCredentialRequest_def
    pg_CancelOperatorCredentialRequest_def Let_def split: option.split sum.split\<close>)

lemma observed_listed_after:
  assumes "fst (pg_ObserveOperatorCredential fault c at s) = Inr ()"
  shows "listed c (cq_credentials (snd (pg_ObserveOperatorCredential fault c at s)))"
proof (cases "list_ex (same_credential c) (cq_credentials s)")
  case True
  then have "listed c (cq_credentials s)" unfolding list_ex_iff same_credential_key listed_def by (metis imageI)
  then show ?thesis by (rule evolves_listed [OF observe_evolves])
next
  case False
  then show ?thesis using assms by (auto simp: pg_ObserveOperatorCredential_def listed_def cred_key_def split: option.splits)
qed

lemma recorder_ok_new: "recorder_ok cl (NewObservedRecorder q n, s)"
  using newLRU_inv [of "if n \<le> 0 then DefaultObservedCacheSize else n"]
  by (cases "n \<le> 0") (simp_all add: recorder_ok_def NewObservedRecorder_def DefaultObservedCacheSize_def)

lemma observe_due_ok:
  assumes "recorder_ok cl (r, s)"
  shows "recorder_ok cl (snd (observe_due now k r), s)" "or_queue (snd (observe_due now k r)) = or_queue r" "or_cap (snd (observe_due now k r)) = or_cap r"
proof -
  have "lru_inv (or_seen r)" using assms by (simp add: recorder_ok_def)
  from lru_get_inv [OF this, of k] lru_get_bindings_set [OF this, of k]
  show "recorder_ok cl (snd (observe_due now k r), s)" "or_queue (snd (observe_due now k r)) = or_queue r" "or_cap (snd (observe_due now k r)) = or_cap r"
    using assms by (auto simp: recorder_ok_def observe_due_def split_beta)
qed

lemma observe_accepted_ok:
  assumes "recorder_ok cl (r, s)" and "length (or_queue r) < or_cap r" and "genuine cl ob"
  shows "recorder_ok cl (observe_note (ob_sum ob) now (r\<lparr>or_queue := or_queue r @ [ob]\<rparr>), s)"
proof -
  have inv: "lru_inv (or_seen r)" using assms(1) by (simp add: recorder_ok_def)
  note put = lru_put_inv [OF inv, of "ob_sum ob" now]
  then have "set (bindings (lru_put (ob_sum ob) now (or_seen r))) \<subseteq> insert (ob_sum ob, now) (set (bindings (or_seen r)))"
    by (auto simp: without_def dest: in_set_takeD)
  then have keys: "fst ` set (bindings (lru_put (ob_sum ob) now (or_seen r))) \<subseteq> insert (ob_sum ob) (fst ` set (bindings (or_seen r)))" by auto
  have old: "\<exists>ob'. ob_sum ob' = k \<and> genuine cl ob' \<and> (ob' \<in> set (or_queue r @ [ob]) \<or> listed (ob_cred ob') (cq_credentials s))"
    if "k \<in> insert (ob_sum ob) (fst ` set (bindings (or_seen r)))" for k
    using that assms(1,3) unfolding recorder_ok_def by fastforce
  show ?thesis using put keys old assms unfolding recorder_ok_def observe_note_def by auto
qed

lemma Observe_ok:
  assumes "recorder_ok cl (r, s)" and "genuine cl ob"
  shows "recorder_ok cl (rec_Observe now ob r, s)"
proof -
  obtain due r1 where r1: "observe_due now (ob_sum ob) r = (due, r1)" by fastforce
  have ok: "recorder_ok cl (r1, s)" using observe_due_ok(1) [OF assms(1), of now "ob_sum ob"] r1 by simp
  then have drop: "recorder_ok cl (r1\<lparr>or_dropped := x, or_lastDropLog := y\<rparr>, s)" for x y by (simp add: recorder_ok_def)
  show ?thesis
    using ok drop observe_accepted_ok [OF ok _ assms(2)] r1 by (cases due) (auto simp: rec_Observe_def observe_send_def)
qed

lemma Run_turn_ok:
  assumes "recorder_ok cl rs"
  shows "recorder_ok cl (Run_turn fault rs)"
proof (cases "or_queue (fst rs)")
  case Nil
  then show ?thesis using assms by (simp add: Run_turn_def split_beta)
next
  case (Cons ob obs)
  let ?r = "fst rs" and ?w = "pg_ObserveOperatorCredential fault (ob_cred ob) (ob_at ob) (snd rs)"
  have inv: "lru_inv (or_seen ?r)" and noted: "\<forall>k \<in> fst ` set (bindings (or_seen ?r)).
        \<exists>ob'. ob_sum ob' = k \<and> genuine cl ob' \<and> (ob' \<in> set (ob # obs) \<or> listed (ob_cred ob') (cq_credentials (snd rs)))"
    and rest: "length obs \<le> or_cap ?r" "\<forall>ob \<in> set obs. genuine cl ob"
    using assms Cons by (simp_all add: recorder_ok_def)
  have keep: "listed c (cq_credentials (snd rs)) \<Longrightarrow> listed c (cq_credentials (snd ?w))" for c by (rule evolves_listed [OF observe_evolves])
  show ?thesis
  proof (cases "fst ?w")
    case (Inl e)
    note rm = lru_remove_inv [OF inv, of "\<lambda>k. k = ob_sum ob"]
    have "\<exists>ob'. ob_sum ob' = k \<and> genuine cl ob' \<and> (ob' \<in> set obs \<or> listed (ob_cred ob') (cq_credentials (snd ?w)))"
      if "k \<in> fst ` set (bindings (or_seen ?r))" "k \<noteq> ob_sum ob" for k
      using noted that keep by fastforce
    then show ?thesis using Cons Inl rm rest by (auto simp: Run_turn_def recorder_ok_def split_beta Let_def split: sum.split prod.split)
  next
    case (Inr u)
    then have new: "listed (ob_cred ob) (cq_credentials (snd ?w))" using observed_listed_after by simp
    have "\<exists>ob'. ob_sum ob' = k \<and> genuine cl ob' \<and> (ob' \<in> set obs \<or> listed (ob_cred ob') (cq_credentials (snd ?w)))"
      if "k \<in> fst ` set (bindings (or_seen ?r))" for k
      using noted that keep new by fastforce
    then show ?thesis using Cons Inr inv rest by (auto simp: Run_turn_def recorder_ok_def split_beta Let_def split: sum.split prod.split)
  qed
qed

lemma observed_step_ok: "observed_step lib cl rs rs' \<Longrightarrow> recorder_ok cl rs \<Longrightarrow> recorder_ok cl rs'"
proof (induction rule: observed_step.induct)
  case (observe r s now leaf issuer)
  have "genuine cl (sighting cl now leaf issuer)" by (auto simp: genuine_def)
  with observe show ?case by (rule Observe_ok)
next
  case (worker rs fault)
  then show ?case using Run_turn_ok by blast
next
  case (other s s' r)
  then show ?case using cred_step_listed unfolding recorder_ok_def by fastforce
qed


subsection \<open>A sighting is written\<close>

lemma Run_turn_Cons:
  assumes "or_queue r = ob # obs"
  shows "Run_turn None (r, s) = (r\<lparr>or_queue := obs\<rparr>, snd (pg_ObserveOperatorCredential None (ob_cred ob) (ob_at ob) s))"
  using assms by (simp add: Run_turn_def Let_def pg_ObserveOperatorCredential_def)

lemma worker_drains:
  "or_queue r = obs \<Longrightarrow> \<exists>s'. (Run_turn None ^^ length obs) (r, s) = (r\<lparr>or_queue := []\<rparr>, s') \<and>
     (\<forall>c. listed c (cq_credentials s) \<longrightarrow> listed c (cq_credentials s')) \<and> (\<forall>ob \<in> set obs. listed (ob_cred ob) (cq_credentials s'))"
proof (induction obs arbitrary: r s)
  case Nil
  then show ?case by simp
next
  case (Cons ob obs)
  let ?s = "snd (pg_ObserveOperatorCredential None (ob_cred ob) (ob_at ob) s)"
  obtain s' where s': "(Run_turn None ^^ length obs) (r\<lparr>or_queue := obs\<rparr>, ?s) = (r\<lparr>or_queue := []\<rparr>, s')"
    "\<forall>c. listed c (cq_credentials ?s) \<longrightarrow> listed c (cq_credentials s')" "\<forall>ob \<in> set obs. listed (ob_cred ob) (cq_credentials s')"
    using Cons.IH [of "r\<lparr>or_queue := obs\<rparr>" ?s] by auto
  have "listed c (cq_credentials s) \<Longrightarrow> listed c (cq_credentials ?s)" for c by (rule evolves_listed [OF observe_evolves])
  moreover have "listed (ob_cred ob) (cq_credentials ?s)" by (rule observed_listed_after) (simp add: pg_ObserveOperatorCredential_def)
  ultimately show ?case using s' Run_turn_Cons [OF Cons.prems, of s] by (simp add: funpow_swap1)
qed


text \<open>The code sends a sighting to the queue before it notes the certificate. When the worker takes the sighting and fails to write it in
  between, it clears a note that is not there yet; the note made afterwards then holds the certificate back for an hour although
  nothing was written and nothing waits.\<close>

lemma failed_sighting_not_retried:
  assumes "ob = sighting cl now leaf issuer" and "q > 0" and "n > 0" and "now \<le> later" and "later - now < observedRefresh"
  shows "\<exists>r1 r2 r3. observe_due now (ob_sum ob) (NewObservedRecorder q n) = (True, NewObservedRecorder q n) \<and>
    observe_send ob (NewObservedRecorder q n) = (True, r1) \<and> Run_turn (Some fault) (r1, s) = (r2, s) \<and> observe_note (ob_sum ob) now r2 = r3 \<and>
    or_queue r3 = [] \<and> or_queue (rec_Observe later (sighting cl later leaf issuer) r3) = []"
proof -
  let ?r = "NewObservedRecorder q n"
  let ?c = "newLRU n :: (bytes, gotime) lru"
  have r: "?r = \<lparr>or_cap = nat q, or_queue = [], or_seen = ?c, or_dropped = 0, or_lastDropLog = 0\<rparr>" using assms(2,3) by (simp add: NewObservedRecorder_def)
  have inv: "lru_inv ?c" by (rule newLRU_inv) (use assms(3) in simp)
  let ?r2 = "?r\<lparr>or_seen := lru_remove (\<lambda>k. k = ob_sum ob) ?c\<rparr>"
  note rm = lru_remove_inv [OF inv, of "\<lambda>k. k = ob_sum ob"]
  have none: "observe_due now (ob_sum ob) ?r = (True, ?r)" by (simp add: r observe_due_def lru_get_def newLRU_def)
  have send: "observe_send ob ?r = (True, ?r\<lparr>or_queue := [ob]\<rparr>)" using assms(2) by (simp add: r observe_send_def)
  have turn: "Run_turn (Some fault) (?r\<lparr>or_queue := [ob]\<rparr>, s) = (?r2, s)" by (simp add: r Run_turn_def Let_def pg_ObserveOperatorCredential_def)
  have note_: "map_of (bindings (or_seen (observe_note (ob_sum ob) now ?r2))) (ob_sum ob) = Some now"
    using lru_put_inv [of "lru_remove (\<lambda>k. k = ob_sum ob) ?c" "ob_sum ob" now] rm assms(3) by (auto simp: observe_note_def newLRU_def take_Cons')
  have ok: "lru_ok (or_seen (observe_note (ob_sum ob) now ?r2))"
    using lru_put_inv [of "lru_remove (\<lambda>k. k = ob_sum ob) ?c" "ob_sum ob" now] rm by (simp add: observe_note_def lru_inv_def)
  have "fst (observe_due later (ob_sum ob) (observe_note (ob_sum ob) now ?r2)) = False"
    using lru_get_refines(1) [OF ok, of "ob_sum ob"] note_ assms(5) by (simp add: observe_due_def split_beta)
  moreover have "or_queue (snd (observe_due later (ob_sum ob) (observe_note (ob_sum ob) now ?r2))) = []"
    by (simp add: observe_due_def observe_note_def r split_beta)
  moreover have "ob_sum (sighting cl later leaf issuer) = ob_sum ob" by (simp add: assms(1) sighting_def Let_def)
  ultimately have "or_queue (rec_Observe later (sighting cl later leaf issuer) (observe_note (ob_sum ob) now ?r2)) = []"
    by (simp add: rec_Observe_def split_beta split: bool.split)
  moreover have "or_queue (observe_note (ob_sum ob) now ?r2) = []" by (simp add: observe_note_def r)
  ultimately show ?thesis using none send turn by blast
qed

subsection \<open>Examples\<close>

definition example_seen :: ObservedRecorder where
  "example_seen = rec_Observe 5 (sighting example_cert_lib 5 example_cert ''6361'') (NewObservedRecorder 2 2)"

lemma example_seen_held_back: "fst (observe_due 6 (ob_sum (sighting example_cert_lib 5 example_cert ''6361'')) example_seen) = False"
  by (simp add: example_seen_def rec_Observe_def observe_due_def observe_send_def observe_note_def NewObservedRecorder_def newLRU_def lru_get_def lru_put_def
      evict_def PushFront_def MoveToFront_def observedRefresh_def Minute_def Second_def Let_def)


definition example_web :: Revocations where
  "example_web = (NewRevocations ''soft'' False)\<lparr>rv_anchors := [(''6361'', new_anchor_state example_row_anchor)]\<rparr>"


end
