(* ===== verification/Crl_Refresh.thy ===== *)
theory Crl_Refresh
  imports Cert_Check Complex_Main
begin

text \<open>
  Fetching and refreshing CRLs (\<^verbatim>\<open>operatorca/fetch.go\<close> and \<^verbatim>\<open>operatorca/refresh.go\<close>): one fetch with its limits, one
  refresh of a target, and the schedule of the loop. The state is that of one replica: the store, its poller and its engine. Each access
  to the store or the engine is a site, numbered, where everything else on the replica and on other replicas may act first
  (\<open>re_others\<close>). The HTTP client, the file system, the clock, the jitter and the text of errors are parameters; log lines are
  left out. The jitter's product is taken exactly, without the rounding of floating point.
\<close>

subsection \<open>Fetching\<close>

record http_request =
  hr_method :: string
  hr_url :: string
  hr_ContentType :: string
  hr_body :: bytes

text \<open>A response is its status, the body, and the error reading the body ends with, if not at its end.\<close>

record http_lib =
  hl_NewRequest :: "http_request \<Rightarrow> string option"
  hl_Do :: "http_request \<Rightarrow> string + int \<times> bytes \<times> string option"

datatype fetch_error =
    FetchURL url_error
  | FetchRequest string
  | FetchTransport string
  | HttpStatus int
  | FetchRead string
  | BodyTooLarge nat

text \<open>\<^verbatim>\<open>io.ReadAll\<close> of \<^verbatim>\<open>io.LimitReader\<close>: a body that reaches the limit is cut there and its error not met.\<close>

definition read_limited :: "nat \<Rightarrow> bytes \<Rightarrow> string option \<Rightarrow> string + bytes" where
  "read_limited limit body err =
     (if limit \<le> length body then Inr (take limit body) else case err of Some e \<Rightarrow> Inl e | None \<Rightarrow> Inr body)"

definition fetch_request :: "cert_lib \<Rightarrow> http_lib \<Rightarrow> nat \<Rightarrow> http_request \<Rightarrow> fetch_error + bytes" where
  "fetch_request lib http maxBytes q =
     (case ValidateFetchURL lib (hr_url q) of
        Some e \<Rightarrow> Inl (FetchURL e)
      | None \<Rightarrow>
          (case hl_NewRequest http q of
             Some e \<Rightarrow> Inl (FetchRequest e)
           | None \<Rightarrow>
               (case hl_Do http q of
                  Inl e \<Rightarrow> Inl (FetchTransport e)
                | Inr (status, body, err) \<Rightarrow>
                    if status \<noteq> 200 then Inl (HttpStatus status)
                    else case read_limited (maxBytes + 1) body err of
                      Inl e \<Rightarrow> Inl (FetchRead e)
                    | Inr b \<Rightarrow> if length b > maxBytes then Inl (BodyTooLarge maxBytes) else Inr b)))"

definition Fetch :: "cert_lib \<Rightarrow> http_lib \<Rightarrow> nat \<Rightarrow> string \<Rightarrow> fetch_error + bytes" where
  "Fetch lib http maxBytes url = fetch_request lib http maxBytes \<lparr>hr_method = ''GET'', hr_url = url, hr_ContentType = [], hr_body = []\<rparr>"

subsection \<open>Targets and the environment\<close>

definition DefaultCRLInterval :: duration where "DefaultCRLInterval = 15 * Minute"
definition minCRLRetry :: duration where "minCRLRetry = Minute"

record CRLTarget =
  ct_Source :: string
  ct_Location :: string
  ct_AnchorSHA256 :: string

record 's refresh_store =
  rs_trust :: "'s trust_store"
  rs_RecordOperatorCRLAttempt :: "string \<Rightarrow> string \<Rightarrow> gotime \<Rightarrow> 's \<Rightarrow> 's"
  rs_TryAdvisoryLock :: "string \<Rightarrow> 's \<Rightarrow> string + bool"

text \<open>The two stores. Whether the lock is free depends on the other replicas; \<open>lock\<close> says so for one call.\<close>

definition pg_refresh :: "string option \<Rightarrow> gotime \<Rightarrow> string + bool \<Rightarrow> pg_db refresh_store" where
  "pg_refresh fault clk lock =
     \<lparr>rs_trust = pg_trust fault clk (\<lambda>_. []), rs_RecordOperatorCRLAttempt = (\<lambda>issuer err t s. snd (pg_RecordOperatorCRLAttempt fault issuer err t s)),
      rs_TryAdvisoryLock = (\<lambda>_ _. lock)\<rparr>"

definition mem_refresh :: "mem_store refresh_store" where
  "mem_refresh = \<lparr>rs_trust = mem_trust, rs_RecordOperatorCRLAttempt = RecordOperatorCRLAttempt, rs_TryAdvisoryLock = (\<lambda>_ _. Inr True)\<rparr>"

datatype refresh_error =
    LockFailed string
  | FetchFailed fetch_error
  | ReadFailed string
  | NoSigner
  | StoreRefused trust_error
  | NoRefreshFor string

type_synonym 's replica = "'s \<times> Poller \<times> Revocations"

record 's refresh_env =
  re_store :: "nat \<Rightarrow> 's refresh_store"
  re_lib :: crl_lib
  re_sha256 :: "bytes \<Rightarrow> bytes"
  re_fetch :: "string \<Rightarrow> fetch_error + bytes"
  re_ReadFile :: "string \<Rightarrow> string + bytes"
  re_now :: "nat \<Rightarrow> gotime"
  re_text :: "refresh_error \<Rightarrow> string"
  re_Interval :: duration
  re_FileTargets :: "CRLTarget list"
  re_order :: "Anchor list \<Rightarrow> Anchor list"
  re_jitter :: rat
  re_others :: "nat \<Rightarrow> 's replica \<Rightarrow> 's replica"

definition target_key :: "(bytes \<Rightarrow> bytes) \<Rightarrow> CRLTarget \<Rightarrow> string" where
  "target_key sha t =
     (if ct_AnchorSHA256 t \<noteq> [] then ct_AnchorSHA256 t else hex_encode (sha (ct_Source t @ '':'' @ ct_Location t)))"

definition re_interval :: "'s refresh_env \<Rightarrow> duration" where
  "re_interval en = (if re_Interval en > 0 then re_Interval en else DefaultCRLInterval)"

definition Targets :: "'s refresh_env \<Rightarrow> Revocations \<Rightarrow> CRLTarget list" where
  "Targets en r =
     map (\<lambda>a. \<lparr>ct_Source = ''url'', ct_Location = an_CRLLocation a, ct_AnchorSHA256 = an_SHA256 a\<rparr>)
       (filter (\<lambda>a. \<not> an_FromConfig a \<and> an_CRLSource a = ''url'' \<and> an_CRLLocation a \<noteq> []) (re_order en (rv_Anchors r))) @ re_FileTargets en"

subsection \<open>One refresh\<close>

definition nextUpdate :: "string \<Rightarrow> Revocations \<Rightarrow> gotime" where
  "nextUpdate anchor r = (if anchor = [] then 0 else case rv_CRL r anchor of None \<Rightarrow> 0 | Some v \<Rightarrow> rl_NextUpdate (v_List v))"

fun errorClass :: "refresh_error \<Rightarrow> string" where
  "errorClass (FetchFailed _) = ''CRL_UNREACHABLE''"
| "errorClass (ReadFailed _) = ''CRL_UNREACHABLE''"
| "errorClass NoSigner = ''CRL_INVALID''"
| "errorClass (StoreRefused (CrlRefused e)) = (if e = CRLRollback then ''CRL_ROLLBACK'' else ''CRL_INVALID'')"
| "errorClass (StoreRefused UnknownAnchor) = ''UNKNOWN_ANCHOR''"
| "errorClass _ = ''ERROR''"

definition refresh_fail :: "'s refresh_env \<Rightarrow> CRLTarget \<Rightarrow> refresh_error \<Rightarrow> 's replica \<Rightarrow> 's replica" where
  "refresh_fail en t e x =
     (let msg = errorClass e @ '': '' @ re_text en e
      in if ct_AnchorSHA256 t = [] then x
         else case re_others en 5 x of (s, p, r) \<Rightarrow>
           case re_others en 6 (s, p, RecordCRLError (ct_AnchorSHA256 t) msg r) of (s, p, r) \<Rightarrow>
             (rs_RecordOperatorCRLAttempt (re_store en 6) (ct_AnchorSHA256 t) msg (re_now en 6) s, p, r))"

definition recentlyRefreshed :: "'s refresh_env \<Rightarrow> CRLTarget \<Rightarrow> 's \<Rightarrow> bool" where
  "recentlyRefreshed en t s \<longleftrightarrow>
     ct_AnchorSHA256 t \<noteq> [] \<and>
     (case ts_OperatorCRLs (rs_trust (re_store en 1)) s of
        Inl _ \<Rightarrow> False
      | Inr crls \<Rightarrow>
          (case find (\<lambda>c. crl_IssuerSHA256 c = ct_AnchorSHA256 t) crls of
             None \<Rightarrow> False
           | Some c \<Rightarrow> crl_DER c \<noteq> None \<and> crl_LastError c = [] \<and> re_now en 1 < crl_NextUpdate c \<and>
               re_now en 1 - crl_LastAttemptAt c < re_interval en div 2))"

definition matchAnchor :: "'s refresh_env \<Rightarrow> bytes \<Rightarrow> Revocations \<Rightarrow> string option" where
  "matchAnchor en der r =
     map_option an_SHA256
       (find (\<lambda>a. an_FromConfig a \<and> \<not> isl (VerifyCRL (re_lib en) der (an_Cert a) (re_now en 2))) (re_order en (rv_Anchors r)))"

text \<open>The answer is the time of the anchor's next CRL, zero if there is none, and the error.\<close>

type_synonym refreshed = "gotime \<times> refresh_error option"

definition store_crl :: "'s refresh_env \<Rightarrow> CRLTarget \<Rightarrow> bytes \<Rightarrow> string \<Rightarrow> 's replica \<Rightarrow> refreshed \<times> 's replica" where
  "store_crl en t b anchor x =
     (case re_others en 3 x of (s, p, r) \<Rightarrow>
        case StoreCRL (rs_trust (re_store en 3)) (re_lib en) (re_now en 3) anchor b (ct_Source t) s r of
          (Inl e, s, r) \<Rightarrow>
            (let x = re_others en 7 (refresh_fail en (t\<lparr>ct_AnchorSHA256 := anchor\<rparr>) (StoreRefused e) (s, p, r))
             in ((nextUpdate anchor (snd (snd x)), Some (StoreRefused e)), x))
        | (Inr True, s, r) \<Rightarrow> (let x = re_others en 7 (s, p, r) in ((nextUpdate anchor (snd (snd x)), None), x))
        | (Inr False, s, r) \<Rightarrow>
            (case re_others en 4 (s, p, r) of (s, p, r) \<Rightarrow>
               case re_others en 5 (rs_RecordOperatorCRLAttempt (re_store en 4) anchor [] (re_now en 4) s, p, r) of (s, p, r) \<Rightarrow>
                 let x = re_others en 7 (s, p, RecordCRLError anchor [] r) in ((nextUpdate anchor (snd (snd x)), None), x)))"

definition get_crl :: "'s refresh_env \<Rightarrow> CRLTarget \<Rightarrow> 's replica \<Rightarrow> refreshed \<times> 's replica" where
  "get_crl en t x =
     (if ct_Source t \<noteq> ''url'' \<and> ct_Source t \<noteq> ''path'' then ((0, Some (NoRefreshFor (ct_Source t))), x)
      else
        let got = (if ct_Source t = ''url'' then map_sum FetchFailed id (re_fetch en (ct_Location t)) else map_sum ReadFailed id (re_ReadFile en (ct_Location t)))
        in case got of
             Inl e \<Rightarrow> (let x = re_others en 7 (refresh_fail en t e x) in ((nextUpdate (ct_AnchorSHA256 t) (snd (snd x)), Some e), x))
           | Inr b \<Rightarrow>
               if ct_AnchorSHA256 t \<noteq> [] then store_crl en t b (ct_AnchorSHA256 t) x
               else let x = re_others en 2 x in case matchAnchor en b (snd (snd x)) of
                      None \<Rightarrow> ((0, Some NoSigner), refresh_fail en t NoSigner x)
                    | Some anchor \<Rightarrow> store_crl en t b anchor x)"

definition RefreshOnce :: "'s refresh_env \<Rightarrow> CRLTarget \<Rightarrow> 's replica \<Rightarrow> refreshed \<times> 's replica" where
  "RefreshOnce en t x =
     (if ct_Source t = ''url'' then
        (let x = re_others en 0 x
         in case rs_TryAdvisoryLock (re_store en 0) (''fleetos.crl.'' @ target_key (re_sha256 en) t) (fst x) of
              Inl e \<Rightarrow> ((0, Some (LockFailed e)), x)
            | Inr False \<Rightarrow> ((nextUpdate (ct_AnchorSHA256 t) (snd (snd x)), None), x)
            | Inr True \<Rightarrow>
                (let x = re_others en 1 x
                 in if recentlyRefreshed en t (fst x) then ((nextUpdate (ct_AnchorSHA256 t) (snd (snd x)), None), x) else get_crl en t x))
      else get_crl en t x)"

subsection \<open>The schedule\<close>

text \<open>\<^verbatim>\<open>float64(interval) * (1 - crlJitter + 2*crlJitter*jitter)\<close> with \<^verbatim>\<open>crlJitter = 0.1\<close>, made a duration.\<close>

definition jittered :: "duration \<Rightarrow> rat \<Rightarrow> duration" where
  "jittered interval j = \<lfloor>of_int interval * (1 - 1 / 10 + 2 / 10 * j)\<rfloor>"

definition nextRefresh :: "gotime \<Rightarrow> bool \<Rightarrow> gotime \<Rightarrow> duration \<Rightarrow> duration \<Rightarrow> rat \<Rightarrow> gotime \<times> duration" where
  "nextRefresh now failed next backoff interval j =
     (if failed \<or> (\<not> IsZero next \<and> \<not> now < next) then
        (let backoff = min (max (backoff * 2) minCRLRetry) interval in (now + backoff, backoff))
      else
        (let due = now + jittered interval j
         in (if \<not> IsZero next \<and> next < due then next else due, 0)))"

record sched =
  sd_due :: gotime
  sd_backoff :: duration

definition zero_sched :: sched where
  "zero_sched = \<lparr>sd_due = 0, sd_backoff = 0\<rparr>"

text \<open>
  One round of the loop of \<^verbatim>\<open>Run\<close> over the targets, as they were listed when the round began; \<open>ens\<close> is the environment of each
  refresh, by the number of targets that follow it.
\<close>

fun run_targets :: "(nat \<Rightarrow> 's refresh_env) \<Rightarrow> gotime \<Rightarrow> CRLTarget list \<Rightarrow> (string, sched) gomap \<times> 's replica \<Rightarrow> (string, sched) gomap \<times> 's replica" where
  "run_targets ens now [] sx = sx"
| "run_targets ens now (t # ts) sx =
     (case sx of (sds, x) \<Rightarrow>
        let en = ens (length ts);
            k = target_key (re_sha256 en) t;
            sd = (case mget sds k of None \<Rightarrow> zero_sched | Some sd \<Rightarrow> sd);
            sds = mput k sd sds
        in if now < sd_due sd then run_targets ens now ts (sds, x)
           else case RefreshOnce en t x of ((next, err), x) \<Rightarrow>
             case nextRefresh (re_now en 8) (err \<noteq> None) next (sd_backoff sd) (re_interval en) (re_jitter en) of (due, backoff) \<Rightarrow>
               run_targets ens now ts (mput k \<lparr>sd_due = due, sd_backoff = backoff\<rparr> sds, x))"

definition Run_round :: "(nat \<Rightarrow> 's refresh_env) \<Rightarrow> 's refresh_env \<Rightarrow> gotime \<Rightarrow> (string, sched) gomap \<times> 's replica \<Rightarrow> (string, sched) gomap \<times> 's replica" where
  "Run_round ens en now sx = run_targets ens now (Targets en (snd (snd (snd sx)))) sx"

subsection \<open>A fetch keeps its limits\<close>

lemma Fetch_Inr:
  assumes "Fetch lib http maxBytes url = Inr b"
  shows "length b \<le> maxBytes" "ValidateFetchURL lib url = None"
    "\<exists>err. hl_Do http \<lparr>hr_method = ''GET'', hr_url = url, hr_ContentType = [], hr_body = []\<rparr> = Inr (200, b, err)"
  using assms by (auto simp: Fetch_def fetch_request_def read_limited_def split: option.splits sum.splits prod.splits if_splits)

subsection \<open>The schedule of one target\<close>

lemma jittered_bounds:
  assumes "0 < interval" and "0 \<le> j" and "j \<le> 1"
  shows "9 * interval < 10 * jittered interval j + 10" "10 * jittered interval j \<le> 11 * interval"
proof -
  define x where "x = (of_int interval * (1 - 1 / 10 + 2 / 10 * j) :: rat)"
  have i: "0 < (of_int interval :: rat)" using assms(1) by simp
  have "of_int interval * j \<le> of_int interval * 1" "0 \<le> of_int interval * j" using i assms(2,3) by (simp_all add: mult_left_mono)
  then have x: "9 * of_int interval \<le> 10 * x" "10 * x \<le> 11 * of_int interval" unfolding x_def by (simp_all add: algebra_simps)
  have f: "of_int \<lfloor>x\<rfloor> \<le> x" "x < of_int \<lfloor>x\<rfloor> + 1" by linarith+
  have "(of_int (9 * interval) :: rat) < of_int (10 * \<lfloor>x\<rfloor> + 10)" unfolding of_int_mult of_int_add of_int_numeral using x(1) f(2) by linarith
  then show "9 * interval < 10 * jittered interval j + 10" unfolding jittered_def of_int_less_iff x_def .
  have "(of_int (10 * \<lfloor>x\<rfloor>) :: rat) \<le> of_int (11 * interval)" unfolding of_int_mult of_int_numeral using x(2) f(1) by linarith
  then show "10 * jittered interval j \<le> 11 * interval" unfolding jittered_def of_int_le_iff x_def .
qed

lemma nextRefresh_bounds:
  assumes "nextRefresh now failed next backoff interval j = (due, b)" and "2 \<le> interval" and "0 \<le> j" and "j \<le> 1" and "0 \<le> backoff"
  shows "now < due" "10 * (due - now) \<le> 11 * interval" "0 \<le> b" "b \<le> interval" "\<not> failed \<Longrightarrow> next \<noteq> 0 \<Longrightarrow> now < next \<Longrightarrow> due \<le> next"
    "failed \<Longrightarrow> due = now + b"
  using assms jittered_bounds [of interval j]
  by (auto simp: nextRefresh_def Let_def IsZero_def minCRLRetry_def Minute_def Second_def min_def max_def split: if_splits)

text \<open>The backoff after a run of failures, whenever they happened.\<close>

definition backoff_after :: "duration \<Rightarrow> (gotime \<times> gotime \<times> rat) list \<Rightarrow> duration" where
  "backoff_after interval fs = foldl (\<lambda>b (now, next, j). snd (nextRefresh now True next b interval j)) 0 fs"

lemma backoff_closed_form:
  assumes "0 < interval"
  shows "backoff_after interval (fs @ [f]) = min (2 ^ length fs * Minute) interval"
proof (induction fs arbitrary: f rule: rev_induct)
  case Nil
  then show ?case by (cases f) (simp add: backoff_after_def nextRefresh_def Let_def minCRLRetry_def Minute_def Second_def)
next
  case (snoc g fs)
  obtain now nxt j where f: "f = (now, nxt, j)" by (cases f)
  define q :: int where "q = 2 ^ length fs * Minute"
  have "backoff_after interval ((fs @ [g]) @ [f]) = min (max (min q interval * 2) Minute) interval"
    using snoc.IH [of g] by (simp add: f backoff_after_def nextRefresh_def Let_def minCRLRetry_def q_def)
  moreover have "0 < Minute" by (simp add: Minute_def Second_def)
  then have "Minute \<le> q" by (simp add: q_def)
  moreover have "2 ^ length (fs @ [g]) * Minute = 2 * q" by (simp add: q_def)
  ultimately show ?case using assms \<open>0 < Minute\<close> by (simp only:)
qed

text \<open>C31: the schedule of one target. The next attempt is always later than now and at most 1.1 intervals away; after a success it is no
  later than the CRL's nextUpdate; after a failure it is exactly the backoff away; and the backoff after \<open>n + 1\<close> failures in a row is a
  minute doubled \<open>n\<close> times, capped at the interval.\<close>

theorem refresh_schedule:
  assumes "2 \<le> interval" and "0 \<le> j" and "j \<le> 1" and "0 \<le> backoff" and "nextRefresh now failed next backoff interval j = (due, b)"
  shows "now < due \<and> 10 * (due - now) \<le> 11 * interval \<and> 0 \<le> b \<and> b \<le> interval \<and>
    (\<not> failed \<and> next \<noteq> 0 \<and> now < next \<longrightarrow> due \<le> next) \<and> (failed \<longrightarrow> due = now + b) \<and>
    (\<forall>fs f. backoff_after interval (fs @ [f]) = min (2 ^ length fs * Minute) interval)"
  using nextRefresh_bounds [OF assms(5,1-4)] backoff_closed_form assms(1) by auto

subsection \<open>A round reschedules every target\<close>

definition sched_ok :: "(string, sched) gomap \<Rightarrow> bool" where
  "sched_ok sds \<longleftrightarrow> (\<forall>k sd. mget sds k = Some sd \<longrightarrow> 0 \<le> sd_backoff sd)"

definition round_env :: "(bytes \<Rightarrow> bytes) \<Rightarrow> gotime \<Rightarrow> 's refresh_env \<Rightarrow> bool" where
  "round_env sha now en \<longleftrightarrow> re_sha256 en = sha \<and> now \<le> re_now en 8 \<and> 2 \<le> re_interval en \<and> 0 \<le> re_jitter en \<and> re_jitter en \<le> 1"

lemma sched_ok_put: "sched_ok sds \<Longrightarrow> 0 \<le> sd_backoff sd \<Longrightarrow> sched_ok (mput k sd sds)"
  by (simp add: sched_ok_def gomap_simps)

text \<open>One target: its entry is in the future afterwards, and no other entry changes.\<close>

lemma run_target:
  assumes "round_env sha now (ens (length ts))" and "sched_ok sds"
  obtains sds' x' where "run_targets ens now (t # ts) (sds, x) = run_targets ens now ts (sds', x')" "sched_ok sds'"
    "\<exists>sd. mget sds' (target_key sha t) = Some sd \<and> now < sd_due sd"
    "\<forall>k. k \<noteq> target_key sha t \<longrightarrow> mget sds' k = mget sds k"
    "\<forall>sd. mget sds (target_key sha t) = Some sd \<and> now < sd_due sd \<longrightarrow> mget sds' (target_key sha t) = Some sd \<and> x' = x"
proof -
  let ?en = "ens (length ts)" and ?k = "target_key sha t"
  define sd where "sd = (case mget sds ?k of None \<Rightarrow> zero_sched | Some sd \<Rightarrow> sd)"
  have b: "0 \<le> sd_backoff sd" using assms(2) by (auto simp: sd_def sched_ok_def zero_sched_def split: option.split)
  have k: "target_key (re_sha256 ?en) t = ?k" using assms(1) by (simp add: round_env_def)
  have old: "sd' = sd" if "mget sds ?k = Some sd'" for sd' using that by (simp add: sd_def)
  have step: "run_targets ens now (t # ts) (sds, x) =
      (if now < sd_due sd then run_targets ens now ts (mput ?k sd sds, x)
       else case RefreshOnce ?en t x of ((next, err), x) \<Rightarrow>
         case nextRefresh (re_now ?en 8) (err \<noteq> None) next (sd_backoff sd) (re_interval ?en) (re_jitter ?en) of (due, backoff) \<Rightarrow>
           run_targets ens now ts (mput ?k \<lparr>sd_due = due, sd_backoff = backoff\<rparr> (mput ?k sd sds), x))"
    by (simp only: run_targets.simps prod.case Let_def k sd_def)
  show thesis
  proof (cases "now < sd_due sd")
    case True
    show ?thesis
    proof (rule that [of "mput ?k sd sds" x])
      show "sched_ok (mput ?k sd sds)" by (rule sched_ok_put [OF assms(2) b])
      show "\<forall>sd'. mget sds ?k = Some sd' \<and> now < sd_due sd' \<longrightarrow> mget (mput ?k sd sds) ?k = Some sd' \<and> x = x"
        using old by (simp add: gomap_simps)
    qed (use True step in \<open>simp_all add: gomap_simps del: run_targets.simps\<close>)
  next
    case False
    obtain nu err x' where o': "RefreshOnce ?en t x = ((nu, err), x')" by (metis prod.collapse)
    obtain due b' where n: "nextRefresh (re_now ?en 8) (err \<noteq> None) nu (sd_backoff sd) (re_interval ?en) (re_jitter ?en) = (due, b')" by fastforce
    have next_ok: "now < due" "0 \<le> b'" using nextRefresh_bounds(1,3) [OF n _ _ _ b] assms(1) by (simp_all add: round_env_def)
    let ?sds = "mput ?k \<lparr>sd_due = due, sd_backoff = b'\<rparr> (mput ?k sd sds)"
    show ?thesis
    proof (rule that [of ?sds x'])
      show "sched_ok ?sds" by (rule sched_ok_put [OF sched_ok_put [OF assms(2) b]]) (simp add: next_ok)
      show "run_targets ens now (t # ts) (sds, x) = run_targets ens now ts (?sds, x')"
        unfolding step o' using False n by (simp del: run_targets.simps)
      show "\<forall>sd'. mget sds ?k = Some sd' \<and> now < sd_due sd' \<longrightarrow> mget ?sds ?k = Some sd' \<and> x' = x"
        using old False by blast
    qed (use next_ok in \<open>simp_all add: gomap_simps\<close>)
  qed
qed

text \<open>C30: no target is forgotten and none is retried early. After a round every target listed when it began has an entry whose time is still
  to come, whatever the refreshes answered; a target whose time had not come keeps its entry; and entries of other targets stay.\<close>

theorem round_reschedules:
  assumes "\<forall>n. round_env sha now (ens n)" and "sched_ok sds" and "run_targets ens now ts (sds, x) = (sds', x')"
  shows "sched_ok sds' \<and> (\<forall>t \<in> set ts. \<exists>sd. mget sds' (target_key sha t) = Some sd \<and> now < sd_due sd) \<and>
    (\<forall>k sd. mget sds k = Some sd \<and> (now < sd_due sd \<or> k \<notin> target_key sha ` set ts) \<longrightarrow> mget sds' k = Some sd)"
  using assms(2,3)
proof (induction ts arbitrary: sds x)
  case (Cons t ts)
  obtain s1 x1 where r: "run_targets ens now (t # ts) (sds, x) = run_targets ens now ts (s1, x1)" "sched_ok s1"
    "\<exists>sd. mget s1 (target_key sha t) = Some sd \<and> now < sd_due sd" "\<forall>k. k \<noteq> target_key sha t \<longrightarrow> mget s1 k = mget sds k"
    "\<forall>sd. mget sds (target_key sha t) = Some sd \<and> now < sd_due sd \<longrightarrow> mget s1 (target_key sha t) = Some sd \<and> x1 = x"
    by (rule run_target [of sha now ens ts sds t x, OF spec [OF assms(1)] Cons.prems(1)], rule that, assumption+)
  note IH = Cons.IH [OF r(2) Cons.prems(2) [unfolded r(1)]]
  have "mget sds' k = Some sd" if "mget sds k = Some sd" "now < sd_due sd \<or> k \<notin> target_key sha ` set (t # ts)" for k sd
    using that r(4,5) IH by (cases "k = target_key sha t") auto
  moreover have "\<exists>sd. mget sds' (target_key sha t) = Some sd \<and> now < sd_due sd" using r(3) IH by blast
  ultimately show ?case using IH by simp
qed simp

subsection \<open>A failed refresh keeps what is enforced\<close>

text \<open>
  What the refresher relies on of a store, under whatever conditions \<open>c\<close> an access meets: noting an attempt and a refused CRL leave
  the stored CRLs alone.
\<close>

locale refresh_contract =
  fixes T :: "'c \<Rightarrow> 's refresh_store" and der :: "'s \<Rightarrow> string \<Rightarrow> bytes option"
  assumes attempt_kept: "der (rs_RecordOperatorCRLAttempt (T c) issuer err t s) = der s"
    and refused_kept: "ts_PutOperatorCRL (rs_trust (T c)) row decide s = (Inl e, s') \<Longrightarrow> der s' = der s"
begin

definition kept :: "'s replica \<Rightarrow> 's replica \<Rightarrow> bool" where
  "kept x y \<longleftrightarrow> der (fst y) = der (fst x) \<and> fst (snd y) = fst (snd x) \<and> rv_CRL (snd (snd y)) = rv_CRL (snd (snd x)) \<and>
     rv_denylist (snd (snd y)) = rv_denylist (snd (snd x))"

lemma kept_refl: "kept x x"
  by (simp add: kept_def)

lemma kept_trans: "kept x y \<Longrightarrow> kept y z \<Longrightarrow> kept x z"
  by (simp add: kept_def)

lemma kept_error: "kept (s, p, r) (s, p, RecordCRLError sha msg r)"
  by (auto simp: kept_def RecordCRLError_def rv_CRL_def gomap_simps fun_eq_iff split: option.split)

lemma kept_attempt: "re_store en n \<in> range T \<Longrightarrow> kept (s, p, r) (rs_RecordOperatorCRLAttempt (re_store en n) issuer err t s, p, r)"
  by (auto simp: kept_def attempt_kept)

lemma kept_fail:
  assumes "range (re_store en) \<subseteq> range T" and "\<And>n x. re_others en n x = x"
  shows "kept x (refresh_fail en t e x)"
proof -
  obtain s p r where x: "x = (s, p, r)" by (rule prod_cases3)
  have "re_store en 6 \<in> range T" using assms(1) by auto
  from kept_trans [OF kept_error kept_attempt [OF this]] show ?thesis
    by (simp add: x refresh_fail_def Let_def assms(2) kept_refl)
qed

lemma store_refused:
  assumes "re_store en 3 \<in> range T" and "StoreCRL (rs_trust (re_store en 3)) lib now sha b source s r = (Inl e, s', r')"
  shows "kept (s, p, r) (s', p, r')"
proof -
  have "der s' = der s \<and> r' = r"
    using assms by (auto simp: StoreCRL_def split: option.splits sum.splits prod.splits bool.splits dest: refused_kept)
  then show ?thesis by (simp add: kept_def)
qed

lemma kept_store:
  assumes "range (re_store en) \<subseteq> range T" and "\<And>n x. re_others en n x = x" and "store_crl en t b anchor x = ((nu, Some e), y)"
  shows "kept x y"
proof -
  obtain s p r where x: "x = (s, p, r)" by (rule prod_cases3)
  have 3: "re_store en 3 \<in> range T" using assms(1) by auto
  obtain res s' r' where s: "StoreCRL (rs_trust (re_store en 3)) (re_lib en) (re_now en 3) anchor b (ct_Source t) s r = (res, s', r')" by (rule prod_cases3)
  then obtain e' where res: "res = Inl e'" using assms(3) by (auto simp: x store_crl_def assms(2) Let_def split: sum.splits bool.splits)
  have "y = refresh_fail en (t\<lparr>ct_AnchorSHA256 := anchor\<rparr>) (StoreRefused e') (s', p, r')"
    using assms(3) by (auto simp: x store_crl_def assms(2) s res Let_def)
  then show ?thesis using kept_trans [OF store_refused [OF 3 s [unfolded res]] kept_fail [OF assms(1,2)]] by (simp add: x)
qed

lemma failed_refresh:
  assumes "range (re_store en) \<subseteq> range T" and "\<And>n x. re_others en n x = x" and "RefreshOnce en t x = ((nu, Some e), y)"
  shows "kept x y"
  using assms(3)
  by (auto simp: RefreshOnce_def get_crl_def assms(2) Let_def split: if_splits sum.splits bool.splits option.splits
      intro: kept_store [OF assms(1,2)] kept_fail [OF assms(1,2)] kept_refl)

end

interpretation pg_refreshing: refresh_contract "\<lambda>(fault, clk, lock). pg_refresh fault clk lock" pg_der
proof
  show "pg_der (rs_RecordOperatorCRLAttempt (case c of (fault, clk, lock) \<Rightarrow> pg_refresh fault clk lock) issuer err t s) = pg_der s" for c issuer err t s
    by (auto simp: pg_refresh_def pg_RecordOperatorCRLAttempt_def pg_der_def fun_eq_iff gomap_simps zero_crl_def Let_def split: option.split prod.split)
  show "pg_der s' = pg_der s"
    if "ts_PutOperatorCRL (rs_trust (case c of (fault, clk, lock) \<Rightarrow> pg_refresh fault clk lock)) row decide s = (Inl e, s')" for c row decide s e s'
    using that by (auto simp: pg_refresh_def pg_trust_def pg_PutOperatorCRL_def putCRLTx_def Let_def split: prod.splits option.splits sum.splits)
qed

interpretation mem_refreshing: refresh_contract "\<lambda>_ :: unit. mem_refresh" "\<lambda>s sha. Option.bind (mget (trust_crls s) sha) crl_DER"
proof
  show "(\<lambda>sha. Option.bind (mget (trust_crls (rs_RecordOperatorCRLAttempt mem_refresh issuer err t s)) sha) crl_DER) =
      (\<lambda>sha. Option.bind (mget (trust_crls s) sha) crl_DER)" for issuer err t s
    by (auto simp: mem_refresh_def RecordOperatorCRLAttempt_def fun_eq_iff gomap_simps zero_crl_def Let_def split: option.split)
  show "(\<lambda>sha. Option.bind (mget (trust_crls s') sha) crl_DER) = (\<lambda>sha. Option.bind (mget (trust_crls s) sha) crl_DER)"
    if "ts_PutOperatorCRL (rs_trust mem_refresh) row decide s = (Inl e, s')" for row decide s e s'
    using that by (auto simp: mem_refresh_def mem_trust_def PutOperatorCRL_eq split_beta split: sum.splits)
qed

definition on_postgres :: "pg_db refresh_env \<Rightarrow> bool" where
  "on_postgres en \<longleftrightarrow> (\<forall>n. \<exists>fault clk lock. re_store en n = pg_refresh fault clk lock)"

lemma on_postgres_range: "on_postgres en \<Longrightarrow> range (re_store en) \<subseteq> range (\<lambda>(fault, clk, lock). pg_refresh fault clk lock)"
proof
  fix T
  assume "on_postgres en" and "T \<in> range (re_store en)"
  then obtain fault clk lock where "T = (case (fault, clk, lock) of (fault, clk, lock) \<Rightarrow> pg_refresh fault clk lock)" by (auto simp: on_postgres_def) metis
  then show "T \<in> range (\<lambda>(fault, clk, lock). pg_refresh fault clk lock)" by (rule range_eqI)
qed

lemma revoked_by: "revokedLocked r sha serial \<longleftrightarrow> serial \<in> set (denied (rv_denylist r) sha) \<or> (\<exists>v. rv_CRL r sha = Some v \<and> crl_IsRevoked v serial)"
  by (auto simp: revokedLocked_def rv_CRL_def split: option.split)

text \<open>C29: a refresh that fails, for whatever reason and whatever fails with it, leaves the CRLs in the database, every CRL and denial this
  replica enforces, and so every revocation decision as they were, when nothing else runs in between.\<close>

theorem failed_refresh_keeps_revocations:
  assumes "on_postgres en" and "\<forall>n x. re_others en n x = x" and "RefreshOnce en t (s, p, r) = ((nu, Some e), (s', p', r'))"
  shows "pg_der s' = pg_der s \<and> p' = p \<and> (\<forall>sha. rv_CRL r' sha = rv_CRL r sha) \<and> rv_denylist r' = rv_denylist r \<and>
    (\<forall>sha serial. IsRevoked r' sha serial \<longleftrightarrow> IsRevoked r sha serial)"
  using pg_refreshing.failed_refresh [OF on_postgres_range [OF assms(1)] spec [OF spec [OF assms(2)]] assms(3)]
  by (simp add: pg_refreshing.kept_def IsRevoked_def revoked_by)

subsection \<open>The refresher beside the rest of the replica\<close>

text \<open>Every refresh is a sequence of steps of the replica, so what holds of the replica holds with the refresher at work.\<close>

definition refresh_env_ok :: "crl_lib \<Rightarrow> (Anchor \<Rightarrow> bool) \<Rightarrow> pg_db refresh_env \<Rightarrow> bool" where
  "refresh_env_ok lib ok en \<longleftrightarrow> on_postgres en \<and> re_lib en = lib \<and> (\<forall>n x. (replica_step lib ok)\<^sup>*\<^sup>* x (re_others en n x))"

lemma others_steps: "refresh_env_ok lib ok en \<Longrightarrow> (replica_step lib ok)\<^sup>*\<^sup>* w x \<Longrightarrow> (replica_step lib ok)\<^sup>*\<^sup>* w (re_others en n x)"
  by (meson refresh_env_ok_def rtranclp_trans)

lemma error_steps: "(replica_step lib ok)\<^sup>*\<^sup>* w (s, p, r) \<Longrightarrow> (replica_step lib ok)\<^sup>*\<^sup>* w (s, p, RecordCRLError sha msg r)"
  by (erule rtranclp.rtrancl_into_rtrancl) (rule replica_step.crl_error)

lemma attempt_steps:
  assumes "on_postgres en" and "(replica_step lib ok)\<^sup>*\<^sup>* w (s, p, r)"
  shows "(replica_step lib ok)\<^sup>*\<^sup>* w (rs_RecordOperatorCRLAttempt (re_store en n) issuer err t s, p, r)"
proof -
  obtain fault clk lock where "re_store en n = pg_refresh fault clk lock" using assms(1) unfolding on_postgres_def by blast
  moreover have "replica_step lib ok (s, p, r) (snd (pg_RecordOperatorCRLAttempt fault issuer err t s), p, r)"
    by (rule replica_step.database, rule pg_step.crl_attempt)
  ultimately show ?thesis using assms(2) by (simp add: pg_refresh_def)
qed

lemma crl_steps:
  assumes "on_postgres en" and "(replica_step lib ok)\<^sup>*\<^sup>* w (s, p, r)" and "StoreCRL (rs_trust (re_store en n)) lib now sha b source s r = (res, s', r')"
  shows "(replica_step lib ok)\<^sup>*\<^sup>* w (s', p, r')"
proof -
  obtain fault clk lock where "re_store en n = pg_refresh fault clk lock" using assms(1) unfolding on_postgres_def by blast
  then have "StoreCRL (pg_trust fault clk (\<lambda>_. [])) lib now sha b source s r = (res, s', r')" using assms(3) by (simp add: pg_refresh_def)
  then have "replica_step lib ok (s, p, r) (s', p, r')" by (rule replica_step.crl)
  with assms(2) show ?thesis by (rule rtranclp.rtrancl_into_rtrancl)
qed

lemma fail_steps:
  assumes "refresh_env_ok lib ok en" and "(replica_step lib ok)\<^sup>*\<^sup>* w x"
  shows "(replica_step lib ok)\<^sup>*\<^sup>* w (refresh_fail en t e x)"
proof -
  let ?msg = "errorClass e @ '': '' @ re_text en e"
  have pg: "on_postgres en" using assms(1) by (simp add: refresh_env_ok_def)
  obtain s p r where a: "re_others en 5 x = (s, p, r)" by (rule prod_cases3)
  obtain s1 p1 r1 where b: "re_others en 6 (s, p, RecordCRLError (ct_AnchorSHA256 t) ?msg r) = (s1, p1, r1)" by (rule prod_cases3)
  have "(replica_step lib ok)\<^sup>*\<^sup>* w (s, p, r)" using others_steps [OF assms, of 5] a by simp
  from others_steps [OF assms(1) error_steps [OF this], of 6] have "(replica_step lib ok)\<^sup>*\<^sup>* w (s1, p1, r1)" using b by metis
  from attempt_steps [OF pg this] show ?thesis using a b assms(2) by (simp add: refresh_fail_def Let_def)
qed

lemma store_steps:
  assumes "refresh_env_ok lib ok en" and "(replica_step lib ok)\<^sup>*\<^sup>* w x"
  shows "(replica_step lib ok)\<^sup>*\<^sup>* w (snd (store_crl en t b anchor x))"
proof -
  have pg: "on_postgres en" and lib: "re_lib en = lib" using assms(1) by (simp_all add: refresh_env_ok_def)
  obtain s p r where a: "re_others en 3 x = (s, p, r)" by (rule prod_cases3)
  obtain res s' r' where st: "StoreCRL (rs_trust (re_store en 3)) lib (re_now en 3) anchor b (ct_Source t) s r = (res, s', r')" by (rule prod_cases3)
  have "(replica_step lib ok)\<^sup>*\<^sup>* w (s, p, r)" using others_steps [OF assms, of 3] a by simp
  note stored = crl_steps [OF pg this st]
  obtain s4 p4 r4 where 4: "re_others en 4 (s', p, r') = (s4, p4, r4)" by (rule prod_cases3)
  let ?s = "rs_RecordOperatorCRLAttempt (re_store en 4) anchor [] (re_now en 4) s4"
  obtain s5 p5 r5 where 5: "re_others en 5 (?s, p4, r4) = (s5, p5, r5)" by (rule prod_cases3)
  have "(replica_step lib ok)\<^sup>*\<^sup>* w (s4, p4, r4)" using others_steps [OF assms(1) stored, of 4] 4 by simp
  from others_steps [OF assms(1) attempt_steps [OF pg this], of 5] have "(replica_step lib ok)\<^sup>*\<^sup>* w (s5, p5, r5)" using 5 by metis
  note noted = others_steps [OF assms(1) error_steps [OF this], of 7]
  show ?thesis
    using a st 4 5 stored noted others_steps [OF assms(1) stored, of 7] others_steps [OF assms(1) fail_steps [OF assms(1) stored], of 7]
    by (auto simp: store_crl_def lib Let_def split: sum.split bool.split)
qed

lemma RefreshOnce_steps:
  assumes "refresh_env_ok lib ok en"
  shows "(replica_step lib ok)\<^sup>*\<^sup>* x (snd (RefreshOnce en t x))"
proof -
  have get: "(replica_step lib ok)\<^sup>*\<^sup>* w (snd (get_crl en t y))" if "(replica_step lib ok)\<^sup>*\<^sup>* w y" for w y
    using that store_steps [OF assms] fail_steps [OF assms] others_steps [OF assms]
    by (auto simp: get_crl_def Let_def split: sum.split option.split)
  have 1: "(replica_step lib ok)\<^sup>*\<^sup>* x (re_others en 0 x)" "(replica_step lib ok)\<^sup>*\<^sup>* x (re_others en 1 (re_others en 0 x))"
    by (intro others_steps [OF assms] rtranclp.rtrancl_refl)+
  show ?thesis using 1 get [OF 1(2)] get [OF rtranclp.rtrancl_refl] by (auto simp: RefreshOnce_def Let_def split: sum.split bool.split)
qed

lemma run_targets_steps:
  assumes "\<forall>n. refresh_env_ok lib ok (ens n)"
  shows "(replica_step lib ok)\<^sup>*\<^sup>* (snd sx) (snd (run_targets ens now ts sx))"
proof (induction ts arbitrary: sx)
  case (Cons t ts)
  obtain sds x where sx: "sx = (sds, x)" by (cases sx)
  have "(replica_step lib ok)\<^sup>*\<^sup>* x (snd (RefreshOnce (ens (length ts)) t x))" by (rule RefreshOnce_steps [OF spec [OF assms]])
  moreover have "(replica_step lib ok)\<^sup>*\<^sup>* y (snd (run_targets ens now ts (sds', y)))" for sds' y using Cons.IH [of "(sds', y)"] by simp
  ultimately show ?case by (auto simp: sx Let_def split: prod.split intro: rtranclp_trans)
qed simp

inductive refreshing_step ::
  "crl_lib \<Rightarrow> (Anchor \<Rightarrow> bool) \<Rightarrow> (string, sched) gomap \<times> pg_db replica \<Rightarrow> (string, sched) gomap \<times> pg_db replica \<Rightarrow> bool" for lib ok where
  replica: "replica_step lib ok x y \<Longrightarrow> refreshing_step lib ok (sds, x) (sds, y)"
| refresh_round: "\<forall>n. refresh_env_ok lib ok (ens n) \<Longrightarrow> refreshing_step lib ok sx (Run_round ens en now sx)"

lemma refreshing_steps: "(refreshing_step lib ok)\<^sup>*\<^sup>* sx sy \<Longrightarrow> (replica_step lib ok)\<^sup>*\<^sup>* (snd sx) (snd sy)"
proof (induction rule: rtranclp_induct)
  case (step sy sz)
  from step.hyps(2) have "(replica_step lib ok)\<^sup>*\<^sup>* (snd sy) (snd sz)"
    by cases (auto simp: Run_round_def intro: run_targets_steps)
  with step.IH show ?case by (rule rtranclp_trans)
qed simp


subsection \<open>Examples\<close>

definition example_refresh_env :: "pg_db refresh_env" where
  "example_refresh_env = \<lparr>re_store = (\<lambda>_. pg_refresh None 1 (Inr True)), re_lib = example_crl_lib, re_sha256 = id, re_fetch = (\<lambda>_. Inl (HttpStatus 503)),
     re_ReadFile = (\<lambda>_. Inl ''absent''), re_now = (\<lambda>_. 200), re_text = (\<lambda>_. ''HTTP 503''), re_Interval = 0, re_FileTargets = [], re_order = id,
     re_jitter = 1 / 2, re_others = (\<lambda>_ x. x)\<rparr>"

definition example_target :: CRLTarget where
  "example_target = \<lparr>ct_Source = ''url'', ct_Location = ''http://ca/crl'', ct_AnchorSHA256 = ''anchor''\<rparr>"

lemma example_env_pg: "on_postgres example_refresh_env"
  by (auto simp: on_postgres_def example_refresh_env_def)

lemma example_refresh_fails:
  "snd (fst (RefreshOnce example_refresh_env example_target (migrated, NewPoller, example_engine))) = Some (FetchFailed (HttpStatus 503))"
  by (simp add: RefreshOnce_def get_crl_def example_refresh_env_def example_target_def pg_refresh_def pg_trust_def read_result_def recentlyRefreshed_def
      pg_OperatorCRLs_def migrated_def Let_def)

lemma refresh_schedule_witness:
  "5 < fst (nextRefresh 5 True 0 Minute (15 * Minute) 0) \<and> backoff_after (15 * Minute) [(1, 0, 0), (2, 0, 0)] = 2 * Minute"
proof -
  have m: "2 \<le> 15 * Minute" "0 \<le> Minute" "min (2 ^ length [(1, 0, 0)] * Minute) (15 * Minute) = 2 * Minute" by (simp_all add: Minute_def Second_def)
  from refresh_schedule [OF m(1) _ _ m(2), of 0 5 True 0 "fst (nextRefresh 5 True 0 Minute (15 * Minute) 0)" "snd (nextRefresh 5 True 0 Minute (15 * Minute) 0)"]
  have s: "5 < fst (nextRefresh 5 True 0 Minute (15 * Minute) 0)"
    "\<forall>fs f. backoff_after (15 * Minute) (fs @ [f]) = min (2 ^ length fs * Minute) (15 * Minute)" by simp_all
  show ?thesis using s(1) s(2) [rule_format, of "[(1, 0, 0)]" "(2, 0, 0)"] m(3) by simp
qed

lemma round_reschedules_witness:
  "\<exists>sd. mget (fst (run_targets (\<lambda>_. example_refresh_env) 200 [example_target] ([], migrated, NewPoller, example_engine))) ''anchor'' = Some sd \<and> 200 < sd_due sd"
proof -
  let ?x = "run_targets (\<lambda>_. example_refresh_env) 200 [example_target] ([], migrated, NewPoller, example_engine)"
  have env: "\<forall>n. round_env id 200 ((\<lambda>_ :: nat. example_refresh_env) n)"
    by (simp add: round_env_def example_refresh_env_def re_interval_def DefaultCRLInterval_def Minute_def Second_def)
  have "sched_ok []" by (simp add: sched_ok_def)
  from round_reschedules [OF env this prod.collapse [symmetric], of "[example_target]" "(migrated, NewPoller, example_engine)"]
  have "\<forall>t \<in> set [example_target]. \<exists>sd. mget (fst ?x) (target_key id t) = Some sd \<and> 200 < sd_due sd" by (rule conjunct1 [OF conjunct2])
  then show ?thesis by (simp add: target_key_def example_target_def del: run_targets.simps)
qed

lemma failed_refresh_keeps_revocations_witness:
  "IsRevoked (snd (snd (snd (RefreshOnce example_refresh_env example_target (migrated, NewPoller, example_engine))))) ''anchor'' ''1234'' \<longleftrightarrow>
   IsRevoked example_engine ''anchor'' ''1234''"
proof -
  obtain nu e s' p' r' where x: "RefreshOnce example_refresh_env example_target (migrated, NewPoller, example_engine) = ((nu, e), (s', p', r'))"
    by (metis prod.collapse)
  have "e = Some (FetchFailed (HttpStatus 503))" using example_refresh_fails by (simp add: x)
  moreover have "\<forall>n x. re_others example_refresh_env n x = x" by (simp add: example_refresh_env_def)
  ultimately show ?thesis using failed_refresh_keeps_revocations [OF example_env_pg] x by auto
qed

lemma replica_lifted: "(replica_step lib ok)\<^sup>*\<^sup>* x y \<Longrightarrow> (refreshing_step lib ok)\<^sup>*\<^sup>* (sds, x) (sds, y)"
  by (induction rule: rtranclp_induct) (auto intro: rtranclp.rtrancl_into_rtrancl refreshing_step.replica)


end
