(* ===== verification/Spec2Isabelle.thy ===== *)
theory Spec2Isabelle
  imports Inventory Approval_Service OAuth_Login Rate_Limit Operator_CA_Rpcs Observed_Recorder Crl_Refresh
begin

text \<open>
  A verification library for the Fleet Manager of CryptOS (\<^verbatim>\<open>src/\<close>), the service operators and
  their agents use to run a fleet of CA nodes.

  \<^bold>\<open>The program.\<close> An operator reaches the manager with a client certificate (\<^verbatim>\<open>internal/authz\<close>)
  issued by an external operator CA; the trust store and the revocation engine (\<^verbatim>\<open>internal/operatorca\<close>)
  decide whether the certificate counts. An agent reaches it with a bearer key bound to an operator's
  certificate (\<^verbatim>\<open>internal/mcpauth\<close>, \<^verbatim>\<open>internal/oauth\<close>), behind a rate limit
  (\<^verbatim>\<open>internal/ratelimit\<close>); a dangerous call needs an approval by a person (\<^verbatim>\<open>internal/approval\<close>).
  What happens is written to a hash-chained audit log (\<^verbatim>\<open>internal/auditlog\<close>). All state is in one of
  two stores (\<^verbatim>\<open>internal/store/memory\<close>, \<^verbatim>\<open>internal/store/postgres\<close>). Several replicas share a
  Postgres store and poll it. Before the first operator CA is registered a setup token opens a
  bootstrap session (\<^verbatim>\<open>internal/bootstrap\<close>); the first admin request closes that door.

  \<^bold>\<open>Modelling.\<close> A struct is a record, an enumeration a datatype, an operation a function from its
  arguments and the state to its result and the new state; an error is a value of a sum or option type.
  A Go map is an association list with at most one entry per key. Times and durations are integers,
  the zero time is 0; the clock, random bytes and what the database or a responder answers are
  arguments. Where a call takes a lock twice, or reads before it locks, the state it reads and the state
  it changes are two arguments, so that the lemmas cover calls that run in between. Code that is not in
  the repository (x509, ASN.1, SHA-256, PEM, JSON, net/url, the token bucket, the transport) is a
  parameter, and only what the documentation of that code promises is assumed of it, as named
  hypotheses. No model needs fuel: every loop is structural recursion or ends by its termination proof.
  Generation numbers are 64-bit words; the lemmas on them ask that they have not wrapped around.

  \<^bold>\<open>Theories.\<close>
  \<^item> \<open>Prelude\<close>, \<open>Go_Lib\<close>, \<open>Go_Base64\<close>: maps, decimal and hexadecimal text, RFC 3339 times, base64.
  \<^item> \<open>Store_Types\<close> (\<^verbatim>\<open>store/store.go\<close>, the rows and the audit hash), \<open>Memory_Store\<close>
    (\<^verbatim>\<open>store/memory\<close>, every operation), \<open>Inventory\<close> (node names and their history: the invariant, renames, and
    where the two stores agree on former names).
  \<^item> \<open>Authz\<close> (levels, identities, the certificate middleware), \<open>Audit_Log\<close> (recording, the hash chain:
    tampering needs a collision), \<open>Approval_Store\<close> and \<open>Approval_Service\<close> (an approval is used at most once, by the
    right caller, for the right call).
  \<^item> \<open>Mcp_Auth\<close> (agent keys: minting, resolving, revoking), \<open>Once_Table\<close> (the locale of tables whose rows are
    taken once, with the codes and requests of the store as instances), \<open>OAuth_Login\<close> (registration,
    authorization, consent and token), \<open>Lru_Cache\<close> (the locale of bounded caches and its refinement by map
    and list), \<open>Rate_Limit\<close>.
  \<^item> \<open>Operator_Crl\<close> (serials, verification of CRLs, the rule against rollback; the locale \<open>crl_store\<close> with
    both stores as instances), \<open>Ocsp_Client\<close> (the answer cache), \<open>Pg_Trust\<close> (the Postgres tables of
    operator CAs, CRLs, the denylist and first run, with the constraints of the schema as an invariant),
    \<open>Revocation_Engine\<close> (the decisions, reloading and polling; the locale \<open>deny_store\<close> with both stores as
    instances), \<open>Trust_Store\<close> (generations of trusted CAs and the peer authorizer).
  \<^item> \<open>Cert_Check\<close> (what an upload must be: operator CAs, operator certificates, CSRs, full names, URLs, and where trust is
    resolved from; full names are decoded as UTF-8 by an exact inverse of the encoding), \<open>Bootstrap_Token\<close> (the setup token and how it is
    typed back), \<open>Bootstrap_Service\<close> (first run: tokens, the latch, sessions and failure limits), \<open>Bootstrap_Register\<close> (registering the
    operator CA, the first admin and the offline reset). In the bootstrap theories every access to the shared database is a named
    site where other processes may act and the access may fail.
  \<^item> \<open>Crl_Refresh\<close> (\<^verbatim>\<open>operatorca/fetch.go\<close> and \<^verbatim>\<open>refresh.go\<close>: a fetch with its limits, one refresh of a target, and the
    schedule. A failed refresh keeps every revocation, a round reschedules every target, the backoff has a closed form, and the replica's
    guarantees hold with the refresher at work; the locale \<open>refresh_contract\<close> with both stores as instances).
  \<^item> \<open>Credential_Store\<close> (\<^verbatim>\<open>store/operatorcredentials.go\<close> and the Postgres tables of credentials and their requests, with their
    invariant), \<open>Observed_Recorder\<close> (\<^verbatim>\<open>operatorca/observed.go\<close>: certificates seen in use are listed).
  \<^item> \<open>Fleet_Base\<close> (what the RPC handlers share), \<open>Credential_Rpcs\<close> (\<^verbatim>\<open>fleet/credreqs.go\<close> and \<^verbatim>\<open>operators.go\<close>: filing,
    cancelling, recording and revoking operator credentials), \<open>Operator_CA_Rpcs\<close> (\<^verbatim>\<open>fleet/operatorca_rpcs.go\<close>: registering, retiring and
    configuring operator CAs). The handlers run over the database, the trust store and the engine of one replica; other replicas act
    before each access to the database and each access may fail.
  \<^item> This theory: the resolver of agent keys, the trust store and the engine together.

  \<^bold>\<open>Abstract specifications.\<close> The LRU cache refines one bounded recency list. The store keeps the
  inventory's history a function of its current names. A replica that has seen the store's epoch enforces
  exactly the store's denylist. The trusted set is a function of the stored rows. The in-memory store
  and the Postgres store agree on CRLs, and on former names under stated conditions.

  \<^bold>\<open>What the lemmas found.\<close> The in-memory lookup of a former name misses a node when a later holder was
  removed (\<open>former_name_hidden_by_removal\<close>). The version that selects the audit hash formula is not bound
  across versions (\<open>HashEvent_version_confusion\<close>). Dropping cached OCSP answers does not reach a lookup
  under way (\<open>ClearAnchor_race\<close>). A denylist reload that is overtaken undoes a newer one
  (\<open>late_reload_loses_denial\<close>). A cached verification outlives its chain (\<open>cached_chain_not_rechecked\<close>).
  Two first admins submitted at once both stay off the denylist (\<open>first_admin_race\<close>). A stale retirement retires the active
  operator CA (\<open>stale_retirement_retires_active_ca\<close>). A sighting whose write fails before it is noted is held back for an hour
  (\<open>failed_sighting_not_retried\<close>).

  \<^bold>\<open>Not modelled.\<close> Of \<^verbatim>\<open>internal/fleet\<close> the handlers on nodes, certificates, profiles, enrollment, adoption, keys and approvals: they
  mostly forward to the node's own RPCs. The tool table of \<^verbatim>\<open>internal/mcpserver\<close>, the node client, the OCSP wire format and the
  remaining tables of the Postgres store. Generated code, configuration files, the web interface, logging and \<^verbatim>\<open>main\<close> are left out.
\<close>

section \<open>The parts together\<close>

text \<open>
  \<^verbatim>\<open>cmd/manager/main.go\<close> gives the resolver of agent keys the pool of the trust store and the
  revocation engine.
\<close>

definition coded :: "refusal \<Rightarrow> coded_error" where
  "coded e = (Some (rf_Code e), rf_Cause e)"

definition engine_checker :: "ocsp_io \<Rightarrow> Revocations \<Rightarrow> Revocations \<Rightarrow> mcp_checker" where
  "engine_checker io rd r = CheckMCPCert (\<lambda>sha cert. map_option coded (fst (rv_CheckMCPCert io sha cert rd r)))"

definition manager_resolver :: "peer_lib \<Rightarrow> (bytes \<Rightarrow> string + string) \<Rightarrow> ocsp_io \<Rightarrow> TrustStore \<Rightarrow> Revocations \<Rightarrow> Revocations \<Rightarrow> resolver" where
  "manager_resolver lib asn1 io t rd r =
     \<lparr>res_parse = pl_parse lib, res_verify = (\<lambda>cert now. pl_verify lib (Roots t) [] now cert), res_asn1 = asn1,
      res_checker = engine_checker io rd r\<rparr>"

lemma resolver_checks:
  assumes "Resolve en quote (manager_resolver lib asn1 io t rd r) now c bearer s = (Inr i, s')"
  obtains key cert chs where "McpKeyByHash s (HashKey (sha256 en) bearer) = Some key" "pl_parse lib (key_OperatorCertDER key) = Inr cert"
    "pl_verify lib (Roots t) [] now cert = Inr chs" "fst (checkMCP io (IssuerSHA256 i) (cert_SerialNumber cert) (Some cert) rd r) = None"
    "IssuerSHA256 i = Fingerprint (sha256 en) (last (hd chs))"
proof -
  obtain key where key: "McpKeyByHash s (HashKey (sha256 en) bearer) = Some key"
    and val: "validate (sha256 en) (manager_resolver lib asn1 io t rd r) key now = Inr i"
    using assms by (rule Resolve_Inr)
  from val show thesis
    by (rule validate_Inr) (use that key in \<open>auto simp: manager_resolver_def engine_checker_def rv_CheckMCPCert_def Fingerprint_def\<close>)
qed

text \<open>C3: an agent key works only while everything about its certificate is known to be good: it chains to an
  operator CA trusted now, that CA has a CRL source, this replica's CRL is within nextUpdate and its last poll within
  five minutes, and neither the denylist nor the CRL lists the certificate.\<close>

theorem agent_key_needs_fresh_data:
  assumes "Resolve en quote (manager_resolver lib asn1 io t rd r) now c bearer s = (Inr i, s')"
  shows "\<exists>key cert chs st v. McpKeyByHash s (HashKey (sha256 en) bearer) = Some key \<and> pl_parse lib (key_OperatorCertDER key) = Inr cert \<and>
    pl_verify lib (Roots t) [] now cert = Inr chs \<and> IssuerSHA256 i = Fingerprint (sha256 en) (last (hd chs)) \<and>
    mget (rv_anchors rd) (IssuerSHA256 i) = Some st \<and> HasCRL (st_anchor st) \<and> st_crl st = Some v \<and> Fresh v (io_now io) \<and>
    io_now io - rv_polledAt rd \<le> 5 * Minute \<and> \<not> crl_IsRevoked v (SerialKey (cert_SerialNumber cert)) \<and>
    SerialKey (cert_SerialNumber cert) \<notin> set (denied (rv_denylist rd) (IssuerSHA256 i))"
  using assms
proof (rule resolver_checks)
  fix key cert chs
  assume k: "McpKeyByHash s (HashKey (sha256 en) bearer) = Some key" "pl_parse lib (key_OperatorCertDER key) = Inr cert"
    "pl_verify lib (Roots t) [] now cert = Inr chs" "fst (checkMCP io (IssuerSHA256 i) (cert_SerialNumber cert) (Some cert) rd r) = None"
    "IssuerSHA256 i = Fingerprint (sha256 en) (last (hd chs))"
  from checkMCP_iff [of io "IssuerSHA256 i" "cert_SerialNumber cert" "Some cert" rd r] k(4)
  obtain st v where "mget (rv_anchors rd) (IssuerSHA256 i) = Some st" "SerialKey (cert_SerialNumber cert) \<notin> set (denied (rv_denylist rd) (IssuerSHA256 i))"
    "HasCRL (st_anchor st)" "st_crl st = Some v" "\<not> crl_IsRevoked v (SerialKey (cert_SerialNumber cert))" "Fresh v (io_now io)"
    "io_now io - rv_polledAt rd \<le> 5 * Minute"
    by auto
  with k show ?thesis by blast
qed



subsection \<open>Examples\<close>

definition example_leaf :: certificate where
  "example_leaf = example_cert\<lparr>cert_SerialNumber := 77, cert_NotAfter := 900\<rparr>"

definition example_agent_lib :: peer_lib where
  "example_agent_lib = \<lparr>pl_parse = (\<lambda>_. Inr example_leaf), pl_verify = (\<lambda>_ _ _ leaf. Inr [[leaf, example_ca]]),
     pl_sha256 = sha256 constant_entropy, pl_subject = (\<lambda>_. [])\<rparr>"

definition engine_for :: "string \<Rightarrow> Revocations" where
  "engine_for sha = example_engine\<lparr>rv_anchors := [(sha, example_state)]\<rparr>"

lemma engine_for_simps:
  "mget (rv_anchors (engine_for sha)) sha = Some example_state" "denied (rv_denylist (engine_for sha)) x = []" "rv_polledAt (engine_for sha) = 190"
  using example_engine_simps by (simp_all add: engine_for_def)

lemma engine_for_allows:
  "fst (checkMCP (example_io 200) sha 77 leaf (engine_for sha) (engine_for sha)) = None"
  "fst (checkWeb (example_io 200) sha 77 leaf (engine_for sha) (engine_for sha)) = None"
  using checkMCP_iff [of "example_io 200" sha 77 leaf "engine_for sha" "engine_for sha"]
    checkWeb_iff [of "example_io 200" sha 77 leaf "engine_for sha" "engine_for sha"] example_not_listed
  by (simp_all add: engine_for_simps example_engine_simps Fresh_def Minute_def Second_def) (simp_all add: example_io_def)

lemma example_agent_key:
  "\<exists>i s'. Resolve constant_entropy id (manager_resolver example_agent_lib (\<lambda>_. Inr ''admin'') (example_io 200) example_store
     (engine_for (hex_encode (replicate 32 (CHR ''h'')))) (engine_for (hex_encode (replicate 32 (CHR ''h''))))) 200 Background example_bearer
     (snd example_minted) = (Inr i, s')"
proof -
  let ?sha = "hex_encode (replicate 32 (CHR ''h''))"
  let ?r = "manager_resolver example_agent_lib (\<lambda>_. Inr ''admin'') (example_io 200) example_store (engine_for ?sha) (engine_for ?sha)"
  obtain key s1 where m: "example_minted = (Inr (example_bearer, key), s1)" using example_minted_Inr by blast
  note k = Mint_Inr [OF m [unfolded example_minted_def]]
  have found: "McpKeyByHash s1 (HashKey (sha256 constant_entropy) example_bearer) = Some key"
    using McpKeyByHash_AddMcpKey [of "New (\<lambda>_. []) []" key] k(3,9) by (simp add: McpKey_def McpKeyByHash_def New_def NewWithCatalog_def)
  have "IdentityFromCertificate (\<lambda>_. Inr ''admin'') example_leaf = Inr (zero_identity\<lparr>CN := ''op'', Serial := formatSerial 77, Level := LevelAdmin\<rparr>)"
    by (simp add: IdentityFromCertificate_def LevelFromCertificate_def example_leaf_def example_cert_def LevelFromToken_def)
  then have "\<exists>i. validate (sha256 constant_entropy) ?r key 200 = Inr i"
    using k(6,7) k(5) engine_for_allows(1) [of ?sha "Some example_leaf"]
    by (simp add: validate_def manager_resolver_def engine_checker_def example_agent_lib_def rv_CheckMCPCert_def IsZero_def example_leaf_def
        example_cert_def constant_entropy_def apply_ceiling_def LevelFromToken_def)
  then obtain i where "validate (sha256 constant_entropy) ?r key 200 = Inr i" by blast
  from Resolve_accepts [OF WellFormed_example found this, of id Background] show ?thesis
    unfolding m snd_conv by (rule exI)
qed

lemma agent_key_needs_fresh_data_witness:
  "\<exists>cert. pl_parse example_agent_lib ''der'' = Inr cert \<and>
     SerialKey (cert_SerialNumber cert) \<notin> set (denied (rv_denylist (engine_for (hex_encode (replicate 32 (CHR ''h''))))) ''x'')"
  using example_agent_key agent_key_needs_fresh_data [of constant_entropy id example_agent_lib "\<lambda>_. Inr ''admin''" "example_io 200" example_store
      "engine_for (hex_encode (replicate 32 (CHR ''h'')))" "engine_for (hex_encode (replicate 32 (CHR ''h'')))" 200 Background example_bearer "snd example_minted"]
  by (auto simp: engine_for_simps example_agent_lib_def)



end
